(* ===== verification/Devv_Prelude.thy ===== *)
theory Devv_Prelude
  imports Main "HOL-Library.Word" "HOL-Library.List_Lexorder"
begin

text \<open>
  Shared vocabulary of the development: the machine types of the C++ sources, the error values
  that stand for exceptions and for undefined behaviour, sequencing of fallible computations,
  bounds-checked and unchecked access to \<^verbatim>\<open>std::vector\<close>, and the generic lemmas on lists,
  sums and words that the components use.

  \<^item> \<^verbatim>\<open>unsigned char\<close>, \<^verbatim>\<open>uint32_t\<close>, \<^verbatim>\<open>uint64_t\<close> and \<^verbatim>\<open>size_t\<close> are words of 8, 32, 64 and 64
    bits; \<^verbatim>\<open>int64_t\<close> and \<^verbatim>\<open>long\<close> are 64-bit words read with \<open>sint\<close>, their arithmetic
    wraps around in two's complement.
  \<^item> a thrown exception is a value \<open>Inl e\<close> with \<open>is_std_exception e\<close>; reading past the end of
    a vector through iterators, which C++ leaves undefined, is \<open>Inl (Undefined what)\<close> and no
    \<^verbatim>\<open>catch\<close> clause of the model intercepts it.
\<close>

section \<open>Machine types\<close>

type_synonym byte = "8 word"
type_synonym bytes = "8 word list"
type_synonym uint32 = "32 word"
type_synonym uint64 = "64 word"
type_synonym int64 = "64 word"
type_synonym size_t = "64 word"

section \<open>Errors\<close>

text \<open>
  \<open>StdException\<close> is a plain \<^verbatim>\<open>std::exception\<close>. \<open>RuntimeError\<close>, \<open>RangeError\<close>, \<open>DevcashMessageError\<close> and \<open>DeserializationError\<close> carry the
  message given to the constructor of the exception; \<open>OutOfRange\<close> is the
  \<^verbatim>\<open>std::out_of_range\<close> of the checked accessors, \<open>LengthError\<close> the \<^verbatim>\<open>std::length_error\<close>
  of an impossible vector size, \<open>InvalidArgument\<close> the one of the numeric conversions.
  \<open>ThrownString\<close> is what \<^verbatim>\<open>CASH_THROW("...")\<close> throws: a string, which is not a
  \<^verbatim>\<open>std::exception\<close>. \<open>Aborted\<close> is a failed \<^verbatim>\<open>assert\<close>.
\<close>

datatype error =
    StdException
  | RuntimeError string
  | RangeError string
  | OutOfRange
  | LengthError
  | InvalidArgument
  | DevcashMessageError string
  | DeserializationError string
  | ThrownString string
  | Undefined string
  | Aborted string

fun is_std_exception :: "error \<Rightarrow> bool" where
  "is_std_exception (ThrownString s) = False"
| "is_std_exception (Undefined s) = False"
| "is_std_exception (Aborted s) = False"
| "is_std_exception e = True"

section \<open>Sequencing fallible computations\<close>

definition bindE :: "'e + 'a \<Rightarrow> ('a \<Rightarrow> 'e + 'b) \<Rightarrow> 'e + 'b" where
  "bindE m f = (case m of Inl e \<Rightarrow> Inl e | Inr x \<Rightarrow> f x)"

lemma bindE_simps [simp]:
  "bindE (Inl e) f = Inl e"
  "bindE (Inr x) f = f x"
  by (simp_all add: bindE_def)

lemma bindE_eq_Inr [simp]: "bindE m f = Inr y \<longleftrightarrow> (\<exists>x. m = Inr x \<and> f x = Inr y)"
  by (cases m) auto

lemma bindE_assoc: "bindE (bindE m f) g = bindE m (\<lambda>x. bindE (f x) g)"
  by (cases m) auto

lemma bindE_cong [fundef_cong]:
  "m = m' \<Longrightarrow> (\<And>x. m' = Inr x \<Longrightarrow> f x = f' x) \<Longrightarrow> bindE m f = bindE m' f'"
  by (cases m') auto

text \<open>A \<^verbatim>\<open>for\<close> loop over a list whose body may throw.\<close>

fun foldE :: "('a \<Rightarrow> 's \<Rightarrow> 'e + 's) \<Rightarrow> 'a list \<Rightarrow> 's \<Rightarrow> 'e + 's" where
  "foldE f [] s = Inr s"
| "foldE f (x # xs) s = bindE (f x s) (foldE f xs)"

lemma foldE_append: "foldE f (xs @ ys) s = bindE (foldE f xs s) (foldE f ys)"
  by (induction xs arbitrary: s) (auto simp: bindE_assoc intro: bindE_cong)

lemma foldE_Inr:
  "(\<And>x s. x \<in> set xs \<Longrightarrow> f x s = Inr (g x s)) \<Longrightarrow> foldE f xs s = Inr (fold g xs s)"
  by (induction xs arbitrary: s) auto

fun mapE :: "('a \<Rightarrow> 'e + 'b) \<Rightarrow> 'a list \<Rightarrow> 'e + 'b list" where
  "mapE f [] = Inr []"
| "mapE f (x # xs) = bindE (f x) (\<lambda>y. bindE (mapE f xs) (\<lambda>ys. Inr (y # ys)))"

lemma mapE_Inr: "(\<And>x. x \<in> set xs \<Longrightarrow> f x = Inr (g x)) \<Longrightarrow> mapE f xs = Inr (map g xs)"
  by (induction xs) auto

lemma mapE_map:
  "(\<And>x. x \<in> set xs \<Longrightarrow> F (f x) = Inr (g x)) \<Longrightarrow> mapE F (map f xs) = Inr (map g xs)"
  by (induction xs) auto

lemma mapE_append:
  "mapE f (xs @ ys) = bindE (mapE f xs) (\<lambda>us. bindE (mapE f ys) (\<lambda>vs. Inr (us @ vs)))"
  by (induction xs) (auto simp: bindE_assoc bindE_def split: sum.splits)

section \<open>Vectors\<close>

text \<open>\<^verbatim>\<open>v.at(i)\<close> checks the index; \<^verbatim>\<open>v[i]\<close> and the range constructor
  \<^verbatim>\<open>vector(v.begin()+i, v.begin()+j)\<close> do not, and reading beyond \<^verbatim>\<open>v.end()\<close> is undefined. The
  distance of two iterators is a signed 64-bit number, so no vector of bytes has \<open>2 ^ 63\<close>
  elements and no range ends there.\<close>

definition vec_size :: "'a list \<Rightarrow> size_t" where
  "vec_size xs = of_nat (length xs)"

definition vec_at :: "'a list \<Rightarrow> size_t \<Rightarrow> error + 'a" where
  "vec_at xs i = (if unat i < length xs then Inr (xs ! unat i) else Inl OutOfRange)"

definition vec_get :: "'a list \<Rightarrow> nat \<Rightarrow> error + 'a" where
  "vec_get xs i = (if i < length xs then Inr (xs ! i) else Inl (Undefined ''read past end''))"

definition vec_range :: "'a list \<Rightarrow> nat \<Rightarrow> nat \<Rightarrow> error + 'a list" where
  "vec_range xs i n =
     (if i + n \<le> length xs \<and> i + n < 2 ^ 63 then Inr (take n (drop i xs))
      else Inl (Undefined ''read past end''))"

definition vec_sub :: "'a list \<Rightarrow> size_t \<Rightarrow> size_t \<Rightarrow> error + 'a list" where
  "vec_sub xs i j =
     (if i \<le> j then vec_range xs (unat i) (unat j - unat i) else Inl (Undefined ''inverted range''))"

lemma vec_at_Inr [simp]: "unat i < length xs \<Longrightarrow> vec_at xs i = Inr (xs ! unat i)"
  by (simp add: vec_at_def)

lemma vec_range_Inr [simp]:
  "i + n \<le> length xs \<Longrightarrow> i + n < 2 ^ 63 \<Longrightarrow> vec_range xs i n = Inr (take n (drop i xs))"
  by (simp add: vec_range_def)

lemma vec_range_eq_Inr:
  "vec_range xs i n = Inr ys \<longleftrightarrow>
   i + n \<le> length xs \<and> i + n < 2 ^ 63 \<and> ys = take n (drop i xs)"
  by (auto simp: vec_range_def)

lemma vec_sub_append:
  assumes "length p = unat i" and "unat j = unat i + length xs" and "unat j < 2 ^ 63"
  shows "vec_sub (p @ xs @ r) i j = Inr xs"
  using assms by (simp add: vec_sub_def word_le_nat_alt)

lemma unat_vec_size: "length xs < 2 ^ 64 \<Longrightarrow> unat (vec_size xs) = length xs"
  by (simp add: vec_size_def unat_of_nat take_bit_nat_eq_self)

lemma unat_bound: "unat (w :: 'a::len word) < 2 ^ LENGTH('a)"
  by (rule unsigned_less)

lemma unat_of_nat_8 [simp]: "n < 256 \<Longrightarrow> unat (of_nat n :: 8 word) = n"
  by (simp add: unat_of_nat take_bit_nat_eq_self)

lemma unat_of_nat_64 [simp]: "n < 2 ^ 64 \<Longrightarrow> unat (of_nat n :: 64 word) = n"
  by (simp add: unat_of_nat take_bit_nat_eq_self)

lemma unat_of_nat_32 [simp]: "n < 2 ^ 32 \<Longrightarrow> unat (of_nat n :: 32 word) = n"
  by (simp add: unat_of_nat take_bit_nat_eq_self)

lemma unat_add_64: "unat (a :: 64 word) + unat b < 2 ^ 64 \<Longrightarrow> unat (a + b) = unat a + unat b"
  by (simp add: unat_word_ariths)

lemma unat_add_of_nat_64:
  "unat (a :: 64 word) + n < 2 ^ 64 \<Longrightarrow> unat (a + of_nat n) = unat a + n"
  by (subst unat_add_64) auto

section \<open>Decimal output\<close>

text \<open>\<^verbatim>\<open>std::to_string\<close> on unsigned and signed integers.\<close>

fun nat_to_string :: "nat \<Rightarrow> string" where
  "nat_to_string n =
     (if n < 10 then [char_of (48 + n)] else nat_to_string (n div 10) @ [char_of (48 + n mod 10)])"

declare nat_to_string.simps [simp del]

definition to_string_u :: "'a::len word \<Rightarrow> string" where
  "to_string_u w = nat_to_string (unat w)"

definition to_string_s :: "'a::len word \<Rightarrow> string" where
  "to_string_s w = (if sint w < 0 then CHR ''-'' # nat_to_string (nat (- sint w))
                    else nat_to_string (nat (sint w)))"

end
