(* ===== verification/Ordered_Map.thy ===== *)
theory Ordered_Map
  imports Devv_Prelude
begin

text \<open>
  \<^verbatim>\<open>std::map\<close> as the sources use it. The containers of the repository are iterated in key order
  when they are serialised, so a map is modelled by the list of its entries in ascending key
  order. \<open>omap_insert\<close> is \<^verbatim>\<open>map::insert\<close> (an existing entry is kept), \<open>omap_set\<close> is
  \<^verbatim>\<open>map[k] = v\<close> (an existing entry is overwritten), \<open>omap_erase\<close> is \<^verbatim>\<open>map::erase\<close>; lookup is
  \<^const>\<open>map_of\<close>. \<open>omap_ok\<close> is the representation invariant.
\<close>

type_synonym ('k, 'v) omap = "('k \<times> 'v) list"

abbreviation omap_ok :: "('k::linorder, 'v) omap \<Rightarrow> bool" where
  "omap_ok m \<equiv> sorted_wrt (<) (map fst m)"

fun omap_insert :: "'k::linorder \<Rightarrow> 'v \<Rightarrow> ('k, 'v) omap \<Rightarrow> ('k, 'v) omap" where
  "omap_insert k v [] = [(k, v)]"
| "omap_insert k v ((k', v') # m) =
     (if k < k' then (k, v) # (k', v') # m
      else if k = k' then (k', v') # m
      else (k', v') # omap_insert k v m)"

fun omap_set :: "'k::linorder \<Rightarrow> 'v \<Rightarrow> ('k, 'v) omap \<Rightarrow> ('k, 'v) omap" where
  "omap_set k v [] = [(k, v)]"
| "omap_set k v ((k', v') # m) =
     (if k < k' then (k, v) # (k', v') # m
      else if k = k' then (k, v) # m
      else (k', v') # omap_set k v m)"

fun omap_erase :: "'k::linorder \<Rightarrow> ('k, 'v) omap \<Rightarrow> ('k, 'v) omap" where
  "omap_erase k [] = []"
| "omap_erase k ((k', v') # m) = (if k = k' then m else (k', v') # omap_erase k m)"

text \<open>\<^verbatim>\<open>map::at\<close> throws when the key is absent.\<close>

definition omap_at :: "('k, 'v) omap \<Rightarrow> 'k \<Rightarrow> error + 'v" where
  "omap_at m k = (case map_of m k of None \<Rightarrow> Inl OutOfRange | Some v \<Rightarrow> Inr v)"

section \<open>The entries as a function\<close>

lemma omap_ok_tl: "omap_ok (e # m) \<Longrightarrow> omap_ok m"
  by simp

lemma omap_ok_distinct: "omap_ok m \<Longrightarrow> distinct (map fst m)"
  by (induction m) auto

lemma map_of_less_None: "\<forall>x \<in> set (map fst m). k < x \<Longrightarrow> map_of m (k::'k::linorder) = None"
  by (induction m) auto

lemma keys_omap_insert [simp]: "fst ` set (omap_insert k v m) = insert k (fst ` set m)"
  by (induction k v m rule: omap_insert.induct) auto

lemma keys_omap_set [simp]: "fst ` set (omap_set k v m) = insert k (fst ` set m)"
  by (induction k v m rule: omap_set.induct) auto

lemma omap_ok_insert [simp]: "omap_ok m \<Longrightarrow> omap_ok (omap_insert k v m)"
proof (induction m)
  case Nil
  then show ?case by simp
next
  case (Cons e m)
  obtain k' v' where e: "e = (k', v')" by (cases e)
  with Cons show ?case by (auto simp flip: image_set)
qed

lemma omap_ok_set [simp]: "omap_ok m \<Longrightarrow> omap_ok (omap_set k v m)"
proof (induction m)
  case Nil
  then show ?case by simp
next
  case (Cons e m)
  obtain k' v' where e: "e = (k', v')" by (cases e)
  with Cons show ?case by (auto simp flip: image_set)
qed

lemma set_omap_erase: "set (omap_erase k m) \<subseteq> set m"
  by (induction k m rule: omap_erase.induct) auto

lemma omap_ok_erase [simp]: "omap_ok m \<Longrightarrow> omap_ok (omap_erase k m)"
  using set_omap_erase by (induction m) fastforce+

lemma map_of_omap_insert:
  "omap_ok m \<Longrightarrow>
   map_of (omap_insert k v m) = (case map_of m k of None \<Rightarrow> (map_of m)(k \<mapsto> v) | Some _ \<Rightarrow> map_of m)"
proof (induction m)
  case Nil
  then show ?case by simp
next
  case (Cons e m)
  obtain k' v' where e: "e = (k', v')" by (cases e)
  have "k < k' \<Longrightarrow> map_of m k = None"
    using Cons.prems e by (intro map_of_less_None) auto
  with Cons e show ?case by (auto split: option.splits simp: fun_upd_twist)
qed

lemma map_of_omap_set: "omap_ok m \<Longrightarrow> map_of (omap_set k v m) = (map_of m)(k \<mapsto> v)"
  by (induction m) (auto simp: fun_upd_twist)

lemma map_of_omap_erase: "omap_ok m \<Longrightarrow> map_of (omap_erase k m) = (map_of m)(k := None)"
proof (induction m)
  case Nil
  then show ?case by simp
next
  case (Cons e m)
  obtain k' v' where e: "e = (k', v')" by (cases e)
  have "map_of m k' = None"
    using Cons.prems e by (intro map_of_less_None) auto
  with Cons e show ?case by (auto simp: fun_upd_twist fun_eq_iff)
qed

section \<open>Canonical representation\<close>

text \<open>Two well-formed maps with the same entries are the same list: this is what makes the byte
  strings produced by iterating a map canonical.\<close>

lemma omap_eqI:
  assumes "omap_ok m" and "omap_ok m'" and "map_of m = map_of m'"
  shows "m = m'"
proof -
  have d: "distinct (map fst m)" "distinct (map fst m')"
    using assms omap_ok_distinct by blast+
  then have s: "set m = set m'"
    using assms(3) map_of_inject_set by blast
  have lt: "sorted_wrt (\<lambda>x y. fst x < fst y) m" "sorted_wrt (\<lambda>x y. fst x < fst y) m'"
    using assms(1,2) by (simp_all add: sorted_wrt_map)
  show ?thesis
  proof (rule map_sorted_distinct_set_unique [where f = fst])
    show "inj_on fst (set m \<union> set m')"
      using d(1) s by (simp add: distinct_map)
    show "sorted (map fst m)" "sorted (map fst m')"
      using assms(1,2) by (simp_all add: strict_sorted_iff)
  qed (use d s in auto)
qed

lemma omap_insert_last:
  "omap_ok (m @ [(k, v)]) \<Longrightarrow> omap_insert k v m = m @ [(k, v)]"
  by (induction m) (auto simp: sorted_wrt_append)

lemma omap_insert_absent: "map_of m k = None \<Longrightarrow> omap_insert k v m = omap_set k v m"
  by (induction m) (auto split: if_splits)

lemma omap_insert_present: "omap_ok m \<Longrightarrow> map_of m k = Some v' \<Longrightarrow> omap_insert k v m = m"
proof (induction m)
  case (Cons e m)
  obtain k' w where e: "e = (k', w)" by (cases e)
  have "k < k' \<Longrightarrow> map_of m k = None"
    using Cons.prems e by (intro map_of_less_None) auto
  with Cons e show ?case by (auto split: if_splits)
qed simp

text \<open>Inserting entries that arrive in ascending key order appends them: a container read back
  from its serialised form is rebuilt entry by entry.\<close>

lemma fold_omap_insert:
  "omap_ok (m @ es) \<Longrightarrow> fold (\<lambda>(k, v). omap_insert k v) es m = m @ es"
proof (induction es arbitrary: m)
  case Nil
  then show ?case by simp
next
  case (Cons e es)
  obtain k v where e: "e = (k, v)" by (cases e)
  have "omap_ok (m @ [(k, v)])"
    using Cons.prems e by (auto simp: sorted_wrt_append)
  then have "omap_insert k v m = m @ [(k, v)]" by (rule omap_insert_last)
  moreover have "omap_ok ((m @ [(k, v)]) @ es)"
    using Cons.prems e by simp
  ultimately show ?case using Cons.IH [of "m @ [(k, v)]"] e by simp
qed

lemma length_omap_set:
  "omap_ok m \<Longrightarrow> length (omap_set k v m) = (if map_of m k = None then Suc (length m) else length m)"
proof (induction m)
  case (Cons e m)
  obtain k' w where e: "e = (k', w)" by (cases e)
  have "k < k' \<Longrightarrow> map_of m k = None"
    using Cons.prems e by (intro map_of_less_None) auto
  with Cons e show ?case by (auto split: if_splits)
qed simp

lemma sum_list_omap_set:
  fixes f :: "'k::linorder \<Rightarrow> 'v \<Rightarrow> 'b::ab_group_add"
  assumes "omap_ok m"
  shows "(\<Sum>(k', v')\<leftarrow>omap_set k v m. f k' v') =
         (\<Sum>(k', v')\<leftarrow>m. f k' v') - (case map_of m k of None \<Rightarrow> 0 | Some w \<Rightarrow> f k w) + f k v"
  using assms
proof (induction m)
  case (Cons e m)
  obtain k' w where e: "e = (k', w)" by (cases e)
  have "k < k' \<Longrightarrow> map_of m k = None"
    using Cons.prems e by (intro map_of_less_None) auto
  with Cons e show ?case by (auto simp: algebra_simps split: option.splits)
qed simp

text \<open>Summing over all entries an amount that is non-zero for one key only looks the key up.\<close>

lemma sum_list_key:
  fixes f :: "'v \<Rightarrow> 'b::comm_monoid_add"
  assumes "omap_ok m"
  shows "(\<Sum>(k', v)\<leftarrow>m. if k' = k then f v else 0) = (case map_of m k of None \<Rightarrow> 0 | Some v \<Rightarrow> f v)"
  using assms
proof (induction m)
  case (Cons e m)
  obtain k' w where e: "e = (k', w)" by (cases e)
  have "map_of m k' = None"
    using Cons.prems e by (intro map_of_less_None) auto
  with Cons e show ?case by (auto split: option.splits)
qed simp

end
