(* ===== verification/Binary_Converters.thy ===== *)
theory Binary_Converters
  imports Devv_Prelude
begin

text \<open>
  \<^verbatim>\<open>common/binary_converters.h\<close>: little-endian conversion between machine integers and byte
  vectors, and the conversion between byte vectors and hexadecimal text. A conversion out of a
  vector uses the checked accessor \<^verbatim>\<open>at\<close>, so a vector that is too short is an \<open>OutOfRange\<close>
  error. The reference for the integers is \<open>le_value\<close>, the value of a byte string in base 256
  with the least significant byte first.
\<close>

unbundle bit_operations_syntax

section \<open>Integers\<close>

definition BinToUint32 :: "bytes \<Rightarrow> size_t \<Rightarrow> error + uint32" where
  "BinToUint32 bytes start =
     foldE (\<lambda>i dest. bindE (vec_at bytes (start + of_nat i))
             (\<lambda>b. Inr (dest OR push_bit (i * 8) (ucast b)))) [0, 1, 2, 3] 0"

definition Uint32ToBin :: "uint32 \<Rightarrow> bytes \<Rightarrow> bytes" where
  "Uint32ToBin source dest =
     fold (\<lambda>i dest. dest @ [ucast (drop_bit (i * 8) source AND 0xFF)]) [0, 1, 2, 3] dest"

definition BinToInt32 :: "bytes \<Rightarrow> size_t \<Rightarrow> error + uint32" where
  "BinToInt32 bytes start =
     foldE (\<lambda>i dest. bindE (vec_at bytes (start + of_nat i))
             (\<lambda>b. Inr (dest OR push_bit (i * 8) (ucast b)))) [0, 1, 2, 3] 0"

definition Int32ToBin :: "uint32 \<Rightarrow> bytes \<Rightarrow> bytes" where
  "Int32ToBin source dest =
     fold (\<lambda>i dest. dest @ [ucast (signed_drop_bit (i * 8) source AND 0xFF)]) [0, 1, 2, 3] dest"

definition BinToUint64 :: "bytes \<Rightarrow> size_t \<Rightarrow> error + uint64" where
  "BinToUint64 bytes start =
     bindE (BinToUint32 bytes start) (\<lambda>lsb.
     bindE (BinToUint32 bytes (start + 4)) (\<lambda>msb.
     Inr (push_bit 32 (ucast msb) OR ucast lsb)))"

definition Uint64ToBin :: "uint64 \<Rightarrow> bytes \<Rightarrow> bytes" where
  "Uint64ToBin source dest =
     (let lsb = ucast (source AND 0xffffffff); msb = ucast (drop_bit 32 source)
      in Uint32ToBin msb (Uint32ToBin lsb dest))"

definition BinToInt64 :: "bytes \<Rightarrow> size_t \<Rightarrow> error + int64" where
  "BinToInt64 bytes start =
     bindE (BinToUint32 bytes start) (\<lambda>lsb.
     bindE (BinToUint32 bytes (start + 4)) (\<lambda>msb.
     let d1 = push_bit 32 (ucast msb) in Inr (d1 OR ucast lsb)))"

definition Int64ToBin :: "int64 \<Rightarrow> bytes \<Rightarrow> bytes" where
  "Int64ToBin source dest =
     (let lsb = ucast (source AND 0xffffffff); msb = ucast (signed_drop_bit 32 source)
      in Uint32ToBin msb (Uint32ToBin lsb dest))"

section \<open>Text\<close>

definition Char2Int :: "char \<Rightarrow> int" where
  "Char2Int c =
     (let n = of_char c :: int in
      if 48 \<le> n \<and> n \<le> 57 then n - 48
      else if 65 \<le> n \<and> n \<le> 70 then n - 65 + 10
      else if 97 \<le> n \<and> n \<le> 102 then n - 97 + 10
      else - 1)"

definition Str2Bin :: "string \<Rightarrow> bytes" where
  "Str2Bin str = map of_char str"

definition Bin2Str :: "bytes \<Rightarrow> string" where
  "Bin2Str bin = map (\<lambda>b. char_of (unat b)) bin"

text \<open>The length is stored in a 32-bit \<^verbatim>\<open>int\<close> and halved with a division that truncates towards
  zero; a negative vector size converts to a \<^verbatim>\<open>size_t\<close> beyond every allocation.\<close>

definition hex_len :: "string \<Rightarrow> int" where
  "hex_len hex = sint (word_of_nat (length hex) :: 32 word)"

definition hex_pair :: "char \<Rightarrow> char \<Rightarrow> byte" where
  "hex_pair a b = word_of_int (uint (word_of_int (Char2Int a) :: byte) * 16 + Char2Int b)"

definition Hex2Bin :: "string \<Rightarrow> error + bytes" where
  "Hex2Bin hex =
     (let half = (if hex_len hex < 0 then - (- hex_len hex div 2) else hex_len hex div 2) in
      if half + 1 < 0 then Inl LengthError
      else if half + 1 = 0 then Inl (Undefined ''pop_back on an empty vector'')
      else Inr (map (\<lambda>i. hex_pair (hex ! (i * 2)) (hex ! (1 + i * 2))) [0..<nat half]))"

definition alpha :: string where
  "alpha = ''0123456789ABCDEF''"

definition hex_digits :: "byte \<Rightarrow> string" where
  "hex_digits c = [alpha ! unat (drop_bit 4 c AND 0xF), alpha ! unat (c AND 0xF)]"

definition ToHex :: "bytes \<Rightarrow> size_t \<Rightarrow> string" where
  "ToHex input num_bytes =
     concat (map (\<lambda>j. hex_digits (input ! j)) [0..<min (unat num_bytes) (length input)])"

text \<open>The default argument \<^verbatim>\<open>num_bytes = UINT32_MAX\<close>.\<close>

abbreviation ToHexAll :: "bytes \<Rightarrow> string" where
  "ToHexAll input \<equiv> ToHex input 0xFFFFFFFF"

section \<open>Little-endian values\<close>

fun le_value :: "bytes \<Rightarrow> nat" where
  "le_value [] = 0"
| "le_value (b # bs) = unat b + 256 * le_value bs"

definition le32 :: "uint32 \<Rightarrow> bytes" where
  "le32 w = map (\<lambda>i. ucast (drop_bit (i * 8) w)) [0, 1, 2, 3]"

definition le64 :: "uint64 \<Rightarrow> bytes" where
  "le64 w = map (\<lambda>i. ucast (drop_bit (i * 8) w)) [0, 1, 2, 3, 4, 5, 6, 7]"

lemma length_le [simp]: "length (le32 v) = 4" "length (le64 w) = 8"
  by (simp_all add: le32_def le64_def)

lemma and_masks:
  fixes w :: "'a::len word"
  shows "w AND 0xF = take_bit 4 w" "w AND 0xFF = take_bit 8 w" "w AND 0xFFFFFFFF = take_bit 32 w"
  by (simp_all add: take_bit_eq_mask mask_eq_exp_minus_1)

lemma Uint32ToBin_le: "Uint32ToBin w d = d @ le32 w"
  by (simp add: Uint32ToBin_def le32_def and_masks) (auto simp: bit_eq_iff bit_simps)

lemma Int32ToBin_le: "Int32ToBin w d = d @ le32 w"
  by (simp add: Int32ToBin_def le32_def and_masks) (auto simp: bit_eq_iff bit_simps)

lemma Uint64ToBin_le: "Uint64ToBin w d = d @ le64 w"
  by (simp add: Uint64ToBin_def le64_def le32_def Uint32ToBin_le and_masks Let_def)
    (auto simp: bit_eq_iff bit_simps)

lemma Int64ToBin_le: "Int64ToBin w d = d @ le64 w"
  by (simp add: Int64ToBin_def le64_def le32_def Uint32ToBin_le and_masks Let_def)
    (auto simp: bit_eq_iff bit_simps)

lemma BinToInt64_eq: "BinToInt64 = BinToUint64"
  by (simp add: fun_eq_iff BinToInt64_def BinToUint64_def Let_def)

lemma BinToInt32_eq: "BinToInt32 = BinToUint32"
  by (simp add: fun_eq_iff BinToInt32_def BinToUint32_def)

section \<open>Reading back\<close>

text \<open>Or-ing a shifted value onto one that lies below the shift adds it.\<close>

lemma or_push_bit:
  fixes a b :: "'a::len word"
  assumes "unat a < 2 ^ k" and "unat b * 2 ^ k < 2 ^ LENGTH('a)"
  shows "unat (a OR push_bit k b) = unat a + 2 ^ k * unat b"
proof -
  have "take_bit k (unat a) = unat a"
    using assms(1) by (simp add: take_bit_nat_eq_self_iff)
  then have "unat a AND push_bit k (unat b) = 0"
    by (metis (no_types, lifting) bit_and_iff bit_eqI bit_0_eq bot_apply bot_bool_def
        bit_push_bit_iff_nat bit_take_bit_iff not_le)
  then have "unat a OR push_bit k (unat b) = unat a + push_bit k (unat b)"
    by (simp add: disjunctive_add_eq_or)
  then show ?thesis
    using assms(2)
    by (simp add: unsigned_or_eq unsigned_push_bit_eq take_bit_nat_eq_self push_bit_nat_def
        mult.commute)
qed

lemma foldE_simps_4:
  "foldE f [i, j, k, l] s = bindE (f i s) (\<lambda>s. bindE (f j s) (\<lambda>s. bindE (f k s) (f l)))"
  by (simp add: bindE_def split: sum.splits)

lemma unat_byte_less: "unat (x :: byte) < 256"
  using unat_bound [of x] by simp

lemma of_nat_unat_word: "of_nat (unat w) = (w :: 'a::len word)"
  by simp

lemma le_value_bound: "le_value bs < 256 ^ length bs"
proof (induction bs)
  case (Cons b bs)
  have "unat b < 256" by (rule unat_byte_less)
  with Cons show ?case by simp
qed simp

lemma take_4_drop:
  "n + 4 \<le> length xs \<Longrightarrow> take 4 (drop n xs) = [xs ! n, xs ! (n + 1), xs ! (n + 2), xs ! (n + 3)]"
  by (rule nth_equalityI) (auto simp: nth_Cons' numeral_eq_Suc less_Suc_eq)

lemma BinToUint32_value:
  assumes "unat start + 4 \<le> length bs" and "length bs < 2 ^ 64"
  shows "BinToUint32 bs start = Inr (of_nat (le_value (take 4 (drop (unat start) bs))))"
proof -
  have at: "vec_at bs (start + of_nat i) = Inr (bs ! (unat start + i))" if "i < 4" for i
    using assms that by (simp add: vec_at_def unat_add_of_nat_64)
  have b: "unat x < 256" for x :: byte
    by (rule unat_byte_less)
  define b0 b1 b2 b3 where bs: "b0 = bs ! unat start" "b1 = bs ! (unat start + 1)"
    "b2 = bs ! (unat start + 2)" "b3 = bs ! (unat start + 3)"
  have u: "unat (ucast x :: uint32) = unat x" for x :: byte
    using order.strict_trans [OF b, of "2 ^ 32"]
    by (simp add: unsigned_ucast_eq take_bit_nat_eq_self_iff)
  let ?w = "((ucast b0 OR push_bit 8 (ucast b1)) OR push_bit 16 (ucast b2)) OR push_bit 24 (ucast b3) :: uint32"
  have "unat ?w = le_value [b0, b1, b2, b3]"
    using b [of b0] b [of b1] b [of b2] b [of b3] by (simp add: or_push_bit u)
  then have w: "?w = of_nat (le_value [b0, b1, b2, b3])"
    by (metis of_nat_unat_word)
  have "BinToUint32 bs start = Inr ?w"
    using at [of 0] at [of 1] at [of 2] at [of 3]
    by (simp add: BinToUint32_def foldE_simps_4 bs)
  then show ?thesis
    unfolding w using assms(1) by (simp add: take_4_drop bs)
qed

lemma BinToUint32_short:
  assumes "\<not> unat start + 4 \<le> length bs" and "length bs < 2 ^ 63"
  shows "BinToUint32 bs start = Inl OutOfRange"
proof -
  define n where "n = length bs - unat start"
  have n: "n < 4" using assms(1) by (simp add: n_def)
  have at: "vec_at bs (start + of_nat i) = Inr (bs ! (unat start + i))" if "i < n" for i
    using assms that n by (simp add: vec_at_def unat_add_of_nat_64 n_def)
  have out: "vec_at bs (start + of_nat n) = Inl OutOfRange"
  proof (cases "unat start \<le> length bs")
    case True
    then show ?thesis using assms(2) by (simp add: vec_at_def n_def unat_add_of_nat_64)
  next
    case False
    then show ?thesis by (simp add: vec_at_def n_def)
  qed
  from n consider "n = 0" | "n = 1" | "n = 2" | "n = 3" by linarith
  then show ?thesis
    using out at [of 0] at [of 1] at [of 2]
    by cases (simp_all add: BinToUint32_def foldE_simps_4)
qed

lemma le_value_append: "le_value (xs @ ys) = le_value xs + 256 ^ length xs * le_value ys"
  by (induction xs) (simp_all add: algebra_simps)

text \<open>\<open>BinToUint64\<close> on every input: the value of the eight bytes, or the error of the first
  accessor out of range.\<close>

lemma BinToUint64_value:
  assumes "length bs < 2 ^ 63"
  shows "BinToUint64 bs start =
    (if unat start + 8 \<le> length bs then Inr (of_nat (le_value (take 8 (drop (unat start) bs))))
     else Inl OutOfRange)"
proof (cases "unat start + 4 \<le> length bs")
  case True
  then have s4: "unat (start + 4) = unat start + 4"
    using assms unat_add_of_nat_64 [of start 4] by simp
  let ?lo = "take 4 (drop (unat start) bs)" and ?hi = "take 4 (drop (unat start + 4) bs)"
  have lo: "BinToUint32 bs start = Inr (of_nat (le_value ?lo))"
    using True assms by (intro BinToUint32_value) auto
  show ?thesis
  proof (cases "unat start + 8 \<le> length bs")
    case len: True
    have hi: "BinToUint32 bs (start + 4) = Inr (of_nat (le_value ?hi))"
      using len assms s4 BinToUint32_value [of "start + 4" bs] by simp
    have b: "le_value ?lo < 2 ^ 32" "le_value ?hi < 2 ^ 32"
      using le_value_bound [of ?lo] le_value_bound [of ?hi] len by simp_all
    define l h where lh: "l = (of_nat (le_value ?lo) :: uint32)" "h = (of_nat (le_value ?hi) :: uint32)"
    have u: "unat l = le_value ?lo" "unat h = le_value ?hi"
      using b by (simp_all add: lh)
    have uc: "unat (ucast w :: uint64) = unat w" for w :: uint32
      using order.strict_trans [OF unat_bound [of w], of "2 ^ 64"]
      by (simp add: unsigned_ucast_eq take_bit_nat_eq_self_iff)
    have "unat (ucast l OR push_bit 32 (ucast h) :: uint64) = le_value ?lo + 2 ^ 32 * le_value ?hi"
      using b u by (simp add: or_push_bit uc)
    also have "\<dots> = le_value (take 8 (drop (unat start) bs))"
      using take_add [of 4 4 "drop (unat start) bs"] len
      by (simp add: le_value_append add.commute)
    finally have "ucast l OR push_bit 32 (ucast h) = (of_nat (le_value (take 8 (drop (unat start) bs))) :: uint64)"
      by (metis of_nat_unat_word)
    then show ?thesis using len lo hi
      by (simp add: BinToUint64_def lh or.commute)
  next
    case False
    then have "BinToUint32 bs (start + 4) = Inl OutOfRange"
      using assms s4 by (intro BinToUint32_short) auto
    with False lo show ?thesis by (simp add: BinToUint64_def)
  qed
next
  case False
  with BinToUint32_short [OF False assms] show ?thesis by (simp add: BinToUint64_def)
qed

lemma le_value_digits:
  "le_value (map (\<lambda>i. of_nat (n div 256 ^ i)) [0..<k]) = n mod 256 ^ k"
proof (induction k arbitrary: n)
  case (Suc k)
  have "map (\<lambda>i. of_nat (n div 256 ^ i)) [0..<Suc k] =
        (of_nat n :: byte) # map (\<lambda>i. of_nat (n div 256 div 256 ^ i)) [0..<k]"
    by (simp add: map_upt_Suc div_mult2_eq del: upt_Suc)
  then show ?case
    by (simp add: Suc unat_of_nat take_bit_nat_def mod_mult2_eq)
qed simp

lemma le_digit: "ucast (drop_bit (i * 8) w) = (of_nat (unat w div 256 ^ i) :: byte)"
proof -
  have "unat (drop_bit (i * 8) w) = unat w div 256 ^ i"
    by (simp add: unat_drop_bit_eq drop_bit_nat_def mult.commute [of i] power_mult)
  then show ?thesis
    by (metis of_nat_unat)
qed

lemma le32_digits: "le32 w = map (\<lambda>i. of_nat (unat w div 256 ^ i)) [0..<4]"
  unfolding le32_def le_digit by (simp add: upt_rec)

lemma le64_digits: "le64 w = map (\<lambda>i. of_nat (unat w div 256 ^ i)) [0..<8]"
  unfolding le64_def le_digit by (simp add: upt_rec)

lemma le_value_le32 [simp]: "le_value (le32 w) = unat w"
  using unat_bound [of w] by (simp add: le32_digits le_value_digits)

lemma le_value_le64 [simp]: "le_value (le64 w) = unat w"
  using unat_bound [of w] by (simp add: le64_digits le_value_digits)

lemma le_value_inj: "length xs = length ys \<Longrightarrow> le_value xs = le_value ys \<Longrightarrow> xs = ys"
proof (induction xs ys rule: list_induct2)
  case (Cons x xs y ys)
  have "unat x = (unat x + 256 * le_value xs) mod 256" "unat y = (unat y + 256 * le_value ys) mod 256"
    using unat_byte_less [of x] unat_byte_less [of y] by simp_all
  with Cons.prems have "unat x = unat y" by simp
  with Cons show ?case by (simp add: word_unat_eq_iff)
qed simp

lemma le64_of_value: "length bs = 8 \<Longrightarrow> le64 (of_nat (le_value bs)) = bs"
  using le_value_bound [of bs] by (intro le_value_inj) simp_all

lemma le64_inject [simp]: "le64 v = le64 w \<longleftrightarrow> v = w"
  by (metis le_value_le64 word_unat_eq_iff)

lemma BinToUint64_le64:
  assumes "length bs < 2 ^ 63" and "drop (unat start) bs = le64 w @ r"
  shows "BinToUint64 bs start = Inr w"
proof -
  have "length (drop (unat start) bs) \<ge> 8" using assms(2) by simp
  then have "unat start + 8 \<le> length bs" by simp
  with assms show ?thesis by (simp add: BinToUint64_value)
qed

lemma BinToUint32_le32:
  assumes "length bs < 2 ^ 64" and "drop (unat start) bs = le32 w @ r"
  shows "BinToUint32 bs start = Inr w"
proof -
  have "length (drop (unat start) bs) \<ge> 4" using assms(2) by simp
  then have "unat start + 4 \<le> length bs" by simp
  with assms show ?thesis by (simp add: BinToUint32_value)
qed

section \<open>Hexadecimal text\<close>

lemma Char2Int_alpha: "n < 16 \<Longrightarrow> Char2Int (alpha ! n) = int n"
  by (simp add: less_Suc_eq numeral_eq_Suc) (elim disjE; simp add: alpha_def Char2Int_def)

lemma nibbles: "unat (drop_bit 4 b AND 0xF) = unat b div 16" "unat (b AND 0xF) = unat b mod 16"
  for b :: byte
proof -
  have "unat b div 16 < 16" using unat_byte_less [of b] by simp
  then show "unat (drop_bit 4 b AND 0xF) = unat b div 16"
    by (simp add: and_masks unsigned_take_bit_eq unat_drop_bit_eq drop_bit_nat_def take_bit_nat_def)
  show "unat (b AND 0xF) = unat b mod 16"
    by (simp add: and_masks unsigned_take_bit_eq take_bit_nat_def)
qed

lemma hex_pair_digits: "hex_pair (hex_digits b ! 0) (hex_digits b ! 1) = b"
proof -
  have hi: "unat b div 16 < 16" and lo: "unat b mod 16 < 16" using unat_byte_less [of b] by simp_all
  from hi have u: "uint (word_of_int (int (unat b div 16)) :: byte) = int (unat b div 16)"
    by (simp add: unsigned_of_nat take_bit_nat_eq_self)
  have "Char2Int (hex_digits b ! 0) = int (unat b div 16)"
    by (simp only: hex_digits_def nth_Cons_0 nibbles(1) Char2Int_alpha [OF hi])
  moreover have "Char2Int (hex_digits b ! 1) = int (unat b mod 16)"
    by (simp only: hex_digits_def nth_Cons_0 nth_Cons_Suc One_nat_def nibbles(2)
        Char2Int_alpha [OF lo])
  ultimately have "hex_pair (hex_digits b ! 0) (hex_digits b ! 1) =
             word_of_int (int (unat b div 16) * 16 + int (unat b mod 16))"
    by (simp only: hex_pair_def u)
  also have "\<dots> = word_of_int (int (unat b))"
    by (metis div_mult_mod_eq of_nat_add of_nat_mult of_nat_numeral)
  finally show ?thesis by simp
qed

lemma length_hex_digits [simp]: "length (hex_digits b) = 2"
  by (simp add: hex_digits_def)

lemma concat_pairs_nth:
  "(\<And>x. length (f x) = 2) \<Longrightarrow> j < 2 \<Longrightarrow> i < length xs \<Longrightarrow>
   concat (map f xs) ! (i * 2 + j) = f (xs ! i) ! j"
proof (induction xs arbitrary: i)
  case (Cons x xs)
  then show ?case
  proof (cases i)
    case (Suc i')
    have "concat (map f (x # xs)) ! (i * 2 + j) = concat (map f xs) ! (i' * 2 + j)"
      using Cons.prems(1) [of x] Suc by (simp add: nth_append)
    with Cons Suc show ?thesis by simp
  qed (simp add: nth_append)
qed simp

lemma ToHexAll_eq: "length bs < 2 ^ 32 \<Longrightarrow> ToHexAll bs = concat (map hex_digits bs)"
proof -
  assume "length bs < 2 ^ 32"
  then have "min (unat (0xFFFFFFFF :: size_t)) (length bs) = length bs" by simp
  moreover have "map (\<lambda>j. hex_digits (bs ! j)) [0..<length bs] = map hex_digits bs"
    by (rule nth_equalityI) auto
  ultimately show ?thesis by (simp add: ToHex_def)
qed

lemma length_concat_pairs: "(\<And>x. length (f x) = 2) \<Longrightarrow> length (concat (map f xs)) = 2 * length xs"
  by (induction xs) auto

lemma hex_len_small: "length s < 2 ^ 31 \<Longrightarrow> hex_len s = int (length s)"
  by (simp add: hex_len_def signed_of_nat signed_take_bit_int_eq_self)

text \<open>Hexadecimal output is read back by \<open>Hex2Bin\<close>, for vectors whose text length fits an
  \<^verbatim>\<open>int\<close>.\<close>

lemma Hex2Bin_ToHex:
  assumes "2 * length bs < 2 ^ 31"
  shows "Hex2Bin (ToHexAll bs) = Inr bs"
proof -
  let ?s = "concat (map hex_digits bs)"
  have s: "ToHexAll bs = ?s" using assms by (intro ToHexAll_eq) simp
  have l: "length ?s = 2 * length bs" by (rule length_concat_pairs) simp
  then have hl: "hex_len ?s = int (2 * length bs)" using assms by (subst hex_len_small) auto
  have p: "hex_pair (?s ! (i * 2)) (?s ! Suc (i * 2)) = bs ! i" if "i < length bs" for i
    using that concat_pairs_nth [of hex_digits 0 i bs] concat_pairs_nth [of hex_digits 1 i bs]
    by (simp add: hex_pair_digits [simplified])
  have "map (\<lambda>i. hex_pair (?s ! (i * 2)) (?s ! Suc (i * 2))) [0..<length bs] = bs"
    by (rule nth_equalityI) (use p in auto)
  then show ?thesis
    unfolding s Hex2Bin_def hl by simp
qed

lemma Bin2Str_Str2Bin [simp]: "Bin2Str (Str2Bin s) = s"
proof -
  have "char_of (unat (of_char c :: byte)) = c" for c
  proof -
    have "unat (of_nat (of_char c) :: byte) = of_char c"
      by (simp add: unat_of_nat take_bit_nat_def del: of_nat_of_char)
    then show ?thesis by (simp add: of_nat_of_char)
  qed
  then show ?thesis by (simp add: Bin2Str_def Str2Bin_def comp_def)
qed

lemma Str2Bin_Bin2Str [simp]: "Str2Bin (Bin2Str bs) = bs"
proof -
  have "of_char (char_of (unat b)) = b" for b :: byte
  proof -
    have "of_char (char_of (unat b)) = (of_nat (of_char (char_of (unat b))) :: byte)"
      by (rule of_nat_of_char [symmetric])
    then show ?thesis using unat_byte_less [of b] by simp
  qed
  then show ?thesis by (simp add: Bin2Str_def Str2Bin_def comp_def)
qed

section \<open>Properties\<close>

text \<open>Writing a 64-bit or 32-bit integer, signed or unsigned, behind any bytes and reading it at the
  position where it was written gives the integer back, whatever follows.\<close>

theorem integers_round_trip:
  assumes "length dest + length rest < 2 ^ 62"
  shows "BinToUint64 (Uint64ToBin w dest @ rest) (vec_size dest) = Inr w \<and>
    BinToInt64 (Int64ToBin w dest @ rest) (vec_size dest) = Inr w \<and>
    BinToUint32 (Uint32ToBin v dest @ rest) (vec_size dest) = Inr v \<and>
    BinToInt32 (Int32ToBin v dest @ rest) (vec_size dest) = Inr v"
proof -
  have s: "unat (vec_size dest) = length dest" using assms by (intro unat_vec_size) simp
  have "BinToUint64 ((dest @ le64 w) @ rest) (vec_size dest) = Inr w"
    by (rule BinToUint64_le64 [of _ _ w rest]) (use assms s in auto)
  moreover have "BinToUint32 ((dest @ le32 v) @ rest) (vec_size dest) = Inr v"
    by (rule BinToUint32_le32 [of _ _ v rest]) (use assms s in auto)
  ultimately show ?thesis
    by (simp add: Uint64ToBin_le Int64ToBin_le BinToInt64_eq Uint32ToBin_le Int32ToBin_le BinToInt32_eq)
qed

theorem integers_round_trip_witness:
  "length [7, 8 :: byte] + length [9 :: byte] < 2 ^ 62 \<and>
   BinToInt64 (Int64ToBin (- 5) [7, 8] @ [9]) (vec_size [7, 8 :: byte]) = Inr (- 5)"
  using integers_round_trip [of "[7, 8]" "[9]" "- 5"] by simp

text \<open>Reading a 64-bit integer returns the value of eight bytes in base 256, least significant byte
  first, and throws \<^verbatim>\<open>std::out_of_range\<close> exactly when fewer than eight bytes are left.\<close>

theorem BinToUint64_total:
  assumes "length bs < 2 ^ 63"
  shows "BinToUint64 bs start =
    (if unat start + 8 \<le> length bs then Inr (of_nat (le_value (take 8 (drop (unat start) bs))))
     else Inl OutOfRange)"
  using assms by (rule BinToUint64_value)

theorem BinToUint64_total_witness:
  "length [1, 1, 1, 1, 1, 1, 1, 1, 1 :: byte] < 2 ^ 63 \<and>
   BinToUint64 [1, 1, 1, 1, 1, 1, 1, 1, 1] 2 = Inl OutOfRange \<and>
   BinToUint64 [1, 1, 1, 1, 1, 1, 1, 1, 1] 1 = Inr 0x0101010101010101"
  using BinToUint64_total [of "[1, 1, 1, 1, 1, 1, 1, 1, 1]" 2]
    BinToUint64_total [of "[1, 1, 1, 1, 1, 1, 1, 1, 1]" 1]
  by simp

text \<open>A byte vector printed in hexadecimal is read back unchanged by \<open>Hex2Bin\<close>, for vectors whose
  text fits the 32-bit length of the reader.\<close>

theorem hex_round_trip:
  assumes "2 * length bs < 2 ^ 31"
  shows "Hex2Bin (ToHexAll bs) = Inr bs"
  using assms by (rule Hex2Bin_ToHex)

theorem hex_round_trip_witness:
  "2 * length [0xAB, 0x07 :: byte] < 2 ^ 31 \<and> Hex2Bin (ToHexAll [0xAB, 0x07]) = Inr [0xAB, 0x07]"
  using hex_round_trip [of "[0xAB, 0x07]"] by simp

end
