(* ===== verification/Addresses.thy ===== *)
theory Addresses
  imports Binary_Converters
begin

text \<open>
  \<^verbatim>\<open>primitives/Address.h\<close> and \<^verbatim>\<open>primitives/Signature.h\<close>: public keys and signatures with a type
  prefix. The two classes are twins: the first byte is the number of bytes that follow, one
  length for wallets and one for nodes (33 and 49 for addresses, 73 and 105 for signatures), and
  the constructor accepts the bytes with and without the prefix. The locale \<open>tagged_blob\<close> is
  their common contract; both classes are instances. They differ on malformed input: an
  \<open>Address\<close> keeps the bytes as they are and only logs, a \<open>Signature\<close> throws.

  Both are totally ordered by their canonical bytes, which makes them keys of \<^verbatim>\<open>std::map\<close>.
\<close>

section \<open>Constants of \<^verbatim>\<open>common/devcash_constants.h\<close> and \<^verbatim>\<open>Signature.h\<close>\<close>

abbreviation (input) "kWALLET_ADDR_SIZE \<equiv> 33"
abbreviation (input) "kNODE_ADDR_SIZE \<equiv> 49"
abbreviation (input) "kWALLET_ADDR_BUF_SIZE \<equiv> 34"
abbreviation (input) "kNODE_ADDR_BUF_SIZE \<equiv> 50"
abbreviation (input) "kWALLET_SIG_SIZE \<equiv> 73"
abbreviation (input) "kNODE_SIG_SIZE \<equiv> 105"
abbreviation (input) "kWALLET_SIG_BUF_SIZE \<equiv> 74"
abbreviation (input) "kNODE_SIG_BUF_SIZE \<equiv> 106"

section \<open>Addresses\<close>

datatype Address = Address_of (addr_canonical: bytes)

definition Address_default :: Address where
  "Address_default = Address_of [0]"

definition Address_vec :: "bytes \<Rightarrow> Address" where
  "Address_vec vec =
     (if length vec = kWALLET_ADDR_SIZE then Address_of (kWALLET_ADDR_SIZE # vec)
      else if length vec = kWALLET_ADDR_BUF_SIZE \<and> vec ! 0 = kWALLET_ADDR_SIZE then Address_of vec
      else if length vec = kNODE_ADDR_SIZE then Address_of (kNODE_ADDR_SIZE # vec)
      else if length vec = kNODE_ADDR_BUF_SIZE \<and> vec ! 0 = kNODE_ADDR_SIZE then Address_of vec
      else Address_of vec)"

definition addr_getSizeByType :: "byte \<Rightarrow> size_t" where
  "addr_getSizeByType addr_type =
     (if addr_type = kWALLET_ADDR_SIZE then kWALLET_ADDR_SIZE
      else if addr_type = kNODE_ADDR_SIZE then kNODE_ADDR_SIZE
      else 0)"

definition addr_at :: "Address \<Rightarrow> size_t \<Rightarrow> error + byte" where
  "addr_at a loc = vec_at (addr_canonical a) loc"

definition addr_size :: "Address \<Rightarrow> nat" where
  "addr_size a = length (addr_canonical a)"

definition addr_isNull :: "Address \<Rightarrow> bool" where
  "addr_isNull a = (if addr_canonical a = [] then True else addr_canonical a ! 0 = 0)"

definition addr_getJSON :: "Address \<Rightarrow> string" where
  "addr_getJSON a = (if addr_isNull a then '''' else concat (map hex_digits (addr_canonical a)))"

definition getAddressType :: "Address \<Rightarrow> error + byte" where
  "getAddressType a =
     (if addr_isNull a then Inl (RuntimeError ''Address is not initialized!'')
      else vec_at (addr_canonical a) 0)"

definition isWalletAddress :: "Address \<Rightarrow> bool" where
  "isWalletAddress a = (if addr_isNull a then False else addr_canonical a ! 0 = kWALLET_ADDR_SIZE)"

definition isNodeAddress :: "Address \<Rightarrow> bool" where
  "isNodeAddress a = (if addr_isNull a then False else addr_canonical a ! 0 = kNODE_ADDR_SIZE)"

definition getAddressRaw :: "Address \<Rightarrow> error + bytes" where
  "getAddressRaw a =
     (if addr_isNull a then Inl (RuntimeError ''Address is not initialized!'')
      else Inr (drop 1 (addr_canonical a)))"

definition getHexString :: "Address \<Rightarrow> error + string" where
  "getHexString a =
     (if addr_isNull a then Inl (RuntimeError ''Address is not initialized!'')
      else Inr (drop 2 (addr_getJSON a)))"

instantiation Address :: linorder
begin

definition less_eq_Address :: "Address \<Rightarrow> Address \<Rightarrow> bool" where
  "less_eq_Address a b = (addr_canonical a \<le> addr_canonical b)"

definition less_Address :: "Address \<Rightarrow> Address \<Rightarrow> bool" where
  "less_Address a b = (addr_canonical a < addr_canonical b)"

instance
  by standard (auto simp: less_eq_Address_def less_Address_def Address.expand)

end

section \<open>Signatures\<close>

datatype Signature = Signature_of (sig_canonical: bytes)

definition Signature_default :: Signature where
  "Signature_default = Signature_of [0]"

definition Signature_vec :: "bytes \<Rightarrow> error + Signature" where
  "Signature_vec vec =
     (if length vec = kWALLET_SIG_SIZE then Inr (Signature_of (kWALLET_SIG_SIZE # vec))
      else if length vec = kWALLET_SIG_BUF_SIZE then
        (if vec ! 0 = kWALLET_SIG_SIZE then Inr (Signature_of vec)
         else Inl (RuntimeError ''Invalid Signature - size == 74 but byte(0) != 73''))
      else if length vec = kNODE_SIG_SIZE then Inr (Signature_of (kNODE_SIG_SIZE # vec))
      else if length vec = kNODE_SIG_BUF_SIZE then
        (if vec ! 0 = kNODE_SIG_SIZE then Inr (Signature_of vec)
         else Inl (RuntimeError ''Invalid Signature - size == 106 but byte(0) != 105''))
      else Inl (RuntimeError (''Invalid Signature size: '' @ nat_to_string (length vec))))"

definition sig_getSizeByType :: "byte \<Rightarrow> size_t" where
  "sig_getSizeByType sig_type =
     (if sig_type = kWALLET_SIG_SIZE then kWALLET_SIG_SIZE
      else if sig_type = kNODE_SIG_SIZE then kNODE_SIG_SIZE
      else 0)"

definition sig_size :: "Signature \<Rightarrow> nat" where
  "sig_size s = length (sig_canonical s)"

definition sig_isNull :: "Signature \<Rightarrow> bool" where
  "sig_isNull s = (if sig_canonical s = [] then True else sig_canonical s ! 0 = 0)"

definition sig_getJSON :: "Signature \<Rightarrow> string" where
  "sig_getJSON s = (if sig_isNull s then '''' else concat (map hex_digits (sig_canonical s)))"

definition getSignatureType :: "Signature \<Rightarrow> error + byte" where
  "getSignatureType s = vec_at (sig_canonical s) 0"

definition isWalletSignature :: "Signature \<Rightarrow> bool" where
  "isWalletSignature s = (if sig_isNull s then False else sig_canonical s ! 0 = kWALLET_SIG_SIZE)"

definition isNodeSignature :: "Signature \<Rightarrow> bool" where
  "isNodeSignature s = (if sig_isNull s then False else sig_canonical s ! 0 = kNODE_SIG_SIZE)"

definition getRawSignature :: "Signature \<Rightarrow> error + bytes" where
  "getRawSignature s =
     (if sig_isNull s then Inl (RuntimeError ''Signature is not initialized!'')
      else Inr (drop 1 (sig_canonical s)))"

instantiation Signature :: linorder
begin

definition less_eq_Signature :: "Signature \<Rightarrow> Signature \<Rightarrow> bool" where
  "less_eq_Signature a b = (sig_canonical a \<le> sig_canonical b)"

definition less_Signature :: "Signature \<Rightarrow> Signature \<Rightarrow> bool" where
  "less_Signature a b = (sig_canonical a < sig_canonical b)"

instance
  by standard (auto simp: less_eq_Signature_def less_Signature_def Signature.expand)

end

section \<open>The common contract\<close>

text \<open>\<open>tag_ok w n bs\<close>: the bytes carry a type prefix, \<open>w\<close> or \<open>n\<close>, equal to the number of the
  bytes after it.\<close>

fun tag_ok :: "nat \<Rightarrow> nat \<Rightarrow> bytes \<Rightarrow> bool" where
  "tag_ok w n [] = False"
| "tag_ok w n (t # raw) = ((t = of_nat w \<and> length raw = w) \<or> (t = of_nat n \<and> length raw = n))"

lemma tag_okE:
  assumes "tag_ok w n bs"
  obtains raw where "bs = of_nat w # raw" "length raw = w"
    | raw where "bs = of_nat n # raw" "length raw = n"
  using assms by (cases bs) auto

text \<open>\<open>mk\<close> builds a value from bytes and \<open>canon\<close> gives its canonical bytes; \<open>w\<close> and \<open>n\<close> are the
  raw lengths of the wallet and of the node variant.\<close>

locale tagged_blob =
  fixes mk :: "bytes \<Rightarrow> error + 'a"
    and canon :: "'a \<Rightarrow> bytes"
    and w n :: nat
  assumes sizes: "0 < w" "w + 1 < n" "n < 256"
    and mk_raw: "length raw = w \<or> length raw = n \<Longrightarrow>
                 \<exists>x. mk raw = Inr x \<and> canon x = of_nat (length raw) # raw"
    and mk_tagged: "tag_ok w n bs \<Longrightarrow> \<exists>x. mk bs = Inr x \<and> canon x = bs"
    and canon_inj: "canon x = canon y \<Longrightarrow> x = y"
begin

text \<open>A value is rebuilt from its canonical bytes and from the bytes without the prefix.\<close>

lemma mk_canon: "tag_ok w n (canon x) \<Longrightarrow> mk (canon x) = Inr x"
  using mk_tagged [of "canon x"] canon_inj by auto

lemma mk_untagged:
  assumes "tag_ok w n (canon x)"
  shows "mk (tl (canon x)) = Inr x"
  using assms
proof (cases rule: tag_okE)
  case (1 raw)
  then show ?thesis using mk_raw [of raw] canon_inj by auto
next
  case (2 raw)
  then show ?thesis using mk_raw [of raw] canon_inj by auto
qed

text \<open>The prefix determines the length, so no canonical form is a proper prefix of another: two
  values that start the same byte string are equal.\<close>

lemma canon_length: "tag_ok w n (canon x) \<Longrightarrow> length (canon x) = Suc (unat (hd (canon x)))"
  using sizes by (auto elim!: tag_okE)

lemma canon_prefix_free:
  assumes "tag_ok w n (canon x)" "tag_ok w n (canon y)" "canon x @ r = canon y @ s"
  shows "x = y \<and> r = s"
proof -
  have "hd (canon x) = hd (canon y)"
    using assms by (cases "canon x"; cases "canon y") auto
  then have "length (canon x) = length (canon y)"
    using canon_length assms(1,2) by simp
  then show ?thesis using assms(3) canon_inj by auto
qed

end

definition addr_wf :: "Address \<Rightarrow> bool" where
  "addr_wf a = tag_ok 33 49 (addr_canonical a)"

definition sig_wf :: "Signature \<Rightarrow> bool" where
  "sig_wf s = tag_ok 73 105 (sig_canonical s)"

interpretation addr: tagged_blob "\<lambda>v. Inr (Address_vec v)" addr_canonical 33 49
proof unfold_locales
  show "tag_ok 33 49 bs \<Longrightarrow> \<exists>x. Inr (Address_vec bs) = Inr x \<and> addr_canonical x = bs" for bs
    by (erule tag_okE) (auto simp: Address_vec_def)
qed (auto simp: Address_vec_def Address.expand)

interpretation sig: tagged_blob Signature_vec sig_canonical 73 105
proof unfold_locales
  show "tag_ok 73 105 bs \<Longrightarrow> \<exists>x. Signature_vec bs = Inr x \<and> sig_canonical x = bs" for bs
    by (erule tag_okE) (auto simp: Signature_vec_def)
qed (auto simp: Signature_vec_def Signature.expand)

text \<open>A well-formed address is of exactly one kind, and its size follows from the kind.\<close>

lemma addr_wf_kinds:
  assumes "addr_wf a"
  shows "\<not> addr_isNull a"
    and "isWalletAddress a \<longleftrightarrow> addr_size a = 34"
    and "isNodeAddress a \<longleftrightarrow> addr_size a = 50"
    and "isWalletAddress a \<noteq> isNodeAddress a"
  using assms
  by (auto simp: addr_wf_def addr_isNull_def isWalletAddress_def isNodeAddress_def addr_size_def
      elim!: tag_okE)

lemma sig_wf_kinds:
  assumes "sig_wf s"
  shows "\<not> sig_isNull s"
    and "isWalletSignature s \<longleftrightarrow> sig_size s = 74"
    and "isNodeSignature s \<longleftrightarrow> sig_size s = 106"
    and "isWalletSignature s \<noteq> isNodeSignature s"
  using assms
  by (auto simp: sig_wf_def sig_isNull_def isWalletSignature_def isNodeSignature_def sig_size_def
      elim!: tag_okE)

text \<open>What the constructor of \<open>Signature\<close> accepts is well formed; the constructor of \<open>Address\<close>
  gives a well-formed value on the same kinds of input and keeps the bytes otherwise.\<close>

lemma Signature_vec_wf: "Signature_vec v = Inr s \<Longrightarrow> sig_wf s"
  by (cases v) (auto simp: Signature_vec_def sig_wf_def split: if_splits)

lemma Signature_vec_error:
  "Signature_vec v = Inl e \<Longrightarrow> \<exists>m. e = RuntimeError m"
  by (auto simp: Signature_vec_def split: if_splits)

lemma Address_vec_cases:
  "(addr_wf (Address_vec v)) \<longleftrightarrow> length v = 33 \<or> length v = 49 \<or> tag_ok 33 49 v"
  by (cases v) (auto simp: Address_vec_def addr_wf_def)

lemma Address_vec_malformed: "\<not> addr_wf (Address_vec v) \<Longrightarrow> addr_canonical (Address_vec v) = v"
  by (auto simp: Address_vec_def addr_wf_def)

lemma getAddressRaw_wf:
  "addr_wf a \<Longrightarrow> \<exists>raw. getAddressRaw a = Inr raw \<and> Address_vec raw = a"
  using addr.mk_untagged [of a]
  by (auto simp: addr_wf_def getAddressRaw_def addr_wf_kinds(1) drop_Suc)

section \<open>Sample values\<close>

definition sample_wallet :: Address where
  "sample_wallet = Address_of (33 # replicate 33 2)"

definition sample_wallet2 :: Address where
  "sample_wallet2 = Address_of (33 # replicate 33 3)"

definition sample_node :: Address where
  "sample_node = Address_of (49 # replicate 49 2)"

definition sample_wallet_sig :: Signature where
  "sample_wallet_sig = Signature_of (73 # replicate 73 48)"

definition sample_node_sig :: Signature where
  "sample_node_sig = Signature_of (105 # replicate 105 48)"

lemma samples_wf [simp]:
  "addr_wf sample_wallet" "addr_wf sample_wallet2" "addr_wf sample_node"
  "sig_wf sample_wallet_sig" "sig_wf sample_node_sig"
  by (simp_all add: addr_wf_def sig_wf_def sample_wallet_def sample_wallet2_def sample_node_def
      sample_wallet_sig_def sample_node_sig_def)

section \<open>Properties\<close>

text \<open>The constructors of addresses and signatures accept a well-formed value with and without its
  type byte and return the value, and well-formed values are prefix free: if two of them start the
  same bytes they are equal.\<close>

theorem blob_constructors:
  assumes "addr_wf a" "addr_wf b" "sig_wf s" "sig_wf t"
  shows "Address_vec (addr_canonical a) = a \<and> Address_vec (tl (addr_canonical a)) = a \<and>
    Signature_vec (sig_canonical s) = Inr s \<and> Signature_vec (tl (sig_canonical s)) = Inr s \<and>
    (addr_canonical a @ x = addr_canonical b @ y \<longrightarrow> a = b \<and> x = y) \<and>
    (sig_canonical s @ x = sig_canonical t @ y \<longrightarrow> s = t \<and> x = y)"
  using assms addr.mk_canon [of a] addr.mk_untagged [of a] sig.mk_canon [of s] sig.mk_untagged [of s]
    addr.canon_prefix_free [of a b x y] sig.canon_prefix_free [of s t x y]
  by (simp add: addr_wf_def sig_wf_def)

theorem blob_constructors_witness:
  "addr_wf sample_wallet \<and> addr_wf sample_node \<and> sig_wf sample_wallet_sig \<and> sig_wf sample_node_sig \<and>
   Address_vec (tl (addr_canonical sample_wallet)) = sample_wallet \<and>
   Signature_vec (tl (sig_canonical sample_wallet_sig)) = Inr sample_wallet_sig"
  using blob_constructors [of sample_wallet sample_node sample_wallet_sig sample_node_sig] by simp

end
