(* ===== verification/Input_Buffer.thy ===== *)
theory Input_Buffer
  imports Addresses
begin

text \<open>
  \<^verbatim>\<open>primitives/buffers.h\<close>: the class \<open>InputBuffer\<close>, a byte vector with a current offset from
  which every primitive is deserialised. Its methods become readers, functions from the buffer
  to an error or to a value and the buffer after the call. Offset arithmetic is that of
  \<^verbatim>\<open>size_t\<close> and wraps around; \<^verbatim>\<open>at\<close> throws, iterator ranges beyond the end are undefined.

  The second half of the theory is the interface that the deserialisers of the other components
  use: \<open>reads p bs x\<close> says that reader \<open>p\<close>, on any buffer whose unread part starts with \<open>bs\<close>,
  returns \<open>x\<close> and moves the offset past \<open>bs\<close>; it composes along sequencing and loops. The locale
  \<open>codec\<close> pairs a serialiser with such a reader.
\<close>

section \<open>State and methods\<close>

record InputBuffer =
  ib_buffer :: bytes
  ib_offset :: size_t

type_synonym 'a reader = "InputBuffer \<Rightarrow> error + ('a \<times> InputBuffer)"

definition InputBuffer_make :: "bytes \<Rightarrow> size_t \<Rightarrow> InputBuffer" where
  "InputBuffer_make input_buffer off = \<lparr>ib_buffer = input_buffer, ib_offset = off\<rparr>"

definition bindR :: "'a reader \<Rightarrow> ('a \<Rightarrow> 'b reader) \<Rightarrow> 'b reader" where
  "bindR m f = (\<lambda>ib. bindE (m ib) (\<lambda>(x, ib'). f x ib'))"

definition returnR :: "'a \<Rightarrow> 'a reader" where
  "returnR x = (\<lambda>ib. Inr (x, ib))"

definition throwR :: "error \<Rightarrow> 'a reader" where
  "throwR e = (\<lambda>ib. Inl e)"

definition liftR :: "error + 'a \<Rightarrow> 'a reader" where
  "liftR r = (\<lambda>ib. bindE r (\<lambda>x. Inr (x, ib)))"

definition getsR :: "(InputBuffer \<Rightarrow> 'a) \<Rightarrow> 'a reader" where
  "getsR f = (\<lambda>ib. Inr (f ib, ib))"

fun loopR :: "nat \<Rightarrow> ('s \<Rightarrow> 's reader) \<Rightarrow> 's \<Rightarrow> 's reader" where
  "loopR 0 body acc = returnR acc"
| "loopR (Suc n) body acc = bindR (body acc) (loopR n body)"

definition ib_size :: "InputBuffer \<Rightarrow> size_t" where
  "ib_size ib = vec_size (ib_buffer ib)"

definition ib_increment :: "size_t \<Rightarrow> InputBuffer \<Rightarrow> InputBuffer" where
  "ib_increment amount ib = ib\<lparr>ib_offset := ib_offset ib + amount\<rparr>"

definition ib_reset :: "InputBuffer \<Rightarrow> InputBuffer" where
  "ib_reset ib = ib\<lparr>ib_offset := 0\<rparr>"

definition ib_at :: "size_t \<Rightarrow> byte reader" where
  "ib_at loc = (\<lambda>ib. bindE (vec_at (ib_buffer ib) loc) (\<lambda>b. Inr (b, ib)))"

definition offsetAt :: "size_t \<Rightarrow> byte reader" where
  "offsetAt loc = (\<lambda>ib. bindE (vec_at (ib_buffer ib) (loc + ib_offset ib)) (\<lambda>b. Inr (b, ib)))"

definition ib_copy :: "size_t \<Rightarrow> bool \<Rightarrow> bytes reader" where
  "ib_copy len increment_buffer = (\<lambda>ib.
     bindE (vec_range (ib_buffer ib) (unat (ib_offset ib)) (unat len)) (\<lambda>out.
     Inr (out, if increment_buffer then ib_increment len ib else ib)))"

definition getNextByte :: "bool \<Rightarrow> byte reader" where
  "getNextByte increment_buffer = (\<lambda>ib.
     bindE (vec_at (ib_buffer ib) (ib_offset ib)) (\<lambda>ret.
     Inr (ret, if increment_buffer then ib_increment 1 ib else ib)))"

text \<open>\<^verbatim>\<open>copy(Address&)\<close> and \<^verbatim>\<open>copy(Signature&)\<close> share their code up to the constructor; the type
  byte is consumed in any case.\<close>

definition copy_tagged :: "(bytes \<Rightarrow> error + 'a) \<Rightarrow> bool \<Rightarrow> 'a reader" where
  "copy_tagged mk increment_buffer =
     bindR (getNextByte True) (\<lambda>t ib.
     bindE (vec_range (ib_buffer ib) (unat (ib_offset ib)) (unat t)) (\<lambda>bin.
     bindE (mk bin) (\<lambda>x.
     Inr (x, if increment_buffer then ib_increment (vec_size bin) ib else ib))))"

definition copyAddress :: "bool \<Rightarrow> Address reader" where
  "copyAddress = copy_tagged (\<lambda>bin_addr. Inr (Address_vec bin_addr))"

definition copySignature :: "bool \<Rightarrow> Signature reader" where
  "copySignature = copy_tagged Signature_vec"

definition getNextUint32 :: "bool \<Rightarrow> uint32 reader" where
  "getNextUint32 increment_buffer = (\<lambda>ib.
     bindE (BinToUint32 (ib_buffer ib) (ib_offset ib)) (\<lambda>ret.
     Inr (ret, if increment_buffer then ib_increment 4 ib else ib)))"

definition getNextUint64 :: "bool \<Rightarrow> uint64 reader" where
  "getNextUint64 increment_buffer = (\<lambda>ib.
     bindE (BinToUint64 (ib_buffer ib) (ib_offset ib)) (\<lambda>ret.
     Inr (ret, if increment_buffer then ib_increment 8 ib else ib)))"

definition getSecondUint64 :: "bool \<Rightarrow> uint64 reader" where
  "getSecondUint64 increment_buffer = (\<lambda>ib.
     bindE (BinToUint64 (ib_buffer ib) (ib_offset ib + 8)) (\<lambda>ret.
     Inr (ret, if increment_buffer then ib_increment 8 ib else ib)))"

abbreviation (input) "kTX_MIN_SIZE \<equiv> 91"
abbreviation (input) "kMIN_NONCE_SIZE \<equiv> 8"
abbreviation (input) "kUINT64_SIZE \<equiv> 8"
abbreviation (input) "kENVELOPE_SIZE \<equiv> 17"
abbreviation (input) "kOPERATION_OFFSET \<equiv> 16"
abbreviation (input) "kTRANSFER_OFFSET \<equiv> 17"
abbreviation (input) "kTRANSFER_NONADDR_DATA_SIZE \<equiv> 24"
abbreviation (input) "kNumOperations \<equiv> 4"

definition getNextT1Transaction :: "bytes reader" where
  "getNextT1Transaction =
     bindR (getNextUint64 False) (\<lambda>sum_size ib.
     let tx_size = sum_size + kNODE_SIG_BUF_SIZE + kUINT64_SIZE + kNODE_ADDR_BUF_SIZE in
     if ib_size ib < ib_offset ib + tx_size then Inr ([], ib)
     else ib_copy tx_size True ib)"

definition getNextTransaction :: "bytes reader" where
  "getNextTransaction = (\<lambda>ib.
     if ib_size ib < ib_offset ib + kTX_MIN_SIZE then getNextT1Transaction ib
     else
       bindR (getNextUint64 False) (\<lambda>xfer_size.
       bindR (getSecondUint64 False) (\<lambda>nonce_size ib.
       if nonce_size < kMIN_NONCE_SIZE then getNextT1Transaction ib
       else
         bindR (offsetAt kOPERATION_OFFSET) (\<lambda>oper ib.
         if oper \<ge> kNumOperations then getNextT1Transaction ib
         else
           bindR (offsetAt (kTRANSFER_OFFSET + xfer_size + nonce_size)) (\<lambda>t ib.
           let tx_size = ucast t + kTRANSFER_OFFSET + xfer_size + nonce_size + 1 in
           if ib_size ib < ib_offset ib + tx_size then getNextT1Transaction ib
           else ib_copy tx_size True ib) ib) ib)) ib)"

named_theorems reader_simps \<open>readers applied to a buffer\<close>

section \<open>Unread input\<close>

text \<open>\<open>ib_wf\<close> is what a vector and an offset into it always satisfy on a 64-bit machine: no vector
  of bytes reaches \<open>2 ^ 63\<close> elements.\<close>

definition ib_wf :: "InputBuffer \<Rightarrow> bool" where
  "ib_wf ib = (length (ib_buffer ib) < 2 ^ 63 \<and> unat (ib_offset ib) \<le> length (ib_buffer ib))"

definition ib_rest :: "InputBuffer \<Rightarrow> bytes" where
  "ib_rest ib = drop (unat (ib_offset ib)) (ib_buffer ib)"

definition advance :: "nat \<Rightarrow> InputBuffer \<Rightarrow> InputBuffer" where
  "advance n ib = ib\<lparr>ib_offset := ib_offset ib + of_nat n\<rparr>"

lemma bindR_apply [reader_simps]: "bindR m f ib = bindE (m ib) (\<lambda>(x, ib'). f x ib')"
  by (simp add: bindR_def)

lemma returnR_apply [reader_simps]: "returnR x ib = Inr (x, ib)"
  by (simp add: returnR_def)

lemma throwR_apply [reader_simps]: "throwR e ib = Inl e"
  by (simp add: throwR_def)

lemma getsR_apply [reader_simps]: "getsR f ib = Inr (f ib, ib)"
  by (simp add: getsR_def)

lemma advance_0 [simp]: "advance 0 ib = ib"
  by (simp add: advance_def)

lemma ib_buffer_advance [simp]: "ib_buffer (advance n ib) = ib_buffer ib"
  by (simp add: advance_def)

lemma ib_size_advance [simp]: "ib_size (advance n ib) = ib_size ib"
  by (simp add: ib_size_def)

lemma advance_advance [simp]: "advance m (advance n ib) = advance (n + m) ib"
  by (simp add: advance_def add.assoc)

lemma advance_facts:
  assumes "ib_wf ib" and "n \<le> length (ib_rest ib)"
  shows "ib_wf (advance n ib)"
    and "unat (ib_offset (advance n ib)) = unat (ib_offset ib) + n"
    and "ib_rest (advance n ib) = drop n (ib_rest ib)"
proof -
  have le: "unat (ib_offset ib) + n \<le> length (ib_buffer ib)"
    using assms by (auto simp: ib_wf_def ib_rest_def)
  then show o: "unat (ib_offset (advance n ib)) = unat (ib_offset ib) + n"
    using assms(1) by (simp add: advance_def ib_wf_def unat_add_of_nat_64)
  then show "ib_wf (advance n ib)"
    using assms(1) le by (simp add: ib_wf_def)
  show "ib_rest (advance n ib) = drop n (ib_rest ib)"
    using o by (simp add: ib_rest_def add.commute)
qed

lemma ib_increment_advance: "ib_increment (of_nat n) ib = advance n ib"
  by (simp add: ib_increment_def advance_def)

lemma ib_wf_make: "length bs < 2 ^ 63 \<Longrightarrow> ib_wf (InputBuffer_make bs 0)"
  by (simp add: ib_wf_def InputBuffer_make_def)

lemma ib_rest_make [simp]: "ib_rest (InputBuffer_make bs 0) = bs"
  by (simp add: ib_rest_def InputBuffer_make_def)

lemma ib_rest_length: "ib_wf ib \<Longrightarrow> length (ib_buffer ib) = unat (ib_offset ib) + length (ib_rest ib)"
  by (simp add: ib_wf_def ib_rest_def)

text \<open>The size guard \<^verbatim>\<open>size() < offset + n\<close> of the deserialisers asks whether fewer than \<open>n\<close> unread
  bytes are left, as long as \<open>n\<close> itself is not astronomically large.\<close>

lemma size_guard:
  assumes "ib_wf ib" and "unat n < 2 ^ 63"
  shows "ib_size ib < ib_offset ib + n \<longleftrightarrow> length (ib_rest ib) < unat n"
proof -
  have "unat (ib_offset ib + n) = unat (ib_offset ib) + unat n"
    using assms by (intro unat_add_64) (auto simp: ib_wf_def)
  moreover have "unat (ib_size ib) = length (ib_buffer ib)"
    using assms(1) by (simp add: ib_size_def ib_wf_def unat_vec_size)
  ultimately show ?thesis
    using ib_rest_length [OF assms(1)] by (simp add: word_less_nat_alt)
qed

section \<open>Readers and what they consume\<close>

definition reads :: "'a reader \<Rightarrow> bytes \<Rightarrow> 'a \<Rightarrow> bool" where
  "reads p bs x = (\<forall>ib r. ib_wf ib \<longrightarrow> ib_rest ib = bs @ r \<longrightarrow> p ib = Inr (x, advance (length bs) ib))"

named_theorems reads_intros \<open>composition rules for readers\<close>

lemma readsI:
  "(\<And>ib r. ib_wf ib \<Longrightarrow> ib_rest ib = bs @ r \<Longrightarrow> p ib = Inr (x, advance (length bs) ib)) \<Longrightarrow> reads p bs x"
  by (simp add: reads_def)

lemma readsD: "reads p bs x \<Longrightarrow> ib_wf ib \<Longrightarrow> ib_rest ib = bs @ r \<Longrightarrow> p ib = Inr (x, advance (length bs) ib)"
  by (simp add: reads_def)

lemma reads_return [reads_intros]: "reads (returnR x) [] x"
  by (simp add: reads_def reader_simps)

lemma reads_bind [reads_intros]:
  assumes "reads p bs x" and "reads (q x) cs y"
  shows "reads (bindR p q) (bs @ cs) y"
proof (rule readsI)
  fix ib r
  assume ib: "ib_wf ib" "ib_rest ib = (bs @ cs) @ r"
  then have p: "p ib = Inr (x, advance (length bs) ib)"
    using readsD [OF assms(1)] by simp
  have "ib_wf (advance (length bs) ib)" "ib_rest (advance (length bs) ib) = cs @ r"
    using advance_facts [of ib "length bs"] ib by simp_all
  then have "q x (advance (length bs) ib) = Inr (y, advance (length cs) (advance (length bs) ib))"
    using readsD [OF assms(2)] by simp
  with p show "bindR p q ib = Inr (y, advance (length (bs @ cs)) ib)"
    by (simp add: reader_simps)
qed

lemma reads_bind_return: "reads p bs x \<Longrightarrow> reads (bindR p (\<lambda>x. returnR (f x))) bs (f x)"
  using reads_bind [where cs = "[]" and q = "\<lambda>x. returnR (f x)", OF _ reads_return] by simp

lemma reads_bind_value: "reads p bs x \<Longrightarrow> y = f x \<Longrightarrow> reads (bindR p (\<lambda>x. returnR (f x))) bs y"
  by (simp add: reads_bind_return)

lemma reads_cong: "reads p bs x \<Longrightarrow> bs = cs \<Longrightarrow> x = y \<Longrightarrow> reads p cs y"
  by simp

text \<open>A loop that reads one encoded item per round reads the concatenation of the items.\<close>

lemma reads_loop:
  assumes "\<And>x acc. x \<in> set xs \<Longrightarrow> reads (body acc) (enc x) (f x acc)"
  shows "reads (loopR (length xs) body acc) (concat (map enc xs)) (fold f xs acc)"
  using assms
proof (induction xs arbitrary: acc)
  case Nil
  show ?case by (simp add: reads_return)
next
  case (Cons x xs)
  then have "reads (loopR (length xs) body (f x acc)) (concat (map enc xs)) (fold f xs (f x acc))"
    by simp
  with Cons.prems [of x acc] show ?case by (auto intro: reads_bind)
qed


section \<open>What the primitive readers consume\<close>

lemma ib_rest_range:
  assumes "ib_wf ib" and "ib_rest ib = bs @ r"
  shows "vec_range (ib_buffer ib) (unat (ib_offset ib)) (length bs) = Inr bs"
proof -
  have "length bs + length r = length (ib_buffer ib) - unat (ib_offset ib)"
    using arg_cong [OF assms(2), of length] by (simp add: ib_rest_def)
  moreover have "take (length bs) (drop (unat (ib_offset ib)) (ib_buffer ib)) = bs"
    using assms(2) by (simp add: ib_rest_def)
  ultimately show ?thesis
    using assms(1) by (auto simp: vec_range_def ib_wf_def)
qed

lemma ib_rest_at:
  assumes "ib_wf ib" and "i < length (ib_rest ib)"
  shows "vec_at (ib_buffer ib) (of_nat i + ib_offset ib) = Inr (ib_rest ib ! i)"
proof -
  have "unat (of_nat i + ib_offset ib) = unat (ib_offset ib) + i"
    using advance_facts(2) [OF assms(1), of i] assms(2) by (simp add: advance_def add.commute)
  then show ?thesis
    using assms by (simp add: vec_at_def ib_rest_def)
qed

lemma offsetAt_rest:
  "ib_wf ib \<Longrightarrow> unat i < length (ib_rest ib) \<Longrightarrow> offsetAt i ib = Inr (ib_rest ib ! unat i, ib)"
  using ib_rest_at [of ib "unat i"] by (simp add: offsetAt_def)

lemma getNextByte_rest:
  assumes "ib_wf ib" and "ib_rest ib = b # r"
  shows "getNextByte inc ib = Inr (b, if inc then advance 1 ib else ib)"
  using ib_rest_at [of ib 0] assms ib_increment_advance [of 1 ib] by (simp add: getNextByte_def)

lemma getNextUint64_rest:
  assumes "ib_wf ib" and "ib_rest ib = le64 w @ r"
  shows "getNextUint64 inc ib = Inr (w, if inc then advance 8 ib else ib)"
  using BinToUint64_le64 [of "ib_buffer ib" "ib_offset ib" w r] assms ib_increment_advance [of 8 ib]
  by (simp add: getNextUint64_def ib_wf_def ib_rest_def)

lemma getSecondUint64_rest:
  assumes "ib_wf ib" and "ib_rest ib = le64 v @ le64 w @ r"
  shows "getSecondUint64 False ib = Inr (w, ib)"
proof -
  have "unat (ib_offset ib + 8) = unat (ib_offset ib) + 8" "ib_rest (advance 8 ib) = le64 w @ r"
    using advance_facts(2,3) [of ib 8] assms by (simp_all add: advance_def)
  then show ?thesis
    using BinToUint64_le64 [of "ib_buffer ib" "ib_offset ib + 8" w r] assms(1)
    by (simp add: getSecondUint64_def ib_wf_def ib_rest_def advance_def)
qed

lemma reads_getNextByte [reads_intros]: "reads (getNextByte True) [b] b"
  by (rule readsI) (simp add: getNextByte_rest)

lemma reads_getNextUint64 [reads_intros]: "reads (getNextUint64 True) (le64 w) w"
  by (rule readsI) (simp add: getNextUint64_rest)

lemma reads_getNextUint32 [reads_intros]: "reads (getNextUint32 True) (le32 w) w"
proof (rule readsI)
  fix ib r
  assume "ib_wf ib" "ib_rest ib = le32 w @ r"
  then show "getNextUint32 True ib = Inr (w, advance (length (le32 w)) ib)"
    using BinToUint32_le32 [of "ib_buffer ib" "ib_offset ib" w r] ib_increment_advance [of 4 ib]
    by (simp add: getNextUint32_def ib_wf_def ib_rest_def)
qed

lemma reads_ib_copy:
  assumes "length bs < 2 ^ 64" and "n = of_nat (length bs)"
  shows "reads (ib_copy n True) bs bs"
  using assms ib_rest_range
  by (intro readsI) (simp add: ib_copy_def flip: ib_increment_advance)

lemma ib_copy_rest:
  assumes "ib_wf ib" "ib_rest ib = bs @ r" "unat n = length bs"
  shows "ib_copy n True ib = Inr (bs, advance (length bs) ib)"
proof -
  have "n = of_nat (length bs)" using assms(3) by (metis of_nat_unat_word)
  moreover have "length bs < 2 ^ 64" using assms(3) unat_bound [of n] by simp
  ultimately show ?thesis using readsD [OF reads_ib_copy assms(1,2)] by simp
qed

lemma reads_copy_tagged:
  assumes "mk raw = Inr x" and "length raw < 256"
  shows "reads (copy_tagged mk True) (of_nat (length raw) # raw) x"
proof -
  have "reads (\<lambda>ib. bindE (vec_range (ib_buffer ib) (unat (ib_offset ib)) (length raw)) (\<lambda>bin.
          bindE (mk bin) (\<lambda>x. Inr (x, ib_increment (vec_size bin) ib)))) raw x"
    using assms(1)
    by (intro readsI) (simp add: ib_rest_range vec_size_def flip: ib_increment_advance)
  then have "reads (copy_tagged mk True) ([of_nat (length raw)] @ raw) x"
    unfolding copy_tagged_def using assms(2) by (intro reads_bind [OF reads_getNextByte]) simp
  then show ?thesis by simp
qed

context tagged_blob
begin

lemma reads_canon:
  assumes "tag_ok w n (canon x)"
  shows "reads (copy_tagged mk True) (canon x) x"
  using assms
proof (cases rule: tag_okE)
  case (1 raw)
  then show ?thesis
    using mk_untagged [OF assms] reads_copy_tagged [of mk raw x] sizes by simp
next
  case (2 raw)
  then show ?thesis
    using mk_untagged [OF assms] reads_copy_tagged [of mk raw x] sizes by simp
qed

end

section \<open>Codecs\<close>

text \<open>A serialiser \<open>enc\<close> with a reader \<open>dec\<close> that reads back every value satisfying \<open>ok\<close>.\<close>

locale codec =
  fixes enc :: "'a \<Rightarrow> bytes" and dec :: "'a reader" and ok :: "'a \<Rightarrow> bool"
  assumes reads_enc: "ok x \<Longrightarrow> reads dec (enc x) x"
begin

text \<open>Deserialising a fresh buffer that starts with an encoding returns the value and leaves the
  offset at the end of the encoding.\<close>

lemma decode_encode:
  assumes "ok x" and "length (enc x @ r) < 2 ^ 63"
  shows "dec (InputBuffer_make (enc x @ r) 0) =
         Inr (x, InputBuffer_make (enc x @ r) (of_nat (length (enc x))))"
  using readsD [OF reads_enc [OF assms(1)] ib_wf_make [OF assms(2)] ib_rest_make]
  by (simp add: advance_def InputBuffer_make_def)

text \<open>No encoding is a proper prefix of another one: byte streams decode in one way only.\<close>

lemma enc_prefix_free:
  assumes "ok x" "ok y" and eq: "enc x @ r = enc y @ s" and "length (enc x @ r) < 2 ^ 63"
  shows "x = y \<and> r = s"
proof -
  have l: "length (enc y @ s) < 2 ^ 63" using assms(4) eq by simp
  have "x = y"
    using decode_encode [OF assms(1,4)] decode_encode [OF assms(2) l] eq by simp
  then show ?thesis using eq by simp
qed

lemma reads_list:
  assumes "\<forall>x \<in> set xs. ok x"
  shows "reads (loopR (length xs) (\<lambda>acc. bindR dec (\<lambda>x. returnR (f x acc))) acc)
           (concat (map enc xs)) (fold f xs acc)"
  using assms reads_enc by (intro reads_loop) (auto intro: reads_bind_return)

end

interpretation addr_codec: codec addr_canonical "copyAddress True" addr_wf
  by unfold_locales (auto simp: addr_wf_def copyAddress_def intro: addr.reads_canon)

interpretation sig_codec: codec sig_canonical "copySignature True" sig_wf
  by unfold_locales (auto simp: sig_wf_def copySignature_def intro: sig.reads_canon)

interpretation uint64_codec: codec le64 "getNextUint64 True" "\<lambda>_. True"
  by unfold_locales (rule reads_getNextUint64)

lemmas reads_copyAddress [reads_intros] = addr_codec.reads_enc
lemmas reads_copySignature [reads_intros] = sig_codec.reads_enc

end
