(* ===== verification/Transfers.thy ===== *)
theory Transfers
  imports Input_Buffer
begin

text \<open>
  \<^verbatim>\<open>primitives/Transfer.h\<close> and \<^verbatim>\<open>primitives/SmartCoin.h\<close>. A transfer is stored as its canonical
  bytes: the address, then coin, amount and delay in eight bytes each. Its accessors find the
  fields through the type byte of the address. \<open>xfer_wf\<close> describes the byte strings that have
  this shape; the lemmas show that exactly those are the results of the constructor on
  well-formed addresses, that the accessors are the projections, and that the reader inverts the
  canonical form.
\<close>

section \<open>Smart coins\<close>

record SmartCoin =
  sc_addr :: Address
  sc_coin :: uint64
  sc_amount :: int64

definition SmartCoin_make :: "Address \<Rightarrow> uint64 \<Rightarrow> int64 \<Rightarrow> SmartCoin" where
  "SmartCoin_make addr coin amount = \<lparr>sc_addr = addr, sc_coin = coin, sc_amount = amount\<rparr>"

section \<open>Transfers\<close>

datatype Transfer = Transfer_of (xfer_canonical: bytes)

definition Transfer_make :: "Address \<Rightarrow> uint64 \<Rightarrow> int64 \<Rightarrow> uint64 \<Rightarrow> Transfer" where
  "Transfer_make addr coin amount delay =
     Transfer_of (Uint64ToBin delay (Int64ToBin amount (Uint64ToBin coin (addr_canonical addr))))"

definition Transfer_hex :: "string \<Rightarrow> uint64 \<Rightarrow> int64 \<Rightarrow> uint64 \<Rightarrow> error + Transfer" where
  "Transfer_hex addr_string coin amount delay =
     bindE (Hex2Bin addr_string) (\<lambda>bin.
     Inr (Transfer_of (Uint64ToBin delay (Int64ToBin amount (Uint64ToBin coin
       (addr_canonical (Address_vec bin)))))))"

definition Transfer_read :: "Transfer reader" where
  "Transfer_read =
     bindR (copyAddress True) (\<lambda>addr.
     bindR (ib_copy kTRANSFER_NONADDR_DATA_SIZE True) (\<lambda>rest.
     returnR (Transfer_of (addr_canonical addr @ rest))))"

definition xfer_Size :: "Transfer \<Rightarrow> nat" where
  "xfer_Size t = length (xfer_canonical t)"

definition xfer_MinSize :: size_t where
  "xfer_MinSize = kWALLET_ADDR_BUF_SIZE + kTRANSFER_NONADDR_DATA_SIZE"

definition xfer_MaxSize :: size_t where
  "xfer_MaxSize = kNODE_ADDR_BUF_SIZE + kTRANSFER_NONADDR_DATA_SIZE"

text \<open>The four accessors: the byte at position 0 selects where the field starts.\<close>

definition xfer_getAddress :: "Transfer \<Rightarrow> error + Address" where
  "xfer_getAddress t =
     bindE (vec_at (xfer_canonical t) 0) (\<lambda>ty.
     if ty = kWALLET_ADDR_SIZE then
       bindE (vec_range (xfer_canonical t) 0 kWALLET_ADDR_BUF_SIZE) (\<lambda>addr. Inr (Address_vec addr))
     else if ty = kNODE_ADDR_SIZE then
       bindE (vec_range (xfer_canonical t) 0 kNODE_ADDR_BUF_SIZE) (\<lambda>addr. Inr (Address_vec addr))
     else Inl (RuntimeError ''Transfer Address has invalid type prefix.''))"

definition xfer_getCoin :: "Transfer \<Rightarrow> error + uint64" where
  "xfer_getCoin t =
     bindE (vec_at (xfer_canonical t) 0) (\<lambda>ty.
     if ty = kWALLET_ADDR_SIZE then BinToUint64 (xfer_canonical t) kWALLET_ADDR_BUF_SIZE
     else if ty = kNODE_ADDR_SIZE then BinToUint64 (xfer_canonical t) kNODE_ADDR_BUF_SIZE
     else Inl (RuntimeError ''Transfer has invalid type prefix.''))"

definition xfer_getAmount :: "Transfer \<Rightarrow> error + int64" where
  "xfer_getAmount t =
     bindE (vec_at (xfer_canonical t) 0) (\<lambda>ty.
     if ty = kWALLET_ADDR_SIZE then
       BinToInt64 (xfer_canonical t) (kWALLET_ADDR_BUF_SIZE + kUINT64_SIZE)
     else if ty = kNODE_ADDR_SIZE then
       BinToInt64 (xfer_canonical t) (kNODE_ADDR_BUF_SIZE + kUINT64_SIZE)
     else Inl (RuntimeError ''Transfer has invalid type prefix.''))"

definition xfer_getDelay :: "Transfer \<Rightarrow> error + uint64" where
  "xfer_getDelay t =
     bindE (vec_at (xfer_canonical t) 0) (\<lambda>ty.
     if ty = kWALLET_ADDR_SIZE then
       BinToUint64 (xfer_canonical t) (kWALLET_ADDR_BUF_SIZE + kUINT64_SIZE * 2)
     else if ty = kNODE_ADDR_SIZE then
       BinToUint64 (xfer_canonical t) (kNODE_ADDR_BUF_SIZE + kUINT64_SIZE * 2)
     else Inl (RuntimeError ''Transfer has invalid type prefix.''))"

text \<open>The JSON text of \<^verbatim>\<open>Transfer::getJSON\<close>; \<open>dq\<close> is the double quote character.\<close>

definition dq :: string where
  "dq = [CHR 0x22]"

definition xfer_getJSON :: "Transfer \<Rightarrow> error + string" where
  "xfer_getJSON t =
     bindE (xfer_getAddress t) (\<lambda>addr.
     bindE (xfer_getCoin t) (\<lambda>coin.
     bindE (xfer_getAmount t) (\<lambda>amount.
     bindE (xfer_getDelay t) (\<lambda>delay.
     Inr (''{'' @ dq @ ''addr'' @ dq @ '':'' @ dq @ addr_getJSON addr
       @ dq @ '','' @ dq @ ''type'' @ dq @ '':'' @ to_string_u coin
       @ '','' @ dq @ ''amount'' @ dq @ '':'' @ to_string_s amount
       @ '','' @ dq @ ''dlay'' @ dq @ '':'' @ to_string_u delay
       @ ''}'')))))"

section \<open>Well-formed transfers\<close>

definition xfer_wf :: "Transfer \<Rightarrow> bool" where
  "xfer_wf t = (case xfer_canonical t of
       [] \<Rightarrow> False
     | ty # rest \<Rightarrow> (ty = kWALLET_ADDR_SIZE \<and> length rest = 33 + 24)
                 \<or> (ty = kNODE_ADDR_SIZE \<and> length rest = 49 + 24))"

lemma Transfer_make_canonical:
  "xfer_canonical (Transfer_make a c m d) = addr_canonical a @ le64 c @ le64 m @ le64 d"
  by (simp add: Transfer_make_def Uint64ToBin_le Int64ToBin_le)

text \<open>The accessors project the arguments of the constructor.\<close>

lemma addr_wf_cases:
  assumes "addr_wf a"
  obtains raw where "addr_canonical a = 33 # raw" "length raw = 33"
    | raw where "addr_canonical a = 49 # raw" "length raw = 49"
  using assms unfolding addr_wf_def by (elim tag_okE) auto

lemma BinToUint64_at:
  assumes "length p = unat start" and "length (p @ le64 w @ r) < 2 ^ 63"
  shows "BinToUint64 (p @ le64 w @ r) start = Inr w"
  using assms by (intro BinToUint64_le64) auto

lemma BinToUint64_fields:
  assumes "length p = unat n" and "unat n < 1000"
  shows "BinToUint64 (p @ le64 c @ le64 m @ le64 d) n = Inr c"
    and "BinToUint64 (p @ le64 c @ le64 m @ le64 d) (n + 8) = Inr m"
    and "BinToUint64 (p @ le64 c @ le64 m @ le64 d) (n + 16) = Inr d"
proof -
  have u: "unat (n + 8) = unat n + 8" "unat (n + 16) = unat n + 16"
    using assms(2) unat_add_of_nat_64 [of n 8] unat_add_of_nat_64 [of n 16] by simp_all
  show "BinToUint64 (p @ le64 c @ le64 m @ le64 d) n = Inr c"
    using BinToUint64_at [of p n c "le64 m @ le64 d"] assms by simp
  show "BinToUint64 (p @ le64 c @ le64 m @ le64 d) (n + 8) = Inr m"
    using BinToUint64_at [of "p @ le64 c" "n + 8" m "le64 d"] assms u by simp
  show "BinToUint64 (p @ le64 c @ le64 m @ le64 d) (n + 16) = Inr d"
    using BinToUint64_at [of "p @ le64 c @ le64 m" "n + 16" d "[]"] assms u by simp
qed

lemma Transfer_make_fields:
  assumes "addr_wf a"
  shows "xfer_getAddress (Transfer_make a c m d) = Inr a \<and>
    xfer_getCoin (Transfer_make a c m d) = Inr c \<and>
    xfer_getAmount (Transfer_make a c m d) = Inr m \<and> xfer_getDelay (Transfer_make a c m d) = Inr d"
proof -
  have mk: "Address_vec (addr_canonical a) = a"
    using addr.mk_canon [of a] assms by (simp add: addr_wf_def)
  note defs = xfer_getAddress_def xfer_getCoin_def xfer_getAmount_def xfer_getDelay_def
    Transfer_make_canonical BinToInt64_eq
  from assms show ?thesis
  proof (cases rule: addr_wf_cases)
    case (1 raw)
    then show ?thesis
      using BinToUint64_fields [of "addr_canonical a" 34 c m d] mk by (simp add: defs)
  next
    case (2 raw)
    then show ?thesis
      using BinToUint64_fields [of "addr_canonical a" 50 c m d] mk by (simp add: defs)
  qed
qed

lemmas Transfer_make_getters [simp] =
  Transfer_make_fields [THEN conjunct1]
  Transfer_make_fields [THEN conjunct2, THEN conjunct1]
  Transfer_make_fields [THEN conjunct2, THEN conjunct2, THEN conjunct1]
  Transfer_make_fields [THEN conjunct2, THEN conjunct2, THEN conjunct2]

text \<open>Well-formed transfers are exactly the constructed ones.\<close>

lemma split_24:
  assumes "length bs = 24"
  obtains c m d where "bs = le64 c @ le64 m @ le64 d"
proof -
  have 1: "le64 (of_nat (le_value (take 8 bs))) = take 8 bs"
    using assms by (intro le64_of_value) simp
  have 2: "le64 (of_nat (le_value (take 8 (drop 8 bs)))) = take 8 (drop 8 bs)"
    using assms by (intro le64_of_value) simp
  have 3: "le64 (of_nat (le_value (drop 16 bs))) = drop 16 bs"
    using assms by (intro le64_of_value) simp
  have "bs = take 8 bs @ take 8 (drop 8 bs) @ drop 16 bs"
    by (metis append_take_drop_id drop_drop numeral_Bit0)
  then show ?thesis using 1 2 3 that by metis
qed

lemma xfer_wfE:
  assumes "xfer_wf t"
  obtains a c m d where "addr_wf a" "t = Transfer_make a c m d"
proof -
  obtain ty rest where t: "xfer_canonical t = ty # rest"
    and ty: "(ty = 33 \<and> length rest = 57) \<or> (ty = 49 \<and> length rest = 73)"
    using assms by (auto simp: xfer_wf_def split: list.splits)
  define n where "n = length rest - 24"
  obtain c m d where cmd: "drop n rest = le64 c @ le64 m @ le64 d"
    using split_24 [of "drop n rest"] ty n_def by force
  define a where "a = Address_of (ty # take n rest)"
  have "addr_wf a" using ty by (auto simp: a_def addr_wf_def n_def)
  moreover have "t = Transfer_make a c m d"
    using t cmd by (intro Transfer.expand) (metis Transfer_make_canonical a_def Address.sel
        append_Cons append_take_drop_id)
  ultimately show ?thesis using that by blast
qed

lemma xfer_wf_make [simp]: "addr_wf a \<Longrightarrow> xfer_wf (Transfer_make a c m d)"
  by (erule addr_wf_cases) (auto simp: xfer_wf_def Transfer_make_canonical)

lemma xfer_Size_wf:
  "xfer_wf t \<Longrightarrow> xfer_Size t = unat xfer_MinSize \<or> xfer_Size t = unat xfer_MaxSize"
  by (auto simp: xfer_wf_def xfer_Size_def xfer_MinSize_def xfer_MaxSize_def split: list.splits)

text \<open>The reader inverts the canonical form.\<close>

lemma reads_Transfer:
  assumes "xfer_wf t"
  shows "reads Transfer_read (xfer_canonical t) t"
proof -
  obtain a c m d where a: "addr_wf a" and t: "t = Transfer_make a c m d"
    using assms by (rule xfer_wfE)
  let ?r = "le64 c @ le64 m @ le64 d"
  have "reads (ib_copy 24 True) ?r ?r"
    by (rule reads_ib_copy) simp_all
  then have "reads Transfer_read (addr_canonical a @ ?r) (Transfer_of (addr_canonical a @ ?r))"
    unfolding Transfer_read_def
    by (intro reads_bind [OF reads_copyAddress [OF a]] reads_bind_return)
  then show ?thesis
    by (simp add: t Transfer_make_def Uint64ToBin_le Int64ToBin_le)
qed

interpretation xfer_codec: codec xfer_canonical Transfer_read xfer_wf
  by unfold_locales (rule reads_Transfer)

section \<open>Properties\<close>

definition sample_xfer :: Transfer where
  "sample_xfer = Transfer_make sample_wallet 1 (- 10) 0"

definition sample_xfer2 :: Transfer where
  "sample_xfer2 = Transfer_make sample_wallet2 1 10 0"

lemma sample_xfer_wf [simp]: "xfer_wf sample_xfer" "xfer_wf sample_xfer2"
  by (simp_all add: sample_xfer_def sample_xfer2_def)

text \<open>A transfer built from a well-formed address has the four fields it was built from, its size is
  one of the two documented sizes, and deserialising its canonical bytes, with anything behind them,
  returns the transfer and stops right after it.\<close>

theorem transfer_round_trip:
  assumes "addr_wf a" and "length r < 2 ^ 62" and "t = Transfer_make a c m d"
  shows "xfer_getAddress t = Inr a \<and> xfer_getCoin t = Inr c \<and> xfer_getAmount t = Inr m \<and>
    xfer_getDelay t = Inr d \<and>
    (xfer_Size t = unat xfer_MinSize \<or> xfer_Size t = unat xfer_MaxSize) \<and>
    Transfer_read (InputBuffer_make (xfer_canonical t @ r) 0) =
      Inr (t, InputBuffer_make (xfer_canonical t @ r) (of_nat (xfer_Size t)))"
proof -
  have wf: "xfer_wf t" using assms by simp
  then have sz: "xfer_Size t = unat xfer_MinSize \<or> xfer_Size t = unat xfer_MaxSize"
    by (rule xfer_Size_wf)
  then have "length (xfer_canonical t @ r) < 2 ^ 63"
    using assms(2) by (auto simp: xfer_Size_def xfer_MinSize_def xfer_MaxSize_def)
  from xfer_codec.decode_encode [OF wf this] assms(1,3) sz show ?thesis
    by (simp add: xfer_Size_def)
qed

theorem transfer_round_trip_witness:
  "addr_wf sample_wallet \<and> length [1, 2 :: byte] < 2 ^ 62 \<and>
   xfer_getAmount (Transfer_make sample_wallet 1 (- 10) 0) = Inr (- 10)"
  using transfer_round_trip [of sample_wallet "[1, 2]" "Transfer_make sample_wallet 1 (- 10) 0" 1 "- 10" 0]
  by simp

end
