(* ===== verification/Ledger.thy ===== *)
theory Ledger
  imports Ordered_Map Transfers "HOL-Library.Multiset"
begin

text \<open>
  The contract shared by the two stores of coin amounts, the chain state and the summary of a
  block: posting an amount to an address and a coin changes the recorded amount of that address
  and coin and of no other. What a sequence of postings does is proved once from this contract,
  in particular that the order of the postings does not matter, that two stores that receive the
  same postings move in step, and that postings that sum to zero conserve the total.
\<close>

section \<open>Postings\<close>

type_synonym posting = "Address \<times> uint64 \<times> int64 \<times> uint64"

fun posted :: "posting \<Rightarrow> Address \<Rightarrow> uint64 \<Rightarrow> int64" where
  "posted (a, c, m, d) a' c' = (if a' = a \<and> c' = c then m else 0)"

fun posted_amount :: "posting \<Rightarrow> int64" where
  "posted_amount (a, c, m, d) = m"

definition net_posted :: "posting list \<Rightarrow> Address \<Rightarrow> uint64 \<Rightarrow> int64" where
  "net_posted ps a c = (\<Sum>p\<leftarrow>ps. posted p a c)"

lemma net_posted_Cons [simp]: "net_posted (p # ps) a c = posted p a c + net_posted ps a c"
  by (simp add: net_posted_def)

lemma net_posted_Nil [simp]: "net_posted [] a c = 0"
  by (simp add: net_posted_def)

lemma net_posted_append [simp]: "net_posted (ps @ qs) a c = net_posted ps a c + net_posted qs a c"
  by (simp add: net_posted_def)

lemma sum_list_mset_eq:
  "mset xs = mset ys \<Longrightarrow> (\<Sum>x\<leftarrow>xs. f x) = (\<Sum>x\<leftarrow>ys. f x :: 'b::comm_monoid_add)"
proof -
  have "(\<Sum>x\<leftarrow>zs. f x) = sum_mset (image_mset f (mset zs))" for zs
    by (metis mset_map sum_mset_sum_list)
  then show "mset xs = mset ys \<Longrightarrow> (\<Sum>x\<leftarrow>xs. f x) = (\<Sum>x\<leftarrow>ys. f x)" by simp
qed

lemma net_posted_permute: "mset ps = mset qs \<Longrightarrow> net_posted ps a c = net_posted qs a c"
  unfolding net_posted_def by (rule sum_list_mset_eq)

section \<open>The interface\<close>

locale ledger =
  fixes amount :: "'s \<Rightarrow> Address \<Rightarrow> uint64 \<Rightarrow> int64"
    and post :: "posting \<Rightarrow> 's \<Rightarrow> 's"
    and inv :: "'s \<Rightarrow> bool"
  assumes inv_post: "inv s \<Longrightarrow> inv (post p s)"
    and amount_post: "inv s \<Longrightarrow> amount (post p s) a c = amount s a c + posted p a c"
begin

lemma inv_fold: "inv s \<Longrightarrow> inv (fold post ps s)"
  by (induction ps arbitrary: s) (auto simp: inv_post)

lemma amount_fold: "inv s \<Longrightarrow> amount (fold post ps s) a c = amount s a c + net_posted ps a c"
  by (induction ps arbitrary: s) (simp_all add: inv_post amount_post add.assoc)

lemma amount_permute:
  "inv s \<Longrightarrow> mset ps = mset qs \<Longrightarrow> amount (fold post ps s) = amount (fold post qs s)"
  using net_posted_permute [of ps qs] by (simp add: fun_eq_iff amount_fold)

end

text \<open>Two stores that receive the same postings.\<close>

locale ledger_pair =
  l: ledger amount1 post1 inv1 + r: ledger amount2 post2 inv2
  for amount1 :: "'s \<Rightarrow> Address \<Rightarrow> uint64 \<Rightarrow> int64" and post1 inv1
    and amount2 :: "'t \<Rightarrow> Address \<Rightarrow> uint64 \<Rightarrow> int64" and post2 inv2
begin

lemma in_step:
  assumes "inv1 s" "inv2 t"
  shows "amount1 (fold post1 ps s) a c - amount1 s a c =
         amount2 (fold post2 ps t) a c - amount2 t a c"
  using assms by (simp add: l.amount_fold r.amount_fold)

end

text \<open>A store that also keeps a total over all addresses and coins.\<close>

locale ledger_total = ledger amount post inv
  for amount :: "'s \<Rightarrow> Address \<Rightarrow> uint64 \<Rightarrow> int64" and post inv +
  fixes total :: "'s \<Rightarrow> int64"
  assumes total_post: "inv s \<Longrightarrow> total (post p s) = total s + posted_amount p"
begin

lemma total_fold: "inv s \<Longrightarrow> total (fold post ps s) = total s + (\<Sum>p\<leftarrow>ps. posted_amount p)"
  by (induction ps arbitrary: s) (simp_all add: inv_post total_post add.assoc)

lemma total_conserved:
  "inv s \<Longrightarrow> (\<Sum>p\<leftarrow>ps. posted_amount p) = 0 \<Longrightarrow> total (fold post ps s) = total s"
  by (simp add: total_fold)

end

end
