(* ===== verification/Chain_State.thy ===== *)
theory Chain_State
  imports Ledger
begin

text \<open>
  \<^verbatim>\<open>consensus/chainstate.h\<close> and \<^verbatim>\<open>chainstate.cpp\<close>: the balances, a map from addresses to a map
  from coin types to signed amounts. \<open>addCoin\<close> and \<open>getAmount\<close> are the two operations;
  \<open>balance\<close> is the total function they maintain, and the chain state is a ledger over it.
\<close>

section \<open>State and operations\<close>

type_synonym CoinMap = "(uint64, int64) omap"

record ChainState =
  state_map :: "(Address, CoinMap) omap"

definition ChainState_empty :: ChainState where
  "ChainState_empty = \<lparr>state_map = []\<rparr>"

text \<open>\<^verbatim>\<open>m[k] += x\<close> on a coin map: a missing entry counts as zero.\<close>

definition coin_plus :: "uint64 \<Rightarrow> int64 \<Rightarrow> CoinMap \<Rightarrow> CoinMap" where
  "coin_plus k x m = omap_set k ((case map_of m k of None \<Rightarrow> 0 | Some y \<Rightarrow> y) + x) m"

definition addCoin :: "SmartCoin \<Rightarrow> ChainState \<Rightarrow> bool \<times> ChainState" where
  "addCoin coin st =
     (case map_of (state_map st) (sc_addr coin) of
        Some inner \<Rightarrow>
          (True, st\<lparr>state_map := omap_set (sc_addr coin)
                     (coin_plus (sc_coin coin) (sc_amount coin) inner) (state_map st)\<rparr>)
      | None \<Rightarrow>
          let inner = omap_insert (sc_coin coin) (sc_amount coin) [];
              inserted = (map_of (state_map st) (sc_addr coin) = None)
          in (inserted, st\<lparr>state_map := omap_insert (sc_addr coin) inner (state_map st)\<rparr>))"

definition getAmount :: "uint64 \<Rightarrow> Address \<Rightarrow> ChainState \<Rightarrow> error + int64" where
  "getAmount type addr st =
     (case map_of (state_map st) addr of
        Some inner \<Rightarrow> omap_at inner type
      | None \<Rightarrow> Inr 0)"

definition getStateMap :: "ChainState \<Rightarrow> (Address, CoinMap) omap" where
  "getStateMap st = state_map st"

section \<open>Invariant and balances\<close>

definition cs_wf :: "ChainState \<Rightarrow> bool" where
  "cs_wf st = (omap_ok (state_map st) \<and> (\<forall>m \<in> snd ` set (state_map st). omap_ok m))"

definition balance :: "ChainState \<Rightarrow> Address \<Rightarrow> uint64 \<Rightarrow> int64" where
  "balance st a c =
     (case map_of (state_map st) a of None \<Rightarrow> 0
      | Some m \<Rightarrow> (case map_of m c of None \<Rightarrow> 0 | Some x \<Rightarrow> x))"

definition cs_total :: "ChainState \<Rightarrow> int64" where
  "cs_total st = (\<Sum>(a, m)\<leftarrow>state_map st. \<Sum>(c, x)\<leftarrow>m. x)"

lemma cs_wf_empty [simp]: "cs_wf ChainState_empty"
  by (simp add: cs_wf_def ChainState_empty_def)

lemma balance_empty [simp]: "balance ChainState_empty a c = 0"
  by (simp add: balance_def ChainState_empty_def)

lemma set_omap_set: "set (omap_set k v m) \<subseteq> insert (k, v) (set m)"
  by (induction k v m rule: omap_set.induct) auto

lemma snd_omap_set: "snd ` set (omap_set k v m) \<subseteq> insert v (snd ` set m)"
  using set_omap_set [of k v m] by force

text \<open>Both branches of \<open>addCoin\<close> store the same thing: the coin map with the amount added.\<close>

lemma addCoin_eq:
  "addCoin coin st =
     (True, st\<lparr>state_map := omap_set (sc_addr coin)
              (coin_plus (sc_coin coin) (sc_amount coin)
                (case map_of (state_map st) (sc_addr coin) of None \<Rightarrow> [] | Some m \<Rightarrow> m))
              (state_map st)\<rparr>)"
  by (auto simp: addCoin_def Let_def coin_plus_def omap_insert_absent split: option.splits)

lemma addCoin_success: "fst (addCoin coin st)"
  by (simp add: addCoin_eq)

lemma inner_ok:
  "cs_wf st \<Longrightarrow> omap_ok (case map_of (state_map st) a of None \<Rightarrow> [] | Some m \<Rightarrow> m)"
  by (force simp: cs_wf_def dest: map_of_SomeD split: option.splits)

lemma cs_wf_addCoin: "cs_wf st \<Longrightarrow> cs_wf (snd (addCoin coin st))"
  using inner_ok [of st "sc_addr coin"] snd_omap_set
  by (fastforce simp: addCoin_eq coin_plus_def cs_wf_def)

lemma balance_addCoin:
  assumes "cs_wf st"
  shows "balance (snd (addCoin coin st)) a c =
         balance st a c + (if a = sc_addr coin \<and> c = sc_coin coin then sc_amount coin else 0)"
  using assms inner_ok [OF assms, of "sc_addr coin"]
  by (auto simp: addCoin_eq balance_def coin_plus_def cs_wf_def map_of_omap_set split: option.splits)

lemma sum_coin_plus:
  "omap_ok m \<Longrightarrow> (\<Sum>(c, x)\<leftarrow>coin_plus k y m. x) = (\<Sum>(c, x)\<leftarrow>m. x) + y"
  using sum_list_omap_set [of m "\<lambda>c x. x" k]
  by (auto simp: coin_plus_def split: option.splits)

lemma cs_total_addCoin:
  assumes "cs_wf st"
  shows "cs_total (snd (addCoin coin st)) = cs_total st + sc_amount coin"
proof -
  have "omap_ok (state_map st)" using assms by (simp add: cs_wf_def)
  from sum_list_omap_set [OF this, of "\<lambda>a m. \<Sum>(c, x)\<leftarrow>m. x" "sc_addr coin"]
    inner_ok [OF assms, of "sc_addr coin"]
  show ?thesis
    by (auto simp: cs_total_def addCoin_eq sum_coin_plus split: option.splits)
qed

text \<open>What \<open>getAmount\<close> returns: the balance, except that asking for a coin type that a known address
  never held throws.\<close>

lemma getAmount_balance:
  "getAmount c a st =
     (case map_of (state_map st) a of
        Some m \<Rightarrow> if map_of m c = None then Inl OutOfRange else Inr (balance st a c)
      | None \<Rightarrow> Inr 0)"
  by (auto simp: getAmount_def balance_def omap_at_def split: option.splits)

lemma getAmount_Inr: "getAmount c a st = Inr x \<Longrightarrow> x = balance st a c"
  by (auto simp: getAmount_balance balance_def split: option.splits if_splits)

lemma getAmount_addCoin:
  assumes "cs_wf st"
  shows "getAmount (sc_coin coin) (sc_addr coin) (snd (addCoin coin st)) =
         Inr (balance st (sc_addr coin) (sc_coin coin) + sc_amount coin)"
  using assms inner_ok [OF assms, of "sc_addr coin"]
  by (auto simp: getAmount_def addCoin_eq balance_def coin_plus_def cs_wf_def omap_at_def
      map_of_omap_set split: option.splits)

section \<open>The chain state is a ledger\<close>

fun cs_post :: "posting \<Rightarrow> ChainState \<Rightarrow> ChainState" where
  "cs_post (a, c, m, d) st = snd (addCoin (SmartCoin_make a c m) st)"

interpretation cs: ledger_total balance cs_post cs_wf cs_total
proof unfold_locales
  fix st :: ChainState and p :: posting and a c
  assume wf: "cs_wf st"
  obtain b k m d where p: "p = (b, k, m, d)" by (cases p)
  show "cs_wf (cs_post p st)" using wf by (simp add: p cs_wf_addCoin)
  show "balance (cs_post p st) a c = balance st a c + posted p a c"
    using wf by (simp add: p balance_addCoin SmartCoin_make_def)
  show "cs_total (cs_post p st) = cs_total st + posted_amount p"
    using wf by (simp add: p cs_total_addCoin SmartCoin_make_def)
qed

section \<open>Properties\<close>

text \<open>After any sequence of \<open>addCoin\<close> calls the balance of every address and coin is the old balance
  plus the sum of what was added to it, modulo the 64-bit width; the order of the calls does not
  matter, and calls whose amounts sum to zero conserve the total.\<close>

theorem chain_state_balances:
  assumes "cs_wf st" and "mset ps = mset qs"
  shows "balance (fold cs_post ps st) a c = balance st a c + net_posted ps a c \<and>
    balance (fold cs_post qs st) = balance (fold cs_post ps st) \<and>
    cs_wf (fold cs_post ps st) \<and>
    ((\<Sum>p\<leftarrow>ps. posted_amount p) = 0 \<longrightarrow> cs_total (fold cs_post ps st) = cs_total st)"
  using assms cs.amount_fold [of st ps a c] cs.amount_permute [of st ps qs] cs.inv_fold [of st ps]
    cs.total_conserved [of st ps] by simp

theorem chain_state_balances_witness:
  "cs_wf ChainState_empty \<and>
   balance (fold cs_post [(sample_wallet, 1, - 3, 0), (sample_node, 1, 3, 0)] ChainState_empty) sample_wallet 1 = - 3"
  using chain_state_balances [of ChainState_empty
      "[(sample_wallet, 1, - 3, 0), (sample_node, 1, 3, 0)]"
      "[(sample_node, 1, 3, 0), (sample_wallet, 1, - 3, 0)]" sample_wallet 1]
  by (simp add: sample_wallet_def sample_node_def)

text \<open>\<open>getAmount\<close> returns zero for an unknown address and the balance for a known address and coin;
  for a known address and a coin it never held it throws instead of returning zero.\<close>

theorem getAmount_cases:
  "getAmount c a st =
     (case map_of (state_map st) a of
        None \<Rightarrow> Inr 0
      | Some m \<Rightarrow> if map_of m c = None then Inl OutOfRange else Inr (balance st a c))"
  by (simp add: getAmount_balance split: option.splits)

end
