(* ===== verification/Summaries.thy ===== *)
theory Summaries
  imports Chain_State
begin

text \<open>
  \<^verbatim>\<open>primitives/Summary.h\<close> and \<^verbatim>\<open>Summary.cpp\<close>: the changes that a block makes, per address a map of
  delayed changes and a map of immediate ones. The serialised form lists the addresses in order
  with the entries of both maps. The lemmas show that the summary is a ledger (its net change per
  address and coin is the sum of the postings), that \<open>isSane\<close> decides whether the total is zero,
  and that \<open>Summary_read\<close> inverts \<open>sum_getCanonical\<close>.
\<close>

section \<open>State and operations\<close>

record DelayedItem =
  di_delay :: uint64
  di_delta :: uint64

definition DelayedItem_make :: "uint64 \<Rightarrow> int64 \<Rightarrow> DelayedItem" where
  "DelayedItem_make delay_val delta_val = \<lparr>di_delay = delay_val, di_delta = delta_val\<rparr>"

type_synonym DelayedMap = "(uint64, DelayedItem) omap"
type_synonym SummaryPair = "DelayedMap \<times> CoinMap"
type_synonym SummaryMap = "(Address, SummaryPair) omap"

record Summary =
  summary_map :: SummaryMap

definition Summary_Create :: Summary where
  "Summary_Create = \<lparr>summary_map = []\<rparr>"

definition Summary_Copy :: "Summary \<Rightarrow> Summary" where
  "Summary_Copy summary = \<lparr>summary_map = summary_map summary\<rparr>"

definition AddToDelayedMap :: "uint64 \<Rightarrow> DelayedItem \<Rightarrow> DelayedMap \<Rightarrow> bool \<times> DelayedMap" where
  "AddToDelayedMap coin item existing =
     (True, case map_of existing coin of
        Some the_item \<Rightarrow>
          let the_item = the_item\<lparr>di_delta := di_delta the_item + di_delta item\<rparr>;
              the_item = the_item\<lparr>di_delay := max (di_delay the_item) (di_delay item)\<rparr>
          in omap_set coin the_item existing
      | None \<Rightarrow> omap_insert coin item existing)"

definition AddToCoinMap :: "uint64 \<Rightarrow> DelayedItem \<Rightarrow> CoinMap \<Rightarrow> bool \<times> CoinMap" where
  "AddToCoinMap coin item existing =
     (True, case map_of existing coin of
        Some the_item \<Rightarrow> omap_set coin (the_item + di_delta item) existing
      | None \<Rightarrow> omap_insert coin (di_delta item) existing)"

definition sum_addItem :: "Address \<Rightarrow> uint64 \<Rightarrow> DelayedItem \<Rightarrow> Summary \<Rightarrow> bool \<times> Summary" where
  "sum_addItem addr coin item s =
     (case map_of (summary_map s) addr of
        Some existing \<Rightarrow>
          (if di_delay item > 0 then
             (case AddToDelayedMap coin item (fst existing) of (ok, delayed) \<Rightarrow>
                if \<not> ok then (False, s)
                else (True, s\<lparr>summary_map := omap_set addr (delayed, snd existing) (summary_map s)\<rparr>))
           else
             (case AddToCoinMap coin item (snd existing) of (ok, the_map) \<Rightarrow>
                if \<not> ok then (False, s)
                else (True, s\<lparr>summary_map := omap_set addr (fst existing, the_map) (summary_map s)\<rparr>)))
      | None \<Rightarrow>
          let new_delayed = (if di_delay item > 0 then omap_insert coin item [] else []);
              new_map = (if di_delay item > 0 then [] else omap_insert coin (di_delta item) [])
          in (True, s\<lparr>summary_map := omap_insert addr (new_delayed, new_map) (summary_map s)\<rparr>))"

definition sum_addItem4 :: "Address \<Rightarrow> uint64 \<Rightarrow> int64 \<Rightarrow> uint64 \<Rightarrow> Summary \<Rightarrow> bool \<times> Summary" where
  "sum_addItem4 addr coin_type delta delay s =
     sum_addItem addr coin_type (DelayedItem_make delay delta) s"

definition sum_addTransfer :: "Transfer \<Rightarrow> Summary \<Rightarrow> error + (bool \<times> Summary)" where
  "sum_addTransfer transfer s =
     bindE (xfer_getDelay transfer) (\<lambda>delay.
     bindE (xfer_getAmount transfer) (\<lambda>amount.
     bindE (xfer_getAddress transfer) (\<lambda>addr.
     bindE (xfer_getCoin transfer) (\<lambda>coin.
     Inr (sum_addItem addr coin (DelayedItem_make delay amount) s)))))"

text \<open>\<^verbatim>\<open>getCanonical\<close>: the output vector is extended entry by entry.\<close>

definition out_delayed :: "uint64 \<times> DelayedItem \<Rightarrow> bytes \<Rightarrow> bytes" where
  "out_delayed e out =
     Int64ToBin (di_delta (snd e)) (Uint64ToBin (di_delay (snd e)) (Uint64ToBin (fst e) out))"

definition out_coin :: "uint64 \<times> int64 \<Rightarrow> bytes \<Rightarrow> bytes" where
  "out_coin e out = Int64ToBin (snd e) (Uint64ToBin (fst e) out)"

definition out_entry :: "Address \<times> SummaryPair \<Rightarrow> bytes \<Rightarrow> bytes" where
  "out_entry summary out =
     (let out = out @ addr_canonical (fst summary);
          delayed = fst (snd summary); coin_map = snd (snd summary);
          out = Uint64ToBin (of_nat (length delayed)) out;
          out = Uint64ToBin (of_nat (length coin_map)) out
      in fold out_coin coin_map (fold out_delayed delayed out))"

definition sum_getCanonical :: "Summary \<Rightarrow> bytes" where
  "sum_getCanonical s =
     fold out_entry (summary_map s) (Uint32ToBin (of_nat (length (summary_map s))) [])"

definition sum_getByteSize :: "Summary \<Rightarrow> size_t" where
  "sum_getByteSize s = vec_size (sum_getCanonical s)"

definition sum_getTransfers :: "Summary \<Rightarrow> Transfer list" where
  "sum_getTransfers s =
     concat (map (\<lambda>(addr, delayed, coin_map).
         map (\<lambda>(coin, item). Transfer_make addr coin (di_delta item) (di_delay item)) delayed
       @ map (\<lambda>(coin, delta). Transfer_make addr coin delta 0) coin_map) (summary_map s))"

definition getTransferCount :: "Summary \<Rightarrow> size_t" where
  "getTransferCount s =
     fold (\<lambda>(addr, delayed, coin_map) n. n + vec_size delayed + vec_size coin_map) (summary_map s) 0"

definition getCoinsByAddr :: "Address \<Rightarrow> uint64 \<Rightarrow> Summary \<Rightarrow> SmartCoin list" where
  "getCoinsByAddr addr elapsed s =
     (case map_of (summary_map s) addr of
        None \<Rightarrow> []
      | Some (delayed, coin_map) \<Rightarrow>
          map (\<lambda>(coin, item). SmartCoin_make addr coin (di_delta item))
            (filter (\<lambda>(coin, item). di_delay item < elapsed) delayed)
          @ map (\<lambda>(coin, amount). SmartCoin_make addr coin amount) coin_map)"

definition sum_coin_total :: "SummaryMap \<Rightarrow> uint64" where
  "sum_coin_total m =
     fold (\<lambda>(addr, delayed_map, coin_map) coin_total.
        fold (\<lambda>(k, coin) t. t + coin) coin_map
          (fold (\<lambda>(k, item) t. t + di_delta item) delayed_map coin_total)) m 0"

definition isSane :: "Summary \<Rightarrow> bool" where
  "isSane s = (if summary_map s = [] then False
               else if sum_coin_total (summary_map s) \<noteq> 0 then False
               else True)"

definition sum_MinSize :: size_t where
  "sum_MinSize = 4"

definition read_delayed :: "DelayedMap \<Rightarrow> DelayedMap reader" where
  "read_delayed delayed =
     bindR (getNextUint64 True) (\<lambda>coin.
     bindR (getNextUint64 True) (\<lambda>delay.
     bindR (getNextUint64 True) (\<lambda>delta.
     returnR (omap_insert coin (DelayedItem_make delay delta) delayed))))"

definition read_coin :: "CoinMap \<Rightarrow> CoinMap reader" where
  "read_coin coin_map =
     bindR (getNextUint64 True) (\<lambda>coin.
     bindR (getNextUint64 True) (\<lambda>delta.
     returnR (omap_insert coin delta coin_map)))"

definition read_entry :: "SummaryMap \<Rightarrow> SummaryMap reader" where
  "read_entry m =
     bindR (copyAddress True) (\<lambda>one_addr.
     bindR (getNextUint64 True) (\<lambda>delayed_count.
     bindR (getNextUint64 True) (\<lambda>coin_count.
     bindR (loopR (unat delayed_count) read_delayed []) (\<lambda>delayed.
     bindR (loopR (unat coin_count) read_coin []) (\<lambda>coin_map.
     returnR (omap_insert one_addr (delayed, coin_map) m))))))"

definition Summary_read :: "Summary reader" where
  "Summary_read = (\<lambda>ib.
     if ib_size ib < sum_MinSize + ib_offset ib
     then Inl (RuntimeError ''Invalid serialized Summary, too small!'')
     else bindR (getNextUint32 True) (\<lambda>addr_count.
          bindR (loopR (unat addr_count) read_entry []) (\<lambda>m.
          returnR \<lparr>summary_map = m\<rparr>)) ib)"

section \<open>Invariant and net changes\<close>

definition sum_wf :: "Summary \<Rightarrow> bool" where
  "sum_wf s = (omap_ok (summary_map s) \<and>
     (\<forall>p \<in> snd ` set (summary_map s). omap_ok (fst p) \<and> omap_ok (snd p)))"

definition delayed_amount :: "DelayedMap \<Rightarrow> uint64 \<Rightarrow> int64" where
  "delayed_amount m c = (case map_of m c of None \<Rightarrow> 0 | Some i \<Rightarrow> di_delta i)"

definition coin_amount :: "CoinMap \<Rightarrow> uint64 \<Rightarrow> int64" where
  "coin_amount m c = (case map_of m c of None \<Rightarrow> 0 | Some x \<Rightarrow> x)"

definition pair_change :: "SummaryPair \<Rightarrow> uint64 \<Rightarrow> int64" where
  "pair_change p c = delayed_amount (fst p) c + coin_amount (snd p) c"

text \<open>The net change that a summary records for an address and a coin, delayed or not.\<close>

definition net_change :: "Summary \<Rightarrow> Address \<Rightarrow> uint64 \<Rightarrow> int64" where
  "net_change s a c =
     (case map_of (summary_map s) a of None \<Rightarrow> 0 | Some p \<Rightarrow> pair_change p c)"

definition pair_total :: "SummaryPair \<Rightarrow> int64" where
  "pair_total p = (\<Sum>(k, i)\<leftarrow>fst p. di_delta i) + (\<Sum>(k, x)\<leftarrow>snd p. x)"

lemma AddToCoinMap_eq: "AddToCoinMap c i m = (True, coin_plus c (di_delta i) m)"
  by (auto simp: AddToCoinMap_def coin_plus_def omap_insert_absent split: option.splits)

definition delayed_plus :: "uint64 \<Rightarrow> DelayedItem \<Rightarrow> DelayedMap \<Rightarrow> DelayedMap" where
  "delayed_plus c i m = snd (AddToDelayedMap c i m)"

lemma delayed_plus_eq:
  "delayed_plus c i m =
     omap_set c (case map_of m c of None \<Rightarrow> i
       | Some j \<Rightarrow> \<lparr>di_delay = max (di_delay j) (di_delay i), di_delta = di_delta j + di_delta i\<rparr>) m"
proof (cases "map_of m c")
  case None
  then show ?thesis by (simp add: delayed_plus_def AddToDelayedMap_def omap_insert_absent)
next
  case (Some j)
  then show ?thesis by (cases j) (simp add: delayed_plus_def AddToDelayedMap_def Let_def)
qed

text \<open>All branches of \<open>addItem\<close> at once: the pair of the address, empty if there is none, with the
  item added to one of its maps.\<close>

definition pair_plus :: "uint64 \<Rightarrow> DelayedItem \<Rightarrow> SummaryPair \<Rightarrow> SummaryPair" where
  "pair_plus c i p =
     (if di_delay i > 0 then (delayed_plus c i (fst p), snd p)
      else (fst p, coin_plus c (di_delta i) (snd p)))"

lemma sum_addItem_eq:
  "sum_addItem a c i s =
     (True, s\<lparr>summary_map := omap_set a
        (pair_plus c i (case map_of (summary_map s) a of None \<Rightarrow> ([], []) | Some p \<Rightarrow> p))
        (summary_map s)\<rparr>)"
  by (auto simp: sum_addItem_def pair_plus_def AddToCoinMap_eq AddToDelayedMap_def delayed_plus_def
      coin_plus_def omap_insert_absent Let_def split: option.splits)

lemma sum_addItem_success: "fst (sum_addItem a c i s)"
  by (simp add: sum_addItem_eq)

abbreviation (input) pair_at :: "Summary \<Rightarrow> Address \<Rightarrow> SummaryPair" where
  "pair_at s a \<equiv> (case map_of (summary_map s) a of None \<Rightarrow> ([], []) | Some p \<Rightarrow> p)"

definition pair_ok :: "SummaryPair \<Rightarrow> bool" where
  "pair_ok p = (omap_ok (fst p) \<and> omap_ok (snd p))"

lemma sum_wf_alt: "sum_wf s = (omap_ok (summary_map s) \<and> (\<forall>p \<in> snd ` set (summary_map s). pair_ok p))"
  by (simp add: sum_wf_def pair_ok_def)

lemma pair_ok_at: "sum_wf s \<Longrightarrow> pair_ok (pair_at s a)"
  by (force simp: sum_wf_alt pair_ok_def dest: map_of_SomeD split: option.splits)

lemma pair_ok_plus: "pair_ok p \<Longrightarrow> pair_ok (pair_plus c i p)"
  by (simp add: pair_ok_def pair_plus_def delayed_plus_eq coin_plus_def)

lemma pair_change_plus:
  assumes "pair_ok p"
  shows "pair_change (pair_plus c i p) c' = pair_change p c' + (if c' = c then di_delta i else 0)"
  using assms
  by (simp add: pair_ok_def pair_change_def pair_plus_def delayed_plus_eq coin_plus_def
      delayed_amount_def coin_amount_def map_of_omap_set split: option.splits)

lemma pair_total_plus:
  assumes "pair_ok p"
  shows "pair_total (pair_plus c i p) = pair_total p + di_delta i"
proof -
  have "omap_ok (fst p)" using assms by (simp add: pair_ok_def)
  from sum_list_omap_set [OF this, of "\<lambda>k i. di_delta i"] sum_coin_plus assms
  show ?thesis
    by (auto simp: pair_ok_def pair_total_def pair_plus_def delayed_plus_eq split: option.splits)
qed

lemma sum_wf_addItem: "sum_wf s \<Longrightarrow> sum_wf (snd (sum_addItem a c i s))"
  using pair_ok_plus [OF pair_ok_at [of s a], of c i] snd_omap_set
  by (fastforce simp: sum_addItem_eq sum_wf_alt)

lemma net_change_addItem:
  assumes "sum_wf s"
  shows "net_change (snd (sum_addItem a c i s)) a' c' =
         net_change s a' c' + (if a' = a \<and> c' = c then di_delta i else 0)"
proof -
  have e: "pair_change ([], []) c = 0" for c
    by (simp add: pair_change_def delayed_amount_def coin_amount_def)
  show ?thesis
    using assms pair_ok_at [OF assms, of a]
    by (auto simp: sum_addItem_eq net_change_def sum_wf_alt map_of_omap_set pair_change_plus e
        split: option.splits)
qed

definition sum_total :: "Summary \<Rightarrow> int64" where
  "sum_total s = (\<Sum>(a, p)\<leftarrow>summary_map s. pair_total p)"

lemma sum_total_addItem:
  assumes "sum_wf s"
  shows "sum_total (snd (sum_addItem a c i s)) = sum_total s + di_delta i"
proof -
  have "omap_ok (summary_map s)" using assms by (simp add: sum_wf_def)
  from sum_list_omap_set [OF this, of "\<lambda>a p. pair_total p" a] pair_ok_at [OF assms, of a]
  show ?thesis
    by (auto simp: sum_total_def sum_addItem_eq pair_total_plus pair_total_def [of "([], [])"]
        split: option.splits)
qed

text \<open>The running total of \<open>isSane\<close> is the sum of all entries.\<close>

lemma fold_plus: "fold (\<lambda>x t. t + f x) xs (t::'a::len word) = t + (\<Sum>x\<leftarrow>xs. f x)"
  by (induction xs arbitrary: t) (simp_all add: add.assoc)

lemma fold_plus_pair: "fold (\<lambda>(k, x) t. t + f x) xs (t::'a::len word) = t + (\<Sum>(k, x)\<leftarrow>xs. f x)"
  using fold_plus [of "\<lambda>(k, x). f x" xs t] by (simp add: case_prod_unfold)

lemma sum_coin_total_eq: "sum_coin_total (summary_map s) = sum_total s"
proof -
  have "fold (\<lambda>(addr, delayed_map, coin_map) coin_total.
          fold (\<lambda>(k, coin) t. t + coin) coin_map
            (fold (\<lambda>(k, item) t. t + di_delta item) delayed_map coin_total)) m t =
        t + (\<Sum>(a, p)\<leftarrow>m. pair_total p)" for m t
    by (induction m arbitrary: t)
      (auto simp: fold_plus_pair [where f = "\<lambda>x. x"] fold_plus_pair [where f = di_delta]
        pair_total_def add.assoc)
  from this [of "summary_map s" 0] show ?thesis
    by (simp add: sum_coin_total_def sum_total_def)
qed

lemma isSane_iff: "isSane s \<longleftrightarrow> summary_map s \<noteq> [] \<and> sum_total s = 0"
  by (simp add: isSane_def sum_coin_total_eq)

section \<open>The summary is a ledger\<close>

fun sum_post :: "posting \<Rightarrow> Summary \<Rightarrow> Summary" where
  "sum_post (a, c, m, d) s = snd (sum_addItem a c (DelayedItem_make d m) s)"

interpretation sumry: ledger_total net_change sum_post sum_wf sum_total
proof unfold_locales
  fix s :: Summary and p :: posting and a c
  assume wf: "sum_wf s"
  obtain b k m d where p: "p = (b, k, m, d)" by (cases p)
  show "sum_wf (sum_post p s)" using wf by (simp add: p sum_wf_addItem)
  show "net_change (sum_post p s) a c = net_change s a c + posted p a c"
    using wf by (simp add: p net_change_addItem DelayedItem_make_def)
  show "sum_total (sum_post p s) = sum_total s + posted_amount p"
    using wf by (simp add: p sum_total_addItem DelayedItem_make_def)
qed

interpretation cs_sum: ledger_pair balance cs_post cs_wf net_change sum_post sum_wf
  by unfold_locales

section \<open>Serialisation\<close>

text \<open>The canonical bytes as a concatenation.\<close>

definition enc_delayed :: "uint64 \<times> DelayedItem \<Rightarrow> bytes" where
  "enc_delayed e = le64 (fst e) @ le64 (di_delay (snd e)) @ le64 (di_delta (snd e))"

definition enc_coin :: "uint64 \<times> int64 \<Rightarrow> bytes" where
  "enc_coin e = le64 (fst e) @ le64 (snd e)"

definition enc_entry :: "Address \<times> SummaryPair \<Rightarrow> bytes" where
  "enc_entry e = addr_canonical (fst e) @ le64 (of_nat (length (fst (snd e))))
     @ le64 (of_nat (length (snd (snd e))))
     @ concat (map enc_delayed (fst (snd e))) @ concat (map enc_coin (snd (snd e)))"

lemma fold_append_concat:
  "(\<And>x out. f x out = out @ g x) \<Longrightarrow> fold f xs out = out @ concat (map g xs)"
  by (induction xs arbitrary: out) simp_all

lemma out_entry_eq: "out_entry e out = out @ enc_entry e"
proof -
  have "fold out_delayed ds out = out @ concat (map enc_delayed ds)" for ds out
    by (rule fold_append_concat) (simp add: out_delayed_def enc_delayed_def Uint64ToBin_le Int64ToBin_le)
  moreover have "fold out_coin cs out = out @ concat (map enc_coin cs)" for cs out
    by (rule fold_append_concat) (simp add: out_coin_def enc_coin_def Uint64ToBin_le Int64ToBin_le)
  ultimately show ?thesis
    by (simp add: out_entry_def enc_entry_def Uint64ToBin_le Let_def)
qed

lemma sum_getCanonical_eq:
  "sum_getCanonical s =
     le32 (of_nat (length (summary_map s))) @ concat (map enc_entry (summary_map s))"
  unfolding sum_getCanonical_def
  by (simp add: fold_append_concat [of out_entry enc_entry] out_entry_eq Uint32ToBin_le)

text \<open>What can be serialised without loss: addresses are well formed and the counts fit their
  fields.\<close>

definition entry_encodable :: "Address \<times> SummaryPair \<Rightarrow> bool" where
  "entry_encodable e = (addr_wf (fst e) \<and> pair_ok (snd e)
     \<and> length (fst (snd e)) < 2 ^ 64 \<and> length (snd (snd e)) < 2 ^ 64)"

definition sum_encodable :: "Summary \<Rightarrow> bool" where
  "sum_encodable s = (omap_ok (summary_map s) \<and> length (summary_map s) < 2 ^ 32
     \<and> list_all entry_encodable (summary_map s))"

lemma reads_read_delayed: "reads (read_delayed m) (enc_delayed e) (omap_insert (fst e) (snd e) m)"
proof -
  have "DelayedItem_make (di_delay i) (di_delta i) = i" for i
    by (simp add: DelayedItem_make_def)
  then show ?thesis
    unfolding read_delayed_def enc_delayed_def
    by (intro reads_bind [OF reads_getNextUint64] reads_bind_value [OF reads_getNextUint64]) simp
qed

lemma reads_read_coin: "reads (read_coin m) (enc_coin e) (omap_insert (fst e) (snd e) m)"
  unfolding read_coin_def enc_coin_def
  by (intro reads_bind [OF reads_getNextUint64] reads_bind_value [OF reads_getNextUint64]) simp

lemma fold_omap_insert_Nil: "omap_ok es \<Longrightarrow> fold (\<lambda>e. omap_insert (fst e) (snd e)) es [] = es"
  using fold_omap_insert [of "[]" es] by (simp add: case_prod_unfold)

lemma reads_read_entry:
  assumes "entry_encodable e"
  shows "reads (read_entry m) (enc_entry e) (omap_insert (fst e) (snd e) m)"
proof -
  let ?dm = "fst (snd e)" and ?cm = "snd (snd e)"
  have ok: "addr_wf (fst e)" "omap_ok ?dm" "omap_ok ?cm" "length ?dm < 2 ^ 64" "length ?cm < 2 ^ 64"
    using assms by (simp_all add: entry_encodable_def pair_ok_def)
  have d: "reads (loopR (length ?dm) read_delayed []) (concat (map enc_delayed ?dm)) ?dm"
    using reads_loop [of ?dm read_delayed enc_delayed "\<lambda>e. omap_insert (fst e) (snd e)" "[]"]
      reads_read_delayed fold_omap_insert_Nil [OF ok(2)] by simp
  have c: "reads (loopR (length ?cm) read_coin []) (concat (map enc_coin ?cm)) ?cm"
    using reads_loop [of ?cm read_coin enc_coin "\<lambda>e. omap_insert (fst e) (snd e)" "[]"]
      reads_read_coin fold_omap_insert_Nil [OF ok(3)] by simp
  have "reads (bindR (loopR (length ?cm) read_coin []) (\<lambda>cm. returnR (omap_insert (fst e) (?dm, cm) m)))
          (concat (map enc_coin ?cm)) (omap_insert (fst e) (?dm, ?cm) m)"
    by (rule reads_bind_return [OF c])
  then have "reads (read_entry m) (enc_entry e) (omap_insert (fst e) (?dm, ?cm) m)"
    unfolding read_entry_def enc_entry_def
    using ok d by (intro reads_bind [OF reads_copyAddress] reads_bind [OF reads_getNextUint64]
        reads_bind) simp_all
  then show ?thesis by simp
qed

lemma reads_size_guard:
  assumes "reads p bs x" and "unat n \<le> length bs" and "unat n < 2 ^ 63"
  shows "reads (\<lambda>ib. if ib_size ib < n + ib_offset ib then Inl e else p ib) bs x"
proof (rule readsI)
  fix ib r
  assume ib: "ib_wf ib" "ib_rest ib = bs @ r"
  then have "\<not> ib_size ib < n + ib_offset ib"
    using size_guard [OF ib(1) assms(3)] assms(2) by (simp add: add.commute)
  then show "(if ib_size ib < n + ib_offset ib then Inl e else p ib) = Inr (x, advance (length bs) ib)"
    using readsD [OF assms(1) ib] by simp
qed

lemma Summary_eta [simp]: "\<lparr>summary_map = summary_map s\<rparr> = s"
  by (cases s) simp

lemma reads_Summary:
  assumes "sum_encodable s"
  shows "reads Summary_read (sum_getCanonical s) s"
proof -
  let ?m = "summary_map s"
  have ok: "omap_ok ?m" "length ?m < 2 ^ 32" "\<forall>e \<in> set ?m. entry_encodable e"
    using assms by (simp_all add: sum_encodable_def list_all_iff)
  have "reads (loopR (length ?m) read_entry []) (concat (map enc_entry ?m)) ?m"
    using reads_loop [of ?m read_entry enc_entry "\<lambda>e. omap_insert (fst e) (snd e)" "[]"]
      reads_read_entry ok(3) fold_omap_insert_Nil [OF ok(1)] by simp
  then have "reads (bindR (getNextUint32 True) (\<lambda>n. bindR (loopR (unat n) read_entry [])
      (\<lambda>m. returnR \<lparr>summary_map = m\<rparr>))) (sum_getCanonical s) s"
    unfolding sum_getCanonical_eq using ok(2)
    by (intro reads_bind [OF reads_getNextUint32] reads_bind_value) (simp, rule Summary_eta [symmetric])
  then show ?thesis
    unfolding Summary_read_def sum_MinSize_def
    by (rule reads_size_guard) (simp_all add: sum_getCanonical_eq)
qed

interpretation sum_codec: codec sum_getCanonical Summary_read sum_encodable
  by unfold_locales (rule reads_Summary)

lemma sum_encodable_wf: "sum_encodable s \<Longrightarrow> sum_wf s"
  by (auto simp: sum_encodable_def sum_wf_alt list_all_iff entry_encodable_def)

lemma sum_wf_Create: "sum_wf Summary_Create"
  by (simp add: sum_wf_def Summary_Create_def)

section \<open>Properties\<close>

text \<open>The chain state and the summary of a block receive the same postings; for every address and coin
  the balance changes by exactly what the summary records, delayed and immediate together.\<close>

theorem state_and_summary_in_step:
  assumes "cs_wf st" "sum_wf sm"
  shows "balance (fold cs_post ps st) a c - balance st a c =
         net_change (fold sum_post ps sm) a c - net_change sm a c"
  using assms by (rule cs_sum.in_step)

theorem state_and_summary_in_step_witness:
  "cs_wf ChainState_empty \<and> sum_wf Summary_Create \<and>
   balance (fold cs_post [(sample_wallet, 1, 5, 9)] ChainState_empty) sample_wallet 1 - balance ChainState_empty sample_wallet 1 =
   net_change (fold sum_post [(sample_wallet, 1, 5, 9)] Summary_Create) sample_wallet 1 - net_change Summary_Create sample_wallet 1"
  using state_and_summary_in_step [of ChainState_empty Summary_Create "[(sample_wallet, 1, 5, 9)]" sample_wallet 1]
  by (simp add: sum_wf_def Summary_Create_def)

text \<open>\<open>isSane\<close> accepts a summary exactly when it is not empty and the sum of all its entries, over all
  addresses and coin types together, is zero modulo \<open>2 ^ 64\<close>; after postings to an empty summary
  this is the sum of the posted amounts.\<close>

theorem isSane_decides_total:
  "(isSane s \<longleftrightarrow> summary_map s \<noteq> [] \<and> sum_total s = 0) \<and>
   sum_total (fold sum_post ps Summary_Create) = (\<Sum>p\<leftarrow>ps. posted_amount p)"
  using sumry.total_fold [of Summary_Create ps]
  by (simp add: isSane_iff sum_wf_def Summary_Create_def sum_total_def)

text \<open>A summary whose addresses are well formed and whose counts fit their fields is read back from
  its canonical bytes, followed by anything, entry by entry equal, and the reader stops right after it.\<close>

theorem summary_round_trip:
  assumes "sum_encodable s" and "length (sum_getCanonical s @ r) < 2 ^ 63"
  shows "Summary_read (InputBuffer_make (sum_getCanonical s @ r) 0) =
         Inr (s, InputBuffer_make (sum_getCanonical s @ r) (of_nat (length (sum_getCanonical s))))"
  using assms by (rule sum_codec.decode_encode)

definition sample_summary :: Summary where
  "sample_summary = fold sum_post [(sample_wallet, 1, - 10, 0), (sample_wallet2, 1, 10, 0)] Summary_Create"

lemma sample_order: "sample_wallet < sample_wallet2"
proof -
  have "replicate 33 x = x # replicate 32 x" for x :: byte by (simp add: numeral_eq_Suc)
  then show ?thesis by (simp add: sample_wallet_def sample_wallet2_def less_Address_def)
qed

lemma sample_summary_map:
  "summary_map sample_summary = [(sample_wallet, [], [(1, - 10)]), (sample_wallet2, [], [(1, 10)])]"
  using sample_order order_less_imp_not_less [OF sample_order] less_imp_neq [OF sample_order]
    not_sym [OF less_imp_neq [OF sample_order]]
  by (simp add: sample_summary_def Summary_Create_def sum_addItem_def DelayedItem_make_def)

lemma sample_summary_encodable [simp]: "sum_encodable sample_summary"
  using sample_order
  by (simp add: sum_encodable_def sample_summary_map entry_encodable_def pair_ok_def)

lemma sample_summary_length: "length (sum_getCanonical sample_summary) = 136"
  by (simp add: sum_getCanonical_eq sample_summary_map enc_entry_def enc_coin_def sample_wallet_def
      sample_wallet2_def)

theorem summary_round_trip_witness:
  "sum_encodable sample_summary \<and> length (sum_getCanonical sample_summary @ [1]) < 2 ^ 63 \<and>
   Summary_read (InputBuffer_make (sum_getCanonical sample_summary @ [1]) 0) =
   Inr (sample_summary, InputBuffer_make (sum_getCanonical sample_summary @ [1]) 136)"
  using summary_round_trip [of sample_summary "[1]"] by (simp add: sample_summary_length)

end
