(* ===== verification/Key_Ring.thy ===== *)
theory Key_Ring
  imports Ordered_Map Input_Buffer
begin

text \<open>
  \<^verbatim>\<open>common/ossladapter.h\<close> and \<^verbatim>\<open>consensus/KeyRing.h\<close>, \<^verbatim>\<open>KeyRing.cpp\<close>: the adapter to OpenSSL and
  the directory of keys. The OpenSSL library is a parameter, the record \<open>Crypto\<close>: every
  definition that reaches a primitive of the library takes it as its first argument. A pointer
  \<^verbatim>\<open>EC_KEY*\<close> is a number, 0 standing for \<^verbatim>\<open>nullptr\<close>. Key files are arguments: reading them is
  input. Log output is not modelled.
\<close>

section \<open>The cryptographic library\<close>

text \<open>
  \<^item> \<open>sha256\<close>: the digest that \<^verbatim>\<open>SHA256_Init/Update/Final\<close> compute;
  \<^item> \<open>ecdsa_verify key digest der\<close>: \<^verbatim>\<open>ECDSA_do_verify(...) == 1\<close> on the decoded signature;
  \<^item> \<open>ecdsa_sign key digest\<close>: the DER bytes of \<^verbatim>\<open>i2d_ECDSA_SIG(ECDSA_do_sign(...))\<close>;
  \<^item> \<open>uninit n\<close>: the bytes that an uninitialised local array of \<open>n\<close> bytes holds;
  \<^item> \<open>ec_group_ok node\<close>: \<^verbatim>\<open>EC_GROUP_new_by_curve_name\<close> succeeds for the node or wallet curve;
  \<^item> \<open>ec_public node hex\<close>: the key made from a public point, or the error text of OpenSSL;
  \<^item> \<open>pem_read pem pass\<close>, \<open>pkey_ec\<close>, \<open>ec_set_public\<close>: reading a private key, extracting its EC key
    (0 on failure) and attaching a public point to it;
  \<^item> \<open>ec_check key\<close>: \<^verbatim>\<open>EC_KEY_check_key\<close>: \<open>None\<close> if the key is complete, \<open>Some (True, _)\<close> if only
    the private part is missing, \<open>Some (False, text)\<close> for any other error;
  \<^item> \<open>ctx_ok\<close>: \<^verbatim>\<open>EVP_MD_CTX_create\<close> succeeds.
\<close>

type_synonym ec_key = nat

record Crypto =
  sha256 :: "bytes \<Rightarrow> bytes"
  ecdsa_verify :: "ec_key \<Rightarrow> bytes \<Rightarrow> bytes \<Rightarrow> bool"
  ecdsa_sign :: "ec_key \<Rightarrow> bytes \<Rightarrow> bytes"
  uninit :: "nat \<Rightarrow> bytes"
  ec_group_ok :: "bool \<Rightarrow> bool"
  ec_public :: "bool \<Rightarrow> string \<Rightarrow> string + ec_key"
  pem_read :: "string \<Rightarrow> string \<Rightarrow> string + nat"
  pkey_ec :: "nat \<Rightarrow> ec_key"
  ec_set_public :: "ec_key \<Rightarrow> bool \<Rightarrow> string \<Rightarrow> ec_key"
  ec_check :: "ec_key \<Rightarrow> (bool \<times> string) option"
  ctx_ok :: bool

section \<open>The adapter\<close>

definition DevcashHash :: "Crypto \<Rightarrow> bytes \<Rightarrow> bytes" where
  "DevcashHash C msg = sha256 C msg"

definition ValidateKey :: "Crypto \<Rightarrow> ec_key \<Rightarrow> error + bool" where
  "ValidateKey C key =
     (case ec_check C key of
        None \<Rightarrow> Inr True
      | Some (True, _) \<Rightarrow> Inr False
      | Some (False, err_str) \<Rightarrow> Inl (RuntimeError (''key is invalid: '' @ err_str)))"

definition LoadEcKey :: "Crypto \<Rightarrow> string \<Rightarrow> string \<Rightarrow> string \<Rightarrow> error + ec_key" where
  "LoadEcKey C publicKey privKey aes_password =
     (if length aes_password < 1 then Inl (RuntimeError ''aes_password cannot be zero-length'')
      else
        bindE (if length publicKey = kWALLET_ADDR_SIZE * 2 then Inr False
               else if length publicKey = kNODE_ADDR_SIZE * 2 then Inr True
               else Inl (RuntimeError ''Invalid public key!'')) (\<lambda>node.
        if \<not> ec_group_ok C node then Inl (RuntimeError ''Failed to generate EC group.'')
        else
          (case pem_read C privKey aes_password of
             Inl err \<Rightarrow> Inl (RuntimeError (''PEM_read_bio_PrivateKey returned nullptr: '' @ err))
           | Inr pkey \<Rightarrow>
               if pkey_ec C pkey = 0 then Inl (RuntimeError ''PEM_rPKEY_get_EC_KEY returned nullptr'')
               else
                 let eckey = ec_set_public C (pkey_ec C pkey) node publicKey in
                 bindE (ValidateKey C eckey) (\<lambda>_. Inr eckey))))"

definition LoadPublicKey :: "Crypto \<Rightarrow> Address \<Rightarrow> error + ec_key" where
  "LoadPublicKey C public_key =
     bindE (if isWalletAddress public_key then Inr False
            else if isNodeAddress public_key then Inr True
            else Inl (RuntimeError ''Invalid public key!'')) (\<lambda>node.
     if \<not> ec_group_ok C node then Inl (RuntimeError ''Failed to generate EC group.'')
     else
       bindE (getHexString public_key) (\<lambda>publicKey.
       case ec_public C node publicKey of
         Inl err \<Rightarrow> Inl (RuntimeError (''set_public_key failed:'' @ err))
       | Inr ec_key \<Rightarrow> Inr ec_key))"

text \<open>\<^verbatim>\<open>VerifyByteSig\<close> catches the exception that a null signature raises.\<close>

definition VerifyByteSig :: "Crypto \<Rightarrow> ec_key \<Rightarrow> bytes \<Rightarrow> Signature \<Rightarrow> bool" where
  "VerifyByteSig C ecKey msg sig =
     (case getRawSignature sig of
        Inl e \<Rightarrow> False
      | Inr raw_sig \<Rightarrow> ecdsa_verify C ecKey msg raw_sig)"

text \<open>\<^verbatim>\<open>SignBinary\<close>: the DER bytes overwrite the front of a local array of fixed size. Only \<open>len\<close>
  bytes of it are set before, so the tail keeps what the array held.\<close>

definition sign_array :: "Crypto \<Rightarrow> nat \<Rightarrow> bytes \<Rightarrow> error + bytes" where
  "sign_array C n der =
     (if length der > n then Inl (Undefined ''write past the end of a local array'')
      else Inr (der @ take (n - length der) (drop (length der) (uninit C n))))"

definition SignBinary :: "Crypto \<Rightarrow> ec_key \<Rightarrow> bytes \<Rightarrow> error + Signature" where
  "SignBinary C ec_key msg =
     (if ec_key = 0 then Inl (RuntimeError ''ec_key == nullptr'')
      else
        let der = ecdsa_sign C ec_key msg in
        if length der < 80 then bindE (sign_array C kWALLET_SIG_SIZE der) Signature_vec
        else bindE (sign_array C kNODE_SIG_SIZE der) Signature_vec)"

section \<open>Key ring\<close>

record KeyRing =
  key_map :: "(Address, ec_key) omap"
  node_list :: "Address list"
  wallet_list :: "Address list"
  inn_addr :: Address

definition KeyRing_empty :: KeyRing where
  "KeyRing_empty = \<lparr>key_map = [], node_list = [], wallet_list = [], inn_addr = Address_default\<rparr>"

definition InsertAddress :: "string \<Rightarrow> ec_key \<Rightarrow> KeyRing \<Rightarrow> error + (Address \<times> KeyRing)" where
  "InsertAddress hex key kr =
     bindE (Hex2Bin hex) (\<lambda>addr.
     let to_insert = Address_vec addr in
     Inr (to_insert, kr\<lparr>key_map := omap_insert to_insert key (key_map kr)\<rparr>))"

definition hello_hash :: "Crypto \<Rightarrow> bytes" where
  "hello_hash C = DevcashHash C (Str2Bin ''hello'')"

definition addWalletKeyPair :: "Crypto \<Rightarrow> string \<Rightarrow> string \<Rightarrow> string \<Rightarrow> KeyRing \<Rightarrow> error + KeyRing" where
  "addWalletKeyPair C address key password kr =
     bindE (LoadEcKey C address key password) (\<lambda>wallet_key.
     bindE (SignBinary C wallet_key (hello_hash C)) (\<lambda>sig.
     if \<not> VerifyByteSig C wallet_key (hello_hash C) sig then
       Inl (RuntimeError (''Invalid address['' @ address @ ''] key!''))
     else
       bindE (InsertAddress address wallet_key kr) (\<lambda>(wallet_addr, kr).
       Inr (kr\<lparr>wallet_list := wallet_list kr @ [wallet_addr]\<rparr>))))"

definition addNodeKeyPair :: "Crypto \<Rightarrow> string \<Rightarrow> string \<Rightarrow> string \<Rightarrow> KeyRing \<Rightarrow> error + KeyRing" where
  "addNodeKeyPair C address key password kr =
     bindE (LoadEcKey C address key password) (\<lambda>node_key.
     bindE (SignBinary C node_key (hello_hash C)) (\<lambda>sig.
     if \<not> VerifyByteSig C node_key (hello_hash C) sig then
       Inl (RuntimeError (''Invalid node['' @ address @ ''] key!''))
     else
       bindE (InsertAddress address node_key kr) (\<lambda>(wallet_addr, kr).
       Inr (kr\<lparr>node_list := node_list kr @ [wallet_addr]\<rparr>))))"

definition setInnKeyPair :: "Crypto \<Rightarrow> string \<Rightarrow> string \<Rightarrow> string \<Rightarrow> KeyRing \<Rightarrow> error + KeyRing" where
  "setInnKeyPair C address key password kr =
     bindE (LoadEcKey C address key password) (\<lambda>inn_key.
     bindE (SignBinary C inn_key (hello_hash C)) (\<lambda>sig.
     if \<not> VerifyByteSig C inn_key (hello_hash C) sig then Inr kr
     else
       bindE (InsertAddress address inn_key kr) (\<lambda>(addr, kr).
       Inr (kr\<lparr>inn_addr := addr\<rparr>))))"

text \<open>The loop over the records of a key file, each an address in hexadecimal followed by an
  encrypted key. A record whose key does not load is logged and skipped. \<open>keep_on_exception\<close> is
  the \<^verbatim>\<open>try { ... } catch (const std::exception&)\<close> around the call.\<close>

definition keep_on_exception :: "'s \<Rightarrow> error + 's \<Rightarrow> error + 's" where
  "keep_on_exception s r =
     (case r of Inl e \<Rightarrow> if is_std_exception e then Inr s else Inl e | Inr s' \<Rightarrow> Inr s')"

function key_file_loop ::
  "nat \<Rightarrow> nat \<Rightarrow> (string \<Rightarrow> string \<Rightarrow> KeyRing \<Rightarrow> error + KeyRing) \<Rightarrow> string \<Rightarrow> nat \<Rightarrow> KeyRing \<Rightarrow> error + KeyRing"
where
  "key_file_loop addr_len key_len add keys counter kr =
     (if counter < length keys - 1 \<and> 0 < addr_len then
        let addr = take addr_len (drop counter keys);
            counter = counter + addr_len;
            key = take key_len (drop counter keys);
            counter = counter + key_len
        in bindE (keep_on_exception kr (add addr key kr)) (key_file_loop addr_len key_len add keys counter)
      else Inr kr)"
  by pat_completeness auto

termination key_file_loop
  by (relation "measure (\<lambda>(al, kl, add, keys, counter, kr). length keys - counter)") auto

declare key_file_loop.simps [simp del]

abbreviation (input) "kFILE_KEY_SIZE \<equiv> 379"
abbreviation (input) "kFILE_NODEKEY_SIZE \<equiv> 448"

text \<open>The constructor: the INN file, then the node file. Each is skipped when empty, and a file
  whose size is not a multiple of the record size ends the construction.\<close>

definition KeyRing_make :: "Crypto \<Rightarrow> string \<Rightarrow> string \<Rightarrow> string \<Rightarrow> error + KeyRing" where
  "KeyRing_make C inn_keys node_keys password =
     (if \<not> ctx_ok C then Inl (ThrownString ''Could not create signature context!'')
      else if inn_keys \<noteq> [] \<and> length inn_keys mod (kFILE_NODEKEY_SIZE + kNODE_ADDR_SIZE * 2) \<noteq> 0
      then Inr KeyRing_empty
      else
        bindE (if inn_keys \<noteq> [] then
                 key_file_loop (kNODE_ADDR_SIZE * 2) kFILE_NODEKEY_SIZE
                   (\<lambda>addr key. setInnKeyPair C addr key password) inn_keys 0 KeyRing_empty
               else Inr KeyRing_empty) (\<lambda>kr.
        if node_keys = [] then Inr kr
        else if length node_keys mod (kFILE_NODEKEY_SIZE + kNODE_ADDR_SIZE * 2) = 0 then
          key_file_loop (kNODE_ADDR_SIZE * 2) kFILE_NODEKEY_SIZE
            (\<lambda>addr key. addNodeKeyPair C addr key password) node_keys 0 kr
        else Inr kr))"

definition LoadWallets :: "Crypto \<Rightarrow> string \<Rightarrow> string \<Rightarrow> KeyRing \<Rightarrow> error + (bool \<times> KeyRing)" where
  "LoadWallets C wallet_keys file_pass kr =
     (if \<not> ctx_ok C then Inl (ThrownString ''Could not create signature context!'')
      else if wallet_keys = [] then Inr (False, kr)
      else if length wallet_keys mod (kFILE_KEY_SIZE + kWALLET_ADDR_SIZE * 2) \<noteq> 0 then Inr (False, kr)
      else
        bindE (key_file_loop (kWALLET_ADDR_SIZE * 2) kFILE_KEY_SIZE
                 (\<lambda>addr key. addWalletKeyPair C addr key file_pass) wallet_keys 0 kr) (\<lambda>kr.
        Inr (True, kr)))"

definition getKey :: "Crypto \<Rightarrow> KeyRing \<Rightarrow> Address \<Rightarrow> error + ec_key" where
  "getKey C kr addr =
     (case map_of (key_map kr) addr of Some k \<Rightarrow> Inr k | None \<Rightarrow> LoadPublicKey C addr)"

definition isINN :: "Address \<Rightarrow> bool" where
  "isINN addr = isNodeAddress addr"

definition getInnAddr :: "KeyRing \<Rightarrow> error + Address" where
  "getInnAddr kr =
     (if isINN (inn_addr kr) then Inr (inn_addr kr)
      else Inl (RuntimeError ''INN Address is not initialized''))"

definition CountNodes :: "KeyRing \<Rightarrow> size_t" where
  "CountNodes kr = vec_size (node_list kr)"

definition CountWallets :: "KeyRing \<Rightarrow> size_t" where
  "CountWallets kr = vec_size (wallet_list kr)"

fun find_pos :: "Address list \<Rightarrow> Address \<Rightarrow> nat" where
  "find_pos [] addr = 0"
| "find_pos (x # xs) addr = (if x = addr then 0 else Suc (find_pos xs addr))"

definition getNodeIndex :: "KeyRing \<Rightarrow> Address \<Rightarrow> error + uint32" where
  "getNodeIndex kr addr =
     (let pos = of_nat (find_pos (node_list kr) addr) :: uint32 in
      if unat pos \<ge> length (node_list kr) then Inl (RangeError ''Address not found in node_list_'')
      else Inr pos)"

definition getNodeAddr :: "KeyRing \<Rightarrow> size_t \<Rightarrow> error + Address" where
  "getNodeAddr kr index = vec_at (node_list kr) index"

text \<open>An \<^verbatim>\<open>int\<close> index is converted to \<^verbatim>\<open>size_t\<close>: a negative one becomes a huge one.\<close>

definition getWalletAddr :: "KeyRing \<Rightarrow> uint32 \<Rightarrow> error + Address" where
  "getWalletAddr kr index = vec_at (wallet_list kr) (scast index)"

definition getNodeKey :: "KeyRing \<Rightarrow> uint32 \<Rightarrow> error + ec_key" where
  "getNodeKey kr index =
     bindE (vec_at (node_list kr) (scast index)) (\<lambda>node_addr.
     case map_of (key_map kr) node_addr of
       Some k \<Rightarrow> Inr k
     | None \<Rightarrow> Inl (ThrownString (''Node['' @ to_string_s index @ ''] key is missing!'')))"

definition getWalletKey :: "KeyRing \<Rightarrow> uint32 \<Rightarrow> error + ec_key" where
  "getWalletKey kr index =
     bindE (vec_at (wallet_list kr) (scast index)) (\<lambda>wallet_addr.
     case map_of (key_map kr) wallet_addr of
       Some k \<Rightarrow> Inr k
     | None \<Rightarrow> Inl (ThrownString (''Wallet['' @ to_string_s index @ ''] key is missing!'')))"

definition getDesignatedWallets :: "KeyRing \<Rightarrow> uint32 \<Rightarrow> error + Address list" where
  "getDesignatedWallets kr index =
     bindE (vec_at (wallet_list kr) (scast (index * 2))) (\<lambda>w0.
     bindE (vec_at (wallet_list kr) (scast (index * 2 + 1))) (\<lambda>w1.
     Inr [w0, w1]))"

section \<open>Signing\<close>

text \<open>A signature that \<^verbatim>\<open>SignBinary\<close> returns is well formed, of the wallet kind for short DER
  encodings and of the node kind otherwise, and its raw bytes start with the DER encoding.\<close>

lemma SignBinary_wf: "SignBinary C k m = Inr s \<Longrightarrow> sig_wf s"
  by (auto simp: SignBinary_def Let_def intro: Signature_vec_wf split: if_splits)

lemma SignBinary_raw:
  assumes "SignBinary C k m = Inr s" and "\<And>n. length (uninit C n) = n"
  shows "\<exists>pad. getRawSignature s = Inr (ecdsa_sign C k m @ pad)"
proof -
  define der where "der = ecdsa_sign C k m"
  define n where "n = (if length der < 80 then 73 else 105 :: nat)"
  have n: "n = 73 \<or> n = 105" and le: "length der \<le> n"
    and s: "Signature_vec (der @ drop (length der) (uninit C n)) = Inr s"
    using assms
    by (auto simp: SignBinary_def Let_def sign_array_def n_def simp flip: der_def split: if_splits)
  have "length (der @ drop (length der) (uninit C n)) = n"
    using le assms(2) by simp
  then have "sig_canonical s = of_nat n # der @ drop (length der) (uninit C n)"
    using s n by (auto simp: Signature_vec_def split: if_splits)
  then show ?thesis
    using n by (auto simp: getRawSignature_def sig_isNull_def der_def)
qed

section \<open>Invariant of the key ring\<close>

definition kr_wf :: "KeyRing \<Rightarrow> bool" where
  "kr_wf kr = (omap_ok (key_map kr) \<and>
     (\<forall>a \<in> set (node_list kr) \<union> set (wallet_list kr). addr_wf a \<and> map_of (key_map kr) a \<noteq> None))"

lemma kr_wf_empty [simp]: "kr_wf KeyRing_empty"
  by (simp add: kr_wf_def KeyRing_empty_def)

lemma InsertAddress_spec:
  assumes "InsertAddress hex k kr = Inr (a, kr')" and "kr_wf kr"
  shows "kr_wf kr'"
    and "map_of (key_map kr') a = Some (case map_of (key_map kr) a of None \<Rightarrow> k | Some k' \<Rightarrow> k')"
    and "node_list kr' = node_list kr" "wallet_list kr' = wallet_list kr"
proof -
  have kr': "kr' = kr\<lparr>key_map := omap_insert a k (key_map kr)\<rparr>"
    using assms(1) by (auto simp: InsertAddress_def Let_def)
  show m: "map_of (key_map kr') a = Some (case map_of (key_map kr) a of None \<Rightarrow> k | Some k' \<Rightarrow> k')"
    using assms(2) by (auto simp: kr' kr_wf_def map_of_omap_insert split: option.splits)
  show "kr_wf kr'"
    using assms(2) by (auto simp: kr' kr_wf_def map_of_omap_insert split: option.splits)
  show "node_list kr' = node_list kr" "wallet_list kr' = wallet_list kr"
    by (simp_all add: kr')
qed

lemma LoadEcKey_length: "LoadEcKey C a k p = Inr key \<Longrightarrow> length a = 66 \<or> length a = 98"
  by (auto simp: LoadEcKey_def split: if_splits)

lemma InsertAddress_wf:
  assumes "InsertAddress hex k kr = Inr (a, kr')" "kr_wf kr" "length hex = 66 \<or> length hex = 98"
  shows "kr_wf kr' \<and> map_of (key_map kr') a \<noteq> None \<and> addr_wf a"
proof -
  obtain bs where bs: "Hex2Bin hex = Inr bs" and a: "a = Address_vec bs"
    using assms(1) by (auto simp: InsertAddress_def Let_def)
  have "length bs = 33 \<or> length bs = 49"
    using bs assms(3) by (auto simp: Hex2Bin_def hex_len_small Let_def)
  then have "addr_wf a" by (auto simp: a Address_vec_def addr_wf_def)
  then show ?thesis using InsertAddress_spec(1,2) [OF assms(1,2)] by simp
qed

lemma kr_wf_add_list:
  assumes "kr_wf kr" "map_of (key_map kr) a \<noteq> None" "addr_wf a"
  shows "kr_wf (kr\<lparr>node_list := node_list kr @ [a]\<rparr>)" "kr_wf (kr\<lparr>wallet_list := wallet_list kr @ [a]\<rparr>)"
    "kr_wf (kr\<lparr>inn_addr := a\<rparr>)"
  using assms by (auto simp: kr_wf_def)

lemma kr_wf_addWalletKeyPair: "addWalletKeyPair C a k p kr = Inr kr' \<Longrightarrow> kr_wf kr \<Longrightarrow> kr_wf kr'"
  by (auto simp: addWalletKeyPair_def split: if_splits
      intro!: kr_wf_add_list dest: InsertAddress_wf LoadEcKey_length)

lemma kr_wf_addNodeKeyPair: "addNodeKeyPair C a k p kr = Inr kr' \<Longrightarrow> kr_wf kr \<Longrightarrow> kr_wf kr'"
  by (auto simp: addNodeKeyPair_def split: if_splits
      intro!: kr_wf_add_list dest: InsertAddress_wf LoadEcKey_length)

lemma kr_wf_setInnKeyPair: "setInnKeyPair C a k p kr = Inr kr' \<Longrightarrow> kr_wf kr \<Longrightarrow> kr_wf kr'"
  by (auto simp: setInnKeyPair_def split: if_splits
      intro!: kr_wf_add_list dest: InsertAddress_wf LoadEcKey_length)

lemma keep_on_exception_Inr:
  "keep_on_exception s r = Inr s' \<Longrightarrow> s' = s \<or> r = Inr s'"
  by (auto simp: keep_on_exception_def split: sum.splits if_splits)

lemma kr_wf_key_file_loop:
  assumes "\<And>a k kr kr'. add a k kr = Inr kr' \<Longrightarrow> kr_wf kr \<Longrightarrow> kr_wf kr'"
  shows "key_file_loop al kl add keys counter kr = Inr kr' \<Longrightarrow> kr_wf kr \<Longrightarrow> kr_wf kr'"
proof (induction "length keys - counter" arbitrary: counter kr rule: less_induct)
  case less
  show ?case
  proof (cases "counter < length keys - 1 \<and> 0 < al")
    case True
    then obtain kr1 where 1: "keep_on_exception kr (add (take al (drop counter keys))
          (take kl (drop (counter + al) keys)) kr) = Inr kr1"
      and 2: "key_file_loop al kl add keys (counter + al + kl) kr1 = Inr kr'"
      using less.prems(1) by (auto simp: key_file_loop.simps [of al kl add keys counter] Let_def)
    have "kr_wf kr1"
      using keep_on_exception_Inr [OF 1] assms less.prems(2) by blast
    moreover have "length keys - (counter + al + kl) < length keys - counter"
      using True by auto
    ultimately show ?thesis using less.hyps 2 by blast
  next
    case False
    then show ?thesis using less.prems by (auto simp: key_file_loop.simps [of al kl add keys counter])
  qed
qed

lemma kr_wf_file_loops:
  "key_file_loop al kl (\<lambda>addr key. setInnKeyPair C addr key p) f n kr = Inr kr' \<Longrightarrow> kr_wf kr \<Longrightarrow> kr_wf kr'"
  "key_file_loop al kl (\<lambda>addr key. addNodeKeyPair C addr key p) f n kr = Inr kr' \<Longrightarrow> kr_wf kr \<Longrightarrow> kr_wf kr'"
  "key_file_loop al kl (\<lambda>addr key. addWalletKeyPair C addr key p) f n kr = Inr kr' \<Longrightarrow> kr_wf kr \<Longrightarrow> kr_wf kr'"
  using kr_wf_key_file_loop [of "\<lambda>addr key. setInnKeyPair C addr key p" al kl f n kr kr']
    kr_wf_key_file_loop [of "\<lambda>addr key. addNodeKeyPair C addr key p" al kl f n kr kr']
    kr_wf_key_file_loop [of "\<lambda>addr key. addWalletKeyPair C addr key p" al kl f n kr kr']
    kr_wf_setInnKeyPair kr_wf_addNodeKeyPair kr_wf_addWalletKeyPair
  by blast+

lemma kr_wf_make: "KeyRing_make C inn nodes p = Inr kr \<Longrightarrow> kr_wf kr"
  by (auto simp: KeyRing_make_def split: if_splits dest: kr_wf_file_loops)

lemma kr_wf_LoadWallets: "LoadWallets C w p kr = Inr (b, kr') \<Longrightarrow> kr_wf kr \<Longrightarrow> kr_wf kr'"
  by (auto simp: LoadWallets_def split: if_splits dest: kr_wf_file_loops)

text \<open>In a well-formed key ring every listed node and wallet has a key, so the branches that throw
  a string are never taken.\<close>

lemma kr_wf_listed:
  "kr_wf kr \<Longrightarrow> a \<in> set (node_list kr) \<or> a \<in> set (wallet_list kr) \<Longrightarrow>
   \<exists>k. map_of (key_map kr) a = Some k"
  by (auto simp: kr_wf_def)

lemma getNodeKey_wf:
  assumes "kr_wf kr"
  shows "getNodeKey kr i =
    (if unat (scast i :: size_t) < length (node_list kr)
     then Inr (the (map_of (key_map kr) (node_list kr ! unat (scast i :: size_t)))) else Inl OutOfRange)"
  using kr_wf_listed [OF assms, of "node_list kr ! unat (scast i :: size_t)"]
  by (auto simp: getNodeKey_def vec_at_def)

lemma getWalletKey_wf:
  assumes "kr_wf kr"
  shows "getWalletKey kr i =
    (if unat (scast i :: size_t) < length (wallet_list kr)
     then Inr (the (map_of (key_map kr) (wallet_list kr ! unat (scast i :: size_t)))) else Inl OutOfRange)"
  using kr_wf_listed [OF assms, of "wallet_list kr ! unat (scast i :: size_t)"]
  by (auto simp: getWalletKey_def vec_at_def)

text \<open>\<open>getNodeIndex\<close> finds the first position of an address, and fails exactly on absent ones.\<close>

lemma find_pos_less: "find_pos xs a < length xs \<longleftrightarrow> a \<in> set xs"
  by (induction xs) auto

lemma find_pos_le: "find_pos xs a \<le> length xs"
  by (induction xs) auto

lemma find_pos_nth: "a \<in> set xs \<Longrightarrow> xs ! find_pos xs a = a"
  by (induction xs) auto

lemma getNodeIndex_spec:
  assumes "length (node_list kr) < 2 ^ 32"
  shows "getNodeIndex kr a =
    (if a \<in> set (node_list kr) then Inr (of_nat (find_pos (node_list kr) a))
     else Inl (RangeError ''Address not found in node_list_''))"
  using assms find_pos_less [of "node_list kr" a] find_pos_le [of "node_list kr" a]
  by (auto simp: getNodeIndex_def Let_def)

lemma getNodeAddr_getNodeIndex:
  assumes "length (node_list kr) < 2 ^ 32" and "getNodeIndex kr a = Inr i"
  shows "getNodeAddr kr (ucast i) = Inr a"
proof -
  let ?p = "find_pos (node_list kr) a"
  have a: "a \<in> set (node_list kr)" and i: "i = of_nat ?p"
    using assms by (auto simp: getNodeIndex_spec split: if_splits)
  then have p: "?p < length (node_list kr)" by (simp add: find_pos_less)
  then have "unat (ucast i :: size_t) = ?p"
    using assms(1) by (simp add: i unsigned_ucast_eq unat_of_nat take_bit_nat_eq_self)
  then show ?thesis using p a by (simp add: getNodeAddr_def find_pos_nth)
qed

section \<open>A concrete library for examples\<close>

text \<open>Odd keys are node keys with long signatures, even keys wallet keys with short ones.\<close>

definition sample_der :: "ec_key \<Rightarrow> bytes" where
  "sample_der k = replicate (if even k then 70 else 100) (of_nat k)"

definition sample_crypto :: Crypto where
  "sample_crypto =
     \<lparr>sha256 = (\<lambda>m. replicate 32 (of_nat (length m))),
      ecdsa_verify = (\<lambda>k d s. take (length (sample_der k)) s = sample_der k),
      ecdsa_sign = (\<lambda>k d. sample_der k),
      uninit = (\<lambda>n. replicate n 0),
      ec_group_ok = (\<lambda>node. True),
      ec_public = (\<lambda>node hex. Inr (if node then 5 else 4)),
      pem_read = (\<lambda>pem pass. Inr (if length pem < 400 then 4 else 5)),
      pkey_ec = (\<lambda>k. k),
      ec_set_public = (\<lambda>k node hex. k),
      ec_check = (\<lambda>k. None),
      ctx_ok = True\<rparr>"

definition sample_sig :: "ec_key \<Rightarrow> Signature" where
  "sample_sig k =
     (if even k then Signature_of (73 # sample_der k @ replicate 3 0)
      else Signature_of (105 # sample_der k @ replicate 5 0))"

lemma sample_sig_wf [simp]: "sig_wf (sample_sig k)"
  by (simp add: sample_sig_def sig_wf_def sample_der_def)

lemma sample_crypto_sign: "k \<noteq> 0 \<Longrightarrow> SignBinary sample_crypto k m = Inr (sample_sig k)"
  by (simp add: SignBinary_def sample_crypto_def sign_array_def sample_sig_def sample_der_def
      Signature_vec_def)

lemma sample_crypto_verify: "VerifyByteSig sample_crypto k m (sample_sig k)"
  by (simp add: VerifyByteSig_def getRawSignature_def sig_isNull_def sample_crypto_def sample_sig_def
      sample_der_def)

lemma sample_crypto_hello: "VerifyByteSig sample_crypto k (hello_hash C) (sample_sig k)"
  by (rule sample_crypto_verify)

lemma sample_crypto_public:
  "LoadPublicKey sample_crypto sample_wallet = Inr 4" "LoadPublicKey sample_crypto sample_wallet2 = Inr 4"
  "LoadPublicKey sample_crypto sample_node = Inr 5"
  by (simp_all add: LoadPublicKey_def isWalletAddress_def isNodeAddress_def sample_wallet_def
      sample_wallet2_def sample_node_def sample_crypto_def getHexString_def addr_isNull_def)

text \<open>A wallet file with one record and the key ring it gives.\<close>

definition sample_wallet_file :: string where
  "sample_wallet_file = ToHexAll (replicate 33 2) @ replicate 379 CHR ''k''"

lemma sample_hex: "length (ToHexAll (replicate 33 2)) = 66" "Hex2Bin (ToHexAll (replicate 33 2)) = Inr (replicate 33 2)"
proof -
  have "concat (map hex_digits (replicate n (2 :: byte))) = concat (replicate n (hex_digits 2))" for n by simp
  moreover have "length (concat (replicate n (hex_digits 2))) = 2 * n" for n
    by (induction n) (simp_all add: hex_digits_def)
  ultimately show "length (ToHexAll (replicate 33 2)) = 66" by (simp add: ToHexAll_eq)
  show "Hex2Bin (ToHexAll (replicate 33 2)) = Inr (replicate 33 2)" by (intro Hex2Bin_ToHex) simp
qed

lemma sample_addWallet:
  "addWalletKeyPair sample_crypto (ToHexAll (replicate 33 2)) (replicate 379 CHR ''k'') ''pw'' KeyRing_empty =
   Inr (KeyRing_empty\<lparr>key_map := [(sample_wallet, 4)], wallet_list := [sample_wallet]\<rparr>)"
proof -
  have "LoadEcKey sample_crypto (ToHexAll (replicate 33 2)) (replicate 379 CHR ''k'') ''pw'' = Inr 4"
    using sample_hex(1) by (simp add: LoadEcKey_def sample_crypto_def ValidateKey_def)
  moreover have "Address_vec (replicate 33 2) = sample_wallet"
    by (simp add: Address_vec_def sample_wallet_def)
  ultimately show ?thesis
    by (simp add: addWalletKeyPair_def sample_crypto_sign sample_crypto_hello InsertAddress_def sample_hex(2)
        Let_def KeyRing_empty_def)
qed

lemma sample_LoadWallets:
  "LoadWallets sample_crypto sample_wallet_file ''pw'' KeyRing_empty =
   Inr (True, KeyRing_empty\<lparr>key_map := [(sample_wallet, 4)], wallet_list := [sample_wallet]\<rparr>)"
proof -
  have len: "length sample_wallet_file = 445" "sample_wallet_file \<noteq> []"
    using sample_hex(1) by (auto simp: sample_wallet_file_def)
  have "take 66 sample_wallet_file = ToHexAll (replicate 33 2)"
    "drop 66 sample_wallet_file = replicate 379 CHR ''k''"
    using sample_hex(1) by (simp_all add: sample_wallet_file_def)
  then show ?thesis
    using len sample_addWallet
    by (simp add: LoadWallets_def key_file_loop.simps Let_def keep_on_exception_def sample_crypto_def)
qed

section \<open>Properties\<close>

text \<open>A key ring that the constructor and \<open>LoadWallets\<close> build has a key for every listed node and
  wallet: \<open>getNodeKey\<close> and \<open>getWalletKey\<close> return the key stored for the address at the index, or throw
  \<open>std::out_of_range\<close> for an index outside of the list; the branches that throw a string are never
  taken. The index that \<open>getNodeIndex\<close> returns leads \<open>getNodeAddr\<close> back to the address, and it throws
  exactly for addresses that are no nodes.\<close>

theorem key_ring_lookup:
  assumes "KeyRing_make C inn nodes p = Inr kr0" and "LoadWallets C w p' kr0 = Inr (b, kr)"
    and "length (node_list kr) < 2 ^ 32"
  shows "getNodeKey kr i =
      (if unat (scast i :: size_t) < length (node_list kr)
       then Inr (the (map_of (key_map kr) (node_list kr ! unat (scast i :: size_t)))) else Inl OutOfRange) \<and>
    getWalletKey kr i =
      (if unat (scast i :: size_t) < length (wallet_list kr)
       then Inr (the (map_of (key_map kr) (wallet_list kr ! unat (scast i :: size_t)))) else Inl OutOfRange) \<and>
    (\<forall>a. case getNodeIndex kr a of
           Inr n \<Rightarrow> getNodeAddr kr (ucast n) = Inr a
         | Inl e \<Rightarrow> a \<notin> set (node_list kr))"
proof -
  have "kr_wf kr" using assms kr_wf_make kr_wf_LoadWallets by blast
  moreover have "case getNodeIndex kr a of
      Inr n \<Rightarrow> getNodeAddr kr (ucast n) = Inr a | Inl e \<Rightarrow> a \<notin> set (node_list kr)" for a
    using getNodeAddr_getNodeIndex [OF assms(3), of a] getNodeIndex_spec [OF assms(3), of a]
    by (auto split: sum.splits if_splits)
  ultimately show ?thesis by (simp add: getNodeKey_wf getWalletKey_wf)
qed

theorem key_ring_lookup_witness:
  "KeyRing_make sample_crypto [] [] ''pw'' = Inr KeyRing_empty \<and>
   LoadWallets sample_crypto sample_wallet_file ''pw'' KeyRing_empty =
     Inr (True, KeyRing_empty\<lparr>key_map := [(sample_wallet, 4)], wallet_list := [sample_wallet]\<rparr>) \<and>
   getWalletKey (KeyRing_empty\<lparr>key_map := [(sample_wallet, 4)], wallet_list := [sample_wallet]\<rparr>) 0 = Inr 4"
proof -
  have "KeyRing_make sample_crypto [] [] ''pw'' = Inr KeyRing_empty"
    by (simp add: KeyRing_make_def sample_crypto_def)
  then show ?thesis
    using key_ring_lookup [OF _ sample_LoadWallets, of "[]" "[]" "''pw''" 0] sample_LoadWallets
    by (simp add: KeyRing_empty_def)
qed

end
