(* ===== verification/Transactions.thy ===== *)
theory Transactions
  imports Summaries Key_Ring
begin

text \<open>
  What the two kinds of transactions share (\<^verbatim>\<open>primitives/Transaction.h\<close>): the fields of the
  abstract base class, the handling of exceptions in the validation methods, the loop over the
  transfers, and the bookkeeping of committed coins in the aggregate map.

  The validation methods change the chain state and the summary while they run and catch
  exceptions. A step therefore returns a pair of an outcome and a state: \<open>Inr True\<close> goes on,
  \<open>Inr False\<close> is an early \<^verbatim>\<open>return false\<close>, \<open>Inl e\<close> a thrown exception; the state is the one
  that the caller sees in each case.
\<close>

section \<open>Base class\<close>

record Transaction =
  tx_canonical :: bytes
  tx_is_sound :: bool

definition tx_getByteSize :: "('a) Transaction_scheme \<Rightarrow> size_t" where
  "tx_getByteSize tx = vec_size (tx_canonical tx)"

text \<open>\<^verbatim>\<open>operator==\<close> compares canonical forms only.\<close>

definition tx_eq :: "('a) Transaction_scheme \<Rightarrow> ('b) Transaction_scheme \<Rightarrow> bool" where
  "tx_eq a b = (tx_canonical a = tx_canonical b)"

section \<open>Loops with early return and exceptions\<close>

fun run_steps :: "('a \<Rightarrow> 's \<Rightarrow> (error + bool) \<times> 's) \<Rightarrow> 'a list \<Rightarrow> 's \<Rightarrow> (error + bool) \<times> 's" where
  "run_steps step [] s = (Inr True, s)"
| "run_steps step (x # xs) s =
     (case step x s of
        (Inl e, s') \<Rightarrow> (Inl e, s')
      | (Inr go_on, s') \<Rightarrow> if go_on then run_steps step xs s' else (Inr False, s'))"

text \<open>\<^verbatim>\<open>catch (const std::exception&) { ... } return false;\<close>\<close>

definition catch_false :: "(error + bool) \<times> 's \<Rightarrow> error + (bool \<times> 's)" where
  "catch_false r =
     (case r of
        (Inl e, s) \<Rightarrow> if is_std_exception e then Inr (False, s) else Inl e
      | (Inr b, s) \<Rightarrow> Inr (b, s))"

lemma run_steps_True:
  assumes "\<And>x s s'. step x s = (Inr True, s') \<Longrightarrow> \<exists>p. post x = Inr p \<and> s' = f p s"
    and "run_steps step xs s = (Inr True, s')"
  shows "\<exists>ps. mapE post xs = Inr ps \<and> s' = fold f ps s"
  using assms(2)
proof (induction xs arbitrary: s)
  case (Cons x xs)
  then obtain s1 where 1: "step x s = (Inr True, s1)" "run_steps step xs s1 = (Inr True, s')"
    by (auto split: prod.splits sum.splits if_splits)
  with assms(1) Cons.IH show ?case by fastforce
qed simp

lemma run_steps_append:
  "run_steps step xs s = (Inr True, s') \<Longrightarrow> run_steps step (xs @ ys) s = run_steps step ys s'"
  by (induction xs arbitrary: s) (auto split: prod.splits sum.splits if_splits)

text \<open>An invariant of the steps is an invariant of the loop, however it ends.\<close>

lemma run_steps_inv:
  assumes "\<And>x s r s'. x \<in> set xs \<Longrightarrow> step x s = (r, s') \<Longrightarrow> P s \<Longrightarrow> P s'"
    and "run_steps step xs s = (r, s')" "P s"
  shows "P s'"
  using assms
proof (induction xs arbitrary: s)
  case (Cons x xs)
  obtain r1 s1 where 1: "step x s = (r1, s1)" by fastforce
  with Cons.prems have p: "P s1" by (metis list.set_intros(1))
  show ?case
  proof (cases "r1 = Inr True")
    case True
    then have "run_steps step xs s1 = (r, s')" using Cons.prems(2) 1 by simp
    then show ?thesis using Cons.IH [of s1] Cons.prems(1) p by (meson list.set_intros(2))
  next
    case False
    then have "s' = s1" using Cons.prems(2) 1 by (auto split: sum.splits if_splits)
    then show ?thesis using p by simp
  qed
qed simp

text \<open>When a step either posts its item and goes on or leaves the (projected) state alone, the loop
  posts a prefix of the items.\<close>

lemma run_steps_prefix:
  assumes "\<And>x s r s'. x \<in> set xs \<Longrightarrow> step x s = (r, s') \<Longrightarrow>
      \<exists>p. post x = Inr p \<and> pr s' = (if r = Inr True then f p (pr s) else pr s)"
  shows "\<exists>ps k. mapE post xs = Inr ps \<and> pr (snd (run_steps step xs s)) = fold f (take k ps) (pr s)"
  using assms
proof (induction xs arbitrary: s)
  case (Cons x xs)
  obtain r s1 where 1: "step x s = (r, s1)" by fastforce
  obtain p where p: "post x = Inr p" "pr s1 = (if r = Inr True then f p (pr s) else pr s)"
    using Cons.prems [OF _ 1] by auto
  have "\<exists>ps k. mapE post xs = Inr ps \<and> pr (snd (run_steps step xs s1)) = fold f (take k ps) (pr s1)"
    by (rule Cons.IH) (rule Cons.prems, simp_all)
  then obtain ps k where ps: "mapE post xs = Inr ps"
    "pr (snd (run_steps step xs s1)) = fold f (take k ps) (pr s1)" by blast
  show ?case
  proof (cases "r = Inr True")
    case True
    then have "pr (snd (run_steps step (x # xs) s)) = fold f (take (Suc k) (p # ps)) (pr s)"
      using 1 p ps by simp
    then show ?thesis using p(1) ps(1) by (intro exI [of _ "p # ps"] exI [of _ "Suc k"]) simp
  next
    case False
    then have "pr (snd (run_steps step (x # xs) s)) = fold f (take 0 (p # ps)) (pr s)"
      using 1 p by (auto split: sum.splits)
    then show ?thesis using p(1) ps(1) by (intro exI [of _ "p # ps"] exI [of _ 0]) simp
  qed
qed simp

lemma catch_false_True: "catch_false r = Inr (True, s) \<longleftrightarrow> r = (Inr True, s)"
  by (auto simp: catch_false_def split: prod.splits sum.splits if_splits)

section \<open>Transfers as postings\<close>

definition posting_of :: "Transfer \<Rightarrow> error + posting" where
  "posting_of t =
     bindE (xfer_getAddress t) (\<lambda>addr.
     bindE (xfer_getCoin t) (\<lambda>coin.
     bindE (xfer_getAmount t) (\<lambda>amount.
     bindE (xfer_getDelay t) (\<lambda>delay.
     Inr (addr, coin, amount, delay)))))"

lemma posting_of_make [simp]: "addr_wf a \<Longrightarrow> posting_of (Transfer_make a c m d) = Inr (a, c, m, d)"
  by (simp add: posting_of_def)

lemma posting_of_wf: "xfer_wf t \<Longrightarrow> \<exists>p. posting_of t = Inr p"
  by (erule xfer_wfE) auto

section \<open>The aggregate map\<close>

text \<open>Coins that the transactions of the same batch already committed, per address. The same code
  appears in \<^verbatim>\<open>do_isValidInAggregate\<close> of both kinds of transactions. The result says whether to go
  on, and gives the map and the flag \<open>no_error\<close>.\<close>

type_synonym aggregate = "(Address, SmartCoin) omap"

definition commit_coins ::
  "ChainState \<Rightarrow> Address \<Rightarrow> uint64 \<Rightarrow> int64 \<Rightarrow> aggregate \<Rightarrow> bool \<Rightarrow> error + (bool \<times> aggregate \<times> bool)"
where
  "commit_coins prior addr coin amount agg no_error =
     (case map_of agg addr of
        Some entry \<Rightarrow>
          bindE (getAmount coin addr prior) (\<lambda>historic.
          let committed = sc_amount entry in
          if sint (historic + committed + amount) < 0 then Inr (False, agg, no_error)
          else Inr (True, omap_set addr (SmartCoin_make addr coin (amount + committed)) agg, no_error))
      | None \<Rightarrow>
          Inr (True, omap_insert addr (SmartCoin_make addr coin amount) agg,
               (map_of agg addr = None) \<and> no_error))"

lemma commit_coins_no_error:
  "commit_coins prior a c m agg True = Inr (b, agg', ne) \<Longrightarrow> ne"
  by (auto simp: commit_coins_def Let_def split: option.splits if_splits)

lemma commit_coins_ok:
  "commit_coins prior a c m agg ne = Inr (b, agg', ne') \<Longrightarrow> omap_ok agg \<Longrightarrow> omap_ok agg'"
  by (auto simp: commit_coins_def Let_def split: option.splits if_splits)

end
