(* ===== verification/Tier2_Tx.thy ===== *)
theory Tier2_Tx
  imports Transactions
begin

text \<open>
  \<^verbatim>\<open>primitives/Tier2Transaction.h\<close> and \<^verbatim>\<open>Tier2Transaction.cpp\<close>: transactions between wallets. The
  canonical form is an envelope (size of the transfers, size of the nonce, operation), the
  transfers, the nonce and the signature. The theory has the constructors, the deserialiser, the
  accessors, the soundness check and the two validation methods.
\<close>

section \<open>State\<close>

record Tier2Transaction = Transaction +
  t2_xfer_size :: uint64
  t2_nonce_size :: uint64

text \<open>The operations of \<^verbatim>\<open>enum eOpType\<close>.\<close>

abbreviation (input) "eCreate \<equiv> 0"
abbreviation (input) "eModify \<equiv> 1"
abbreviation (input) "eExchange \<equiv> 2"
abbreviation (input) "eDelete \<equiv> 3"

section \<open>Accessors\<close>

definition t2_getOperation :: "Tier2Transaction \<Rightarrow> error + byte" where
  "t2_getOperation tx = vec_get (tx_canonical tx) kOPERATION_OFFSET"

definition t2_getNonce :: "Tier2Transaction \<Rightarrow> error + bytes" where
  "t2_getNonce tx =
     vec_sub (tx_canonical tx) (kENVELOPE_SIZE + t2_xfer_size tx)
       (kENVELOPE_SIZE + t2_xfer_size tx + t2_nonce_size tx)"

definition t2_getMessageDigest :: "Tier2Transaction \<Rightarrow> error + bytes" where
  "t2_getMessageDigest tx =
     vec_sub (tx_canonical tx) 0 (kENVELOPE_SIZE + t2_nonce_size tx + t2_xfer_size tx)"

text \<open>The loop of \<^verbatim>\<open>do_getTransfers\<close>: each round reads one transfer at the running offset and moves on
  by its size.\<close>

lemma Transfer_read_progress:
  assumes "Transfer_read ib = Inr (t, ib')"
  shows "24 \<le> xfer_Size t" and "unat (ib_offset ib + 1) + xfer_Size t \<le> 2 ^ 63"
proof -
  define q where "q = ib_offset ib + 1"
  obtain ty bin rest where r: "vec_range (ib_buffer ib) (unat q) (unat ty) = Inr bin"
    and c: "vec_range (ib_buffer ib) (unat (q + vec_size bin)) 24 = Inr rest"
    and t: "t = Transfer_of (addr_canonical (Address_vec bin) @ rest)" and ty: "ty = (ty :: byte)"
    using assms
    by (auto simp: Transfer_read_def copyAddress_def copy_tagged_def ib_copy_def getNextByte_def
        reader_simps ib_increment_def q_def)
  have len: "length bin \<le> 255" "unat q + length bin < 2 ^ 63" "length rest = 24"
    using r c unat_byte_less [of ty] by (auto simp: vec_range_eq_Inr)
  then have "unat (q + vec_size bin) = unat q + length bin"
    by (simp add: vec_size_def unat_add_of_nat_64)
  then have "unat q + length bin + 24 < 2 ^ 63"
    using c by (simp add: vec_range_eq_Inr)
  moreover have "length (addr_canonical (Address_vec bin)) \<le> Suc (length bin)"
    by (simp add: Address_vec_def)
  ultimately show "24 \<le> xfer_Size t" and "unat (ib_offset ib + 1) + xfer_Size t \<le> 2 ^ 63"
    using len by (simp_all add: t xfer_Size_def q_def)
qed

function t2_xfer_loop :: "bytes \<Rightarrow> uint64 \<Rightarrow> size_t \<Rightarrow> error + Transfer list" where
  "t2_xfer_loop canonical xfer_size offset =
     (if offset < xfer_size then
        bindE (Transfer_read (InputBuffer_make canonical (kTRANSFER_OFFSET + offset))) (\<lambda>(t, _).
        bindE (t2_xfer_loop canonical xfer_size (offset + of_nat (xfer_Size t))) (\<lambda>out.
        Inr (t # out)))
      else Inr [])"
  by pat_completeness auto

termination t2_xfer_loop
proof (relation "measure (\<lambda>(c, n, offset). 2 ^ 64 - unat (kTRANSFER_OFFSET + offset + 1))")
  fix c :: bytes and n offset :: uint64 and r :: "Transfer \<times> InputBuffer" and t ib
  assume "Transfer_read (InputBuffer_make c (kTRANSFER_OFFSET + offset)) = Inr r" and "(t, ib) = r"
  then have p: "24 \<le> xfer_Size t" "unat (17 + offset + 1) + xfer_Size t \<le> 2 ^ 63"
    using Transfer_read_progress [of "InputBuffer_make c (17 + offset)" t ib]
    by (simp_all add: InputBuffer_make_def)
  then have "unat (17 + offset + 1 + of_nat (xfer_Size t)) = unat (17 + offset + 1) + xfer_Size t"
    by (intro unat_add_of_nat_64) simp
  moreover have "17 + offset + 1 + of_nat (xfer_Size t) = 17 + (offset + of_nat (xfer_Size t)) + 1"
    by (simp add: algebra_simps)
  ultimately have "unat (17 + (offset + of_nat (xfer_Size t)) + 1) = unat (17 + offset + 1) + xfer_Size t"
    by (simp add: add.assoc)
  with p show "((c, n, offset + of_nat (xfer_Size t)), c, n, offset)
      \<in> measure (\<lambda>(c, n, offset). 2 ^ 64 - unat (kTRANSFER_OFFSET + offset + 1))"
    by simp
qed auto

declare t2_xfer_loop.simps [simp del]

definition t2_getTransfers :: "Tier2Transaction \<Rightarrow> error + Transfer list" where
  "t2_getTransfers tx = t2_xfer_loop (tx_canonical tx) (t2_xfer_size tx) 0"

definition t2_getSignature :: "Tier2Transaction \<Rightarrow> error + Signature" where
  "t2_getSignature tx =
     bindE (t2_getOperation tx) (\<lambda>oper.
     let sig_start = kENVELOPE_SIZE + t2_nonce_size tx + t2_xfer_size tx in
     if oper = eExchange then
       bindE (vec_sub (tx_canonical tx) sig_start (sig_start + kWALLET_SIG_BUF_SIZE)) Signature_vec
     else
       bindE (vec_sub (tx_canonical tx) sig_start (sig_start + kNODE_SIG_BUF_SIZE)) Signature_vec)"

section \<open>Soundness\<close>

text \<open>The loop over the transfers adds up the amounts and determines the sender.\<close>

fun t2_sender_step :: "Transfer \<Rightarrow> int64 \<times> bool \<times> Address \<Rightarrow> error + (int64 \<times> bool \<times> Address)" where
  "t2_sender_step t (tot, sender_set, sender) =
     bindE (xfer_getAmount t) (\<lambda>amount.
     if sint amount < 0 then
       bindE (xfer_getAddress t) (\<lambda>addr.
       if sender_set \<and> sender \<noteq> addr then
         Inl (RuntimeError ''TransactionError: Multiple senders in transaction'')
       else Inr (tot + amount, True, addr))
     else Inr (tot + amount, sender_set, sender))"

definition t2_isSound :: "Crypto \<Rightarrow> KeyRing \<Rightarrow> Tier2Transaction \<Rightarrow> error + bool" where
  "t2_isSound C keys tx =
     (if tx_is_sound tx then Inr True
      else
        bindE (t2_getOperation tx) (\<lambda>oper.
        bindE (t2_getTransfers tx) (\<lambda>xfers.
        bindE (foldE t2_sender_step xfers (0, False, Address_default)) (\<lambda>(tot, sender_set, sender).
        if (oper = eCreate \<or> oper = eDelete \<or> oper = eModify) \<and> \<not> isINN sender then
          Inl (RuntimeError ''TransactionError: Invalid operation, non-INN address performing privileged operation.'')
        else if tot \<noteq> 0 then
          Inl (RuntimeError (''TransactionError: transaction amounts are asymmetric. (sum='' @ to_string_s tot @ '')''))
        else if oper \<noteq> eExchange \<and> \<not> isINN sender then
          Inl (RuntimeError ''TransactionError: INN transaction not performed by INN'')
        else
          bindE (getKey C keys sender) (\<lambda>eckey.
          bindE (t2_getMessageDigest tx) (\<lambda>msg.
          bindE (t2_getSignature tx) (\<lambda>sig.
          if \<not> VerifyByteSig C eckey (DevcashHash C msg) sig then
            Inl (RuntimeError ''TransactionError: transaction signature did not validate'')
          else Inr True)))))))"

definition t2_setIsSound :: "Crypto \<Rightarrow> KeyRing \<Rightarrow> Tier2Transaction \<Rightarrow> error + (bool \<times> Tier2Transaction)" where
  "t2_setIsSound C keys tx =
     bindE (t2_isSound C keys tx) (\<lambda>b. Inr (b, tx\<lparr>tx_is_sound := b\<rparr>))"

section \<open>Construction\<close>

text \<open>The part that the four constructors share: everything before the signature.\<close>

definition t2_unsigned :: "byte \<Rightarrow> Transfer list \<Rightarrow> bytes \<Rightarrow> Tier2Transaction" where
  "t2_unsigned oper xfers nonce =
     (let nonce_size = vec_size nonce;
          canonical = Uint64ToBin nonce_size [] @ [oper];
          (xfer_size, canonical) =
            fold (\<lambda>t (n, c). (n + of_nat (xfer_Size t), c @ xfer_canonical t)) xfers (0, canonical);
          canonical = Uint64ToBin xfer_size [] @ canonical;
          canonical = canonical @ nonce
      in \<lparr>tx_canonical = canonical, tx_is_sound = False,
          t2_xfer_size = xfer_size, t2_nonce_size = nonce_size\<rparr>)"

definition t2_attach :: "Signature \<Rightarrow> Tier2Transaction \<Rightarrow> Tier2Transaction" where
  "t2_attach sig tx = tx\<lparr>tx_canonical := tx_canonical tx @ sig_canonical sig\<rparr>"

definition t2_checked :: "Crypto \<Rightarrow> KeyRing \<Rightarrow> Tier2Transaction \<Rightarrow> error + Tier2Transaction" where
  "t2_checked C keys tx =
     bindE (t2_isSound C keys tx) (\<lambda>is_sound.
     if \<not> is_sound then Inl (DevcashMessageError ''Invalid serialized T2 transaction, not sound!'')
     else Inr (tx\<lparr>tx_is_sound := is_sound\<rparr>))"

definition t2_sign_digest :: "Crypto \<Rightarrow> ec_key \<Rightarrow> Tier2Transaction \<Rightarrow> error + Signature" where
  "t2_sign_digest C eckey tx =
     bindE (t2_getMessageDigest tx) (\<lambda>msg. SignBinary C eckey (DevcashHash C msg))"

definition Tier2Transaction_sign ::
  "Crypto \<Rightarrow> byte \<Rightarrow> Transfer list \<Rightarrow> bytes \<Rightarrow> ec_key \<Rightarrow> KeyRing \<Rightarrow> error + Tier2Transaction" where
  "Tier2Transaction_sign C oper xfers nonce eckey keys =
     (if vec_size nonce < kMIN_NONCE_SIZE then
        Inl (DevcashMessageError (''Invalid serialized T2 transaction, nonce is too small (''
               @ to_string_u (vec_size nonce) @ '')''))
      else
        let tx = t2_unsigned oper xfers nonce in
        bindE (t2_sign_digest C eckey tx) (\<lambda>sig.
        t2_checked C keys (t2_attach sig tx)))"

definition Tier2Transaction_signed ::
  "Crypto \<Rightarrow> byte \<Rightarrow> Transfer list \<Rightarrow> bytes \<Rightarrow> KeyRing \<Rightarrow> Signature \<Rightarrow> error + Tier2Transaction" where
  "Tier2Transaction_signed C oper xfers nonce keys signature =
     (let tx = t2_unsigned oper xfers nonce in
      bindE (t2_getMessageDigest tx) (\<lambda>msg.
      t2_checked C keys (t2_attach signature tx)))"

definition Tier2Transaction_sign_unchecked ::
  "Crypto \<Rightarrow> byte \<Rightarrow> Transfer list \<Rightarrow> bytes \<Rightarrow> ec_key \<Rightarrow> error + Tier2Transaction" where
  "Tier2Transaction_sign_unchecked C oper xfers nonce eckey =
     (let tx = t2_unsigned oper xfers nonce in
      bindE (t2_sign_digest C eckey tx) (\<lambda>signature. Inr (t2_attach signature tx)))"

definition Tier2Transaction_signed_unchecked ::
  "byte \<Rightarrow> Transfer list \<Rightarrow> bytes \<Rightarrow> Signature \<Rightarrow> error + Tier2Transaction" where
  "Tier2Transaction_signed_unchecked oper xfers nonce signature =
     (let tx = t2_unsigned oper xfers nonce in
      bindE (t2_getMessageDigest tx) (\<lambda>msg. Inr (t2_attach signature tx)))"

section \<open>Deserialisation\<close>

definition t2_default :: Tier2Transaction where
  "t2_default = \<lparr>tx_canonical = [], tx_is_sound = False, t2_xfer_size = 0, t2_nonce_size = 0\<rparr>"

text \<open>The text appended to the messages about a bad size.\<close>

definition t2_prefix_note :: "string \<Rightarrow> InputBuffer \<Rightarrow> error" where
  "t2_prefix_note what ib =
     (case vec_range (ib_buffer ib) (unat (ib_offset ib)) 8 of
        Inl e \<Rightarrow> e
      | Inr prefix \<Rightarrow> DeserializationError (what @ ''Transaction prefix: '' @ ToHexAll prefix
                      @ ''Bytes offset: '' @ to_string_u (ib_offset ib)))"

definition t2_QuickFill :: "Tier2Transaction \<Rightarrow> Tier2Transaction reader" where
  "t2_QuickFill tx = (\<lambda>ib.
     if ib_size ib < ib_offset ib + kTX_MIN_SIZE then
       Inl (DeserializationError ''Invalid serialized T2 transaction, too small!'')
     else
       bindR (getNextUint64 False) (\<lambda>xfer_size.
       bindR (getSecondUint64 False) (\<lambda>nonce_size ib.
       if nonce_size < kMIN_NONCE_SIZE then
         Inl (t2_prefix_note (''Invalid serialized T2 transaction, bad nonce size (''
                @ to_string_u nonce_size @ '')!'') ib)
       else
         bindR (offsetAt kOPERATION_OFFSET) (\<lambda>oper ib.
         if oper \<ge> kNumOperations then
           Inl (DeserializationError ''Invalid serialized T2 transaction, invalid operation!'')
         else
           bindR (offsetAt (kTRANSFER_OFFSET + xfer_size + nonce_size)) (\<lambda>t ib.
           let tx_size = ucast t + kTRANSFER_OFFSET + xfer_size + nonce_size in
           if ib_size ib < ib_offset ib + tx_size then
             Inl (t2_prefix_note (''Invalid serialized T2 transaction, wrong size (''
                    @ to_string_u tx_size @ '')!'') ib)
           else
             bindR (ib_copy tx_size True) (\<lambda>bytes.
             returnR (tx\<lparr>tx_canonical := tx_canonical tx @ bytes,
                         t2_xfer_size := xfer_size, t2_nonce_size := nonce_size\<rparr>)) ib) ib) ib)) ib)"

definition t2_Fill :: "Crypto \<Rightarrow> KeyRing \<Rightarrow> bool \<Rightarrow> Tier2Transaction \<Rightarrow> Tier2Transaction reader" where
  "t2_Fill C keys calculate_soundness tx =
     bindR (t2_QuickFill tx) (\<lambda>tx.
     if calculate_soundness then
       bindR (liftR (t2_isSound C keys tx)) (\<lambda>is_sound. returnR (tx\<lparr>tx_is_sound := is_sound\<rparr>))
     else returnR tx)"

definition t2_Create :: "Crypto \<Rightarrow> KeyRing \<Rightarrow> bool \<Rightarrow> Tier2Transaction reader" where
  "t2_Create C keys calculate_soundness = t2_Fill C keys calculate_soundness t2_default"

definition t2_QuickCreate :: "Tier2Transaction reader" where
  "t2_QuickCreate = t2_QuickFill t2_default"

definition t2_CreateUniquePtr :: "Crypto \<Rightarrow> KeyRing \<Rightarrow> bool \<Rightarrow> Tier2Transaction reader" where
  "t2_CreateUniquePtr C keys calculate_soundness = t2_Fill C keys calculate_soundness t2_default"

section \<open>Validation\<close>

fun t2_valid_step ::
  "byte \<Rightarrow> Transfer \<Rightarrow> ChainState \<times> Summary \<Rightarrow> (error + bool) \<times> ChainState \<times> Summary" where
  "t2_valid_step oper t (state, summary) =
     (case bindE (xfer_getAmount t) (\<lambda>amount. bindE (xfer_getCoin t) (\<lambda>coin.
           bindE (xfer_getAddress t) (\<lambda>addr. Inr (amount, coin, addr)))) of
        Inl e \<Rightarrow> (Inl e, state, summary)
      | Inr (amount, coin, addr) \<Rightarrow>
          (case (if sint amount < 0 \<and> oper = eExchange
                 then bindE (getAmount coin addr state) (\<lambda>available. Inr (sint amount > sint available))
                 else Inr False) of
             Inl e \<Rightarrow> (Inl e, state, summary)
           | Inr unavailable \<Rightarrow>
               if unavailable then (Inr False, state, summary)
               else
                 let state = snd (addCoin (SmartCoin_make addr coin amount) state) in
                 (case xfer_getDelay t of
                    Inl e \<Rightarrow> (Inl e, state, summary)
                  | Inr delay \<Rightarrow> (Inr True, state, snd (sum_addItem4 addr coin amount delay summary)))))"

definition t2_isValid ::
  "Crypto \<Rightarrow> KeyRing \<Rightarrow> Tier2Transaction \<Rightarrow> ChainState \<times> Summary \<Rightarrow> error + (bool \<times> ChainState \<times> Summary)" where
  "t2_isValid C keys tx s =
     catch_false
       (case t2_isSound C keys tx of
          Inl e \<Rightarrow> (Inl e, s)
        | Inr sound \<Rightarrow>
            if \<not> sound then (Inr False, s)
            else
              (case bindE (t2_getOperation tx) (\<lambda>oper.
                    bindE (t2_getTransfers tx) (\<lambda>xfers. Inr (oper, xfers))) of
                 Inl e \<Rightarrow> (Inl e, s)
               | Inr (oper, xfers) \<Rightarrow> run_steps (t2_valid_step oper) xfers s))"

text \<open>The state of \<^verbatim>\<open>do_isValidInAggregate\<close> also has the aggregate map and the flag \<^verbatim>\<open>no_error\<close>.\<close>

fun t2_aggregate_step ::
  "ChainState \<Rightarrow> byte \<Rightarrow> Transfer \<Rightarrow> ChainState \<times> Summary \<times> aggregate \<times> bool
   \<Rightarrow> (error + bool) \<times> ChainState \<times> Summary \<times> aggregate \<times> bool" where
  "t2_aggregate_step prior oper t (state, summary, agg, no_error) =
     (case bindE (xfer_getAmount t) (\<lambda>amount. bindE (xfer_getCoin t) (\<lambda>coin.
           bindE (xfer_getAddress t) (\<lambda>addr. Inr (amount, coin, addr)))) of
        Inl e \<Rightarrow> (Inl e, state, summary, agg, no_error)
      | Inr (amount, coin, addr) \<Rightarrow>
          (case (if sint amount < 0 then
                   bindE (if oper = eExchange
                          then bindE (getAmount coin addr state) (\<lambda>available. Inr (sint amount > sint available))
                          else Inr False) (\<lambda>unavailable.
                   if unavailable then Inr (False, agg, no_error)
                   else commit_coins prior addr coin amount agg no_error)
                 else Inr (True, agg, no_error)) of
             Inl e \<Rightarrow> (Inl e, state, summary, agg, no_error)
           | Inr (go_on, agg, no_error) \<Rightarrow>
               if \<not> go_on then (Inr False, state, summary, agg, no_error)
               else
                 let state = snd (addCoin (SmartCoin_make addr coin amount) state) in
                 (case xfer_getDelay t of
                    Inl e \<Rightarrow> (Inl e, state, summary, agg, no_error)
                  | Inr delay \<Rightarrow>
                      (Inr True, state, snd (sum_addItem4 addr coin amount delay summary), agg, no_error))))"

definition t2_isValidInAggregate ::
  "Crypto \<Rightarrow> KeyRing \<Rightarrow> ChainState \<Rightarrow> Tier2Transaction \<Rightarrow> ChainState \<times> Summary \<times> aggregate
   \<Rightarrow> error + (bool \<times> ChainState \<times> Summary \<times> aggregate)" where
  "t2_isValidInAggregate C keys prior tx s =
     (case s of (state, summary, agg) \<Rightarrow>
      bindE (catch_false
       (case t2_isSound C keys tx of
          Inl e \<Rightarrow> (Inl e, state, summary, agg, True)
        | Inr sound \<Rightarrow>
            if \<not> sound then (Inr False, state, summary, agg, True)
            else
              (case bindE (t2_getOperation tx) (\<lambda>oper.
                    bindE (t2_getTransfers tx) (\<lambda>xfers. Inr (oper, xfers))) of
                 Inl e \<Rightarrow> (Inl e, state, summary, agg, True)
               | Inr (oper, xfers) \<Rightarrow>
                   run_steps (t2_aggregate_step prior oper) xfers (state, summary, agg, True))))
       (\<lambda>(b, state, summary, agg, no_error). Inr (b \<and> no_error, state, summary, agg)))"

section \<open>JSON\<close>

definition join_comma :: "string list \<Rightarrow> string" where
  "join_comma xs = (case xs of [] \<Rightarrow> [] | y # ys \<Rightarrow> fold (\<lambda>x json. json @ '','' @ x) ys y)"

definition json_tag :: "string \<Rightarrow> string" where
  "json_tag t = dq @ t @ dq @ '':''"

definition t2_getJSON :: "Tier2Transaction \<Rightarrow> error + string" where
  "t2_getJSON tx =
     bindE (t2_getOperation tx) (\<lambda>oper.
     bindE (t2_getTransfers tx) (\<lambda>xfers.
     bindE (mapE xfer_getJSON xfers) (\<lambda>items.
     bindE (t2_getNonce tx) (\<lambda>nonce.
     bindE (t2_getSignature tx) (\<lambda>sig.
     Inr (''{'' @ json_tag ''xfer_size'' @ to_string_u (t2_xfer_size tx) @ '',''
       @ json_tag ''nonce_size'' @ to_string_u (t2_nonce_size tx) @ '',''
       @ json_tag ''oper'' @ to_string_u oper @ '',''
       @ json_tag ''xfer'' @ ''['' @ join_comma items
       @ ''],'' @ json_tag ''nonce'' @ dq @ ToHexAll nonce @ dq @ '',''
       @ json_tag ''sig'' @ dq @ sig_getJSON sig @ dq @ ''}''))))))"

section \<open>The layout of a transaction\<close>

abbreviation xfers_bytes :: "Transfer list \<Rightarrow> bytes" where
  "xfers_bytes xfers \<equiv> concat (map xfer_canonical xfers)"

text \<open>The transaction with given parts. \<open>t2_fits\<close> bounds the parts so that all size computations of
  the code stay below the range of the vector sizes.\<close>

definition t2_parts :: "byte \<Rightarrow> Transfer list \<Rightarrow> bytes \<Rightarrow> bytes \<Rightarrow> bool \<Rightarrow> Tier2Transaction" where
  "t2_parts oper xfers nonce sig sound =
     \<lparr>tx_canonical = le64 (vec_size (xfers_bytes xfers)) @ le64 (vec_size nonce) @ [oper]
        @ xfers_bytes xfers @ nonce @ sig,
      tx_is_sound = sound,
      t2_xfer_size = vec_size (xfers_bytes xfers), t2_nonce_size = vec_size nonce\<rparr>"

definition t2_fits :: "Transfer list \<Rightarrow> bytes \<Rightarrow> bool" where
  "t2_fits xfers nonce = (length (xfers_bytes xfers) + length nonce < 2 ^ 62)"

lemma t2_unsigned_parts: "t2_unsigned oper xfers nonce = t2_parts oper xfers nonce [] False"
proof -
  have "fold (\<lambda>t (n, c). (n + of_nat (xfer_Size t), c @ xfer_canonical t)) xfers (n, c) =
        (n + vec_size (xfers_bytes xfers), c @ xfers_bytes xfers)" for n c
    by (induction xfers arbitrary: n c) (simp_all add: vec_size_def xfer_Size_def add.assoc)
  then show ?thesis
    by (simp add: t2_unsigned_def t2_parts_def Uint64ToBin_le Let_def)
qed

lemma t2_attach_parts:
  "t2_attach sig (t2_parts oper xfers nonce s b) = t2_parts oper xfers nonce (s @ sig_canonical sig) b"
  by (simp add: t2_attach_def t2_parts_def)

lemma t2_parts_sound [simp]:
  "tx_is_sound (t2_parts oper xfers nonce s b) = b"
  "(t2_parts oper xfers nonce s b)\<lparr>tx_is_sound := b'\<rparr> = t2_parts oper xfers nonce s b'"
  by (simp_all add: t2_parts_def)

lemma t2_sizes:
  assumes "t2_fits xfers nonce"
  shows "unat (17 + vec_size (xfers_bytes xfers)) = 17 + length (xfers_bytes xfers)"
    and "unat (17 + vec_size (xfers_bytes xfers) + vec_size nonce) =
         17 + length (xfers_bytes xfers) + length nonce"
    and "unat (17 + vec_size nonce + vec_size (xfers_bytes xfers)) =
         17 + length (xfers_bytes xfers) + length nonce"
proof -
  let ?x = "length (xfers_bytes xfers)"
  have x: "unat (17 + of_nat ?x :: size_t) = 17 + ?x"
    using assms unat_add_of_nat_64 [of 17 ?x] by (simp add: t2_fits_def)
  then show "unat (17 + vec_size (xfers_bytes xfers)) = 17 + ?x" by (simp add: vec_size_def)
  show y: "unat (17 + vec_size (xfers_bytes xfers) + vec_size nonce) = 17 + ?x + length nonce"
    using assms x unat_add_of_nat_64 [of "17 + of_nat ?x" "length nonce"]
    by (simp add: t2_fits_def vec_size_def)
  then show "unat (17 + vec_size nonce + vec_size (xfers_bytes xfers)) = 17 + ?x + length nonce"
    by (simp add: add.commute add.left_commute)
qed

lemma t2_getOperation_parts: "t2_getOperation (t2_parts oper xfers nonce s b) = Inr oper"
  by (simp add: t2_getOperation_def t2_parts_def vec_get_def nth_append)

lemma t2_getNonce_parts:
  assumes "t2_fits xfers nonce"
  shows "t2_getNonce (t2_parts oper xfers nonce s b) = Inr nonce"
proof -
  let ?x = "xfers_bytes xfers"
  have "vec_sub ((le64 (vec_size ?x) @ le64 (vec_size nonce) @ [oper] @ ?x) @ nonce @ s)
          (17 + vec_size ?x) (17 + vec_size ?x + vec_size nonce) = Inr nonce"
    using t2_sizes [OF assms] assms by (intro vec_sub_append) (simp_all add: t2_fits_def)
  then show ?thesis by (simp add: t2_getNonce_def t2_parts_def)
qed

lemma t2_getMessageDigest_parts:
  assumes "t2_fits xfers nonce"
  shows "t2_getMessageDigest (t2_parts oper xfers nonce s b) =
         Inr (tx_canonical (t2_parts oper xfers nonce [] b))"
proof -
  let ?x = "xfers_bytes xfers"
  have "vec_sub ([] @ (le64 (vec_size ?x) @ le64 (vec_size nonce) @ [oper] @ ?x @ nonce) @ s)
          0 (17 + vec_size nonce + vec_size ?x) =
        Inr (le64 (vec_size ?x) @ le64 (vec_size nonce) @ [oper] @ ?x @ nonce)"
    using t2_sizes [OF assms] assms by (intro vec_sub_append) (simp_all add: t2_fits_def)
  then show ?thesis by (simp add: t2_getMessageDigest_def t2_parts_def)
qed

text \<open>The loop over the transfers stops at the end of the transfers and returns them all.\<close>

lemma t2_xfer_loop_parts:
  assumes "length p = 17 + off" and "length (p @ xfers_bytes zs @ r) < 2 ^ 63"
    and "\<forall>t \<in> set zs. xfer_wf t"
  shows "t2_xfer_loop (p @ xfers_bytes zs @ r) (of_nat (off + length (xfers_bytes zs))) (of_nat off) = Inr zs"
  using assms
proof (induction zs arbitrary: p off)
  case Nil
  then show ?case by (simp add: t2_xfer_loop.simps)
next
  case (Cons t zs)
  let ?c = "p @ xfers_bytes (t # zs) @ r" and ?n = "of_nat (off + length (xfers_bytes (t # zs))) :: uint64"
  have "0 < xfer_Size t"
    using Cons.prems(3) xfer_Size_wf [of t] by (auto simp: xfer_MinSize_def xfer_MaxSize_def)
  moreover have "unat ?n = off + length (xfers_bytes (t # zs))" "unat (of_nat off :: uint64) = off"
    using Cons.prems(1,2) by (intro unat_of_nat_64; simp)+
  ultimately have lt: "(of_nat off :: uint64) < ?n"
    unfolding word_less_nat_alt by (simp add: xfer_Size_def)
  let ?ib = "InputBuffer_make ?c (17 + of_nat off)"
  have o: "unat (17 + of_nat off :: size_t) = 17 + off"
    using Cons.prems(1,2) unat_add_of_nat_64 [of 17 off] by simp
  then have "ib_wf ?ib" "ib_rest ?ib = xfer_canonical t @ xfers_bytes zs @ r"
    using Cons.prems(1,2) by (simp_all add: ib_wf_def ib_rest_def InputBuffer_make_def)
  then have rd: "Transfer_read ?ib = Inr (t, advance (length (xfer_canonical t)) ?ib)"
    using readsD [OF reads_Transfer [of t]] Cons.prems(3) by simp
  have "t2_xfer_loop ((p @ xfer_canonical t) @ xfers_bytes zs @ r)
      (of_nat (off + xfer_Size t + length (xfers_bytes zs))) (of_nat (off + xfer_Size t)) = Inr zs"
    using Cons.prems by (intro Cons.IH) (simp_all add: xfer_Size_def)
  with lt rd show ?case
    by (subst t2_xfer_loop.simps) (simp add: xfer_Size_def add.assoc)
qed

lemma t2_getTransfers_parts:
  assumes "t2_fits xfers nonce" "\<forall>t \<in> set xfers. xfer_wf t" "length s < 2 ^ 60"
  shows "t2_getTransfers (t2_parts oper xfers nonce s b) = Inr xfers"
proof -
  let ?x = "xfers_bytes xfers"
  let ?p = "le64 (vec_size ?x) @ le64 (vec_size nonce) @ [oper]"
  have "t2_xfer_loop (?p @ ?x @ nonce @ s) (of_nat (0 + length ?x)) (of_nat 0) = Inr xfers"
    using assms by (intro t2_xfer_loop_parts) (simp_all add: t2_fits_def)
  then show ?thesis by (simp add: t2_getTransfers_def t2_parts_def vec_size_def)
qed

text \<open>The signature is found when its kind fits the operation: wallet signatures sign exchanges,
  node signatures the privileged operations.\<close>

definition sig_fits :: "byte \<Rightarrow> Signature \<Rightarrow> bool" where
  "sig_fits oper sig = (sig_wf sig \<and> sig_size sig = (if oper = eExchange then 74 else 106))"

lemma t2_getSignature_parts:
  assumes "t2_fits xfers nonce" "sig_fits oper sig"
  shows "t2_getSignature (t2_parts oper xfers nonce (sig_canonical sig) b) = Inr sig"
proof -
  let ?x = "xfers_bytes xfers" and ?n = "if oper = eExchange then 74 else 106 :: size_t"
  let ?i = "17 + vec_size nonce + vec_size ?x"
  have w: "length (sig_canonical sig) = unat ?n"
    using assms(2) by (auto simp: sig_fits_def sig_size_def)
  have i: "unat ?i = 17 + length ?x + length nonce" by (rule t2_sizes(3) [OF assms(1)])
  then have j: "unat (?i + ?n) = unat ?i + unat ?n"
    using assms(1) by (intro unat_add_64) (auto simp: t2_fits_def)
  have "vec_sub ((le64 (vec_size ?x) @ le64 (vec_size nonce) @ [oper] @ ?x @ nonce) @ sig_canonical sig @ [])
          ?i (?i + ?n) = Inr (sig_canonical sig)"
    using i j w assms(1) by (intro vec_sub_append) (auto simp: t2_fits_def)
  moreover have "Signature_vec (sig_canonical sig) = Inr sig"
    using assms(2) sig.mk_canon [of sig] by (simp add: sig_fits_def sig_wf_def)
  ultimately show ?thesis
    by (cases "oper = eExchange")
      (simp_all add: t2_getSignature_def t2_getOperation_parts Let_def, simp_all add: t2_parts_def)
qed

lemmas t2_parts_getters =
  t2_getOperation_parts t2_getNonce_parts t2_getMessageDigest_parts t2_getTransfers_parts
  t2_getSignature_parts

section \<open>What soundness means\<close>

lemma t2_sender_fold:
  assumes "foldE t2_sender_step xfers (tot, ss, sd) = Inr (tot', ss', sd')"
  shows "(ss \<longrightarrow> ss' \<and> sd' = sd) \<and>
    (\<exists>ms. mapE xfer_getAmount xfers = Inr ms \<and> tot' = tot + sum_list ms) \<and>
    (\<forall>t \<in> set xfers. \<forall>m. xfer_getAmount t = Inr m \<longrightarrow> sint m < 0 \<longrightarrow> ss' \<and> xfer_getAddress t = Inr sd')"
  using assms
proof (induction xfers arbitrary: tot ss sd)
  case (Cons t ts)
  obtain m tot1 ss1 sd1 where m: "xfer_getAmount t = Inr m" and tot1: "tot1 = tot + m"
    and ss1: "(ss \<longrightarrow> ss1 \<and> sd1 = sd) \<and> (sint m < 0 \<longrightarrow> ss1 \<and> xfer_getAddress t = Inr sd1)"
    and rest: "foldE t2_sender_step ts (tot1, ss1, sd1) = Inr (tot', ss', sd')"
    using Cons.prems by (auto split: if_splits)
  from Cons.IH [OF rest] ss1 m tot1 show ?case by (auto simp: add.assoc)
qed auto

text \<open>An unflagged transaction that passes the check has amounts that add up to zero, one sender
  for all negative transfers, a node as the sender of a privileged operation, and a signature of
  the digest that verifies under the key of the sender.\<close>

definition t2_sound_spec :: "Crypto \<Rightarrow> KeyRing \<Rightarrow> Tier2Transaction \<Rightarrow> bool" where
  "t2_sound_spec C keys tx =
     (\<exists>oper xfers ms sender key msg sig.
        t2_getOperation tx = Inr oper \<and> t2_getTransfers tx = Inr xfers \<and>
        mapE xfer_getAmount xfers = Inr ms \<and> sum_list ms = 0 \<and>
        (\<forall>t \<in> set xfers. \<forall>m. xfer_getAmount t = Inr m \<longrightarrow> sint m < 0 \<longrightarrow>
           xfer_getAddress t = Inr sender) \<and>
        (oper \<noteq> eExchange \<longrightarrow> isNodeAddress sender) \<and>
        getKey C keys sender = Inr key \<and>
        t2_getMessageDigest tx = Inr msg \<and> t2_getSignature tx = Inr sig \<and>
        VerifyByteSig C key (DevcashHash C msg) sig)"

lemma t2_isSound_spec:
  assumes "t2_isSound C keys tx = Inr b" and "\<not> tx_is_sound tx"
  shows "b \<and> t2_sound_spec C keys tx"
proof -
  obtain oper xfers tot ss sender key msg sig where
    o: "t2_getOperation tx = Inr oper" and x: "t2_getTransfers tx = Inr xfers" and
    f: "foldE t2_sender_step xfers (0, False, Address_default) = Inr (tot, ss, sender)" and
    tot: "tot = 0" and inn: "oper \<noteq> eExchange \<longrightarrow> isNodeAddress sender" and
    k: "getKey C keys sender = Inr key" "t2_getMessageDigest tx = Inr msg" "t2_getSignature tx = Inr sig"
    "VerifyByteSig C key (DevcashHash C msg) sig" and b: "b"
    using assms by (auto simp: t2_isSound_def isINN_def split: if_splits)
  from t2_sender_fold [OF f] tot obtain ms where "mapE xfer_getAmount xfers = Inr ms" "sum_list ms = 0"
    and "\<forall>t \<in> set xfers. \<forall>m. xfer_getAmount t = Inr m \<longrightarrow> sint m < 0 \<longrightarrow> xfer_getAddress t = Inr sender"
    by auto
  with o x inn k b show ?thesis unfolding t2_sound_spec_def by blast
qed

lemma t2_isSound_flagged: "tx_is_sound tx \<Longrightarrow> t2_isSound C keys tx = Inr True"
  by (simp add: t2_isSound_def)

lemma t2_isSound_never_False: "t2_isSound C keys tx \<noteq> Inr False"
  using t2_isSound_spec [of C keys tx False] t2_isSound_flagged [of tx C keys]
  by (cases "tx_is_sound tx") auto

text \<open>\<open>t2_flag_ok\<close>: the cached flag is only set on transactions that pass the check. The checking
  constructor and the deserialiser establish it.\<close>

definition t2_flag_ok :: "Crypto \<Rightarrow> KeyRing \<Rightarrow> Tier2Transaction \<Rightarrow> bool" where
  "t2_flag_ok C keys tx = (tx_is_sound tx \<longrightarrow> t2_sound_spec C keys tx)"

lemma t2_accessors_flag [simp]:
  "t2_getOperation (tx\<lparr>tx_is_sound := b\<rparr>) = t2_getOperation tx"
  "t2_getTransfers (tx\<lparr>tx_is_sound := b\<rparr>) = t2_getTransfers tx"
  "t2_getMessageDigest (tx\<lparr>tx_is_sound := b\<rparr>) = t2_getMessageDigest tx"
  "t2_getSignature (tx\<lparr>tx_is_sound := b\<rparr>) = t2_getSignature tx"
  by (simp_all add: t2_getOperation_def t2_getTransfers_def t2_getMessageDigest_def
      t2_getSignature_def Let_def cong: if_cong)

lemma t2_sound_spec_flag [simp]:
  "t2_sound_spec C keys (tx\<lparr>tx_is_sound := b\<rparr>) = t2_sound_spec C keys tx"
  by (simp add: t2_sound_spec_def)

lemma t2_isSound_flag_ok:
  "t2_isSound C keys tx = Inr b \<Longrightarrow> t2_flag_ok C keys tx \<Longrightarrow> b \<and> t2_sound_spec C keys tx"
  using t2_isSound_spec [of C keys tx b] t2_isSound_flagged [of tx C keys]
  by (auto simp: t2_flag_ok_def)

lemma t2_checked_flag_ok:
  assumes "t2_checked C keys tx = Inr tx'" and "t2_flag_ok C keys tx"
  shows "tx_is_sound tx' \<and> t2_sound_spec C keys tx' \<and> tx_canonical tx' = tx_canonical tx"
proof -
  have s: "t2_isSound C keys tx = Inr True" and tx': "tx' = tx\<lparr>tx_is_sound := True\<rparr>"
    using assms(1) by (auto simp: t2_checked_def split: if_splits)
  from t2_isSound_flag_ok [OF s assms(2)] show ?thesis by (simp add: tx')
qed

lemma t2_attach_sound [simp]: "tx_is_sound (t2_attach sig (t2_unsigned oper xfers nonce)) = False"
  by (simp add: t2_unsigned_parts t2_attach_parts)

text \<open>Amounts of the transfers and of their postings.\<close>

lemma mapE_posting_amounts:
  "mapE posting_of xfers = Inr ps \<Longrightarrow> mapE xfer_getAmount xfers = Inr (map posted_amount ps)"
  by (induction xfers arbitrary: ps) (auto simp: posting_of_def)

lemma t2_sound_spec_zero:
  assumes "t2_sound_spec C keys tx" "t2_getTransfers tx = Inr xfers" "mapE posting_of xfers = Inr ps"
  shows "(\<Sum>p\<leftarrow>ps. posted_amount p) = 0"
  using assms mapE_posting_amounts [OF assms(3)] by (auto simp: t2_sound_spec_def)

section \<open>What validation does\<close>

abbreviation post_both :: "posting \<Rightarrow> ChainState \<times> Summary \<Rightarrow> ChainState \<times> Summary" where
  "post_both p s \<equiv> (cs_post p (fst s), sum_post p (snd s))"

lemma fold_post_both: "fold post_both ps s = (fold cs_post ps (fst s), fold sum_post ps (snd s))"
  by (induction ps arbitrary: s) simp_all

lemma t2_valid_step_True:
  assumes "t2_valid_step oper t s = (Inr True, s')"
  shows "\<exists>p. posting_of t = Inr p \<and> s' = post_both p s"
  using assms
  by (cases s) (auto simp: posting_of_def Let_def sum_addItem4_def split: sum.splits if_splits)

lemma t2_valid_step_inv:
  assumes "t2_valid_step oper t s = (r, s')" "cs_wf (fst s) \<and> sum_wf (snd s)"
  shows "cs_wf (fst s') \<and> sum_wf (snd s')"
  using assms
  by (cases s) (auto simp: Let_def sum_addItem4_def cs_wf_addCoin sum_wf_addItem
      split: sum.splits prod.splits if_splits)

lemma t2_isValid_True:
  assumes "t2_isValid C keys tx s = Inr (True, s')"
  shows "\<exists>xfers ps. t2_isSound C keys tx = Inr True \<and> t2_getTransfers tx = Inr xfers
     \<and> mapE posting_of xfers = Inr ps \<and> s' = (fold cs_post ps (fst s), fold sum_post ps (snd s))"
proof -
  obtain oper xfers where "t2_isSound C keys tx = Inr True" "t2_getTransfers tx = Inr xfers"
    and run: "run_steps (t2_valid_step oper) xfers s = (Inr True, s')"
    using assms by (auto simp: t2_isValid_def catch_false_True split: sum.splits if_splits)
  moreover obtain ps where "mapE posting_of xfers = Inr ps" "s' = fold post_both ps s"
    using run_steps_True [where step = "t2_valid_step oper" and post = posting_of and f = post_both]
      t2_valid_step_True run by blast
  ultimately show ?thesis by (auto simp: fold_post_both)
qed

lemma catch_false_inv:
  "catch_false r = Inr (b, s) \<Longrightarrow> snd r = s"
  by (auto simp: catch_false_def split: prod.splits sum.splits if_splits)

lemma t2_isValid_inv:
  assumes "t2_isValid C keys tx s = Inr (b, s')" "cs_wf (fst s) \<and> sum_wf (snd s)"
  shows "cs_wf (fst s') \<and> sum_wf (snd s')"
proof -
  have run: "cs_wf (fst (snd (run_steps (t2_valid_step oper) xfers s))) \<and>
             sum_wf (snd (snd (run_steps (t2_valid_step oper) xfers s)))" for oper xfers
    using run_steps_inv [where step = "t2_valid_step oper" and P = "\<lambda>s. cs_wf (fst s) \<and> sum_wf (snd s)"]
      t2_valid_step_inv assms(2) by (metis surjective_pairing)
  show ?thesis
    using catch_false_inv [OF assms(1) [unfolded t2_isValid_def]] assms(2) run
    by (auto split: sum.splits if_splits)
qed

section \<open>Deserialising the canonical form\<close>

text \<open>What the deserialisers see at the start of a serialised transaction.\<close>

lemma t2_parts_length:
  "length (tx_canonical (t2_parts oper xfers nonce s b)) =
   17 + length (xfers_bytes xfers) + length nonce + length s"
  by (simp add: t2_parts_def)

lemma t2_parts_header:
  assumes "ib_wf ib" "ib_rest ib = tx_canonical (t2_parts oper xfers nonce (sig_canonical sig) b) @ r"
    and "t2_fits xfers nonce" "sig_wf sig"
  defines "X \<equiv> vec_size (xfers_bytes xfers)" and "N \<equiv> vec_size nonce"
  shows "getNextUint64 False ib = Inr (X, ib)" "getSecondUint64 False ib = Inr (N, ib)"
    "offsetAt 16 ib = Inr (oper, ib)" "offsetAt (17 + X + N) ib = Inr (hd (sig_canonical sig), ib)"
proof -
  have rest: "ib_rest ib = le64 X @ le64 N @ oper # xfers_bytes xfers @ nonce @ sig_canonical sig @ r"
    using assms(2) by (simp add: t2_parts_def X_def N_def)
  show "getNextUint64 False ib = Inr (X, ib)"
    using getNextUint64_rest [OF assms(1) rest] by simp
  show "getSecondUint64 False ib = Inr (N, ib)"
    using getSecondUint64_rest [OF assms(1) rest] by simp
  have "sig_canonical sig \<noteq> []" using assms(4) by (auto simp: sig_wf_def)
  then obtain t raw where sg: "sig_canonical sig = t # raw" by (cases "sig_canonical sig") auto
  show "offsetAt 16 ib = Inr (oper, ib)"
    using offsetAt_rest [OF assms(1), of 16] by (simp add: rest nth_append)
  show "offsetAt (17 + X + N) ib = Inr (hd (sig_canonical sig), ib)"
    using offsetAt_rest [OF assms(1), of "17 + X + N"] t2_sizes(2) [OF assms(3)]
    by (simp add: rest X_def N_def sg nth_append)
qed

lemma t2_parts_size:
  assumes "t2_fits xfers nonce" "sig_wf sig"
  defines "X \<equiv> vec_size (xfers_bytes xfers)" and "N \<equiv> vec_size nonce"
  shows "unat (ucast (hd (sig_canonical sig)) + 17 + X + N + 1) =
         length (tx_canonical (t2_parts oper xfers nonce (sig_canonical sig) b))"
    and "unat (ucast (hd (sig_canonical sig)) + 17 + X + N) =
         length (tx_canonical (t2_parts oper xfers nonce (sig_canonical sig) b)) - 1"
proof -
  let ?t = "hd (sig_canonical sig)"
  have l: "length (sig_canonical sig) = Suc (unat ?t)"
    using sig.canon_length assms(2) by (simp add: sig_wf_def)
  have u: "unat (ucast ?t :: size_t) = unat ?t"
    using order.strict_trans [OF unat_byte_less [of ?t], of "2 ^ 64"]
    by (simp add: unsigned_ucast_eq take_bit_nat_eq_self_iff)
  have xn: "unat (17 + X + N) = 17 + length (xfers_bytes xfers) + length nonce"
    using t2_sizes(2) [OF assms(1)] by (simp add: X_def N_def)
  have e: "ucast ?t + 17 + X + N = ucast ?t + (17 + X + N)"
    by (simp add: add.assoc)
  have 1: "unat (ucast ?t + (17 + X + N)) = unat ?t + unat (17 + X + N)"
    using xn u unat_byte_less [of ?t] assms(1) by (subst unat_add_64) (auto simp: t2_fits_def)
  then show "unat (ucast ?t + 17 + X + N) =
         length (tx_canonical (t2_parts oper xfers nonce (sig_canonical sig) b)) - 1"
    unfolding e by (simp add: t2_parts_length l xn)
  have "unat (ucast ?t + (17 + X + N) + 1) = unat ?t + unat (17 + X + N) + 1"
    using 1 xn unat_byte_less [of ?t] assms(1) by (subst unat_add_64) (auto simp: t2_fits_def)
  then show "unat (ucast ?t + 17 + X + N + 1) =
         length (tx_canonical (t2_parts oper xfers nonce (sig_canonical sig) b))"
    unfolding e by (simp add: t2_parts_length l xn)
qed

text \<open>\<open>encodable\<close> transactions: a known operation, a nonce of at least eight bytes, a well-formed
  signature.\<close>

definition t2_encodable :: "byte \<Rightarrow> Transfer list \<Rightarrow> bytes \<Rightarrow> Signature \<Rightarrow> bool" where
  "t2_encodable oper xfers nonce sig =
     (oper < 4 \<and> 8 \<le> length nonce \<and> t2_fits xfers nonce \<and> sig_wf sig)"

lemma sig_wf_length: "sig_wf s \<Longrightarrow> length (sig_canonical s) = 74 \<or> length (sig_canonical s) = 106"
  by (auto simp: sig_wf_def elim!: tag_okE)

lemma t2_guards:
  assumes "ib_wf ib" "ib_rest ib = tx_canonical (t2_parts oper xfers nonce (sig_canonical sig) b) @ r"
    and "t2_encodable oper xfers nonce sig"
  shows "\<not> ib_size ib < ib_offset ib + 91" "\<not> vec_size nonce < (8 :: size_t)" "\<not> oper \<ge> 4"
proof -
  have n: "8 \<le> length nonce" "length nonce < 2 ^ 62" "sig_wf sig" "oper < 4"
    using assms(3) by (auto simp: t2_encodable_def t2_fits_def)
  show "\<not> ib_size ib < ib_offset ib + 91"
    using size_guard [OF assms(1), of 91] sig_wf_length [OF n(3)] n(1) assms(2)
    by (auto simp: t2_parts_length)
  show "\<not> vec_size nonce < (8 :: size_t)"
    using n by (simp add: word_less_nat_alt vec_size_def)
  show "\<not> oper \<ge> 4" using n(4) by simp
qed

text \<open>\<open>InputBuffer::getNextTransaction\<close> cuts out exactly one serialised transaction.\<close>

lemma reads_getNextTransaction_t2:
  assumes "t2_encodable oper xfers nonce sig"
    and bs_def: "bs = tx_canonical (t2_parts oper xfers nonce (sig_canonical sig) b)"
  shows "reads getNextTransaction bs bs"
proof (rule readsI)
  fix ib r
  assume ib: "ib_wf ib" "ib_rest ib = bs @ r"
  note e = assms(1)
  have f: "t2_fits xfers nonce" "sig_wf sig" using e by (simp_all add: t2_encodable_def)
  note h = t2_parts_header [OF ib(1) ib(2) [unfolded bs_def] f]
  note g = t2_guards [OF ib(1) ib(2) [unfolded bs_def] e]
  let ?n = "ucast (hd (sig_canonical sig)) + 17 + vec_size (xfers_bytes xfers) + vec_size nonce + 1"
  have n: "unat ?n = length bs" using t2_parts_size(1) [OF f] by (simp add: bs_def)
  have lb: "length bs < 2 ^ 63"
    using ib_rest_length [OF ib(1)] ib by (simp add: ib_wf_def)
  have "\<not> ib_size ib < ib_offset ib + ?n"
    using size_guard [OF ib(1), of ?n] n lb ib(2) by simp
  moreover have "ib_copy ?n True ib = Inr (bs, advance (length bs) ib)"
    using ib_copy_rest [OF ib n] .
  ultimately show "getNextTransaction ib = Inr (bs, advance (length bs) ib)"
    using g h by (simp add: getNextTransaction_def reader_simps Let_def)
qed

text \<open>\<open>Fill\<close> and \<open>QuickFill\<close> compute the size without the type byte of the signature: the last byte
  of the signature stays in the buffer.\<close>

lemma t2_QuickCreate_parts:
  assumes "ib_wf ib" "ib_rest ib = tx_canonical (t2_parts oper xfers nonce (sig_canonical sig) b) @ r"
    and "t2_encodable oper xfers nonce sig"
  defines "len \<equiv> length (tx_canonical (t2_parts oper xfers nonce (sig_canonical sig) b))"
  shows "t2_QuickCreate ib =
    Inr (t2_parts oper xfers nonce (butlast (sig_canonical sig)) False, advance (len - 1) ib)"
proof -
  have f: "t2_fits xfers nonce" "sig_wf sig" using assms(3) by (simp_all add: t2_encodable_def)
  note h = t2_parts_header [OF assms(1,2) f] and g = t2_guards [OF assms(1,2,3)]
  define bs where "bs = tx_canonical (t2_parts oper xfers nonce (butlast (sig_canonical sig)) False)"
  have ne: "sig_canonical sig \<noteq> []" using sig_wf_length [OF f(2)] by auto
  have rest: "ib_rest ib = bs @ [last (sig_canonical sig)] @ r"
    using assms(2) append_butlast_last_id [OF ne] by (simp add: bs_def t2_parts_def)
  have len: "len - 1 = length bs" using ne by (simp add: len_def bs_def t2_parts_length)
  let ?n = "ucast (hd (sig_canonical sig)) + 17 + vec_size (xfers_bytes xfers) + vec_size nonce"
  have n: "unat ?n = length bs" using t2_parts_size(2) [OF f] len by (simp add: len_def)
  have "length bs < 2 ^ 63"
    using ib_rest_length [OF assms(1)] assms(1) rest by (simp add: ib_wf_def)
  then have "\<not> ib_size ib < ib_offset ib + ?n"
    using size_guard [OF assms(1), of ?n] n rest by simp
  moreover have "ib_copy ?n True ib = Inr (bs, advance (length bs) ib)"
    by (rule ib_copy_rest [OF assms(1) rest n])
  ultimately show ?thesis
    using g h len
    by (simp add: t2_QuickCreate_def t2_QuickFill_def reader_simps Let_def t2_default_def bs_def)
      (simp add: t2_parts_def)
qed

text \<open>The check of a transaction that is given by its parts.\<close>

lemma t2_isSound_parts:
  assumes "t2_fits xfers nonce" "\<forall>t \<in> set xfers. xfer_wf t" "length s < 2 ^ 60"
  shows "t2_isSound C keys (t2_parts oper xfers nonce s False) =
     bindE (foldE t2_sender_step xfers (0, False, Address_default)) (\<lambda>(tot, sender_set, sender).
     if (oper = eCreate \<or> oper = eDelete \<or> oper = eModify) \<and> \<not> isINN sender then
       Inl (RuntimeError ''TransactionError: Invalid operation, non-INN address performing privileged operation.'')
     else if tot \<noteq> 0 then
       Inl (RuntimeError (''TransactionError: transaction amounts are asymmetric. (sum='' @ to_string_s tot @ '')''))
     else if oper \<noteq> eExchange \<and> \<not> isINN sender then
       Inl (RuntimeError ''TransactionError: INN transaction not performed by INN'')
     else
       bindE (getKey C keys sender) (\<lambda>eckey.
       bindE (t2_getSignature (t2_parts oper xfers nonce s False)) (\<lambda>sig.
       if \<not> VerifyByteSig C eckey
            (DevcashHash C (tx_canonical (t2_parts oper xfers nonce [] False))) sig then
         Inl (RuntimeError ''TransactionError: transaction signature did not validate'')
       else Inr True)))"
  using assms
  by (simp add: t2_isSound_def t2_getOperation_parts t2_getTransfers_parts t2_getMessageDigest_parts
      cong: if_cong)

lemma t2_getSignature_short:
  assumes "t2_fits xfers nonce" "sig_fits oper sig"
  shows "t2_getSignature (t2_parts oper xfers nonce (butlast (sig_canonical sig)) b) =
         Inl (Undefined ''read past end'')"
proof -
  let ?x = "xfers_bytes xfers" and ?n = "if oper = eExchange then 74 else 106 :: size_t"
  let ?i = "17 + vec_size nonce + vec_size ?x"
  have w: "length (sig_canonical sig) = unat ?n"
    using assms(2) by (auto simp: sig_fits_def sig_size_def)
  have i: "unat ?i = 17 + length ?x + length nonce" by (rule t2_sizes(3) [OF assms(1)])
  have j: "unat (?i + ?n) = unat ?i + unat ?n"
    using assms(1) i by (intro unat_add_64) (auto simp: t2_fits_def)
  have "length (tx_canonical (t2_parts oper xfers nonce (butlast (sig_canonical sig)) b)) < unat ?i + unat ?n"
    using i w by (auto simp: t2_parts_length)
  then have "vec_sub (tx_canonical (t2_parts oper xfers nonce (butlast (sig_canonical sig)) b)) ?i (?i + ?n) =
      Inl (Undefined ''read past end'')"
    using j by (simp add: vec_sub_def vec_range_def word_le_nat_alt)
  then show ?thesis
    by (cases "oper = eExchange")
      (simp_all add: t2_getSignature_def t2_getOperation_parts Let_def, simp_all add: t2_parts_def)
qed

text \<open>A transaction that its constructor found sound is not even checked when it is read back: the
  soundness check reads one byte past the end of the copied bytes.\<close>

lemma t2_Create_past_end:
  assumes "ib_wf ib" "ib_rest ib = tx_canonical (t2_parts oper xfers nonce (sig_canonical sig) b) @ r"
    and e: "t2_encodable oper xfers nonce sig" and x: "\<forall>t \<in> set xfers. xfer_wf t"
    and s: "sig_fits oper sig"
    and ok: "t2_isSound C keys (t2_parts oper xfers nonce (sig_canonical sig) False) = Inr True"
  shows "t2_Create C keys True ib = Inl (Undefined ''read past end'')"
proof -
  have f: "t2_fits xfers nonce" "sig_wf sig" using e by (simp_all add: t2_encodable_def)
  have l: "length (sig_canonical sig) < 2 ^ 60" using sig_wf_length [OF f(2)] by auto
  have "t2_isSound C keys (t2_parts oper xfers nonce (butlast (sig_canonical sig)) False) =
      Inl (Undefined ''read past end'')"
    using ok l t2_getSignature_short [OF f(1) s, of False] unfolding t2_isSound_parts [OF f(1) x l]
    by (subst t2_isSound_parts [OF f(1) x]) (auto split: if_splits)
  then show ?thesis
    using t2_QuickCreate_parts [OF assms(1,2) e]
    by (simp add: t2_Create_def t2_Fill_def t2_QuickCreate_def reader_simps liftR_def)
qed

section \<open>Constructed transactions\<close>

lemma t2_flag_ok_unsound: "\<not> tx_is_sound tx \<Longrightarrow> t2_flag_ok C keys tx"
  by (simp add: t2_flag_ok_def)

lemma t2_checked_parts:
  assumes "t2_checked C keys (t2_attach sig (t2_unsigned oper xfers nonce)) = Inr tx"
  shows "tx = t2_parts oper xfers nonce (sig_canonical sig) True \<and> t2_sound_spec C keys tx"
proof -
  have "t2_flag_ok C keys (t2_attach sig (t2_unsigned oper xfers nonce))"
    by (simp add: t2_flag_ok_unsound)
  from t2_checked_flag_ok [OF assms this] assms show ?thesis
    by (auto simp: t2_checked_def t2_unsigned_parts t2_attach_parts split: if_splits)
qed

lemma Tier2Transaction_sign_Inr:
  assumes "Tier2Transaction_sign C oper xfers nonce eckey keys = Inr tx"
  shows "\<exists>sig. sig_wf sig \<and> tx = t2_parts oper xfers nonce (sig_canonical sig) True
           \<and> t2_sound_spec C keys tx"
proof -
  obtain sig where sg: "t2_sign_digest C eckey (t2_unsigned oper xfers nonce) = Inr sig"
    and ch: "t2_checked C keys (t2_attach sig (t2_unsigned oper xfers nonce)) = Inr tx"
    using assms by (auto simp: Tier2Transaction_sign_def Let_def split: if_splits)
  have "sig_wf sig" using sg SignBinary_wf by (auto simp: t2_sign_digest_def)
  with t2_checked_parts [OF ch] show ?thesis by blast
qed

section \<open>Validation in a batch\<close>

text \<open>A step that goes on has posted the transfer; only the aggregate map depends on more.\<close>

lemma t2_aggregate_step_True:
  assumes "t2_aggregate_step prior oper t s = (Inr True, s')"
  shows "\<exists>p. posting_of t = Inr p \<and> fst s' = cs_post p (fst s) \<and> fst (snd s') = sum_post p (fst (snd s))"
  using assms
  by (cases s) (auto simp: posting_of_def Let_def sum_addItem4_def split: sum.splits if_splits)

lemma t2_aggregate_step_inv:
  assumes "t2_aggregate_step prior oper t s = (r, s')" "cs_wf (fst s) \<and> sum_wf (fst (snd s))"
  shows "cs_wf (fst s') \<and> sum_wf (fst (snd s'))"
  using assms
  by (cases s) (auto simp: Let_def sum_addItem4_def cs_wf_addCoin sum_wf_addItem
      split: sum.splits prod.splits if_splits)

lemma run_aggregate_True:
  assumes "run_steps (t2_aggregate_step prior oper) xfers s = (Inr True, s')"
  shows "\<exists>ps. mapE posting_of xfers = Inr ps \<and> fst s' = fold cs_post ps (fst s)
           \<and> fst (snd s') = fold sum_post ps (fst (snd s))"
  using assms
proof (induction xfers arbitrary: s)
  case (Cons t ts)
  then obtain s1 where "t2_aggregate_step prior oper t s = (Inr True, s1)"
    and r: "run_steps (t2_aggregate_step prior oper) ts s1 = (Inr True, s')"
    by (auto simp del: t2_aggregate_step.simps split: prod.splits sum.splits if_splits)
  then obtain p where "posting_of t = Inr p" "fst s1 = cs_post p (fst s)"
    "fst (snd s1) = sum_post p (fst (snd s))"
    using t2_aggregate_step_True by blast
  with Cons.IH [OF r] show ?case by fastforce
qed simp

lemma t2_isValidInAggregate_True:
  assumes "t2_isValidInAggregate C keys prior tx (st, sm, agg) = Inr (True, st', sm', agg')"
  shows "\<exists>xfers ps. t2_isSound C keys tx = Inr True \<and> t2_getTransfers tx = Inr xfers
     \<and> mapE posting_of xfers = Inr ps \<and> st' = fold cs_post ps st \<and> sm' = fold sum_post ps sm"
proof -
  obtain oper xfers ne where "t2_isSound C keys tx = Inr True" "t2_getTransfers tx = Inr xfers"
    and run: "run_steps (t2_aggregate_step prior oper) xfers (st, sm, agg, True) = (Inr True, st', sm', agg', ne)"
    using assms
    by (auto simp: t2_isValidInAggregate_def catch_false_True split: sum.splits if_splits)
  with run_aggregate_True [OF run] show ?thesis by auto
qed

lemma t2_isValidInAggregate_inv:
  assumes "t2_isValidInAggregate C keys prior tx (st, sm, agg) = Inr (b, st', sm', agg')"
    and "cs_wf st" "sum_wf sm"
  shows "cs_wf st' \<and> sum_wf sm'"
proof -
  have run: "cs_wf (fst (snd (run_steps (t2_aggregate_step prior oper) xfers (st, sm, agg, True)))) \<and>
     sum_wf (fst (snd (snd (run_steps (t2_aggregate_step prior oper) xfers (st, sm, agg, True)))))"
    for oper xfers
    by (rule run_steps_inv [where step = "t2_aggregate_step prior oper" and xs = xfers
          and s = "(st, sm, agg, True)" and P = "\<lambda>s. cs_wf (fst s) \<and> sum_wf (fst (snd s))",
          OF t2_aggregate_step_inv surjective_pairing]) (use assms(2,3) in auto)
  obtain b1 ne where c: "catch_false
       (case t2_isSound C keys tx of
          Inl e \<Rightarrow> (Inl e, st, sm, agg, True)
        | Inr sound \<Rightarrow>
            if \<not> sound then (Inr False, st, sm, agg, True)
            else
              (case bindE (t2_getOperation tx) (\<lambda>oper.
                    bindE (t2_getTransfers tx) (\<lambda>xfers. Inr (oper, xfers))) of
                 Inl e \<Rightarrow> (Inl e, st, sm, agg, True)
               | Inr (oper, xfers) \<Rightarrow>
                   run_steps (t2_aggregate_step prior oper) xfers (st, sm, agg, True))) =
     Inr (b1, st', sm', agg', ne)"
    using assms(1) by (auto simp: t2_isValidInAggregate_def)
  have "snd (run_steps (t2_aggregate_step prior oper) xfers (st, sm, agg, True)) = s1 \<Longrightarrow>
      cs_wf (fst s1) \<and> sum_wf (fst (snd s1))" for oper xfers s1
    using run by auto
  note this [dest]
  show ?thesis
    using catch_false_inv [OF c] assms(2,3) by (auto split: sum.splits if_splits)
qed

section \<open>The test for available coins\<close>

text \<open>The test compares the negative amount itself with the balance, so it never rejects a
  transfer from an address whose balance is not negative, whatever the amount.\<close>

lemma t2_valid_step_overdraft:
  assumes "posting_of t = Inr (a, c, m, d)" "getAmount c a st = Inr bal" "0 \<le> sint bal"
  shows "t2_valid_step oper t (st, sm) = (Inr True, cs_post (a, c, m, d) st, sum_post (a, c, m, d) sm)"
  using assms by (auto simp: posting_of_def Let_def sum_addItem4_def)

section \<open>A sample transaction\<close>

definition sample_xfers :: "Transfer list" where
  "sample_xfers = [sample_xfer, sample_xfer2]"

definition sample_nonce :: bytes where
  "sample_nonce = [1, 2, 3, 4, 5, 6, 7, 8]"

definition sample_t2 :: Tier2Transaction where
  "sample_t2 = t2_parts eExchange sample_xfers sample_nonce (sig_canonical (sample_sig 4)) True"

lemma sample_t2_ok [simp]:
  "t2_fits sample_xfers sample_nonce" "\<forall>t \<in> set sample_xfers. xfer_wf t" "sig_fits 2 (sample_sig 4)"
  "t2_encodable 2 sample_xfers sample_nonce (sample_sig 4)"
proof -
  have x: "length (xfers_bytes sample_xfers) = 116"
    by (simp add: sample_xfers_def sample_xfer_def sample_xfer2_def Transfer_make_def Uint64ToBin_le
        Int64ToBin_le sample_wallet_def sample_wallet2_def)
  then show "t2_fits sample_xfers sample_nonce" by (simp add: t2_fits_def sample_nonce_def)
  then show "t2_encodable 2 sample_xfers sample_nonce (sample_sig 4)"
    by (simp add: t2_encodable_def sample_nonce_def)
  show "\<forall>t \<in> set sample_xfers. xfer_wf t" by (simp add: sample_xfers_def)
  show "sig_fits 2 (sample_sig 4)"
    by (simp add: sig_fits_def sample_sig_def sample_der_def sig_size_def sig_wf_def)
qed

lemma sample_t2_sound:
  "t2_isSound sample_crypto KeyRing_empty
     (t2_parts 2 sample_xfers sample_nonce (sig_canonical (sample_sig 4)) False) = Inr True"
proof -
  have "length (sig_canonical (sample_sig 4)) < 2 ^ 60" by (simp add: sample_sig_def sample_der_def)
  moreover have "foldE t2_sender_step sample_xfers (0, False, Address_default) = Inr (0, True, sample_wallet)"
    by (simp add: sample_xfers_def sample_xfer_def sample_xfer2_def)
  moreover have "getKey sample_crypto KeyRing_empty sample_wallet = Inr 4"
    by (simp add: getKey_def KeyRing_empty_def sample_crypto_public)
  ultimately show ?thesis
    by (simp add: t2_isSound_parts t2_getSignature_parts sample_crypto_verify)
qed

lemma sample_nonce_size: "vec_size sample_nonce = 8"
  by (simp add: sample_nonce_def vec_size_def)

lemma sample_t2_sign:
  "Tier2Transaction_sign sample_crypto 2 sample_xfers sample_nonce 4 KeyRing_empty = Inr sample_t2"
  "Tier2Transaction_signed sample_crypto 2 sample_xfers sample_nonce KeyRing_empty (sample_sig 4) = Inr sample_t2"
  using sample_t2_sound sample_nonce_size
  by (simp_all add: Tier2Transaction_sign_def Tier2Transaction_signed_def t2_sign_digest_def t2_unsigned_parts
      t2_getMessageDigest_parts sample_crypto_sign t2_attach_parts t2_checked_def sample_t2_def)

section \<open>Properties\<close>

text \<open>A transaction that the signing constructor returns has the operation, the transfers and the
  nonce it was given, and it is sound: the nonce is long enough, the amounts sum to zero, all negative
  amounts belong to one sender, privileged operations are sent by a node address, and the signature
  verifies with the key of the sender over all bytes before it.\<close>

theorem t2_sign_constructor_sound:
  assumes "Tier2Transaction_sign C oper xfers nonce eckey keys = Inr tx"
    and "t2_fits xfers nonce" and "\<forall>t \<in> set xfers. xfer_wf t"
  shows "tx_is_sound tx \<and> t2_getOperation tx = Inr oper \<and> t2_getTransfers tx = Inr xfers \<and>
    t2_getNonce tx = Inr nonce \<and> 8 \<le> length nonce \<and>
    (\<exists>ms sender key sig.
       mapE xfer_getAmount xfers = Inr ms \<and> sum_list ms = 0 \<and>
       (\<forall>t \<in> set xfers. \<forall>m. xfer_getAmount t = Inr m \<longrightarrow> sint m < 0 \<longrightarrow> xfer_getAddress t = Inr sender) \<and>
       (oper \<noteq> eExchange \<longrightarrow> isNodeAddress sender) \<and>
       getKey C keys sender = Inr key \<and> t2_getSignature tx = Inr sig \<and>
       VerifyByteSig C key (DevcashHash C (tx_canonical (t2_unsigned oper xfers nonce))) sig)"
proof -
  obtain sig where sig: "sig_wf sig" "tx = t2_parts oper xfers nonce (sig_canonical sig) True"
    and spec: "t2_sound_spec C keys tx"
    using Tier2Transaction_sign_Inr [OF assms(1)] by blast
  have "8 \<le> length nonce"
    using assms(1,2)
    by (auto simp: Tier2Transaction_sign_def t2_fits_def vec_size_def word_less_nat_alt split: if_splits)
  moreover have "length (sig_canonical sig) < 2 ^ 60"
    using sig_wf_length [OF sig(1)] by auto
  moreover have "tx_canonical (t2_parts oper xfers nonce [] b) = tx_canonical (t2_unsigned oper xfers nonce)" for b
    by (simp add: t2_unsigned_parts) (simp add: t2_parts_def)
  ultimately show ?thesis
    using spec assms(2,3) unfolding t2_sound_spec_def
    by (auto simp: sig(2) t2_getOperation_parts t2_getNonce_parts t2_getTransfers_parts
        t2_getMessageDigest_parts)
qed

theorem t2_sign_constructor_sound_witness:
  "Tier2Transaction_sign sample_crypto 2 sample_xfers sample_nonce 4 KeyRing_empty = Inr sample_t2 \<and>
   t2_fits sample_xfers sample_nonce \<and> list_all xfer_wf sample_xfers \<and>
   t2_getTransfers sample_t2 = Inr sample_xfers \<and> t2_getNonce sample_t2 = Inr sample_nonce"
  using t2_sign_constructor_sound [OF sample_t2_sign(1)] sample_t2_sign(1) by (simp add: list_all_iff)

text \<open>\<open>InputBuffer::getNextTransaction\<close> cuts exactly the bytes of one Tier-2 transaction out of a
  buffer that continues with anything, and stops right behind it.\<close>

theorem getNextTransaction_cuts_one:
  assumes "Tier2Transaction_signed_unchecked oper xfers nonce sig = Inr tx"
    and "t2_encodable oper xfers nonce sig"
    and "ib_wf ib" and "ib_rest ib = tx_canonical tx @ r"
  shows "getNextTransaction ib = Inr (tx_canonical tx, advance (length (tx_canonical tx)) ib)"
proof -
  have "tx = t2_parts oper xfers nonce (sig_canonical sig) False"
    using assms(1) by (auto simp: Tier2Transaction_signed_unchecked_def t2_unsigned_parts t2_attach_parts)
  then show ?thesis
    using readsD [OF reads_getNextTransaction_t2 [OF assms(2) refl] assms(3)] assms(4) by blast
qed

lemma sample_t2_length: "length (tx_canonical sample_t2) = 215"
  by (simp add: sample_t2_def t2_parts_def sample_xfers_def sample_xfer_def sample_xfer2_def
      Transfer_make_def Uint64ToBin_le Int64ToBin_le sample_wallet_def sample_wallet2_def sample_nonce_def
      sample_sig_def sample_der_def)

theorem getNextTransaction_cuts_one_witness:
  "t2_encodable 2 sample_xfers sample_nonce (sample_sig 4) \<and>
   getNextTransaction (InputBuffer_make (tx_canonical sample_t2 @ [1, 2]) 0) =
     Inr (tx_canonical sample_t2, advance 215 (InputBuffer_make (tx_canonical sample_t2 @ [1, 2]) 0))"
proof -
  have "Tier2Transaction_signed_unchecked 2 sample_xfers sample_nonce (sample_sig 4) =
        Inr (sample_t2\<lparr>tx_is_sound := False\<rparr>)"
    by (simp add: Tier2Transaction_signed_unchecked_def t2_unsigned_parts t2_attach_parts sample_t2_def
        t2_getMessageDigest_parts)
  moreover have "ib_wf (InputBuffer_make (tx_canonical sample_t2 @ [1, 2]) 0)"
    by (intro ib_wf_make) (simp add: sample_t2_length)
  ultimately show ?thesis
    using getNextTransaction_cuts_one [of 2 sample_xfers sample_nonce "sample_sig 4"
        "sample_t2\<lparr>tx_is_sound := False\<rparr>" "InputBuffer_make (tx_canonical sample_t2 @ [1, 2]) 0" "[1, 2]"]
    by (simp add: sample_t2_length)
qed

text \<open>C27. The deserialisers drop the last byte of the signature: the size they compute does not count the
  type byte of the signature. On the bytes of any transaction that passed the soundness check,
  \<open>QuickCreate\<close> returns the transaction without its last byte and stops one byte early, and \<open>Create\<close>
  with the soundness check copies the signature from behind the end of the canonical vector.\<close>

theorem t2_Create_drops_last_byte:
  assumes "Tier2Transaction_signed C oper xfers nonce keys sig = Inr tx"
    and "t2_encodable oper xfers nonce sig" "\<forall>t \<in> set xfers. xfer_wf t" "sig_fits oper sig"
    and "ib_wf ib" "ib_rest ib = tx_canonical tx @ r"
  shows "t2_QuickCreate ib =
      Inr (tx\<lparr>tx_canonical := butlast (tx_canonical tx), tx_is_sound := False\<rparr>,
           advance (length (tx_canonical tx) - 1) ib) \<and>
    t2_Create C keys True ib = Inl (Undefined ''read past end'')"
proof -
  have chk: "t2_checked C keys (t2_attach sig (t2_unsigned oper xfers nonce)) = Inr tx"
    using assms(1) by (auto simp: Tier2Transaction_signed_def Let_def)
  have tx: "tx = t2_parts oper xfers nonce (sig_canonical sig) True"
    using t2_checked_parts [OF chk] by blast
  have ok: "t2_isSound C keys (t2_parts oper xfers nonce (sig_canonical sig) False) = Inr True"
    using chk by (auto simp: t2_checked_def t2_unsigned_parts t2_attach_parts split: if_splits)
  have ne: "sig_canonical sig \<noteq> []"
    using assms(2) sig_wf_length [of sig] by (auto simp: t2_encodable_def)
  have "t2_parts oper xfers nonce (butlast (sig_canonical sig)) False =
      tx\<lparr>tx_canonical := butlast (tx_canonical tx), tx_is_sound := False\<rparr>"
    using ne by (simp add: tx) (simp add: t2_parts_def butlast_append)
  then show ?thesis
    using t2_QuickCreate_parts [OF assms(5) assms(6) [unfolded tx] assms(2)]
      t2_Create_past_end [OF assms(5) assms(6) [unfolded tx] assms(2-4) ok]
    by (simp add: tx)
qed

theorem t2_Create_drops_last_byte_witness:
  "Tier2Transaction_signed sample_crypto 2 sample_xfers sample_nonce KeyRing_empty (sample_sig 4) = Inr sample_t2 \<and>
   t2_Create sample_crypto KeyRing_empty True (InputBuffer_make (tx_canonical sample_t2 @ [1, 2]) 0) =
     Inl (Undefined ''read past end'')"
proof -
  have "ib_wf (InputBuffer_make (tx_canonical sample_t2 @ [1, 2]) 0)"
    by (intro ib_wf_make) (simp add: sample_t2_length)
  then show ?thesis
    using t2_Create_drops_last_byte [OF sample_t2_sign(2) sample_t2_ok(4,2,3), of _ "[1, 2]"]
      sample_t2_sign(2) by simp
qed

definition sample_postings :: "posting list" where
  "sample_postings = [(sample_wallet, 1, - 10, 0), (sample_wallet2, 1, 10, 0)]"

lemma sample_t2_getters:
  "t2_getTransfers sample_t2 = Inr sample_xfers" "t2_getOperation sample_t2 = Inr 2"
  "t2_isSound sample_crypto KeyRing_empty sample_t2 = Inr True"
proof -
  have "length (sig_canonical (sample_sig 4)) < 2 ^ 60" by (simp add: sample_sig_def sample_der_def)
  then show "t2_getTransfers sample_t2 = Inr sample_xfers"
    by (simp add: sample_t2_def t2_getTransfers_parts)
qed (simp_all add: sample_t2_def t2_getOperation_parts t2_isSound_flagged)

lemma sample_t2_valid:
  "t2_isValid sample_crypto KeyRing_empty sample_t2 (ChainState_empty, sm) =
   Inr (True, fold cs_post sample_postings ChainState_empty, fold sum_post sample_postings sm)"
proof -
  have "getAmount 1 sample_wallet ChainState_empty = Inr 0"
    by (simp add: getAmount_def ChainState_empty_def)
  then show ?thesis
    by (simp add: sample_t2_getters t2_isValid_def catch_false_def sample_xfers_def sample_xfer_def sample_xfer2_def
        sample_postings_def Let_def sum_addItem4_def)
qed

lemma sample_t2_flag: "t2_flag_ok sample_crypto KeyRing_empty sample_t2"
  using t2_checked_parts [of sample_crypto KeyRing_empty "sample_sig 4" 2 sample_xfers sample_nonce sample_t2]
    sample_t2_sound
  by (simp add: t2_flag_ok_def t2_checked_def t2_unsigned_parts t2_attach_parts sample_t2_def)

text \<open>C23. A Tier-2 transaction that \<open>isValid\<close> accepts is sound, its transfers are posted to the chain
  state and to the summary alike, the total over all balances and the total of the summary stay what
  they were, and for every address and coin the balance and the net change of the summary move by the
  same amount. Accepted or rejected, the two maps stay well formed.\<close>

theorem t2_isValid_conserves:
  assumes "t2_isValid C keys tx (st, sm) = Inr (b, st', sm')"
    and "cs_wf st" "sum_wf sm" and "t2_flag_ok C keys tx"
  shows "cs_wf st' \<and> sum_wf sm' \<and>
    (b \<longrightarrow> t2_sound_spec C keys tx \<and> cs_total st' = cs_total st \<and> sum_total sm' = sum_total sm \<and>
       (\<exists>xfers ps. t2_getTransfers tx = Inr xfers \<and> mapE posting_of xfers = Inr ps \<and>
          (\<forall>a c. balance st' a c = balance st a c + net_posted ps a c \<and>
                 net_change sm' a c = net_change sm a c + net_posted ps a c)))"
proof -
  have "cs_wf st' \<and> sum_wf sm'"
    using t2_isValid_inv [OF assms(1)] assms(2,3) by simp
  moreover have "t2_sound_spec C keys tx \<and> cs_total st' = cs_total st \<and> sum_total sm' = sum_total sm \<and>
       (\<exists>xfers ps. t2_getTransfers tx = Inr xfers \<and> mapE posting_of xfers = Inr ps \<and>
          (\<forall>a c. balance st' a c = balance st a c + net_posted ps a c \<and>
                 net_change sm' a c = net_change sm a c + net_posted ps a c))" if b: b
  proof -
    obtain xfers ps where r: "t2_isSound C keys tx = Inr True" "t2_getTransfers tx = Inr xfers"
      "mapE posting_of xfers = Inr ps" "st' = fold cs_post ps st" "sm' = fold sum_post ps sm"
      using t2_isValid_True [of C keys tx "(st, sm)" "(st', sm')"] assms(1) b by auto
    have spec: "t2_sound_spec C keys tx" using t2_isSound_flag_ok [OF r(1) assms(4)] by blast
    have "(\<Sum>p\<leftarrow>ps. posted_amount p) = 0" by (rule t2_sound_spec_zero [OF spec r(2,3)])
    then show ?thesis
      using spec r assms(2,3) cs.total_fold [of st ps] sumry.total_fold [of sm ps]
        cs.amount_fold [of st ps] sumry.amount_fold [of sm ps] by auto
  qed
  ultimately show ?thesis by blast
qed

theorem t2_isValid_conserves_witness:
  "t2_isValid sample_crypto KeyRing_empty sample_t2 (ChainState_empty, Summary_Create) =
     Inr (True, fold cs_post sample_postings ChainState_empty, fold sum_post sample_postings Summary_Create) \<and>
   cs_wf ChainState_empty \<and> sum_wf Summary_Create \<and> t2_flag_ok sample_crypto KeyRing_empty sample_t2 \<and>
   cs_total (fold cs_post sample_postings ChainState_empty) = cs_total ChainState_empty"
  using t2_isValid_conserves [OF sample_t2_valid [of Summary_Create] _ _ sample_t2_flag] sample_t2_valid [of Summary_Create]
    sample_t2_flag by (simp add: sum_wf_Create)

text \<open>C28. The test for available coins of \<open>isValid\<close> compares the negative amount itself with the balance,
  so it lets an exchange overdraw: any sound exchange of \<open>m\<close> coins from an address whose balance is not
  negative is accepted, and the sender is left with the balance less \<open>m\<close>, whether it had \<open>m\<close> coins or
  not.\<close>

theorem t2_isValid_overdraft:
  assumes "t2_isSound C keys tx = Inr True" "t2_getOperation tx = Inr eExchange"
    and "t2_getTransfers tx = Inr [Transfer_make a c (- m) d, Transfer_make b c m e]"
    and "addr_wf a" "addr_wf b" "a \<noteq> b" "0 < sint m"
    and "cs_wf st" "getAmount c a st = Inr bal" "0 \<le> sint bal"
  shows "\<exists>st' sm'. t2_isValid C keys tx (st, sm) = Inr (True, st', sm') \<and>
    balance st' a c = balance st a c - m"
proof -
  let ?p = "(a, c, - m, d)" and ?q = "(b, c, m, e)"
  have 1: "t2_valid_step eExchange (Transfer_make a c (- m) d) (st, sm) =
      (Inr True, cs_post ?p st, sum_post ?p sm)"
    using assms by (intro t2_valid_step_overdraft) simp_all
  have 2: "t2_valid_step eExchange (Transfer_make b c m e) s =
      (Inr True, cs_post ?q (fst s), sum_post ?q (snd s))" for s
    using assms(5,7) by (cases s) (simp add: Let_def sum_addItem4_def)
  have "t2_isValid C keys tx (st, sm) = Inr (True, fold cs_post [?p, ?q] st, fold sum_post [?p, ?q] sm)"
    using assms(1-3) 1 2 by (simp add: t2_isValid_def catch_false_def del: t2_valid_step.simps)
  moreover have "balance (fold cs_post [?p, ?q] st) a c = balance st a c - m"
    using cs.amount_fold [OF assms(8), of "[?p, ?q]" a c] assms(6) by simp
  ultimately show ?thesis by blast
qed

theorem t2_isValid_overdraft_witness:
  "t2_isSound sample_crypto KeyRing_empty sample_t2 = Inr True \<and>
   t2_getTransfers sample_t2 = Inr [Transfer_make sample_wallet 1 (- 10) 0, Transfer_make sample_wallet2 1 10 0] \<and>
   getAmount 1 sample_wallet ChainState_empty = Inr 0 \<and>
   (\<exists>st' sm'. t2_isValid sample_crypto KeyRing_empty sample_t2 (ChainState_empty, Summary_Create) =
      Inr (True, st', sm') \<and> balance st' sample_wallet 1 = - 10)"
proof -
  have t: "t2_getTransfers sample_t2 =
      Inr [Transfer_make sample_wallet 1 (- 10) 0, Transfer_make sample_wallet2 1 10 0]"
    by (simp add: sample_t2_getters sample_xfers_def sample_xfer_def sample_xfer2_def)
  have g: "getAmount 1 sample_wallet ChainState_empty = Inr 0"
    by (simp add: getAmount_def ChainState_empty_def)
  have "balance ChainState_empty sample_wallet 1 = 0"
    by (simp add: balance_def ChainState_empty_def)
  then show ?thesis
    using t2_isValid_overdraft [OF sample_t2_getters(3,2) t _ _ _ _ _ g, of Summary_Create]
      sample_t2_getters(3) t g less_imp_neq [OF sample_order]
    by simp
qed

end
