(* ===== verification/Tier1_Tx.thy ===== *)
theory Tier1_Tx
  imports Tier2_Tx
begin

text \<open>
  \<^verbatim>\<open>primitives/Tier1Transaction.h\<close> and \<^verbatim>\<open>Tier1Transaction.cpp\<close>: a transaction on the upper tier is
  the summary of a block of the lower tier, with the address and the signature of the validating
  node. The canonical form is the size of the summary, the summary, the address and the
  signature; the digest that is signed is the summary alone.
\<close>

section \<open>State and accessors\<close>

record Tier1Transaction = Transaction +
  t1_sum_size :: uint64

definition t1_default :: Tier1Transaction where
  "t1_default = \<lparr>tx_canonical = [], tx_is_sound = False, t1_sum_size = 0\<rparr>"

definition t1_getNodeAddress :: "Tier1Transaction \<Rightarrow> error + Address" where
  "t1_getNodeAddress tx =
     bindE (vec_sub (tx_canonical tx) (t1_sum_size tx + kUINT64_SIZE)
              (t1_sum_size tx + kUINT64_SIZE + kNODE_ADDR_BUF_SIZE)) (\<lambda>tmp.
     Inr (Address_vec tmp))"

definition t1_getMessageDigest :: "Tier1Transaction \<Rightarrow> error + bytes" where
  "t1_getMessageDigest tx = vec_sub (tx_canonical tx) kUINT64_SIZE (t1_sum_size tx + kUINT64_SIZE)"

definition t1_getSummary :: "Tier1Transaction \<Rightarrow> error + Summary" where
  "t1_getSummary tx =
     bindE (Summary_read (InputBuffer_make (tx_canonical tx) kUINT64_SIZE)) (\<lambda>(summary, _). Inr summary)"

definition t1_getTransfers :: "Tier1Transaction \<Rightarrow> error + Transfer list" where
  "t1_getTransfers tx = bindE (t1_getSummary tx) (\<lambda>summary. Inr (sum_getTransfers summary))"

definition t1_getSignature :: "Tier1Transaction \<Rightarrow> error + Signature" where
  "t1_getSignature tx =
     bindE (vec_sub (tx_canonical tx) (t1_sum_size tx + kUINT64_SIZE + kNODE_ADDR_BUF_SIZE)
              (t1_sum_size tx + kUINT64_SIZE + kNODE_ADDR_BUF_SIZE + kNODE_SIG_BUF_SIZE)) Signature_vec"

section \<open>Soundness\<close>

definition t1_isSound :: "Crypto \<Rightarrow> KeyRing \<Rightarrow> Tier1Transaction \<Rightarrow> error + bool" where
  "t1_isSound C keys tx =
     (if tx_is_sound tx then Inr True
      else
        bindE (t1_getNodeAddress tx) (\<lambda>node_addr.
        bindE (getKey C keys node_addr) (\<lambda>eckey.
        bindE (t1_getMessageDigest tx) (\<lambda>msg.
        bindE (t1_getSignature tx) (\<lambda>sig.
        Inr (VerifyByteSig C eckey (DevcashHash C msg) sig))))))"

definition t1_checked :: "Crypto \<Rightarrow> KeyRing \<Rightarrow> Tier1Transaction \<Rightarrow> error + Tier1Transaction" where
  "t1_checked C keys tx =
     bindE (t1_isSound C keys tx) (\<lambda>is_sound.
     if \<not> is_sound then Inl (DevcashMessageError ''Invalid serialized T1 transaction, not sound!'')
     else Inr (tx\<lparr>tx_is_sound := is_sound\<rparr>))"

definition t1_setIsSound :: "Crypto \<Rightarrow> KeyRing \<Rightarrow> Tier1Transaction \<Rightarrow> error + (bool \<times> Tier1Transaction)" where
  "t1_setIsSound C keys tx = bindE (t1_checked C keys tx) (\<lambda>tx. Inr (tx_is_sound tx, tx))"

section \<open>Construction\<close>

definition Tier1Transaction_make ::
  "Crypto \<Rightarrow> Summary \<Rightarrow> Signature \<Rightarrow> Address \<Rightarrow> KeyRing \<Rightarrow> error + Tier1Transaction" where
  "Tier1Transaction_make C summary sig node_addr keys =
     (if \<not> isSane summary then
        Inl (DevcashMessageError ''Serialized T1 transaction has bad summary!'')
      else if sig_size sig \<noteq> kNODE_SIG_BUF_SIZE then Inl (DevcashMessageError ''Incorrect signature!'')
      else
        let sum_size = sum_getByteSize summary;
            canonical = Uint64ToBin sum_size [];
            canonical = canonical @ sum_getCanonical summary;
            canonical = canonical @ addr_canonical node_addr;
            canonical = canonical @ sig_canonical sig
        in t1_checked C keys \<lparr>tx_canonical = canonical, tx_is_sound = False, t1_sum_size = sum_size\<rparr>)"

text \<open>The constructor from a buffer copies first and tests the size afterwards, when the offset has
  already moved: a transaction at the end of the buffer is returned without a check.\<close>

definition Tier1Transaction_read :: "Crypto \<Rightarrow> KeyRing \<Rightarrow> bool \<Rightarrow> Tier1Transaction reader" where
  "Tier1Transaction_read C keys calculate_soundness =
     bindR (getNextUint64 False) (\<lambda>sum_size.
     let tx_size = sum_size + kNODE_SIG_BUF_SIZE + kUINT64_SIZE + kNODE_ADDR_BUF_SIZE in
     bindR (ib_copy tx_size True) (\<lambda>bytes ib.
     let tx = \<lparr>tx_canonical = bytes, tx_is_sound = False, t1_sum_size = sum_size\<rparr> in
     if ib_size ib < ib_offset ib + sum_size + kNODE_SIG_BUF_SIZE + kUINT64_SIZE + kNODE_ADDR_BUF_SIZE
     then Inr (tx, ib)
     else if calculate_soundness then bindE (t1_checked C keys tx) (\<lambda>tx. Inr (tx, ib))
     else Inr (tx, ib)))"

definition t1_Fill :: "Crypto \<Rightarrow> KeyRing \<Rightarrow> bool \<Rightarrow> Tier1Transaction \<Rightarrow> Tier1Transaction reader" where
  "t1_Fill C keys calculate_soundness tx =
     bindR (getNextUint64 False) (\<lambda>sum_size ib.
     let tx = tx\<lparr>t1_sum_size := sum_size\<rparr>;
         tx_size = sum_size + kNODE_SIG_BUF_SIZE + kUINT64_SIZE + kNODE_ADDR_BUF_SIZE in
     if ib_size ib < ib_offset ib + tx_size then Inr (tx, ib)
     else
       bindR (ib_copy tx_size True) (\<lambda>bytes.
       let tx = tx\<lparr>tx_canonical := tx_canonical tx @ bytes\<rparr> in
       if calculate_soundness then
         bindR (liftR (t1_isSound C keys tx)) (\<lambda>is_sound. returnR (tx\<lparr>tx_is_sound := is_sound\<rparr>))
       else returnR tx) ib)"

definition t1_Create :: "Crypto \<Rightarrow> KeyRing \<Rightarrow> bool \<Rightarrow> Tier1Transaction reader" where
  "t1_Create C keys calculate_soundness = t1_Fill C keys calculate_soundness t1_default"

definition t1_CreateUniquePtr :: "Crypto \<Rightarrow> KeyRing \<Rightarrow> bool \<Rightarrow> Tier1Transaction reader" where
  "t1_CreateUniquePtr C keys calculate_soundness = t1_Fill C keys calculate_soundness t1_default"

section \<open>Validation\<close>

fun t1_valid_step :: "Transfer \<Rightarrow> ChainState \<times> Summary \<Rightarrow> (error + bool) \<times> ChainState \<times> Summary" where
  "t1_valid_step t (state, summary) =
     (case bindE (xfer_getAmount t) (\<lambda>amount. bindE (xfer_getCoin t) (\<lambda>coin.
           bindE (xfer_getAddress t) (\<lambda>addr. Inr (amount, coin, addr)))) of
        Inl e \<Rightarrow> (Inl e, state, summary)
      | Inr (amount, coin, addr) \<Rightarrow>
          let state = snd (addCoin (SmartCoin_make addr coin amount) state) in
          (case xfer_getDelay t of
             Inl e \<Rightarrow> (Inl e, state, summary)
           | Inr delay \<Rightarrow> (Inr True, state, snd (sum_addItem4 addr coin amount delay summary))))"

definition t1_isValid ::
  "Crypto \<Rightarrow> KeyRing \<Rightarrow> Tier1Transaction \<Rightarrow> ChainState \<times> Summary \<Rightarrow> error + (bool \<times> ChainState \<times> Summary)" where
  "t1_isValid C keys tx s =
     catch_false
       (case t1_isSound C keys tx of
          Inl e \<Rightarrow> (Inl e, s)
        | Inr sound \<Rightarrow>
            if \<not> sound then (Inr False, s)
            else
              (case t1_getTransfers tx of
                 Inl e \<Rightarrow> (Inl e, s)
               | Inr xfers \<Rightarrow> run_steps t1_valid_step xfers s))"

fun t1_aggregate_step ::
  "ChainState \<Rightarrow> Transfer \<Rightarrow> ChainState \<times> Summary \<times> aggregate \<times> bool
   \<Rightarrow> (error + bool) \<times> ChainState \<times> Summary \<times> aggregate \<times> bool" where
  "t1_aggregate_step prior t (state, summary, agg, no_error) =
     (case bindE (xfer_getCoin t) (\<lambda>coin. bindE (xfer_getAddress t) (\<lambda>addr.
           bindE (xfer_getAmount t) (\<lambda>amount. Inr (amount, coin, addr)))) of
        Inl e \<Rightarrow> (Inl e, state, summary, agg, no_error)
      | Inr (amount, coin, addr) \<Rightarrow>
          (case (if sint amount < 0 then commit_coins prior addr coin amount agg no_error
                 else Inr (True, agg, no_error)) of
             Inl e \<Rightarrow> (Inl e, state, summary, agg, no_error)
           | Inr (go_on, agg, no_error) \<Rightarrow>
               if \<not> go_on then (Inr False, state, summary, agg, no_error)
               else
                 let state = snd (addCoin (SmartCoin_make addr coin amount) state) in
                 (case xfer_getDelay t of
                    Inl e \<Rightarrow> (Inl e, state, summary, agg, no_error)
                  | Inr delay \<Rightarrow>
                      (Inr True, state, snd (sum_addItem4 addr coin amount delay summary), agg, no_error))))"

definition t1_isValidInAggregate ::
  "Crypto \<Rightarrow> KeyRing \<Rightarrow> ChainState \<Rightarrow> Tier1Transaction \<Rightarrow> ChainState \<times> Summary \<times> aggregate
   \<Rightarrow> error + (bool \<times> ChainState \<times> Summary \<times> aggregate)" where
  "t1_isValidInAggregate C keys prior tx s =
     (case s of (state, summary, agg) \<Rightarrow>
      bindE (catch_false
       (case t1_isSound C keys tx of
          Inl e \<Rightarrow> (Inl e, state, summary, agg, True)
        | Inr sound \<Rightarrow>
            if \<not> sound then (Inr False, state, summary, agg, True)
            else
              (case t1_getTransfers tx of
                 Inl e \<Rightarrow> (Inl e, state, summary, agg, True)
               | Inr xfers \<Rightarrow> run_steps (t1_aggregate_step prior) xfers (state, summary, agg, True))))
       (\<lambda>(b, state, summary, agg, no_error). Inr (b \<and> no_error, state, summary, agg)))"

section \<open>JSON\<close>

definition t1_entry_JSON :: "Address \<times> SummaryPair \<Rightarrow> string" where
  "t1_entry_JSON e =
     (case e of (addr, delayed, coin_map) \<Rightarrow>
      dq @ addr_getJSON addr @ dq @ '':[''
      @ json_tag ''delay_size'' @ nat_to_string (length delayed) @ '',''
      @ json_tag ''coin_size'' @ nat_to_string (length coin_map) @ '',''
      @ json_tag ''delayed'' @ ''[''
      @ join_comma (map (\<lambda>(coin, item). json_tag ''type'' @ to_string_u coin @ '',''
            @ json_tag ''dlay'' @ to_string_u (di_delay item) @ '',''
            @ json_tag ''amount'' @ to_string_u (di_delta item)) delayed)
      @ ''],'' @ json_tag ''coin_map'' @ ''[''
      @ join_comma (map (\<lambda>(coin, amount). json_tag ''type'' @ to_string_u coin @ '',''
            @ json_tag ''amount'' @ to_string_s amount) coin_map)
      @ '']'')"

definition t1_getJSON :: "Tier1Transaction \<Rightarrow> error + string" where
  "t1_getJSON tx =
     bindE (t1_getSummary tx) (\<lambda>summary.
     bindE (t1_getNodeAddress tx) (\<lambda>node_addr.
     bindE (t1_getSignature tx) (\<lambda>sig.
     Inr (''{'' @ json_tag ''sum_size'' @ to_string_u (t1_sum_size tx) @ '',''
       @ json_tag ''summary'' @ ''[''
       @ ''{'' @ json_tag ''addr_size'' @ nat_to_string (length (summary_map summary)) @ '',''
       @ json_tag ''summary'' @ ''[''
       @ concat (map t1_entry_JSON (summary_map summary))
       @ '']}'' @ ''],'' @ json_tag ''val_dex'' @ addr_getJSON node_addr @ '',''
       @ json_tag ''sig'' @ dq @ sig_getJSON sig @ dq @ ''}''))))"

section \<open>The layout of a transaction\<close>

definition t1_parts :: "Summary \<Rightarrow> Address \<Rightarrow> Signature \<Rightarrow> bool \<Rightarrow> Tier1Transaction" where
  "t1_parts sm a sg sound =
     \<lparr>tx_canonical = le64 (sum_getByteSize sm) @ sum_getCanonical sm @ addr_canonical a @ sig_canonical sg,
      tx_is_sound = sound, t1_sum_size = sum_getByteSize sm\<rparr>"

definition t1_encodable :: "Summary \<Rightarrow> Address \<Rightarrow> Signature \<Rightarrow> bool" where
  "t1_encodable sm a sg = (sum_encodable sm \<and> length (sum_getCanonical sm) < 2 ^ 62
     \<and> addr_wf a \<and> addr_size a = 50 \<and> sig_wf sg \<and> sig_size sg = 106)"

lemma t1_sizes:
  assumes "t1_encodable sm a sg"
  defines "n \<equiv> length (sum_getCanonical sm)" and "S \<equiv> sum_getByteSize sm"
  shows "unat S = n" "unat (S + 8) = n + 8" "unat (S + 8 + 50) = n + 58" "unat (S + 8 + 50 + 106) = n + 164"
    "unat (S + 106 + 8 + 50) = n + 164"
proof -
  have n: "n < 2 ^ 62" using assms by (simp add: t1_encodable_def)
  then show S: "unat S = n" by (simp add: S_def n_def sum_getByteSize_def vec_size_def)
  have k: "unat (S + of_nat k) = n + k" if "k < 1000" for k
    using n that S unat_add_of_nat_64 [of S k] by simp
  show "unat (S + 8) = n + 8" "unat (S + 8 + 50) = n + 58" "unat (S + 8 + 50 + 106) = n + 164"
    "unat (S + 106 + 8 + 50) = n + 164"
    using k [of 8] k [of 58] k [of 164] by (simp_all add: add.assoc)
qed

lemma t1_parts_getters:
  assumes "t1_encodable sm a sg"
  shows "t1_getNodeAddress (t1_parts sm a sg b) = Inr a"
    and "t1_getMessageDigest (t1_parts sm a sg b) = Inr (sum_getCanonical sm)"
    and "t1_getSignature (t1_parts sm a sg b) = Inr sg"
    and "t1_getSummary (t1_parts sm a sg b) = Inr sm"
proof -
  let ?S = "sum_getByteSize sm" and ?s = "sum_getCanonical sm"
  have e: "addr_wf a" "length (addr_canonical a) = 50" "sig_wf sg" "length (sig_canonical sg) = 106"
    "length ?s < 2 ^ 62" "sum_encodable sm"
    using assms by (simp_all add: t1_encodable_def addr_size_def sig_size_def)
  note u = t1_sizes [OF assms]
  have "vec_sub ((le64 ?S @ ?s) @ addr_canonical a @ sig_canonical sg) (?S + 8) (?S + 8 + 50) =
      Inr (addr_canonical a)"
    using e u by (intro vec_sub_append) simp_all
  moreover have "Address_vec (addr_canonical a) = a"
    using addr.mk_canon [of a] e(1) by (simp add: addr_wf_def)
  ultimately show "t1_getNodeAddress (t1_parts sm a sg b) = Inr a"
    by (simp add: t1_getNodeAddress_def t1_parts_def)
  have "vec_sub (le64 ?S @ ?s @ addr_canonical a @ sig_canonical sg) 8 (?S + 8) = Inr ?s"
    using e u by (intro vec_sub_append) simp_all
  then show "t1_getMessageDigest (t1_parts sm a sg b) = Inr ?s"
    by (simp add: t1_getMessageDigest_def t1_parts_def)
  have "vec_sub ((le64 ?S @ ?s @ addr_canonical a) @ sig_canonical sg @ []) (?S + 8 + 50)
      (?S + 8 + 50 + 106) = Inr (sig_canonical sg)"
    using e u by (intro vec_sub_append) simp_all
  moreover have "Signature_vec (sig_canonical sg) = Inr sg"
    using sig.mk_canon [of sg] e(3) by (simp add: sig_wf_def)
  ultimately show "t1_getSignature (t1_parts sm a sg b) = Inr sg"
    by (simp add: t1_getSignature_def t1_parts_def)
  let ?ib = "InputBuffer_make (tx_canonical (t1_parts sm a sg b)) 8"
  have "ib_wf ?ib" "ib_rest ?ib = ?s @ addr_canonical a @ sig_canonical sg"
    using e by (simp_all add: ib_wf_def ib_rest_def InputBuffer_make_def t1_parts_def)
  from readsD [OF reads_Summary [OF e(6)] this] show "t1_getSummary (t1_parts sm a sg b) = Inr sm"
    by (simp add: t1_getSummary_def)
qed

text \<open>Reading back without a check returns the parts; the flag is not set.\<close>

lemma reads_t1_Create:
  assumes "t1_encodable sm a sg"
    and "calc \<Longrightarrow> t1_isSound C keys (t1_parts sm a sg False) = Inr sound"
  shows "reads (t1_Create C keys calc) (tx_canonical (t1_parts sm a sg b)) (t1_parts sm a sg (calc \<and> sound))"
proof (rule readsI)
  fix ib r
  let ?bs = "tx_canonical (t1_parts sm a sg b)" and ?S = "sum_getByteSize sm"
  assume ib: "ib_wf ib" "ib_rest ib = ?bs @ r"
  have len: "length ?bs = length (sum_getCanonical sm) + 164"
    using assms by (simp add: t1_parts_def t1_encodable_def addr_size_def sig_size_def)
  have n: "unat (?S + 106 + 8 + 50) = length ?bs"
    using t1_sizes(5) [OF assms(1)] len by simp
  have 1: "getNextUint64 False ib = Inr (?S, ib)"
    using getNextUint64_rest [OF ib(1), of ?S] ib(2) by (simp add: t1_parts_def)
  have "length ?bs < 2 ^ 63"
    using ib_rest_length [OF ib(1)] ib by (simp add: ib_wf_def)
  then have 2: "\<not> ib_size ib < ib_offset ib + (?S + 106 + 8 + 50)"
    using size_guard [OF ib(1), of "?S + 106 + 8 + 50"] n ib(2) by simp
  have 3: "ib_copy (?S + 106 + 8 + 50) True ib = Inr (?bs, advance (length ?bs) ib)"
    by (rule ib_copy_rest [OF ib n])
  have 4: "t1_default\<lparr>t1_sum_size := ?S, tx_canonical := ?bs\<rparr> = t1_parts sm a sg False"
    "(t1_parts sm a sg False)\<lparr>tx_is_sound := x\<rparr> = t1_parts sm a sg x"
    "tx_canonical (t1_default\<lparr>t1_sum_size := ?S\<rparr>) = []" for x
    by (simp_all add: t1_default_def t1_parts_def)
  show "t1_Create C keys calc ib = Inr (t1_parts sm a sg (calc \<and> sound), advance (length ?bs) ib)"
    using 1 2 3 assms(2) unfolding t1_Create_def t1_Fill_def
    by (cases calc) (auto simp: reader_simps liftR_def Let_def 4 del: add_uminus_conv_diff)
qed

section \<open>What soundness and validation mean\<close>

lemma t1_isSound_parts:
  assumes "t1_encodable sm a sg"
  shows "t1_isSound C keys (t1_parts sm a sg False) =
    bindE (getKey C keys a) (\<lambda>k. Inr (VerifyByteSig C k (DevcashHash C (sum_getCanonical sm)) sg))"
  using t1_parts_getters [OF assms, of False]
  by (simp add: t1_isSound_def) (simp add: t1_parts_def)

lemma Tier1Transaction_make_Inr:
  assumes "Tier1Transaction_make C sm sg a keys = Inr tx" and "t1_encodable sm a sg"
  shows "tx = t1_parts sm a sg True \<and> isSane sm \<and>
    (\<exists>k. getKey C keys a = Inr k \<and> VerifyByteSig C k (DevcashHash C (sum_getCanonical sm)) sg)"
  using assms(1) t1_isSound_parts [OF assms(2), of C keys]
  by (auto simp: Tier1Transaction_make_def t1_checked_def Uint64ToBin_le Let_def t1_parts_def
      split: if_splits)

text \<open>The transfers of a summary, as postings, have the net change of the summary.\<close>

definition sum_postings :: "Summary \<Rightarrow> posting list" where
  "sum_postings s =
     concat (map (\<lambda>(a, dm, cm). map (\<lambda>(c, i). (a, c, di_delta i, di_delay i)) dm
                              @ map (\<lambda>(c, x). (a, c, x, 0)) cm) (summary_map s))"

lemma mapE_concat:
  "mapE f (concat xss) = bindE (mapE (mapE f) xss) (\<lambda>yss. Inr (concat yss))"
  by (induction xss) (auto simp: mapE_append bindE_assoc bindE_def split: sum.splits)

lemma sum_getTransfers_postings:
  assumes "\<forall>e \<in> set (summary_map s). addr_wf (fst e)"
  shows "mapE posting_of (sum_getTransfers s) = Inr (sum_postings s)"
proof -
  let ?ts = "\<lambda>(a, dm, cm). map (\<lambda>(c, i). Transfer_make a c (di_delta i) (di_delay i)) dm
                              @ map (\<lambda>(c, x). Transfer_make a c x 0) cm"
  let ?ps = "\<lambda>(a, dm, cm). map (\<lambda>(c, i). (a, c, di_delta i, di_delay i)) dm
                              @ map (\<lambda>(c, x). (a, c, x, 0)) cm"
  have "mapE posting_of (?ts e) = Inr (?ps e)" if "addr_wf (fst e)" for e
    using that
    by (cases e) (auto simp: mapE_append case_prod_unfold mapE_map)
  then have "mapE (mapE posting_of) (map ?ts (summary_map s)) = Inr (map ?ps (summary_map s))"
    using assms by (intro mapE_map) blast
  then show ?thesis by (simp add: sum_getTransfers_def sum_postings_def mapE_concat)
qed

lemma net_posted_map:
  "net_posted (map (\<lambda>(c, v). (a, c, f v, d v)) m) a' c' = (if a' = a then (\<Sum>(c, v)\<leftarrow>m. if c = c' then f v else 0) else 0)"
  by (induction m) auto

lemma net_posted_entry:
  assumes "pair_ok (dm, cm)"
  shows "net_posted (map (\<lambda>(c, i). (a, c, di_delta i, di_delay i)) dm) a' c
       + net_posted (map (\<lambda>(c, x). (a, c, x, 0)) cm) a' c =
         (if a' = a then pair_change (dm, cm) c else 0)"
  using assms net_posted_map [of a di_delta di_delay dm a' c] net_posted_map [of a "\<lambda>x. x" "\<lambda>x. 0" cm a' c]
    sum_list_key [where m = dm and k = c and f = di_delta] sum_list_key [where m = cm and k = c and f = "\<lambda>x. x"]
  by (simp add: pair_ok_def pair_change_def delayed_amount_def coin_amount_def)

lemma net_posted_sum_postings:
  assumes "sum_wf s"
  shows "net_posted (sum_postings s) a c = net_change s a c"
proof -
  have "net_posted (concat (map (\<lambda>(a, dm, cm). map (\<lambda>(c, i). (a, c, di_delta i, di_delay i)) dm
          @ map (\<lambda>(c, x). (a, c, x, 0)) cm) m)) a c = (\<Sum>(b, p)\<leftarrow>m. if b = a then pair_change p c else 0)"
    if "\<forall>p \<in> snd ` set m. pair_ok p" for m :: SummaryMap
    using that by (induction m) (auto simp: net_posted_entry)
  then have "net_posted (sum_postings s) a c = (\<Sum>(b, p)\<leftarrow>summary_map s. if b = a then pair_change p c else 0)"
    using assms by (simp add: sum_postings_def sum_wf_alt)
  also have "\<dots> = net_change s a c"
    using assms sum_list_key [where m = "summary_map s" and k = a and f = "\<lambda>p. pair_change p c"]
    by (simp add: net_change_def sum_wf_alt)
  finally show ?thesis .
qed

lemma sum_postings_total: "(\<Sum>p\<leftarrow>sum_postings s. posted_amount p) = sum_total s"
proof -
  have "(\<Sum>p\<leftarrow>concat (map (\<lambda>(a, dm, cm). map (\<lambda>(c, i). (a, c, di_delta i, di_delay i)) dm
          @ map (\<lambda>(c, x). (a, c, x, 0)) cm) m). posted_amount p) = (\<Sum>(a, p)\<leftarrow>m. pair_total p)"
    for m :: SummaryMap
    by (induction m) (auto simp: pair_total_def comp_def case_prod_unfold)
  then show ?thesis by (simp add: sum_postings_def sum_total_def)
qed

lemma t1_valid_step_True:
  assumes "t1_valid_step t s = (Inr True, s')"
  shows "\<exists>p. posting_of t = Inr p \<and> s' = post_both p s"
  using assms
  by (cases s) (auto simp: posting_of_def Let_def sum_addItem4_def split: sum.splits if_splits)

lemma t1_isValid_True:
  assumes "t1_isValid C keys tx s = Inr (True, s')"
  shows "\<exists>xfers ps. t1_isSound C keys tx = Inr True \<and> t1_getTransfers tx = Inr xfers
     \<and> mapE posting_of xfers = Inr ps \<and> s' = (fold cs_post ps (fst s), fold sum_post ps (snd s))"
proof -
  obtain xfers where "t1_isSound C keys tx = Inr True" "t1_getTransfers tx = Inr xfers"
    and run: "run_steps t1_valid_step xfers s = (Inr True, s')"
    using assms by (auto simp: t1_isValid_def catch_false_True split: sum.splits if_splits)
  moreover obtain ps where "mapE posting_of xfers = Inr ps" "s' = fold post_both ps s"
    using run_steps_True [where step = t1_valid_step and post = posting_of and f = post_both]
      t1_valid_step_True run by blast
  ultimately show ?thesis by (auto simp: fold_post_both)
qed

text \<open>Every branch of the step succeeds on transfers that have all their fields.\<close>

lemma run_t1_valid:
  "mapE posting_of xfers = Inr ps \<Longrightarrow>
   run_steps t1_valid_step xfers s = (Inr True, fold cs_post ps (fst s), fold sum_post ps (snd s))"
proof (induction xfers arbitrary: ps s)
  case (Cons t ts)
  obtain p qs where p: "posting_of t = Inr p" and q: "mapE posting_of ts = Inr qs" and ps: "ps = p # qs"
    using Cons.prems by auto
  have "t1_valid_step t s = (Inr True, post_both p s)"
    using p by (cases s) (auto simp: posting_of_def Let_def sum_addItem4_def)
  then show ?case using Cons.IH [OF q] by (simp add: ps)
qed simp

lemma t1_isValid_parts:
  assumes "t1_encodable sm a sg" and "t1_isSound C keys (t1_parts sm a sg b) = Inr True"
  shows "t1_isValid C keys (t1_parts sm a sg b) (st, s) =
    Inr (True, fold cs_post (sum_postings sm) st, fold sum_post (sum_postings sm) s)"
proof -
  have "\<forall>e \<in> set (summary_map sm). addr_wf (fst e)"
    using assms(1) by (auto simp: t1_encodable_def sum_encodable_def entry_encodable_def list_all_iff)
  then have "run_steps t1_valid_step (sum_getTransfers sm) (st, s) =
      (Inr True, fold cs_post (sum_postings sm) st, fold sum_post (sum_postings sm) s)"
    using run_t1_valid [OF sum_getTransfers_postings] by simp
  then show ?thesis
    using assms t1_parts_getters(4) [OF assms(1), of b]
    by (simp add: t1_isValid_def t1_getTransfers_def catch_false_def)
qed

section \<open>Properties\<close>

text \<open>The Tier-1 transaction of the sample summary, signed by the sample node.\<close>

definition sample_t1 :: Tier1Transaction where
  "sample_t1 = t1_parts sample_summary sample_node (sample_sig 5) True"

lemma sample_t1_encodable [simp]: "t1_encodable sample_summary sample_node (sample_sig 5)"
  by (simp add: t1_encodable_def sample_summary_length addr_size_def sample_node_def [THEN arg_cong [of _ _ addr_canonical]]
      sig_size_def sample_sig_def [THEN arg_cong [of _ _ sig_canonical]] sample_der_def)

lemma sample_t1_make: "Tier1Transaction_make sample_crypto sample_summary (sample_sig 5) sample_node KeyRing_empty = Inr sample_t1"
proof -
  have "t1_isSound sample_crypto KeyRing_empty (t1_parts sample_summary sample_node (sample_sig 5) False) = Inr True"
    by (simp add: t1_isSound_parts getKey_def KeyRing_empty_def sample_crypto_public sample_crypto_verify)
  moreover have "isSane sample_summary"
    by (simp add: isSane_iff sum_total_def pair_total_def sample_summary_map)
  moreover have "sig_size (sample_sig 5) = 106"
    by (simp add: sig_size_def sample_sig_def sample_der_def)
  ultimately show ?thesis
    by (simp add: Tier1Transaction_make_def t1_checked_def t1_parts_def Let_def Uint64ToBin_le sample_t1_def)
qed

text \<open>A Tier-1 transaction that the constructor returns was made from a sane summary and a signature
  that verifies with the key of the node over the bytes of the summary. Its accessors return the
  summary, the node address and the signature, and deserialising its bytes, with anything behind them,
  returns it and stops right after it.\<close>

theorem t1_round_trip:
  assumes "Tier1Transaction_make C sm sg a keys = Inr tx" and "t1_encodable sm a sg"
    and "ib_wf ib" "ib_rest ib = tx_canonical tx @ r"
  shows "isSane sm \<and>
    (\<exists>k. getKey C keys a = Inr k \<and> VerifyByteSig C k (DevcashHash C (sum_getCanonical sm)) sg) \<and>
    t1_getSummary tx = Inr sm \<and> t1_getNodeAddress tx = Inr a \<and> t1_getSignature tx = Inr sg \<and>
    t1_Create C keys False ib = Inr (tx\<lparr>tx_is_sound := False\<rparr>, advance (length (tx_canonical tx)) ib) \<and>
    t1_Create C keys True ib = Inr (tx, advance (length (tx_canonical tx)) ib)"
proof -
  obtain k where tx: "tx = t1_parts sm a sg True" and "isSane sm"
    and k: "getKey C keys a = Inr k" "VerifyByteSig C k (DevcashHash C (sum_getCanonical sm)) sg"
    using Tier1Transaction_make_Inr [OF assms(1,2)] by blast
  moreover have "t1_isSound C keys (t1_parts sm a sg False) = Inr True"
    using k by (simp add: t1_isSound_parts [OF assms(2)])
  then have "t1_Create C keys calc ib = Inr (t1_parts sm a sg calc, advance (length (tx_canonical tx)) ib)" for calc
    using readsD [OF reads_t1_Create [OF assms(2), of calc C keys True True] assms(3)] assms(4) tx by simp
  moreover have "tx\<lparr>tx_is_sound := False\<rparr> = t1_parts sm a sg False"
    by (simp add: tx t1_parts_def)
  ultimately show ?thesis
    using t1_parts_getters [OF assms(2), of True] by simp
qed

lemma sample_t1_length: "length (tx_canonical sample_t1) = 300"
  by (simp add: sample_t1_def t1_parts_def sample_summary_length sample_node_def sample_sig_def sample_der_def)

theorem t1_round_trip_witness:
  "Tier1Transaction_make sample_crypto sample_summary (sample_sig 5) sample_node KeyRing_empty = Inr sample_t1 \<and>
   t1_encodable sample_summary sample_node (sample_sig 5) \<and>
   t1_Create sample_crypto KeyRing_empty True (InputBuffer_make (tx_canonical sample_t1 @ [1, 2]) 0) =
     Inr (sample_t1, advance 300 (InputBuffer_make (tx_canonical sample_t1 @ [1, 2]) 0))"
proof -
  have l: "length (tx_canonical sample_t1) = 300" by (rule sample_t1_length)
  then have "ib_wf (InputBuffer_make (tx_canonical sample_t1 @ [1, 2]) 0)"
    by (intro ib_wf_make) simp
  then show ?thesis
    using t1_round_trip [OF sample_t1_make sample_t1_encodable, of _ "[1, 2]"] sample_t1_make l by simp
qed

text \<open>Applying a Tier-1 transaction to a chain state adds, for every address and coin, the net change
  that the summary in the transaction records, to the balance and to the running summary of the block;
  since the summary of a constructed transaction is sane, the total over all balances is unchanged.\<close>

theorem t1_isValid_applies_summary:
  assumes "Tier1Transaction_make C sm sg a keys = Inr tx" and "t1_encodable sm a sg"
    and "cs_wf st" "sum_wf s" "sum_wf sm"
  shows "\<exists>st' s'. t1_isValid C keys tx (st, s) = Inr (True, st', s') \<and> cs_wf st' \<and> sum_wf s' \<and>
    (\<forall>b c. balance st' b c = balance st b c + net_change sm b c \<and>
           net_change s' b c = net_change s b c + net_change sm b c) \<and>
    cs_total st' = cs_total st"
proof -
  have tx: "tx = t1_parts sm a sg True" and "isSane sm"
    using Tier1Transaction_make_Inr [OF assms(1,2)] by auto
  then have z: "(\<Sum>p\<leftarrow>sum_postings sm. posted_amount p) = 0"
    by (simp add: sum_postings_total isSane_iff)
  have "t1_isValid C keys tx (st, s) =
      Inr (True, fold cs_post (sum_postings sm) st, fold sum_post (sum_postings sm) s)"
    unfolding tx by (rule t1_isValid_parts [OF assms(2)]) (simp add: t1_isSound_def t1_parts_def)
  then show ?thesis
    using cs.amount_fold [OF assms(3)] sumry.amount_fold [OF assms(4)] cs.inv_fold [OF assms(3)]
      sumry.inv_fold [OF assms(4)] cs.total_fold [OF assms(3), of "sum_postings sm"]
      net_posted_sum_postings [OF assms(5)] z by simp
qed

theorem t1_isValid_applies_summary_witness:
  "Tier1Transaction_make sample_crypto sample_summary (sample_sig 5) sample_node KeyRing_empty = Inr sample_t1 \<and>
   t1_encodable sample_summary sample_node (sample_sig 5) \<and> cs_wf ChainState_empty \<and> sum_wf sample_summary \<and>
   (\<exists>st' s'. t1_isValid sample_crypto KeyRing_empty sample_t1 (ChainState_empty, Summary_Create) = Inr (True, st', s') \<and>
      cs_total st' = cs_total ChainState_empty \<and> balance st' sample_wallet 1 = net_change sample_summary sample_wallet 1)"
proof -
  have "sum_wf sample_summary"
    using sumry.inv_fold [OF sum_wf_Create, of sample_postings] by (simp add: sample_summary_def sample_postings_def)
  then show ?thesis
    using t1_isValid_applies_summary [OF sample_t1_make sample_t1_encodable, of ChainState_empty Summary_Create]
      sample_t1_make sum_wf_Create by auto
qed

end
