(* ===== verification/Validations.thy ===== *)
theory Validations
  imports Ordered_Map Input_Buffer
begin

text \<open>
  \<^verbatim>\<open>primitives/Validation.h\<close>: the signatures that validating nodes attached to a block, an ordered
  map from node addresses to signatures. It is read back either with a given number of pairs or
  until fewer bytes than a pair of a node address and a node signature remain.
\<close>

section \<open>State and operations\<close>

record Validation =
  sigs :: "(Address, Signature) omap"

definition Validation_map :: "(Address, Signature) omap \<Rightarrow> Validation" where
  "Validation_map validation_map = \<lparr>sigs = validation_map\<rparr>"

definition Validation_Create :: Validation where
  "Validation_Create = \<lparr>sigs = []\<rparr>"

definition addValidation :: "Address \<Rightarrow> Signature \<Rightarrow> Validation \<Rightarrow> error + (bool \<times> Validation)" where
  "addValidation node sig v =
     (if addr_size node \<noteq> kNODE_ADDR_BUF_SIZE then
        Inl (RuntimeError ''Address must be a node Address'')
      else if sig_size sig \<noteq> kNODE_SIG_BUF_SIZE then
        Inl (RuntimeError ''Signature must be a node Signature'')
      else Inr (True, v\<lparr>sigs := omap_insert node sig (sigs v)\<rparr>))"

definition addValidation_all :: "Validation \<Rightarrow> Validation \<Rightarrow> bool \<times> Validation" where
  "addValidation_all other v =
     (True, v\<lparr>sigs := fold (\<lambda>(a, s). omap_insert a s) (sigs other) (sigs v)\<rparr>)"

definition getFirstValidation :: "Validation \<Rightarrow> error + (Address \<times> Signature)" where
  "getFirstValidation v =
     (case sigs v of [] \<Rightarrow> Inl (RangeError ''ValidationMap is empty'') | x # _ \<Rightarrow> Inr x)"

definition val_getCanonical :: "Validation \<Rightarrow> bytes" where
  "val_getCanonical v =
     fold (\<lambda>item serial. (serial @ addr_canonical (fst item)) @ sig_canonical (snd item)) (sigs v) []"

definition val_getByteSize :: "Validation \<Rightarrow> uint32" where
  "val_getByteSize v = of_nat (length (val_getCanonical v))"

definition getValidationCount :: "Validation \<Rightarrow> uint32" where
  "getValidationCount v = of_nat (length (sigs v))"

definition pairSize :: size_t where
  "pairSize = kNODE_ADDR_BUF_SIZE + kNODE_SIG_BUF_SIZE"

definition read_pair :: "Validation \<Rightarrow> Validation reader" where
  "read_pair v =
     bindR (copyAddress True) (\<lambda>one_addr.
     bindR (copySignature True) (\<lambda>one_sig.
     returnR (v\<lparr>sigs := omap_insert one_addr one_sig (sigs v)\<rparr>)))"

text \<open>The \<^verbatim>\<open>while (remainder >= pairSize())\<close> loop; the remainder is computed once, from the size
  and the offset at the start.\<close>

function val_loop :: "size_t \<Rightarrow> Validation \<Rightarrow> Validation reader" where
  "val_loop remainder v =
     (if remainder \<ge> pairSize then bindR (read_pair v) (val_loop (remainder - pairSize))
      else returnR v)"
  by pat_completeness auto

termination val_loop
proof (relation "measure (\<lambda>(remainder, v). unat remainder)")
  fix remainder :: size_t and v v' :: Validation
  assume "pairSize \<le> remainder"
  moreover have "0 < unat pairSize" by (simp add: pairSize_def)
  moreover have "unat pairSize \<le> unat remainder"
    using calculation(1) by (simp add: word_le_nat_alt)
  ultimately show "((remainder - pairSize, v'), (remainder, v)) \<in> measure (\<lambda>(remainder, v). unat remainder)"
    by (simp add: unat_sub)
qed auto

declare val_loop.simps [simp del]

definition Validation_read :: "Validation reader" where
  "Validation_read = (\<lambda>ib. val_loop (ib_size ib - ib_offset ib) Validation_Create ib)"

definition Validation_read_count :: "uint32 \<Rightarrow> Validation reader" where
  "Validation_read_count count = loopR (unat count) read_pair Validation_Create"

section \<open>Invariant\<close>

definition val_wf :: "Validation \<Rightarrow> bool" where
  "val_wf v = (omap_ok (sigs v) \<and> (\<forall>(a, s) \<in> set (sigs v). addr_wf a \<and> sig_wf s))"

lemma val_wf_Create [simp]: "val_wf Validation_Create"
  by (simp add: val_wf_def Validation_Create_def)

lemma set_omap_insert: "set (omap_insert k v m) \<subseteq> insert (k, v) (set m)"
  by (induction k v m rule: omap_insert.induct) auto

lemma val_wf_insert:
  "val_wf v \<Longrightarrow> addr_wf a \<Longrightarrow> sig_wf s \<Longrightarrow> val_wf (v\<lparr>sigs := omap_insert a s (sigs v)\<rparr>)"
  using set_omap_insert [of a s "sigs v"] by (force simp: val_wf_def)

text \<open>\<open>addValidation\<close> accepts only node-sized arguments; the first signature of a node stays.\<close>

lemma addValidation_spec:
  assumes "addValidation a s v = Inr (b, v')" and "val_wf v"
  shows "b \<and> map_of (sigs v') a = Some (case map_of (sigs v) a of None \<Rightarrow> s | Some t \<Rightarrow> t)
     \<and> (\<forall>a'. a' \<noteq> a \<longrightarrow> map_of (sigs v') a' = map_of (sigs v) a')"
  using assms
  by (auto simp: addValidation_def val_wf_def map_of_omap_insert split: if_splits option.splits)

lemma addValidation_wf:
  "addValidation a s v = Inr (b, v') \<Longrightarrow> val_wf v \<Longrightarrow> addr_wf a \<Longrightarrow> sig_wf s \<Longrightarrow> val_wf v'"
  by (auto simp: addValidation_def val_wf_insert split: if_splits)

lemma fold_insert_wf:
  "omap_ok m \<Longrightarrow> omap_ok (fold (\<lambda>(a, s). omap_insert a s) es m)"
  by (induction es arbitrary: m) (auto simp: case_prod_unfold)

lemma map_of_fold_insert:
  "omap_ok m \<Longrightarrow> map_of (fold (\<lambda>(a, s). omap_insert a s) es m) = map_of es ++ map_of m"
proof (induction es arbitrary: m)
  case (Cons e es)
  obtain a s where e: "e = (a, s)" by (cases e)
  from Cons.prems have "map_of (fold (\<lambda>(a, s). omap_insert a s) es (omap_insert a s m)) =
      map_of es ++ map_of (omap_insert a s m)"
    by (intro Cons.IH) simp
  with Cons.prems show ?case
    by (auto simp: e map_of_omap_insert fun_eq_iff map_add_def split: option.splits)
qed simp

text \<open>Merging keeps what is already there and adds the missing signatures of the other side.\<close>

lemma addValidation_all_spec:
  assumes "omap_ok (sigs v)"
  shows "fst (addValidation_all w v)
     \<and> omap_ok (sigs (snd (addValidation_all w v)))
     \<and> map_of (sigs (snd (addValidation_all w v))) = map_of (sigs w) ++ map_of (sigs v)"
  using assms by (simp add: addValidation_all_def fold_insert_wf map_of_fold_insert)

section \<open>Serialisation\<close>

definition enc_pair :: "Address \<times> Signature \<Rightarrow> bytes" where
  "enc_pair e = addr_canonical (fst e) @ sig_canonical (snd e)"

lemma val_getCanonical_eq: "val_getCanonical v = concat (map enc_pair (sigs v))"
proof -
  have "fold (\<lambda>item serial. (serial @ addr_canonical (fst item)) @ sig_canonical (snd item)) es out =
        out @ concat (map enc_pair es)" for es out
    by (induction es arbitrary: out) (simp_all add: enc_pair_def)
  then show ?thesis by (simp add: val_getCanonical_def)
qed

lemma reads_read_pair:
  assumes "addr_wf (fst e)" "sig_wf (snd e)"
  shows "reads (read_pair v) (enc_pair e) (v\<lparr>sigs := omap_insert (fst e) (snd e) (sigs v)\<rparr>)"
  unfolding read_pair_def enc_pair_def
  by (intro reads_bind [OF reads_copyAddress [OF assms(1)]]
      reads_bind_value [OF reads_copySignature [OF assms(2)]]) (rule refl)

lemma fold_read_pair:
  "fold (\<lambda>e v. v\<lparr>sigs := omap_insert (fst e) (snd e) (sigs v)\<rparr>) es v =
   v\<lparr>sigs := fold (\<lambda>(a, s). omap_insert a s) es (sigs v)\<rparr>"
  by (induction es arbitrary: v) (simp_all add: case_prod_unfold)

lemma Validation_eta: "\<lparr>sigs = sigs v\<rparr> = v"
  by (cases v) simp

lemma reads_pairs:
  assumes "val_wf v"
  shows "reads (loopR (length (sigs v)) read_pair Validation_Create) (val_getCanonical v) v"
proof -
  have "reads (loopR (length (sigs v)) read_pair Validation_Create) (concat (map enc_pair (sigs v)))
      (fold (\<lambda>e v. v\<lparr>sigs := omap_insert (fst e) (snd e) (sigs v)\<rparr>) (sigs v) Validation_Create)"
    using assms by (intro reads_loop reads_read_pair) (auto simp: val_wf_def)
  moreover have "fold (\<lambda>e v. v\<lparr>sigs := omap_insert (fst e) (snd e) (sigs v)\<rparr>) (sigs v) Validation_Create = v"
    using assms fold_omap_insert [of "[]" "sigs v"] Validation_eta [of v]
    by (simp add: fold_read_pair Validation_Create_def val_wf_def)
  ultimately show ?thesis by (simp add: val_getCanonical_eq)
qed

lemma reads_Validation_count:
  assumes "val_wf v" and "length (sigs v) < 2 ^ 32"
  shows "reads (Validation_read_count (getValidationCount v)) (val_getCanonical v) v"
  using reads_pairs [OF assms(1)] assms(2)
  by (simp add: Validation_read_count_def getValidationCount_def)

text \<open>The loop of the other reader performs as many rounds as whole pairs fit into the remainder.\<close>

lemma val_loop_rounds: "val_loop remainder v = loopR (unat remainder div 156) read_pair v"
proof (induction "unat remainder" arbitrary: remainder v rule: less_induct)
  case less
  have p: "unat pairSize = 156" by (simp add: pairSize_def)
  show ?case
  proof (cases "pairSize \<le> remainder")
    case True
    then have "156 \<le> unat remainder" using p by (simp add: word_le_nat_alt)
    moreover have s: "unat (remainder - pairSize) = unat remainder - 156"
      using True p by (simp add: unat_sub)
    ultimately have "unat remainder div 156 = Suc (unat (remainder - pairSize) div 156)"
      using le_div_geq [of 156 "unat remainder"] by simp
    moreover have "val_loop (remainder - pairSize) = loopR (unat (remainder - pairSize) div 156) read_pair"
      using less [of "remainder - pairSize"] s \<open>156 \<le> unat remainder\<close> by (intro ext) simp
    ultimately show ?thesis using True by (simp add: val_loop.simps [of remainder])
  next
    case False
    then have "unat remainder < 156" using p by (simp add: word_le_nat_alt)
    then show ?thesis using False by (simp add: val_loop.simps [of remainder])
  qed
qed

definition node_pairs :: "Validation \<Rightarrow> bool" where
  "node_pairs v = (\<forall>(a, s) \<in> set (sigs v). addr_size a = 50 \<and> sig_size s = 106)"

lemma length_node_pairs: "node_pairs v \<Longrightarrow> length (val_getCanonical v) = 156 * length (sigs v)"
proof -
  have "\<forall>e \<in> set es. addr_size (fst e) = 50 \<and> sig_size (snd e) = 106 \<Longrightarrow>
        length (concat (map enc_pair es)) = 156 * length es" for es
    by (induction es) (auto simp: enc_pair_def addr_size_def sig_size_def)
  then show "node_pairs v \<Longrightarrow> length (val_getCanonical v) = 156 * length (sigs v)"
    by (simp add: node_pairs_def val_getCanonical_eq case_prod_unfold)
qed

text \<open>On input that consists of node pairs and an incomplete rest, the reader without a count
  returns all of the pairs and stops before the rest.\<close>

lemma Validation_read_rest:
  assumes "ib_wf ib" "ib_rest ib = val_getCanonical v @ r" "length r < 156"
    and "val_wf v" "node_pairs v"
  shows "Validation_read ib = Inr (v, advance (length (val_getCanonical v)) ib)"
proof -
  have l: "length (ib_rest ib) = 156 * length (sigs v) + length r"
    using assms(2) length_node_pairs [OF assms(5)] by simp
  have "unat (ib_size ib - ib_offset ib) = length (ib_rest ib)"
    using assms(1) by (simp add: ib_size_def ib_wf_def ib_rest_def vec_size_def unat_sub word_le_nat_alt)
  then have "unat (ib_size ib - ib_offset ib) div 156 = length (sigs v)"
    using l assms(3) by simp
  then show ?thesis
    using readsD [OF reads_pairs [OF assms(4)] assms(1,2)]
    by (simp add: Validation_read_def val_loop_rounds)
qed

section \<open>Properties\<close>

definition sample_validation :: Validation where
  "sample_validation = \<lparr>sigs = [(sample_node, sample_node_sig)]\<rparr>"

lemma sample_validation_wf [simp]: "val_wf sample_validation" "node_pairs sample_validation"
  by (simp_all add: val_wf_def node_pairs_def sample_validation_def)
    (simp add: addr_size_def sig_size_def sample_node_def sample_node_sig_def)

text \<open>A validation section is read back from its canonical bytes, with a count by the one reader and
  without a count, up to an incomplete rest, by the other; both return the same map.\<close>

theorem validation_round_trip:
  assumes "val_wf v" "node_pairs v" "ib_wf ib" "ib_rest ib = val_getCanonical v @ r" "length r < 156"
    and "length (sigs v) < 2 ^ 32"
  shows "Validation_read ib = Inr (v, advance (156 * length (sigs v)) ib) \<and>
    Validation_read_count (getValidationCount v) ib = Inr (v, advance (156 * length (sigs v)) ib)"
  using Validation_read_rest [OF assms(3,4,5,1,2)]
    readsD [OF reads_Validation_count [OF assms(1,6)] assms(3,4)] assms(2)
  by (simp add: length_node_pairs)

theorem validation_round_trip_witness:
  "val_wf sample_validation \<and> node_pairs sample_validation \<and>
   ib_wf (InputBuffer_make (val_getCanonical sample_validation @ [1, 2]) 0) \<and>
   Validation_read (InputBuffer_make (val_getCanonical sample_validation @ [1, 2]) 0) =
   Inr (sample_validation, advance 156 (InputBuffer_make (val_getCanonical sample_validation @ [1, 2]) 0))"
proof -
  have n: "length (sigs sample_validation) = 1" by (simp add: sample_validation_def)
  then have "length (val_getCanonical sample_validation) = 156"
    using length_node_pairs [of sample_validation] by simp
  then have wf: "ib_wf (InputBuffer_make (val_getCanonical sample_validation @ [1, 2]) 0)"
    by (intro ib_wf_make) simp
  show ?thesis
    using validation_round_trip [OF sample_validation_wf wf, of "[1, 2]"] wf by (simp add: n)
qed

text \<open>Merging the validations of a peer keeps every signature that is already present and adds those of
  nodes that have none; the merged map stays ordered.\<close>

theorem merge_keeps_signatures:
  assumes "omap_ok (sigs v)"
  shows "omap_ok (sigs (snd (addValidation_all w v))) \<and>
    map_of (sigs (snd (addValidation_all w v))) = map_of (sigs w) ++ map_of (sigs v)"
  using addValidation_all_spec [OF assms, of w] by simp

theorem merge_keeps_signatures_witness:
  "omap_ok (sigs sample_validation) \<and>
   map_of (sigs (snd (addValidation_all \<lparr>sigs = [(sample_node, sample_wallet_sig)]\<rparr> sample_validation))) sample_node =
   Some sample_node_sig"
  using merge_keeps_signatures [of sample_validation "\<lparr>sigs = [(sample_node, sample_wallet_sig)]\<rparr>"]
  by (simp add: sample_validation_def)

end
