(* ===== verification/Tx_Dispatch.thy ===== *)
theory Tx_Dispatch
  imports Tier1_Tx Validations
begin

text \<open>
  The virtual methods of \<^verbatim>\<open>Transaction\<close>: a \<^verbatim>\<open>TransactionPtr\<close> points to a transaction of one of
  the two tiers and a call goes to the method of that tier. \<^verbatim>\<open>primitives/factories.h\<close> creates one
  or the other according to the mode of the application.

  The locale \<open>batch_tx\<close> is what the transaction pool relies on: a transaction that is accepted
  has posted its transfers to the chain state and to the summary, whatever the outcome the two
  stay well formed, and a prefix of the postings has been applied to both. Both tiers and the
  dispatching methods satisfy it.
\<close>

section \<open>Dispatch\<close>

datatype eAppMode = mode_T1 | mode_T2 | mode_scan

datatype TransactionPtr = Tier1 Tier1Transaction | Tier2 Tier2Transaction

fun tx_getCanonical :: "TransactionPtr \<Rightarrow> bytes" where
  "tx_getCanonical (Tier1 tx) = tx_canonical tx"
| "tx_getCanonical (Tier2 tx) = tx_canonical tx"

fun tx_getMessageDigest :: "TransactionPtr \<Rightarrow> error + bytes" where
  "tx_getMessageDigest (Tier1 tx) = t1_getMessageDigest tx"
| "tx_getMessageDigest (Tier2 tx) = t2_getMessageDigest tx"

fun tx_getTransfers :: "TransactionPtr \<Rightarrow> error + Transfer list" where
  "tx_getTransfers (Tier1 tx) = t1_getTransfers tx"
| "tx_getTransfers (Tier2 tx) = t2_getTransfers tx"

fun tx_getSignature :: "TransactionPtr \<Rightarrow> error + Signature" where
  "tx_getSignature (Tier1 tx) = t1_getSignature tx"
| "tx_getSignature (Tier2 tx) = t2_getSignature tx"

fun tx_setIsSound :: "Crypto \<Rightarrow> KeyRing \<Rightarrow> TransactionPtr \<Rightarrow> error + (bool \<times> TransactionPtr)" where
  "tx_setIsSound C keys (Tier1 tx) = bindE (t1_setIsSound C keys tx) (\<lambda>(b, tx). Inr (b, Tier1 tx))"
| "tx_setIsSound C keys (Tier2 tx) = bindE (t2_setIsSound C keys tx) (\<lambda>(b, tx). Inr (b, Tier2 tx))"

fun tx_isSound :: "Crypto \<Rightarrow> KeyRing \<Rightarrow> TransactionPtr \<Rightarrow> error + bool" where
  "tx_isSound C keys (Tier1 tx) = t1_isSound C keys tx"
| "tx_isSound C keys (Tier2 tx) = t2_isSound C keys tx"

fun tx_isValid :: "Crypto \<Rightarrow> KeyRing \<Rightarrow> TransactionPtr \<Rightarrow> ChainState \<times> Summary
    \<Rightarrow> error + (bool \<times> ChainState \<times> Summary)" where
  "tx_isValid C keys (Tier1 tx) s = t1_isValid C keys tx s"
| "tx_isValid C keys (Tier2 tx) s = t2_isValid C keys tx s"

fun tx_isValidInAggregate :: "Crypto \<Rightarrow> KeyRing \<Rightarrow> ChainState \<Rightarrow> TransactionPtr
    \<Rightarrow> ChainState \<times> Summary \<times> aggregate \<Rightarrow> error + (bool \<times> ChainState \<times> Summary \<times> aggregate)" where
  "tx_isValidInAggregate C keys prior (Tier1 tx) s = t1_isValidInAggregate C keys prior tx s"
| "tx_isValidInAggregate C keys prior (Tier2 tx) s = t2_isValidInAggregate C keys prior tx s"

fun tx_getJSON :: "TransactionPtr \<Rightarrow> error + string" where
  "tx_getJSON (Tier1 tx) = t1_getJSON tx"
| "tx_getJSON (Tier2 tx) = t2_getJSON tx"

definition CreateTransaction :: "Crypto \<Rightarrow> KeyRing \<Rightarrow> eAppMode \<Rightarrow> bool \<Rightarrow> TransactionPtr reader" where
  "CreateTransaction C keys mode calculate_soundness =
     (case mode of
        mode_T1 \<Rightarrow> bindR (Tier1Transaction_read C keys calculate_soundness) (\<lambda>tx. returnR (Tier1 tx))
      | mode_T2 \<Rightarrow> bindR (t2_CreateUniquePtr C keys calculate_soundness) (\<lambda>tx. returnR (Tier2 tx))
      | mode_scan \<Rightarrow> throwR (DeserializationError ''CreateTransaction(): unknown eAppMode type''))"

section \<open>Postings of a transaction\<close>

definition tx_postings :: "(error + Transfer list) \<Rightarrow> error + posting list" where
  "tx_postings xfers = bindE xfers (mapE posting_of)"

text \<open>All transfers of the transaction have all their fields.\<close>

definition postable :: "(error + Transfer list) \<Rightarrow> bool" where
  "postable xfers = (\<forall>ts. xfers = Inr ts \<longrightarrow> (\<exists>ps. mapE posting_of ts = Inr ps))"

lemma mapE_Inr_mem: "mapE f xs = Inr ys \<Longrightarrow> x \<in> set xs \<Longrightarrow> \<exists>y. f x = Inr y"
  by (induction xs arbitrary: ys) auto

section \<open>The contract of batch validation\<close>

locale batch_tx =
  fixes valid :: "ChainState \<Rightarrow> 'tx \<Rightarrow> ChainState \<times> Summary \<times> aggregate
      \<Rightarrow> error + (bool \<times> ChainState \<times> Summary \<times> aggregate)"
    and xfers :: "'tx \<Rightarrow> error + Transfer list"
  assumes accepted: "valid prior tx (st, sm, agg) = Inr (True, st', sm', agg') \<Longrightarrow>
      \<exists>ps. tx_postings (xfers tx) = Inr ps \<and> st' = fold cs_post ps st \<and> sm' = fold sum_post ps sm"
    and kept: "valid prior tx (st, sm, agg) = Inr (b, st', sm', agg') \<Longrightarrow> cs_wf st \<Longrightarrow> sum_wf sm \<Longrightarrow>
      cs_wf st' \<and> sum_wf sm'"
    and prefix: "valid prior tx (st, sm, agg) = Inr (b, st', sm', agg') \<Longrightarrow> postable (xfers tx) \<Longrightarrow>
      \<exists>ps. st' = fold cs_post ps st \<and> sm' = fold sum_post ps sm"

text \<open>Steps that only look at the projections, for the two implementations.\<close>

abbreviation two :: "ChainState \<times> Summary \<times> 'g \<Rightarrow> ChainState \<times> Summary" where
  "two s \<equiv> (fst s, fst (snd s))"

lemma t1_aggregate_step_cases:
  assumes "t1_aggregate_step prior t s = (r, s')" "posting_of t = Inr p"
  shows "two s' = (if r = Inr True then post_both p (two s) else two s)"
  using assms
  by (cases s) (auto simp: posting_of_def Let_def sum_addItem4_def split: sum.splits if_splits)

lemma t2_aggregate_step_cases:
  assumes "t2_aggregate_step prior oper t s = (r, s')" "posting_of t = Inr p"
  shows "two s' = (if r = Inr True then post_both p (two s) else two s)"
  using assms
  by (cases s) (auto simp: posting_of_def Let_def sum_addItem4_def split: sum.splits if_splits)

lemma t1_aggregate_step_True:
  assumes "t1_aggregate_step prior t s = (Inr True, s')"
  shows "\<exists>p. posting_of t = Inr p \<and> two s' = post_both p (two s)"
  using assms
  by (cases s) (auto simp: posting_of_def Let_def sum_addItem4_def split: sum.splits if_splits)

lemma t1_aggregate_step_inv:
  assumes "t1_aggregate_step prior t s = (r, s')" "cs_wf (fst s) \<and> sum_wf (fst (snd s))"
  shows "cs_wf (fst s') \<and> sum_wf (fst (snd s'))"
  using assms
  by (cases s) (auto simp: Let_def sum_addItem4_def cs_wf_addCoin sum_wf_addItem
      split: sum.splits prod.splits if_splits)

lemma run_t1_aggregate_True:
  assumes "run_steps (t1_aggregate_step prior) xfers s = (Inr True, s')"
  shows "\<exists>ps. mapE posting_of xfers = Inr ps \<and> two s' = fold post_both ps (two s)"
  using assms
proof (induction xfers arbitrary: s)
  case (Cons t ts)
  then obtain s1 where "t1_aggregate_step prior t s = (Inr True, s1)"
    and r: "run_steps (t1_aggregate_step prior) ts s1 = (Inr True, s')"
    by (auto simp del: t1_aggregate_step.simps split: prod.splits sum.splits if_splits)
  then obtain p where "posting_of t = Inr p" "two s1 = post_both p (two s)"
    using t1_aggregate_step_True by blast
  with Cons.IH [OF r] show ?case by fastforce
qed simp

lemma agg_result:
  assumes "bindE (catch_false r) (\<lambda>(b, st, sm, agg, ne). Inr (b \<and> ne, st, sm, agg)) = Inr (b', st', sm', agg')"
  shows "two (snd r) = (st', sm')"
  using assms by (auto dest!: catch_false_inv)

text \<open>The loops post a prefix of the transfers of the transaction.\<close>

lemma run_aggregate_prefix:
  assumes "\<And>t s r s' p. step t s = (r, s') \<Longrightarrow> posting_of t = Inr p \<Longrightarrow>
      two s' = (if r = Inr True then post_both p (two s) else two s)"
    and "mapE posting_of ts = Inr qs"
  shows "\<exists>ps. two (snd (run_steps step ts s)) = fold post_both ps (two s)"
proof -
  have "\<exists>ps k. mapE posting_of ts = Inr ps \<and> two (snd (run_steps step ts s)) = fold post_both (take k ps) (two s)"
  proof (rule run_steps_prefix [where pr = two])
    fix t s r s'
    assume "t \<in> set ts" and st: "step t s = (r, s')"
    then obtain p where "posting_of t = Inr p" using mapE_Inr_mem [OF assms(2)] by blast
    with assms(1) [OF st] show "\<exists>p. posting_of t = Inr p \<and>
        two s' = (if r = Inr True then post_both p (two s) else two s)" by blast
  qed
  then show ?thesis by blast
qed

lemma t1_isValidInAggregate_True:
  assumes "t1_isValidInAggregate C keys prior tx (st, sm, agg) = Inr (True, st', sm', agg')"
  shows "\<exists>xfers ps. t1_isSound C keys tx = Inr True \<and> t1_getTransfers tx = Inr xfers
     \<and> mapE posting_of xfers = Inr ps \<and> st' = fold cs_post ps st \<and> sm' = fold sum_post ps sm"
proof -
  obtain xfers ne where "t1_isSound C keys tx = Inr True" "t1_getTransfers tx = Inr xfers"
    and run: "run_steps (t1_aggregate_step prior) xfers (st, sm, agg, True) = (Inr True, st', sm', agg', ne)"
    using assms
    by (auto simp: t1_isValidInAggregate_def catch_false_True split: sum.splits if_splits)
  with run_t1_aggregate_True [OF run] show ?thesis by (auto simp: fold_post_both)
qed

lemma t1_isValidInAggregate_inv:
  assumes "t1_isValidInAggregate C keys prior tx (st, sm, agg) = Inr (b, st', sm', agg')"
    and "cs_wf st" "sum_wf sm"
  shows "cs_wf st' \<and> sum_wf sm'"
proof -
  have run: "cs_wf (fst (snd (run_steps (t1_aggregate_step prior) xfers (st, sm, agg, True)))) \<and>
     sum_wf (fst (snd (snd (run_steps (t1_aggregate_step prior) xfers (st, sm, agg, True)))))" for xfers
    by (rule run_steps_inv [where step = "t1_aggregate_step prior" and xs = xfers
          and s = "(st, sm, agg, True)" and P = "\<lambda>s. cs_wf (fst s) \<and> sum_wf (fst (snd s))",
          OF t1_aggregate_step_inv surjective_pairing]) (use assms(2,3) in auto)
  show ?thesis
    using agg_result [OF assms(1) [unfolded t1_isValidInAggregate_def prod.case]] assms(2,3) run
    by (auto split: sum.splits if_splits)
qed

lemma t1_prefix:
  assumes "t1_isValidInAggregate C keys prior tx (st, sm, agg) = Inr (b, st', sm', agg')"
    and "postable (t1_getTransfers tx)"
  shows "\<exists>ps. st' = fold cs_post ps st \<and> sm' = fold sum_post ps sm"
proof -
  have run: "\<exists>ps. two (snd (run_steps (t1_aggregate_step prior) ts (st, sm, agg, True))) =
      fold post_both ps (st, sm)" if "t1_getTransfers tx = Inr ts" for ts
    using assms(2) that run_aggregate_prefix [of "t1_aggregate_step prior", OF t1_aggregate_step_cases]
    by (fastforce simp: postable_def)
  have "\<exists>ps. (st', sm') = fold post_both ps (st, sm)"
    using agg_result [OF assms(1) [unfolded t1_isValidInAggregate_def prod.case]] run
    by (auto split: sum.splits if_splits intro: exI [of _ "[]"])
  then show ?thesis by (auto simp: fold_post_both)
qed

lemma t2_prefix:
  assumes "t2_isValidInAggregate C keys prior tx (st, sm, agg) = Inr (b, st', sm', agg')"
    and "postable (t2_getTransfers tx)"
  shows "\<exists>ps. st' = fold cs_post ps st \<and> sm' = fold sum_post ps sm"
proof -
  have run: "\<exists>ps. two (snd (run_steps (t2_aggregate_step prior oper) ts (st, sm, agg, True))) =
      fold post_both ps (st, sm)" if "t2_getTransfers tx = Inr ts" for oper ts
    using assms(2) that run_aggregate_prefix [of "t2_aggregate_step prior oper", OF t2_aggregate_step_cases]
    by (fastforce simp: postable_def)
  have "\<exists>ps. (st', sm') = fold post_both ps (st, sm)"
    using agg_result [OF assms(1) [unfolded t2_isValidInAggregate_def prod.case]] run
    by (auto split: sum.splits if_splits intro: exI [of _ "[]"])
  then show ?thesis by (auto simp: fold_post_both)
qed

interpretation t1: batch_tx "t1_isValidInAggregate C keys" t1_getTransfers for C keys
proof unfold_locales
  show "\<exists>ps. tx_postings (t1_getTransfers tx) = Inr ps \<and> st' = fold cs_post ps st \<and> sm' = fold sum_post ps sm"
    if "t1_isValidInAggregate C keys prior tx (st, sm, agg) = Inr (True, st', sm', agg')"
    for prior tx st sm agg st' sm' agg'
    using t1_isValidInAggregate_True [OF that] by (auto simp: tx_postings_def)
qed (fact t1_isValidInAggregate_inv t1_prefix)+

interpretation t2: batch_tx "t2_isValidInAggregate C keys" t2_getTransfers for C keys
proof unfold_locales
  show "\<exists>ps. tx_postings (t2_getTransfers tx) = Inr ps \<and> st' = fold cs_post ps st \<and> sm' = fold sum_post ps sm"
    if "t2_isValidInAggregate C keys prior tx (st, sm, agg) = Inr (True, st', sm', agg')"
    for prior tx st sm agg st' sm' agg'
    using t2_isValidInAggregate_True [OF that] by (auto simp: tx_postings_def)
qed (fact t2_isValidInAggregate_inv t2_prefix)+

interpretation tx: batch_tx "tx_isValidInAggregate C keys" tx_getTransfers for C keys
proof unfold_locales
  fix prior tx st sm agg b st' sm' agg'
  show "\<exists>ps. tx_postings (tx_getTransfers tx) = Inr ps \<and> st' = fold cs_post ps st \<and> sm' = fold sum_post ps sm"
    if "tx_isValidInAggregate C keys prior tx (st, sm, agg) = Inr (True, st', sm', agg')"
    using that by (cases tx) (auto dest: t1.accepted t2.accepted)
  show "cs_wf st' \<and> sum_wf sm'"
    if "tx_isValidInAggregate C keys prior tx (st, sm, agg) = Inr (b, st', sm', agg')" "cs_wf st" "sum_wf sm"
    using that by (cases tx) (auto dest: t1.kept t2.kept)
  show "\<exists>ps. st' = fold cs_post ps st \<and> sm' = fold sum_post ps sm"
    if "tx_isValidInAggregate C keys prior tx (st, sm, agg) = Inr (b, st', sm', agg')"
      "postable (tx_getTransfers tx)"
    using that by (cases tx) (auto dest: t1.prefix t2.prefix)
qed

end
