(* ===== verification/Tx_Creation.thy ===== *)
theory Tx_Creation
  imports Tx_Dispatch
begin

text \<open>
  \<^verbatim>\<open>common/devcash_context.h\<close> and \<^verbatim>\<open>concurrency/TransactionCreationManager.h\<close>: the parameters of a
  node and the deserialisation of the transactions of a block. The loops over the transactions of a
  block go on until the offset of the buffer passes a limit; nothing in the code makes every round
  move the offset, so such a loop is a \<open>partial_function\<close> whose value \<open>None\<close> means that it never ends.
\<close>

section \<open>Context\<close>

record DevcashContext =
  ctx_peer_count :: size_t
  ctx_current_node :: uint32
  ctx_current_shard :: uint32
  ctx_app_mode :: eAppMode
  ctx_uri_prefix :: string
  ctx_uri :: string
  ctx_inn_keys :: string
  ctx_node_keys :: string
  ctx_key_pass :: string
  ctx_batch_size :: uint32
  ctx_max_wait :: uint32

definition get_uri_from_index :: "DevcashContext \<Rightarrow> uint32 \<Rightarrow> string" where
  "get_uri_from_index ctx node_index = ctx_uri_prefix ctx @ to_string_u node_index"

definition get_shard_uri :: "DevcashContext \<Rightarrow> string" where
  "get_shard_uri ctx = ''shard-'' @ to_string_u (ctx_current_shard ctx)"

text \<open>The product of the shard and the number of peers is a \<^verbatim>\<open>size_t\<close>; the sum is cut to 32 bits.\<close>

definition get_current_node :: "DevcashContext \<Rightarrow> uint32" where
  "get_current_node ctx =
     ucast (ucast (ctx_current_node ctx) + ucast (ctx_current_shard ctx) * ctx_peer_count ctx)"

definition DevcashContext_make ::
  "uint32 \<Rightarrow> uint32 \<Rightarrow> eAppMode \<Rightarrow> string \<Rightarrow> string \<Rightarrow> string \<Rightarrow> uint32 \<Rightarrow> uint32 \<Rightarrow> DevcashContext" where
  "DevcashContext_make current_node current_shard mode inn_key_path node_key_path key_pass batch_size max_wait =
     (let ctx = \<lparr>ctx_peer_count = 3, ctx_current_node = current_node, ctx_current_shard = current_shard,
                 ctx_app_mode = mode, ctx_uri_prefix = ''RemoteURI-'', ctx_uri = [],
                 ctx_inn_keys = inn_key_path, ctx_node_keys = node_key_path, ctx_key_pass = key_pass,
                 ctx_batch_size = batch_size, ctx_max_wait = max_wait\<rparr>
      in ctx\<lparr>ctx_uri := get_uri_from_index ctx (get_current_node ctx)\<rparr>)"

section \<open>The loop over the transactions of a block\<close>

partial_function (option) read_while ::
  "'a reader \<Rightarrow> size_t \<Rightarrow> InputBuffer \<Rightarrow> (error + ('a list \<times> InputBuffer)) option" where
  "read_while read limit ib =
     (if ib_offset ib < limit then
        (case read ib of
           Inl e \<Rightarrow> Some (Inl e)
         | Inr (x, ib') \<Rightarrow>
             Option.bind (read_while read limit ib') (\<lambda>r.
             Some (bindE r (\<lambda>(xs, ib''). Inr (x # xs, ib'')))))
      else Some (Inr ([], ib)))"

text \<open>A computation that may not end, followed by a fallible one.\<close>

definition bindP :: "(error + 'a) option \<Rightarrow> ('a \<Rightarrow> (error + 'b) option) \<Rightarrow> (error + 'b) option" where
  "bindP m f = Option.bind m (\<lambda>r. case r of Inl e \<Rightarrow> Some (Inl e) | Inr x \<Rightarrow> f x)"

lemma bindP_simps [simp]:
  "bindP None f = None" "bindP (Some (Inl e)) f = Some (Inl e)" "bindP (Some (Inr x)) f = f x"
  by (simp_all add: bindP_def)

lemma bindP_eq_Some:
  "bindP m f = Some r \<longleftrightarrow> (\<exists>e. m = Some (Inl e) \<and> r = Inl e) \<or> (\<exists>x. m = Some (Inr x) \<and> f x = Some r)"
  by (cases m; cases "the m") auto

section \<open>Transaction creation manager\<close>

record TransactionCreationManager =
  tcm_keys :: "KeyRing option"
  tcm_app_mode :: eAppMode

definition tcm_make :: "eAppMode \<Rightarrow> TransactionCreationManager" where
  "tcm_make mode = \<lparr>tcm_keys = None, tcm_app_mode = mode\<rparr>"

definition set_keys :: "KeyRing \<Rightarrow> TransactionCreationManager \<Rightarrow> TransactionCreationManager" where
  "set_keys keys tcm = tcm\<lparr>tcm_keys := Some keys\<rparr>"

text \<open>A task stores what \<open>setIsSound\<close> throws in its future, which nobody reads: the transaction is
  kept, not flagged as sound. Undefined behaviour is not an exception and stays an error.\<close>

definition push_job :: "Crypto \<Rightarrow> KeyRing \<Rightarrow> TransactionPtr \<Rightarrow> error + TransactionPtr" where
  "push_job C keyring x =
     (case tx_setIsSound C keyring x of
        Inr (_, x') \<Rightarrow> Inr x'
      | Inl e \<Rightarrow> (case e of Undefined w \<Rightarrow> Inl e | Aborted w \<Rightarrow> Inl e | _ \<Rightarrow> Inr x))"

definition CreateTransactions ::
  "Crypto \<Rightarrow> TransactionCreationManager \<Rightarrow> size_t \<Rightarrow> size_t \<Rightarrow> InputBuffer
   \<Rightarrow> (error + ((bytes list \<times> TransactionPtr list) \<times> InputBuffer)) option" where
  "CreateTransactions C tcm start_size tx_size ib =
     (if \<not> ib_offset ib < start_size + tx_size then Some (Inr (([], []), ib))
      else
        case tcm_keys tcm of
          None \<Rightarrow> Some (Inl (Undefined ''null pointer''))
        | Some keys \<Rightarrow>
            bindP (read_while (CreateTransaction C keys (tcm_app_mode tcm) False) (start_size + tx_size) ib)
              (\<lambda>(vtx, ib).
            let raw_txs = map tx_getCanonical vtx in
            Some (bindE (mapE (push_job C keys) vtx) (\<lambda>vtx. Inr ((raw_txs, vtx), ib)))))"

section \<open>When the loop ends\<close>

text \<open>On the concatenation of encoded items, none of them empty, the loop reads exactly the items.\<close>

lemma offset_limit:
  assumes "ib_wf ib" "n \<le> length (ib_rest ib)" "0 < n"
  shows "ib_offset ib < ib_offset ib + of_nat n"
proof -
  have "unat (ib_offset ib + of_nat n) = unat (ib_offset ib) + n"
    using assms ib_rest_length [OF assms(1)] by (intro unat_add_of_nat_64) (auto simp: ib_wf_def)
  then show ?thesis using assms(3) by (simp add: word_less_nat_alt)
qed

lemma read_while_items:
  assumes "\<And>x. x \<in> set xs \<Longrightarrow> reads p (enc x) (f x) \<and> enc x \<noteq> []"
    and "ib_wf ib" "ib_rest ib = concat (map enc xs) @ r"
    and "limit = ib_offset ib + of_nat (length (concat (map enc xs)))"
  shows "read_while p limit ib = Some (Inr (map f xs, advance (length (concat (map enc xs))) ib))"
  using assms
proof (induction xs arbitrary: ib)
  case Nil
  then show ?case by (simp add: read_while.simps)
next
  case (Cons x xs)
  let ?n = "length (enc x)" and ?m = "length (concat (map enc xs))"
  have 1: "p ib = Inr (f x, advance ?n ib)"
    using Cons.prems(1) [of x] readsD [of p "enc x" "f x" ib "concat (map enc xs) @ r"] Cons.prems(2,3)
    by simp
  have le: "?n + ?m \<le> length (ib_rest ib)" using Cons.prems(3) by simp
  have "enc x \<noteq> []" using Cons.prems(1) [of x] by simp
  then have 2: "ib_offset ib < limit"
    using offset_limit [OF Cons.prems(2) le] Cons.prems(4) by simp
  have a: "ib_wf (advance ?n ib)" "ib_rest (advance ?n ib) = concat (map enc xs) @ r"
    using advance_facts [OF Cons.prems(2), of ?n] le Cons.prems(3) by simp_all
  have "read_while p limit (advance ?n ib) = Some (Inr (map f xs, advance ?m (advance ?n ib)))"
    using Cons.prems(1) by (intro Cons.IH a) (simp_all add: Cons.prems(4) advance_def)
  then show ?case using 1 2 by (simp add: read_while.simps [of p limit ib])
qed

text \<open>A round that leaves the buffer as it was repeats for ever.\<close>

lemma read_while_stuck:
  assumes "ib_offset ib < limit" "read ib = Inr (x, ib)"
  shows "read_while read limit ib = None"
proof (rule ccontr)
  assume "read_while read limit ib \<noteq> None"
  then obtain r where "read_while read limit ib = Some r" by auto
  moreover have "\<not> (ib_offset b < l \<and> rd b = Inr (x, b))" if "read_while rd l b = Some r" for rd l b r
    using _ that
  proof (rule read_while.raw_induct)
    fix rw :: "'a reader \<Rightarrow> size_t \<Rightarrow> InputBuffer \<Rightarrow> (error + ('a list \<times> InputBuffer)) option"
      and rd :: "'a reader" and l b r
    assume IH: "\<And>rd l b r. rw rd l b = Some r \<Longrightarrow> \<not> (ib_offset b < l \<and> rd b = Inr (x, b))"
      and eq: "(if ib_offset b < l then
        (case rd b of
           Inl e \<Rightarrow> Some (Inl e)
         | Inr (y, ib') \<Rightarrow> Option.bind (rw rd l ib') (\<lambda>r. Some (bindE r (\<lambda>(xs, ib''). Inr (y # xs, ib'')))))
      else Some (Inr ([], b))) = Some r"
    show "\<not> (ib_offset b < l \<and> rd b = Inr (x, b))"
    proof
      assume h: "ib_offset b < l \<and> rd b = Inr (x, b)"
      then obtain r' where "rw rd l b = Some r'"
        using eq by (auto simp: bind_eq_Some_conv)
      then show False using IH h by blast
    qed
  qed
  ultimately show False using assms by blast
qed

end
