(* ===== verification/Proposed_Block.thy ===== *)
theory Proposed_Block
  imports Tx_Creation Validations
begin

unbundle bit_operations_syntax

text \<open>
  \<^verbatim>\<open>primitives/ProposedBlock.h\<close> and \<^verbatim>\<open>ProposedBlock.cpp\<close>: the block that a node proposes and that its
  peers sign. Besides its parts a block carries their sizes; the invariant \<open>pb_wf\<close> says that the sizes
  are those of the parts, so that the length field of the serialised block is its length.
\<close>

section \<open>State\<close>

record ProposedBlock =
  pb_version :: byte
  pb_num_bytes :: uint64
  pb_prev_hash :: bytes
  pb_tx_size :: uint64
  pb_sum_size :: uint64
  pb_val_count :: uint32
  pb_transactions :: "TransactionPtr list"
  pb_summary :: Summary
  pb_vals :: Validation
  pb_state :: ChainState

definition pb_MinSize :: size_t where
  "pb_MinSize = 61"

definition pb_MinValidationSize :: size_t where
  "pb_MinValidationSize = 32 + pairSize * 2"

definition pb_Create_prior :: "ChainState \<Rightarrow> ProposedBlock" where
  "pb_Create_prior prior =
     \<lparr>pb_version = 0, pb_num_bytes = 0, pb_prev_hash = replicate 32 0, pb_tx_size = 0, pb_sum_size = 0,
      pb_val_count = 0, pb_transactions = [], pb_summary = Summary_Create, pb_vals = Validation_Create,
      pb_state = prior\<rparr>"

definition pb_total_bytes :: "uint64 \<Rightarrow> uint64 \<Rightarrow> uint32 \<Rightarrow> uint64" where
  "pb_total_bytes tx_size sum_size val_count = pb_MinSize + tx_size + sum_size + ucast val_count * pairSize"

definition tx_ptr_getByteSize :: "TransactionPtr \<Rightarrow> size_t" where
  "tx_ptr_getByteSize tx = vec_size (tx_getCanonical tx)"

definition ProposedBlock_make ::
  "bytes \<Rightarrow> TransactionPtr list \<Rightarrow> Summary \<Rightarrow> Validation \<Rightarrow> ChainState \<Rightarrow> ProposedBlock" where
  "ProposedBlock_make prev_hash txs summary validations prior_state =
     (let sum_size = sum_getByteSize summary;
          val_count = getValidationCount validations;
          tx_size = fold (\<lambda>item n. n + tx_ptr_getByteSize item) txs 0
      in \<lparr>pb_version = 0, pb_num_bytes = pb_total_bytes tx_size sum_size val_count,
          pb_prev_hash = prev_hash, pb_tx_size = tx_size, pb_sum_size = sum_size, pb_val_count = val_count,
          pb_transactions = txs, pb_summary = summary, pb_vals = validations, pb_state = prior_state\<rparr>)"

text \<open>The copy constructor and \<open>shallowCopy\<close> move the transactions out of the other block; \<open>shallowCopy\<close>
  moves the summary too. Both return the copy and what is left of the other block.\<close>

definition pb_copy :: "ProposedBlock \<Rightarrow> ProposedBlock \<times> ProposedBlock" where
  "pb_copy other = (other, other\<lparr>pb_transactions := []\<rparr>)"

definition shallowCopy :: "ProposedBlock \<Rightarrow> ProposedBlock \<times> ProposedBlock" where
  "shallowCopy other = (other, other\<lparr>pb_transactions := [], pb_summary := Summary_Create\<rparr>)"

section \<open>Operations\<close>

definition isNullProposal :: "bytes \<Rightarrow> bool" where
  "isNullProposal vec = (vec = replicate (length vec) 0)"

definition pb_isNull :: "ProposedBlock \<Rightarrow> bool" where
  "pb_isNull b = (pb_num_bytes b < pb_MinSize)"

definition pb_setNull :: "ProposedBlock \<Rightarrow> ProposedBlock" where
  "pb_setNull b = b\<lparr>pb_num_bytes := 0\<rparr>"

definition setPrevHash :: "bytes \<Rightarrow> ProposedBlock \<Rightarrow> ProposedBlock" where
  "setPrevHash prev_hash b = b\<lparr>pb_prev_hash := prev_hash\<rparr>"

fun verify_sigs :: "Crypto \<Rightarrow> KeyRing \<Rightarrow> bytes \<Rightarrow> (Address \<times> Signature) list \<Rightarrow> error + bool" where
  "verify_sigs C keys md [] = Inr True"
| "verify_sigs C keys md (sig # rest) =
     bindE (getKey C keys (fst sig)) (\<lambda>key.
     if \<not> VerifyByteSig C key (DevcashHash C md) (snd sig) then Inr False
     else verify_sigs C keys md rest)"

definition pb_validate :: "Crypto \<Rightarrow> KeyRing \<Rightarrow> ProposedBlock \<Rightarrow> error + bool" where
  "pb_validate C keys b =
     (if length (pb_transactions b) < 1 then Inr False
      else if \<not> isSane (pb_summary b) then Inr False
      else verify_sigs C keys (sum_getCanonical (pb_summary b)) (sigs (pb_vals b)))"

text \<open>The index of the signing node is a \<^verbatim>\<open>size_t\<close> for \<open>getNodeAddr\<close> and an \<^verbatim>\<open>int\<close> for \<open>getNodeKey\<close>.\<close>

definition signBlock :: "Crypto \<Rightarrow> KeyRing \<Rightarrow> DevcashContext \<Rightarrow> ProposedBlock \<Rightarrow> error + (bool \<times> ProposedBlock)" where
  "signBlock C keys context b =
     (let md = sum_getCanonical (pb_summary b);
          node_num = ucast (get_current_node context) mod ctx_peer_count context :: size_t in
      bindE (getNodeAddr keys node_num) (\<lambda>node_addr.
      bindE (getNodeKey keys (ucast node_num)) (\<lambda>key.
      bindE (SignBinary C key (DevcashHash C md)) (\<lambda>node_sig.
      bindE (addValidation node_addr node_sig (pb_vals b)) (\<lambda>(_, vals).
      let val_count = pb_val_count b + 1 in
      Inr (True, b\<lparr>pb_vals := vals, pb_val_count := val_count,
                   pb_num_bytes := pb_total_bytes (pb_tx_size b) (pb_sum_size b) val_count\<rparr>))))))"

definition checkValidationData ::
  "DevcashContext \<Rightarrow> ProposedBlock \<Rightarrow> (bool \<times> ProposedBlock) reader" where
  "checkValidationData context b = (\<lambda>ib.
     if ib_size ib < pb_MinValidationSize then Inr ((False, b), ib)
     else
       bindR (ib_copy 32 True) (\<lambda>incoming_hash.
       if incoming_hash = pb_prev_hash b then
         bindR Validation_read (\<lambda>val_temp.
         let vals = snd (addValidation_all val_temp (pb_vals b));
             val_count = getValidationCount vals;
             b = b\<lparr>pb_vals := vals, pb_val_count := val_count,
                   pb_num_bytes := pb_total_bytes (pb_tx_size b) (pb_sum_size b) val_count\<rparr>
         in returnR (ucast val_count > ctx_peer_count context div 2, b))
       else returnR (False, b)) ib)"

definition pb_getCanonical :: "ProposedBlock \<Rightarrow> bytes" where
  "pb_getCanonical b =
     (let txs = fold (\<lambda>item txs. txs @ tx_getCanonical item) (pb_transactions b) [];
          serial = [pb_version b AND 0xFF];
          serial = Uint64ToBin (pb_num_bytes b) serial;
          serial = serial @ pb_prev_hash b;
          serial = Uint64ToBin (pb_tx_size b) serial;
          serial = Uint64ToBin (pb_sum_size b) serial;
          serial = Uint32ToBin (pb_val_count b) serial
      in serial @ txs @ sum_getCanonical (pb_summary b) @ val_getCanonical (pb_vals b))"

definition pb_getRawTransactions :: "ProposedBlock \<Rightarrow> bytes list" where
  "pb_getRawTransactions b = map tx_getCanonical (pb_transactions b)"

definition pb_getNumTransactions :: "ProposedBlock \<Rightarrow> size_t" where
  "pb_getNumTransactions b = vec_size (pb_transactions b)"

definition getValidationData :: "ProposedBlock \<Rightarrow> bytes" where
  "getValidationData b = pb_prev_hash b @ val_getCanonical (pb_vals b)"

section \<open>Deserialisation\<close>

definition pb_read_header :: "ProposedBlock \<Rightarrow> ProposedBlock reader" where
  "pb_read_header b =
     bindR (getNextByte True) (\<lambda>v.
     let version = pb_version b OR v in
     if version \<noteq> 0 then throwR (RuntimeError (''Invalid ProposedBlock.version: '' @ to_string_u version))
     else
       bindR (getNextUint64 True) (\<lambda>num_bytes.
       bindR (getsR ib_size) (\<lambda>size.
       if size \<noteq> num_bytes then
         throwR (RuntimeError (''Invalid serialized ProposedBlock, wrong size! (''
                   @ to_string_u size @ '' != '' @ to_string_u num_bytes @ '')''))
       else
         bindR (ib_copy 32 True) (\<lambda>prev_hash.
         bindR (getNextUint64 True) (\<lambda>tx_size.
         bindR (getNextUint64 True) (\<lambda>sum_size.
         bindR (getNextUint32 True) (\<lambda>val_count.
         returnR (b\<lparr>pb_version := version, pb_num_bytes := num_bytes, pb_prev_hash := prev_hash,
                    pb_tx_size := tx_size, pb_sum_size := sum_size, pb_val_count := val_count\<rparr>))))))))"

definition pb_Create ::
  "Crypto \<Rightarrow> ChainState \<Rightarrow> KeyRing \<Rightarrow> TransactionCreationManager \<Rightarrow> InputBuffer
   \<Rightarrow> (error + (ProposedBlock \<times> InputBuffer)) option" where
  "pb_Create C prior keys tcm ib =
     (if ib_size ib < pb_MinSize then
        Some (Inl (RuntimeError ''Invalid serialized ProposedBlock, too small!''))
      else
        bindP (Some (pb_read_header (pb_Create_prior prior) ib)) (\<lambda>(b, ib).
        bindP (CreateTransactions C (set_keys keys tcm) pb_MinSize (pb_tx_size b) ib) (\<lambda>((_, vtx), ib).
        Some (bindR Summary_read (\<lambda>summary.
              bindR Validation_read (\<lambda>val_temp.
              returnR (b\<lparr>pb_transactions := vtx, pb_summary := summary, pb_vals := val_temp\<rparr>))) ib))))"

section \<open>Invariant\<close>

definition pb_wf :: "ProposedBlock \<Rightarrow> bool" where
  "pb_wf b =
     (length (pb_prev_hash b) = 32 \<and> val_wf (pb_vals b) \<and> node_pairs (pb_vals b) \<and>
      pb_tx_size b = vec_size (concat (pb_getRawTransactions b)) \<and>
      pb_sum_size b = sum_getByteSize (pb_summary b) \<and>
      pb_val_count b = getValidationCount (pb_vals b) \<and>
      pb_num_bytes b = pb_total_bytes (pb_tx_size b) (pb_sum_size b) (pb_val_count b))"

lemma fold_concat: "fold (\<lambda>x acc. acc @ f x) xs acc = acc @ concat (map f xs)"
  by (induction xs arbitrary: acc) simp_all

lemma fold_vec_size: "fold (\<lambda>x n. n + vec_size (f x)) xs n = n + vec_size (concat (map f xs))"
  by (induction xs arbitrary: n) (simp_all add: vec_size_def add.assoc)

lemma byte_mask: "(v :: byte) AND 0xFF = v"
proof -
  have "(0xFF :: byte) = - 1" by simp
  then show ?thesis by (metis bit.conj_one_right)
qed

lemma pb_getCanonical_eq:
  "pb_getCanonical b =
     [pb_version b] @ le64 (pb_num_bytes b) @ pb_prev_hash b @ le64 (pb_tx_size b) @ le64 (pb_sum_size b)
     @ le32 (pb_val_count b) @ concat (pb_getRawTransactions b) @ sum_getCanonical (pb_summary b)
     @ val_getCanonical (pb_vals b)"
  by (simp add: pb_getCanonical_def pb_getRawTransactions_def fold_concat byte_mask Uint64ToBin_le Uint32ToBin_le
      Let_def)

lemma val_count_size:
  "length (sigs v) < 2 ^ 32 \<Longrightarrow> node_pairs v \<Longrightarrow>
   (ucast (getValidationCount v) * pairSize :: size_t) = vec_size (val_getCanonical v)"
  by (simp add: getValidationCount_def pairSize_def vec_size_def length_node_pairs unsigned_of_nat
      take_bit_nat_eq_self)

text \<open>The length field of a well-formed block is the length of its canonical form.\<close>

lemma pb_wf_size:
  assumes "pb_wf b" "length (sigs (pb_vals b)) < 2 ^ 32"
  shows "vec_size (pb_getCanonical b) = pb_num_bytes b"
proof -
  have "vec_size (pb_getCanonical b) =
      61 + vec_size (concat (pb_getRawTransactions b)) + vec_size (sum_getCanonical (pb_summary b))
      + vec_size (val_getCanonical (pb_vals b))"
    using assms(1) unfolding pb_getCanonical_eq by (simp add: pb_wf_def vec_size_def)
  then show ?thesis
    using assms by (simp add: pb_wf_def pb_total_bytes_def pb_MinSize_def sum_getByteSize_def val_count_size)
qed

lemma pb_wf_make:
  assumes "length h = 32" "val_wf v" "node_pairs v"
  shows "pb_wf (ProposedBlock_make h txs sm v st)"
  using assms
  by (simp add: pb_wf_def ProposedBlock_make_def tx_ptr_getByteSize_def fold_vec_size pb_getRawTransactions_def
      Let_def)

section \<open>Signing\<close>

text \<open>What the code relies on of OpenSSL: a signature made with a key verifies with that key.\<close>

definition signatures_verify :: "Crypto \<Rightarrow> bool" where
  "signatures_verify C = (\<forall>k d s. SignBinary C k d = Inr s \<longrightarrow> VerifyByteSig C k d s)"

lemma omap_insert_new: "map_of m k = None \<Longrightarrow> length (omap_insert k v m) = Suc (length m)"
  by (induction k v m rule: omap_insert.induct) (auto split: if_splits)

lemma node_index:
  assumes "ctx_peer_count context = 3"
  defines "i \<equiv> ucast (get_current_node context) mod ctx_peer_count context :: size_t"
  shows "scast (ucast i :: uint32) = i" "i < 3"
proof -
  have "i < 3" by (simp add: i_def assms(1) word_mod_less_divisor)
  then have "unat i = 0 \<or> unat i = 1 \<or> unat i = 2" by (auto simp: word_less_nat_alt)
  then have "i = of_nat 0 \<or> i = of_nat 1 \<or> i = of_nat 2" by (metis of_nat_unat_word)
  then show "i < 3" "scast (ucast i :: uint32) = i" by auto
qed

text \<open>What a call of \<open>signBlock\<close> that returns has done: the signature of the node at the index is in the
  map unless there was one for that node already; the count is one more in both cases.\<close>

lemma signBlock_Inr:
  assumes "signBlock C keys context b = Inr (r, b')" "kr_wf keys" "ctx_peer_count context = 3"
  shows "\<exists>a k s. a \<in> set (node_list keys) \<and> addr_wf a \<and> map_of (key_map keys) a = Some k \<and> sig_wf s \<and>
    SignBinary C k (DevcashHash C (sum_getCanonical (pb_summary b))) = Inr s \<and> r \<and>
    addr_size a = 50 \<and> sig_size s = 106 \<and>
    b' = b\<lparr>pb_vals := \<lparr>sigs = omap_insert a s (sigs (pb_vals b))\<rparr>, pb_val_count := pb_val_count b + 1,
           pb_num_bytes := pb_total_bytes (pb_tx_size b) (pb_sum_size b) (pb_val_count b + 1)\<rparr>"
proof -
  define i where "i = (ucast (get_current_node context) mod ctx_peer_count context :: size_t)"
  obtain a k s vals where a: "getNodeAddr keys i = Inr a" and k: "getNodeKey keys (ucast i) = Inr k"
    and s: "SignBinary C k (DevcashHash C (sum_getCanonical (pb_summary b))) = Inr s"
    and v: "addValidation a s (pb_vals b) = Inr (True, vals)"
    and r: "r" and b': "b' = b\<lparr>pb_vals := vals, pb_val_count := pb_val_count b + 1,
           pb_num_bytes := pb_total_bytes (pb_tx_size b) (pb_sum_size b) (pb_val_count b + 1)\<rparr>"
    using assms(1) by (auto simp: signBlock_def Let_def addValidation_def simp flip: i_def split: if_splits)
  have lt: "unat i < length (node_list keys)" and an: "a = node_list keys ! unat i"
    using a by (auto simp: getNodeAddr_def vec_at_def split: if_splits)
  then have mem: "a \<in> set (node_list keys)" by simp
  have "scast (ucast i :: uint32) = i" using node_index(1) [OF assms(3)] by (simp add: i_def)
  then have "map_of (key_map keys) a = Some k"
    using k lt an kr_wf_listed [OF assms(2), of a] mem by (auto simp: getNodeKey_wf [OF assms(2)])
  moreover have "addr_wf a" using assms(2) mem by (simp add: kr_wf_def)
  moreover have "vals = \<lparr>sigs = omap_insert a s (sigs (pb_vals b))\<rparr>" "addr_size a = 50" "sig_size s = 106"
    using v by (auto simp: addValidation_def split: if_splits)
  ultimately show ?thesis
    using mem s SignBinary_wf [OF s] r b' by blast
qed

lemma verify_sigs_True:
  "verify_sigs C keys md xs = Inr True \<longleftrightarrow>
   (\<forall>(a, s) \<in> set xs. \<exists>k. getKey C keys a = Inr k \<and> VerifyByteSig C k (DevcashHash C md) s)"
  by (induction xs) (auto simp: case_prod_unfold)

section \<open>Reading a block back\<close>

lemma pb_tail_read:
  assumes "length h = 32"
  shows "reads (bindR (ib_copy 32 True) (\<lambda>h. bindR (getNextUint64 True) (\<lambda>t. bindR (getNextUint64 True) (\<lambda>s.
      bindR (getNextUint32 True) (\<lambda>c. returnR (f h t s c))))))
     (h @ le64 t @ le64 s @ le32 c) (f h t s c)"
proof -
  have h: "reads (ib_copy 32 True) h h" by (rule reads_ib_copy) (simp_all add: assms)
  show ?thesis
    by (intro reads_bind [OF h] reads_bind [OF reads_getNextUint64] reads_bind_return reads_getNextUint32)
qed

lemma pb_header_read:
  assumes "ib_wf ib" "ib_rest ib = [0] @ le64 n @ (h @ le64 t @ le64 s @ le32 c) @ r"
    and "ib_size ib = n" "length h = 32" "pb_version b = 0"
  shows "pb_read_header b ib =
    Inr (b\<lparr>pb_version := 0, pb_num_bytes := n, pb_prev_hash := h, pb_tx_size := t, pb_sum_size := s,
           pb_val_count := c\<rparr>, advance 61 ib)"
proof -
  have 1: "getNextByte True ib = Inr (0, advance 1 ib)"
    using getNextByte_rest [OF assms(1)] assms(2) by simp
  have a1: "ib_wf (advance 1 ib)" "ib_rest (advance 1 ib) = le64 n @ (h @ le64 t @ le64 s @ le32 c) @ r"
    using advance_facts [OF assms(1), of 1] assms(2) by simp_all
  have 2: "getNextUint64 True (advance 1 ib) = Inr (n, advance 9 ib)"
    using getNextUint64_rest [OF a1] by simp
  have a2: "ib_wf (advance 9 ib)" "ib_rest (advance 9 ib) = (h @ le64 t @ le64 s @ le32 c) @ r"
    using advance_facts [OF a1(1), of 8] a1(2) by simp_all
  show ?thesis
    using readsD [OF pb_tail_read [OF assms(4), where f = "\<lambda>h t s c. b\<lparr>pb_version := 0, pb_num_bytes := n, pb_prev_hash := h,
          pb_tx_size := t, pb_sum_size := s, pb_val_count := c\<rparr>"] a2] 1 2 assms(3,4,5)
    by (simp add: pb_read_header_def reader_simps Let_def del: add_uminus_conv_diff)
qed

text \<open>In the mode for Tier-1 transactions the transactions of a block are read back, flagged as sound.\<close>

definition t1_block_tx :: "Crypto \<Rightarrow> KeyRing \<Rightarrow> TransactionPtr \<Rightarrow> bool" where
  "t1_block_tx C keys tx =
     (\<exists>sm a sg. tx = Tier1 (t1_parts sm a sg True) \<and> t1_encodable sm a sg \<and>
        t1_isSound C keys (t1_parts sm a sg False) = Inr True)"

fun unflag :: "TransactionPtr \<Rightarrow> TransactionPtr" where
  "unflag (Tier1 tx) = Tier1 (tx\<lparr>tx_is_sound := False\<rparr>)"
| "unflag (Tier2 tx) = Tier2 (tx\<lparr>tx_is_sound := False\<rparr>)"

lemma t1_parts_unflag: "(t1_parts sm a sg b)\<lparr>tx_is_sound := c\<rparr> = t1_parts sm a sg c"
  by (simp add: t1_parts_def)

lemma reads_Tier1Transaction_read:
  assumes "t1_encodable sm a sg"
  shows "reads (Tier1Transaction_read C keys False) (tx_canonical (t1_parts sm a sg b)) (t1_parts sm a sg False)"
proof (rule readsI)
  fix ib r
  let ?bs = "tx_canonical (t1_parts sm a sg b)" and ?S = "sum_getByteSize sm"
  assume ib: "ib_wf ib" "ib_rest ib = ?bs @ r"
  have n: "unat (?S + 106 + 8 + 50) = length ?bs"
    using t1_sizes(5) [OF assms] assms by (simp add: t1_parts_def t1_encodable_def addr_size_def sig_size_def)
  have 1: "getNextUint64 False ib = Inr (?S, ib)"
    using getNextUint64_rest [OF ib(1), of ?S] ib(2) by (simp add: t1_parts_def)
  have 2: "ib_copy (?S + 106 + 8 + 50) True ib = Inr (?bs, advance (length ?bs) ib)"
    by (rule ib_copy_rest [OF ib n])
  have "\<lparr>tx_canonical = ?bs, tx_is_sound = False, t1_sum_size = ?S\<rparr> = t1_parts sm a sg False"
    by (simp add: t1_parts_def)
  with 1 2 show "Tier1Transaction_read C keys False ib = Inr (t1_parts sm a sg False, advance (length ?bs) ib)"
    by (simp add: Tier1Transaction_read_def reader_simps Let_def del: add_uminus_conv_diff)
qed

lemma t1_block_tx_facts:
  assumes "t1_block_tx C keys tx"
  shows "reads (CreateTransaction C keys mode_T1 False) (tx_getCanonical tx) (unflag tx)"
    and "tx_getCanonical tx \<noteq> []" "push_job C keys (unflag tx) = Inr tx"
proof -
  obtain sm a sg where tx: "tx = Tier1 (t1_parts sm a sg True)" and e: "t1_encodable sm a sg"
    and s: "t1_isSound C keys (t1_parts sm a sg False) = Inr True"
    using assms by (auto simp: t1_block_tx_def)
  show "reads (CreateTransaction C keys mode_T1 False) (tx_getCanonical tx) (unflag tx)"
    using reads_bind_return [OF reads_Tier1Transaction_read [OF e, of C keys True], of Tier1]
    by (simp add: CreateTransaction_def tx t1_parts_unflag)
  show "tx_getCanonical tx \<noteq> []"
    by (simp add: tx t1_parts_def le64_def)
  show "push_job C keys (unflag tx) = Inr tx"
    using s by (simp add: push_job_def tx t1_parts_unflag t1_setIsSound_def t1_checked_def)
qed

lemma CreateTransactions_T1:
  assumes "\<forall>tx \<in> set txs. t1_block_tx C keys tx" "ib_wf ib"
    and "ib_rest ib = concat (map tx_getCanonical txs) @ r"
    and "start + n = ib_offset ib + vec_size (concat (map tx_getCanonical txs))"
  shows "CreateTransactions C (set_keys keys (tcm_make mode_T1)) start n ib =
    Some (Inr ((map tx_getCanonical txs, txs), advance (length (concat (map tx_getCanonical txs))) ib))"
proof (cases txs)
  case Nil
  then show ?thesis using assms(4) by (simp add: CreateTransactions_def vec_size_def)
next
  case (Cons tx rest)
  let ?bs = "concat (map tx_getCanonical txs)"
  have "read_while (CreateTransaction C keys mode_T1 False) (start + n) ib =
      Some (Inr (map unflag txs, advance (length ?bs) ib))"
    using assms t1_block_tx_facts by (intro read_while_items [where enc = tx_getCanonical]) (auto simp: vec_size_def)
  moreover have "mapE (push_job C keys) (map unflag txs) = Inr txs"
    using assms(1) t1_block_tx_facts(3) by (induction txs) auto
  moreover have "tx_getCanonical (unflag tx) = tx_getCanonical tx" for tx by (cases tx) simp_all
  moreover have "0 < length ?bs" using assms(1) t1_block_tx_facts(2) [of C keys tx] Cons by simp
  then have "ib_offset ib < start + n"
    using offset_limit [OF assms(2), of "length ?bs"] assms(3,4) by (simp add: vec_size_def)
  ultimately show ?thesis
    by (simp add: CreateTransactions_def set_keys_def tcm_make_def comp_def)
qed

lemma pb_Create_T1:
  assumes "pb_wf b" "pb_version b = 0" "\<forall>tx \<in> set (pb_transactions b). t1_block_tx C keys tx"
    and "sum_encodable (pb_summary b)" "length (sigs (pb_vals b)) < 2 ^ 32" "length (pb_getCanonical b) < 2 ^ 63"
  shows "pb_Create C st keys (tcm_make mode_T1) (InputBuffer_make (pb_getCanonical b) 0) =
    Some (Inr (b\<lparr>pb_state := st\<rparr>,
      advance (length (pb_getCanonical b)) (InputBuffer_make (pb_getCanonical b) 0)))"
proof -
  let ?ib = "InputBuffer_make (pb_getCanonical b) 0" and ?T = "concat (map tx_getCanonical (pb_transactions b))"
    and ?S = "sum_getCanonical (pb_summary b)" and ?V = "val_getCanonical (pb_vals b)"
  let ?b = "(pb_Create_prior st)\<lparr>pb_version := 0, pb_num_bytes := pb_num_bytes b, pb_prev_hash := pb_prev_hash b,
      pb_tx_size := pb_tx_size b, pb_sum_size := pb_sum_size b, pb_val_count := pb_val_count b\<rparr>"
  have h: "length (pb_prev_hash b) = 32" using assms(1) by (simp add: pb_wf_def)
  have wf: "ib_wf ?ib" using assms(6) by (rule ib_wf_make)
  have size: "ib_size ?ib = pb_num_bytes b"
    using pb_wf_size [OF assms(1,5)] by (simp add: ib_size_def InputBuffer_make_def)
  have rest: "ib_rest ?ib = [0] @ le64 (pb_num_bytes b) @ (pb_prev_hash b @ le64 (pb_tx_size b)
      @ le64 (pb_sum_size b) @ le32 (pb_val_count b)) @ ?T @ ?S @ ?V"
    by (simp add: pb_getCanonical_eq pb_getRawTransactions_def assms(2))
  have len: "length (pb_getCanonical b) = 61 + length ?T + length ?S + length ?V"
    using arg_cong [OF rest, of length] h by simp
  have 1: "pb_read_header (pb_Create_prior st) ?ib = Inr (?b, advance 61 ?ib)"
    by (rule pb_header_read [OF wf rest size h]) (simp add: pb_Create_prior_def)
  have a1: "ib_wf (advance 61 ?ib)" "ib_rest (advance 61 ?ib) = ?T @ ?S @ ?V" "ib_offset (advance 61 ?ib) = 61"
    using advance_facts [OF wf, of 61] rest h len by (simp_all add: InputBuffer_make_def advance_def)
  have 2: "CreateTransactions C (set_keys keys (tcm_make mode_T1)) pb_MinSize (pb_tx_size b) (advance 61 ?ib) =
      Some (Inr ((map tx_getCanonical (pb_transactions b), pb_transactions b), advance (61 + length ?T) ?ib))"
    using CreateTransactions_T1 [OF assms(3) a1(1,2), of pb_MinSize "pb_tx_size b"] a1(3) assms(1)
    by (simp add: pb_MinSize_def pb_wf_def pb_getRawTransactions_def)
  have a2: "ib_wf (advance (61 + length ?T) ?ib)" "ib_rest (advance (61 + length ?T) ?ib) = ?S @ ?V"
    using advance_facts [OF a1(1), of "length ?T"] a1(2) by simp_all
  have 3: "Summary_read (advance (61 + length ?T) ?ib) =
      Inr (pb_summary b, advance (61 + length ?T + length ?S) ?ib)"
    using readsD [OF reads_Summary [OF assms(4)] a2] by simp
  have a3: "ib_wf (advance (61 + length ?T + length ?S) ?ib)"
    "ib_rest (advance (61 + length ?T + length ?S) ?ib) = ?V @ []"
    using advance_facts [OF a2(1), of "length ?S"] a2(2) by simp_all
  have 4: "Validation_read (advance (61 + length ?T + length ?S) ?ib) =
      Inr (pb_vals b, advance (length (pb_getCanonical b)) ?ib)"
    using Validation_read_rest [OF a3] assms(1) by (simp add: pb_wf_def len)
  have "ib_offset ?ib = 0" by (simp add: InputBuffer_make_def)
  then have "\<not> ib_size ?ib < pb_MinSize"
    using size_guard [OF wf, of 61] len by (simp add: pb_MinSize_def)
  moreover have "?b\<lparr>pb_transactions := pb_transactions b, pb_summary := pb_summary b, pb_vals := pb_vals b\<rparr> =
      b\<lparr>pb_state := st\<rparr>"
    using assms(2) by (cases b) (simp add: pb_Create_prior_def)
  ultimately show ?thesis
    unfolding pb_Create_def using 1 2 3 4 by (simp add: reader_simps pb_Create_prior_def)
qed

section \<open>Merging remote validations\<close>

lemma merged_node_pairs:
  assumes "val_wf v" "val_wf w" "node_pairs v" "node_pairs w"
  shows "val_wf (snd (addValidation_all w v)) \<and> node_pairs (snd (addValidation_all w v))"
proof -
  have sub: "set (fold (\<lambda>(a, s). omap_insert a s) es m) \<subseteq> set es \<union> set m" for es and m :: "(Address, Signature) omap"
  proof (induction es arbitrary: m)
    case (Cons e es)
    then show ?case using set_omap_insert [of "fst e" "snd e" m] by (force simp: case_prod_unfold)
  qed simp
  then have "\<forall>e \<in> set (sigs (snd (addValidation_all w v))). e \<in> set (sigs w) \<union> set (sigs v)"
    using sub [of "sigs w" "sigs v"] by (auto simp: addValidation_all_def)
  moreover have "omap_ok (sigs (snd (addValidation_all w v)))"
    using addValidation_all_spec assms(1) by (simp add: val_wf_def)
  ultimately show ?thesis
    using assms unfolding val_wf_def node_pairs_def by fastforce
qed

lemma merged_length:
  "length (sigs (snd (addValidation_all w v))) \<le> length (sigs w) + length (sigs v)"
proof -
  have "length (omap_insert a s m) \<le> Suc (length m)" for a s and m :: "(Address, Signature) omap"
    by (induction a s m rule: omap_insert.induct) auto
  then have "length (fold (\<lambda>(a, s). omap_insert a s) es m) \<le> length es + length m"
    for es and m :: "(Address, Signature) omap"
    by (induction es arbitrary: m) (simp, fastforce simp: case_prod_unfold intro: order_trans)
  then show ?thesis by (simp add: addValidation_all_def)
qed

lemma checkValidationData_same:
  assumes "pb_wf b" "pb_wf p" "pb_prev_hash p = pb_prev_hash b" "2 \<le> length (sigs (pb_vals p))"
    and "length (getValidationData p) < 2 ^ 63"
  defines "vals \<equiv> snd (addValidation_all (pb_vals p) (pb_vals b))"
  shows "checkValidationData context b (InputBuffer_make (getValidationData p) 0) =
    Inr ((ucast (getValidationCount vals) > ctx_peer_count context div 2,
          b\<lparr>pb_vals := vals, pb_val_count := getValidationCount vals,
            pb_num_bytes := pb_total_bytes (pb_tx_size b) (pb_sum_size b) (getValidationCount vals)\<rparr>),
         advance (length (getValidationData p)) (InputBuffer_make (getValidationData p) 0))"
proof -
  let ?ib = "InputBuffer_make (getValidationData p) 0" and ?V = "val_getCanonical (pb_vals p)"
  have wf: "ib_wf ?ib" using assms(5) by (rule ib_wf_make)
  have np: "val_wf (pb_vals p)" "node_pairs (pb_vals p)" "length (pb_prev_hash b) = 32"
    using assms(1,2) by (simp_all add: pb_wf_def)
  have rest: "ib_rest ?ib = pb_prev_hash b @ ?V @ []" by (simp add: getValidationData_def assms(3))
  have 1: "ib_copy 32 True ?ib = Inr (pb_prev_hash b, advance 32 ?ib)"
    using ib_copy_rest [OF wf rest, of 32] np(3) by simp
  have a1: "ib_wf (advance 32 ?ib)" "ib_rest (advance 32 ?ib) = ?V @ []"
    using advance_facts [OF wf, of 32] rest np(3) by simp_all
  have 2: "Validation_read (advance 32 ?ib) = Inr (pb_vals p, advance (32 + length ?V) ?ib)"
    using Validation_read_rest [OF a1] np by simp
  have len: "length (getValidationData p) = 32 + length ?V"
    using np(3) by (simp add: getValidationData_def assms(3))
  have "ib_offset ?ib = 0" by (simp add: InputBuffer_make_def)
  then have "\<not> ib_size ?ib < pb_MinValidationSize"
    using size_guard [OF wf, of 344] len assms(4) np(2)
    by (simp add: pb_MinValidationSize_def pairSize_def length_node_pairs)
  then show ?thesis
    using 1 2 len by (simp add: checkValidationData_def reader_simps Let_def vals_def)
qed

lemma checkValidationData_other:
  assumes "pb_wf p" "pb_prev_hash p \<noteq> pb_prev_hash b" "length (getValidationData p) < 2 ^ 63"
  shows "\<exists>ib'. checkValidationData context b (InputBuffer_make (getValidationData p) 0) = Inr ((False, b), ib')"
proof -
  let ?ib = "InputBuffer_make (getValidationData p) 0"
  have "ib_copy 32 True ?ib = Inr (pb_prev_hash p, advance 32 ?ib)"
    using ib_copy_rest [OF ib_wf_make [OF assms(3)], of "pb_prev_hash p" "val_getCanonical (pb_vals p)" 32] assms(1)
    by (simp add: getValidationData_def pb_wf_def)
  then show ?thesis using assms(2) by (simp add: checkValidationData_def reader_simps)
qed

section \<open>Properties\<close>

text \<open>A key ring with one node and a block that the node has signed.\<close>

definition sample_keys :: KeyRing where
  "sample_keys = KeyRing_empty\<lparr>key_map := [(sample_node, 5)], node_list := [sample_node]\<rparr>"

definition sample_context :: DevcashContext where
  "sample_context = DevcashContext_make 0 0 mode_T1 [] [] [] 10000 0"

definition sample_block :: ProposedBlock where
  "sample_block = ProposedBlock_make (replicate 32 7) [Tier1 sample_t1] sample_summary Validation_Create ChainState_empty"

lemma sample_keys_wf [simp]: "kr_wf sample_keys" "ctx_peer_count sample_context = 3"
  by (simp_all add: kr_wf_def sample_keys_def KeyRing_empty_def sample_context_def DevcashContext_make_def Let_def)

lemma sample_block_wf [simp]: "pb_wf sample_block"
  unfolding sample_block_def by (rule pb_wf_make) (simp, simp, simp add: node_pairs_def Validation_Create_def)

lemma sample_summary_sane: "isSane sample_summary"
  by (simp add: isSane_iff sum_total_def pair_total_def sample_summary_map)

lemma sample_block_validate: "pb_validate sample_crypto sample_keys sample_block = Inr True"
  by (simp add: pb_validate_def sample_block_def ProposedBlock_make_def Let_def Validation_Create_def
      sample_summary_sane)

lemma sample_signBlock:
  "signBlock sample_crypto sample_keys sample_context sample_block =
   Inr (True, sample_block\<lparr>pb_vals := \<lparr>sigs = [(sample_node, sample_sig 5)]\<rparr>, pb_val_count := 1,
     pb_num_bytes := pb_total_bytes (pb_tx_size sample_block) (pb_sum_size sample_block) 1\<rparr>)"
proof -
  have "ucast (get_current_node sample_context) mod ctx_peer_count sample_context = (0 :: size_t)"
    by (simp add: get_current_node_def sample_context_def DevcashContext_make_def Let_def)
  moreover have "addr_size sample_node = 50" "sig_size (sample_sig 5) = 106"
    by (simp_all add: addr_size_def sig_size_def sample_node_def sample_sig_def sample_der_def)
  moreover have "pb_vals sample_block = \<lparr>sigs = []\<rparr>" "pb_val_count sample_block = 0"
    by (simp_all add: sample_block_def ProposedBlock_make_def Validation_Create_def getValidationCount_def Let_def)
  ultimately show ?thesis
    by (simp add: signBlock_def Let_def getNodeAddr_def vec_at_def getNodeKey_def sample_keys_def
        KeyRing_empty_def sample_crypto_sign addValidation_def)
qed



text \<open>C22. Validation data that a peer serialised with \<open>getValidationData\<close> for a block with the same previous
  hash is merged: signatures already present stay, those of other nodes are added, the sizes stay
  consistent, and the result is whether more than half of the peers have signed. The signatures are
  not verified on this path. Data for another previous hash leaves the block as it is.\<close>

theorem checkValidationData_effect:
  assumes "pb_wf b" "pb_wf p" "2 \<le> length (sigs (pb_vals p))" "length (getValidationData p) < 2 ^ 63"
    and "length (sigs (pb_vals p)) + length (sigs (pb_vals b)) < 2 ^ 32"
  shows "\<exists>ok b' ib'. checkValidationData context b (InputBuffer_make (getValidationData p) 0) = Inr ((ok, b'), ib') \<and>
    (if pb_prev_hash p = pb_prev_hash b
     then pb_wf b' \<and> pb_transactions b' = pb_transactions b \<and> pb_summary b' = pb_summary b \<and>
          map_of (sigs (pb_vals b')) = map_of (sigs (pb_vals p)) ++ map_of (sigs (pb_vals b)) \<and>
          (ok \<longleftrightarrow> unat (ctx_peer_count context) div 2 < length (sigs (pb_vals b')))
     else b' = b \<and> \<not> ok)"
proof (cases "pb_prev_hash p = pb_prev_hash b")
  case False
  then show ?thesis using checkValidationData_other [OF assms(2) False assms(4), of "context"] by auto
next
  case True
  define vals where "vals = snd (addValidation_all (pb_vals p) (pb_vals b))"
  define b' where "b' = b\<lparr>pb_vals := vals, pb_val_count := getValidationCount vals,
      pb_num_bytes := pb_total_bytes (pb_tx_size b) (pb_sum_size b) (getValidationCount vals)\<rparr>"
  have wf: "val_wf vals" "node_pairs vals"
    using merged_node_pairs [of "pb_vals b" "pb_vals p"] assms(1,2) by (simp_all add: vals_def pb_wf_def)
  have "pb_wf b'" using assms(1) wf by (simp add: pb_wf_def b'_def pb_getRawTransactions_def)
  moreover have m: "map_of (sigs vals) = map_of (sigs (pb_vals p)) ++ map_of (sigs (pb_vals b))"
    using addValidation_all_spec [of "pb_vals b" "pb_vals p"] assms(1) by (simp add: vals_def pb_wf_def val_wf_def)
  moreover have "ucast (getValidationCount vals) > ctx_peer_count context div 2 \<longleftrightarrow>
      unat (ctx_peer_count context) div 2 < length (sigs vals)"
  proof -
    have "length (sigs vals) < 2 ^ 32"
      using merged_length [of "pb_vals p" "pb_vals b"] assms(5) by (simp add: vals_def)
    then show ?thesis
      by (simp add: getValidationCount_def word_less_nat_alt unat_div unsigned_ucast_eq unat_of_nat
          take_bit_nat_eq_self)
  qed
  ultimately show ?thesis
    using checkValidationData_same [OF assms(1,2) True assms(3,4), of "context"] True
    by (simp add: b'_def flip: vals_def)
qed

definition sample_node2 :: Address where
  "sample_node2 = Address_of (49 # replicate 49 3)"

definition sample_peer_block :: ProposedBlock where
  "sample_peer_block = ProposedBlock_make (replicate 32 7) [Tier1 sample_t1] sample_summary
     \<lparr>sigs = [(sample_node, sample_sig 5), (sample_node2, sample_sig 5)]\<rparr> ChainState_empty"

lemma sample_peer_block_wf: "pb_wf sample_peer_block" "length (getValidationData sample_peer_block) = 344"
proof -
  have "replicate 49 x = x # replicate 48 x" for x :: byte by (simp add: numeral_eq_Suc)
  then have o: "sample_node < sample_node2"
    by (simp add: sample_node_def sample_node2_def less_Address_def)
  have w: "addr_wf sample_node2" "addr_size sample_node = 50" "addr_size sample_node2 = 50" "sig_size (sample_sig 5) = 106"
    by (simp_all add: sample_node2_def addr_wf_def addr_size_def sig_size_def sample_node_def sample_sig_def sample_der_def)
  let ?v = "\<lparr>sigs = [(sample_node, sample_sig 5), (sample_node2, sample_sig 5)]\<rparr>"
  have v: "val_wf ?v" "node_pairs ?v" using o w by (simp_all add: val_wf_def node_pairs_def)
  then show "pb_wf sample_peer_block"
    unfolding sample_peer_block_def by (intro pb_wf_make) simp_all
  show "length (getValidationData sample_peer_block) = 344"
    using length_node_pairs [OF v(2)]
    by (simp add: getValidationData_def sample_peer_block_def ProposedBlock_make_def Let_def)
qed

theorem checkValidationData_effect_witness:
  "pb_wf sample_block \<and> pb_wf sample_peer_block \<and> 2 \<le> length (sigs (pb_vals sample_peer_block)) \<and>
   length (getValidationData sample_peer_block) < 2 ^ 63 \<and>
   (\<exists>ok b' ib'. checkValidationData sample_context sample_block
        (InputBuffer_make (getValidationData sample_peer_block) 0) = Inr ((ok, b'), ib') \<and> pb_wf b')"
proof -
  have "length (sigs (pb_vals sample_peer_block)) = 2" "length (sigs (pb_vals sample_block)) = 0"
    "pb_prev_hash sample_peer_block = pb_prev_hash sample_block"
    by (simp_all add: sample_peer_block_def sample_block_def ProposedBlock_make_def Validation_Create_def Let_def)
  then show ?thesis
    using checkValidationData_effect [OF sample_block_wf sample_peer_block_wf(1), of sample_context]
      sample_peer_block_wf by auto
qed

text \<open>A proposed block of Tier-1 transactions that were checked by the constructor is read back from its
  canonical bytes by a node in Tier-1 mode: the deserialiser returns, with the same sizes, transactions,
  summary and validations, and with the chain state of the reader.\<close>

theorem proposed_block_round_trip:
  assumes "pb_wf b" "pb_version b = 0" "\<forall>tx \<in> set (pb_transactions b). t1_block_tx C keys tx"
    and "sum_encodable (pb_summary b)" "length (sigs (pb_vals b)) < 2 ^ 32" "length (pb_getCanonical b) < 2 ^ 63"
  shows "\<exists>ib'. pb_Create C st keys (tcm_make mode_T1) (InputBuffer_make (pb_getCanonical b) 0) =
    Some (Inr (b\<lparr>pb_state := st\<rparr>, ib'))"
  using pb_Create_T1 [OF assms] by blast

lemma sample_t1_block_tx: "t1_block_tx sample_crypto sample_keys (Tier1 sample_t1)"
proof -
  have "t1_isSound sample_crypto sample_keys (t1_parts sample_summary sample_node (sample_sig 5) False) = Inr True"
    by (simp add: t1_isSound_parts getKey_def sample_keys_def KeyRing_empty_def sample_crypto_verify)
  then show ?thesis
    unfolding t1_block_tx_def sample_t1_def using sample_t1_encodable by blast
qed

theorem proposed_block_round_trip_witness:
  "pb_wf sample_block \<and> list_all (t1_block_tx sample_crypto sample_keys) (pb_transactions sample_block) \<and>
   (\<exists>ib'. pb_Create sample_crypto ChainState_empty sample_keys (tcm_make mode_T1)
       (InputBuffer_make (pb_getCanonical sample_block) 0) =
     Some (Inr (sample_block\<lparr>pb_state := ChainState_empty\<rparr>, ib')))"
proof -
  have "\<forall>tx \<in> set (pb_transactions sample_block). t1_block_tx sample_crypto sample_keys tx"
    using sample_t1_block_tx by (simp add: sample_block_def ProposedBlock_make_def Let_def)
  moreover have "length (pb_getCanonical sample_block) < 2 ^ 63"
    by (simp add: pb_getCanonical_eq pb_getRawTransactions_def sample_block_def ProposedBlock_make_def Let_def
        sample_summary_length Validation_Create_def val_getCanonical_eq sample_t1_def t1_parts_def
        sample_node_def sample_sig_def sample_der_def)
  ultimately show ?thesis
    using proposed_block_round_trip [OF sample_block_wf, of sample_crypto sample_keys ChainState_empty]
    by (simp add: sample_block_def [THEN arg_cong [of _ _ pb_version]] sample_block_def [THEN arg_cong [of _ _ pb_summary]]
        sample_block_def [THEN arg_cong [of _ _ pb_vals]] ProposedBlock_make_def Let_def Validation_Create_def list_all_iff)
qed

end
