(* ===== verification/Final_Block.thy ===== *)
theory Final_Block
  imports Proposed_Block
begin

text \<open>
  \<^verbatim>\<open>primitives/FinalBlock.h\<close>, \<^verbatim>\<open>FinalBlock.cpp\<close> and \<^verbatim>\<open>primitives/block_tools.cpp\<close>: finalised blocks, their
  digest and canonical form, the three ways to read them, and the helpers on blocks. The time of the
  clock is an argument. A reader whose loop over the transactions never ends has the value \<open>None\<close>.
\<close>

section \<open>State\<close>

record FinalBlock =
  fb_version :: byte
  fb_num_bytes :: uint64
  fb_block_time :: uint64
  fb_prev_hash :: bytes
  fb_merkle_root :: bytes
  fb_tx_size :: uint64
  fb_sum_size :: uint64
  fb_val_count :: uint32
  fb_transactions :: "TransactionPtr list"
  fb_raw_transactions :: "bytes list"
  fb_summary :: Summary
  fb_vals :: Validation
  fb_state :: ChainState

definition fb_MinSize :: size_t where
  "fb_MinSize = 101"

definition FinalBlock_prior :: "ChainState \<Rightarrow> FinalBlock" where
  "FinalBlock_prior prior =
     \<lparr>fb_version = 0, fb_num_bytes = 0, fb_block_time = 0, fb_prev_hash = replicate 32 0,
      fb_merkle_root = replicate 32 0, fb_tx_size = 0, fb_sum_size = 0, fb_val_count = 0, fb_transactions = [],
      fb_raw_transactions = [], fb_summary = Summary_Create, fb_vals = Validation_Create, fb_state = prior\<rparr>"

section \<open>Canonical forms\<close>

definition getBlockDigest :: "FinalBlock \<Rightarrow> bytes" where
  "getBlockDigest b =
     (let txs = fold (\<lambda>item txs. txs @ item) (fb_raw_transactions b) [];
          serial = [fb_version b AND 0xFF];
          serial = Uint64ToBin (fb_num_bytes b) serial;
          serial = Uint64ToBin (fb_block_time b) serial;
          serial = serial @ fb_prev_hash b;
          serial = Uint64ToBin (fb_tx_size b) serial;
          serial = Uint64ToBin (fb_sum_size b) serial;
          serial = Uint32ToBin (fb_val_count b) serial
      in serial @ txs @ sum_getCanonical (fb_summary b) @ val_getCanonical (fb_vals b))"

definition fb_getCanonical :: "FinalBlock \<Rightarrow> bytes" where
  "fb_getCanonical b =
     (let txs = fold (\<lambda>item txs. txs @ item) (fb_raw_transactions b) [];
          serial = [fb_version b AND 0xFF];
          serial = Uint64ToBin (fb_num_bytes b) serial;
          serial = Uint64ToBin (fb_block_time b) serial;
          serial = serial @ fb_prev_hash b;
          serial = serial @ fb_merkle_root b;
          serial = Uint64ToBin (fb_tx_size b) serial;
          serial = Uint64ToBin (fb_sum_size b) serial;
          serial = Uint32ToBin (fb_val_count b) serial
      in serial @ txs @ sum_getCanonical (fb_summary b) @ val_getCanonical (fb_vals b))"

text \<open>The constructor from a proposed block. \<open>now\<close> is \<^verbatim>\<open>GetMillisecondsSinceEpoch()\<close>.\<close>

definition FinalBlock_of :: "Crypto \<Rightarrow> uint64 \<Rightarrow> ProposedBlock \<Rightarrow> FinalBlock" where
  "FinalBlock_of C now proposed =
     (let b = \<lparr>fb_version = 0, fb_num_bytes = pb_num_bytes proposed + 40, fb_block_time = now,
               fb_prev_hash = pb_prev_hash proposed, fb_merkle_root = replicate 32 0,
               fb_tx_size = pb_tx_size proposed, fb_sum_size = pb_sum_size proposed,
               fb_val_count = pb_val_count proposed, fb_transactions = pb_transactions proposed,
               fb_raw_transactions = pb_getRawTransactions proposed, fb_summary = pb_summary proposed,
               fb_vals = pb_vals proposed, fb_state = pb_state proposed\<rparr>
      in b\<lparr>fb_merkle_root := DevcashHash C (getBlockDigest b)\<rparr>)"

section \<open>Deserialisation\<close>

text \<open>The fields between the length and the transactions, which the three readers read alike.\<close>

definition fb_read_fields :: "FinalBlock \<Rightarrow> FinalBlock reader" where
  "fb_read_fields b =
     bindR (getNextUint64 True) (\<lambda>block_time.
     bindR (ib_copy 32 True) (\<lambda>prev_hash.
     bindR (ib_copy 32 True) (\<lambda>merkle_root.
     bindR (getNextUint64 True) (\<lambda>tx_size.
     bindR (getNextUint64 True) (\<lambda>sum_size.
     bindR (getNextUint32 True) (\<lambda>val_count.
     returnR (b\<lparr>fb_block_time := block_time, fb_prev_hash := prev_hash, fb_merkle_root := merkle_root,
                fb_tx_size := tx_size, fb_sum_size := sum_size, fb_val_count := val_count\<rparr>)))))))"

text \<open>The reader of the transaction pool: it returns a block with the fields read so far when the size or
  the version is wrong.\<close>

definition FinalBlock_tcm ::
  "Crypto \<Rightarrow> ChainState \<Rightarrow> KeyRing \<Rightarrow> TransactionCreationManager \<Rightarrow> InputBuffer
   \<Rightarrow> (error + (FinalBlock \<times> InputBuffer)) option" where
  "FinalBlock_tcm C prior keys tcm ib =
     (let b = FinalBlock_prior prior in
      if ib_size ib < fb_MinSize then Some (Inr (b, ib))
      else
        bindP (Some (getNextByte True ib)) (\<lambda>(v, ib).
        let b = b\<lparr>fb_version := fb_version b OR v\<rparr> in
        if fb_version b \<noteq> 0 then Some (Inr (b, ib))
        else
          bindP (Some (getNextUint64 True ib)) (\<lambda>(num_bytes, ib).
          let b = b\<lparr>fb_num_bytes := num_bytes\<rparr> in
          if ib_size ib \<noteq> num_bytes then Some (Inr (b, ib))
          else
            bindP (Some (fb_read_fields b ib)) (\<lambda>(b, ib).
            bindP (CreateTransactions C (set_keys keys tcm) fb_MinSize (fb_tx_size b) ib) (\<lambda>((raw, vtx), ib).
            Some (bindR Summary_read (\<lambda>summary.
                  bindR Validation_read (\<lambda>vals.
                  returnR (b\<lparr>fb_transactions := vtx, fb_raw_transactions := raw, fb_summary := summary,
                             fb_vals := vals\<rparr>))) ib))))))"

definition fb_read_one :: "Crypto \<Rightarrow> KeyRing \<Rightarrow> eAppMode \<Rightarrow> TransactionPtr reader" where
  "fb_read_one C keys mode =
     (case mode of
        mode_T1 \<Rightarrow> bindR (Tier1Transaction_read C keys True) (\<lambda>tx. returnR (Tier1 tx))
      | mode_T2 \<Rightarrow> bindR (t2_CreateUniquePtr C keys True) (\<lambda>tx. returnR (Tier2 tx))
      | mode_scan \<Rightarrow> throwR (RuntimeError ''Unsupported mode: 2''))"

text \<open>Version and length, for the two readers that throw. They differ in the class of the exception.\<close>

definition fb_read_head :: "(string \<Rightarrow> error) \<Rightarrow> FinalBlock \<Rightarrow> FinalBlock reader" where
  "fb_read_head err b =
     bindR (getsR ib_size) (\<lambda>size.
     if size < fb_MinSize then throwR (err ''Invalid serialized FinalBlock, too small!'')
     else
       bindR (getNextByte True) (\<lambda>v.
       let version = fb_version b OR v in
       if version \<noteq> 0 then throwR (err (''Invalid FinalBlock.version: '' @ to_string_u version))
       else
         bindR (getNextUint64 True) (\<lambda>num_bytes.
         if size < num_bytes then throwR (err ''Invalid serialized FinalBlock, wrong size!'')
         else fb_read_fields (b\<lparr>fb_version := version, fb_num_bytes := num_bytes\<rparr>))))"

definition FinalBlock_mode ::
  "Crypto \<Rightarrow> ChainState \<Rightarrow> KeyRing \<Rightarrow> eAppMode \<Rightarrow> InputBuffer \<Rightarrow> (error + (FinalBlock \<times> InputBuffer)) option" where
  "FinalBlock_mode C prior keys mode ib =
     bindP (Some (fb_read_head RuntimeError (FinalBlock_prior prior) ib)) (\<lambda>(b, ib).
     bindP (read_while (fb_read_one C keys mode) (ib_offset ib + fb_tx_size b) ib) (\<lambda>(vtx, ib).
     Some (bindR Summary_read (\<lambda>summary.
           bindR Validation_read (\<lambda>vals.
           returnR (b\<lparr>fb_transactions := vtx, fb_raw_transactions := map tx_getCanonical vtx,
                      fb_summary := summary, fb_vals := vals\<rparr>))) ib)))"

definition fb_Create :: "ChainState \<Rightarrow> InputBuffer \<Rightarrow> (error + (FinalBlock \<times> InputBuffer)) option" where
  "fb_Create prior ib =
     bindP (Some (fb_read_head DeserializationError (FinalBlock_prior prior) ib)) (\<lambda>(b, ib).
     bindP (read_while getNextTransaction (ib_offset ib + fb_tx_size b) ib) (\<lambda>(raw, ib).
     Some (bindR Summary_read (\<lambda>summary.
           bindR (Validation_read_count (fb_val_count b)) (\<lambda>vals.
           returnR (b\<lparr>fb_raw_transactions := raw, fb_summary := summary, fb_vals := vals\<rparr>))) ib)))"

section \<open>Accessors\<close>

definition fb_getNumTransactions :: "FinalBlock \<Rightarrow> size_t" where
  "fb_getNumTransactions b = vec_size (fb_raw_transactions b)"

definition fb_CopyTransactions :: "FinalBlock \<Rightarrow> TransactionPtr list" where
  "fb_CopyTransactions b = fb_transactions b"

definition fb_getNumTransfers :: "FinalBlock \<Rightarrow> error + size_t" where
  "fb_getNumTransfers b =
     foldE (\<lambda>item tfers. bindE (tx_getTransfers item) (\<lambda>xfers. Inr (tfers + vec_size xfers))) (fb_transactions b) 0"

definition llabs :: "int64 \<Rightarrow> int64" where
  "llabs x = (if sint x < 0 then - x else x)"

definition fb_getVolume :: "FinalBlock \<Rightarrow> error + uint64" where
  "fb_getVolume b =
     foldE (\<lambda>item volume. bindE (tx_getTransfers item) (\<lambda>xfers.
       foldE (\<lambda>xfer volume. bindE (xfer_getAmount xfer) (\<lambda>m. Inr (volume + llabs m))) xfers volume))
       (fb_transactions b) 0"

definition fb_getValue :: "FinalBlock \<Rightarrow> error + int64" where
  "fb_getValue b =
     foldE (\<lambda>item val. bindE (tx_getTransfers item) (\<lambda>xfers.
       foldE (\<lambda>xfer val. bindE (xfer_getAmount xfer) (\<lambda>m. Inr (val + m))) xfers val))
       (fb_transactions b) 0"

section \<open>Block tools\<close>

definition IsBlockData :: "uint64 \<Rightarrow> bytes \<Rightarrow> error + bool" where
  "IsBlockData now raw =
     (if vec_size raw < fb_MinSize then Inr False
      else
        bindE (vec_get raw 0) (\<lambda>v.
        if v \<noteq> 0 then Inr False
        else
          bindE (BinToUint64 raw 9) (\<lambda>block_time.
          if block_time < 1514764800 then Inr False
          else if block_time > now then Inr False
          else Inr True)))"

definition IsTxData :: "bytes \<Rightarrow> error + bool" where
  "IsTxData raw =
     (if vec_size raw < kTX_MIN_SIZE then Inr False
      else
        bindE (BinToUint64 raw 0) (\<lambda>xfer_size.
        if vec_size raw < kTX_MIN_SIZE + xfer_size then Inr False
        else
          bindE (vec_get raw 16) (\<lambda>oper.
          if oper \<ge> 4 then Inr False else Inr True)))"

fun compare_coins :: "(uint64, int64) omap \<Rightarrow> (uint64, int64) omap \<Rightarrow> bool" where
  "compare_coins [] ys = True"
| "compare_coins (x # xs) ys =
     (case ys of
        [] \<Rightarrow> False
      | y # ys \<Rightarrow> if fst x \<noteq> fst y then False else if snd x \<noteq> snd y then False else compare_coins xs ys)"

fun compare_addrs :: "(Address, (uint64, int64) omap) omap \<Rightarrow> (Address, (uint64, int64) omap) omap \<Rightarrow> bool" where
  "compare_addrs [] js = True"
| "compare_addrs (i # is) js =
     (case js of
        [] \<Rightarrow> False
      | j # js \<Rightarrow>
          if fst i \<noteq> fst j then False
          else if length (snd i) \<noteq> length (snd j) then False
          else if \<not> compare_coins (snd i) (snd j) then False
          else compare_addrs is js)"

definition CompareChainStateMaps ::
  "(Address, (uint64, int64) omap) omap \<Rightarrow> (Address, (uint64, int64) omap) omap \<Rightarrow> bool" where
  "CompareChainStateMaps first second =
     (if length first \<noteq> length second then False else compare_addrs first second)"

definition WriteChainStateMap :: "(Address, (uint64, int64) omap) omap \<Rightarrow> string" where
  "WriteChainStateMap m =
     ''{'' @ join_comma (map (\<lambda>(a, coins).
       dq @ addr_getJSON a @ dq @ '':['' @ join_comma (map (\<lambda>(c, x). to_string_u c @ '':'' @ to_string_s x) coins)
       @ '']'') m) @ ''}''"

definition CreateTier1Transaction :: "Crypto \<Rightarrow> FinalBlock \<Rightarrow> KeyRing \<Rightarrow> error + Tier1Transaction" where
  "CreateTier1Transaction C block keys =
     bindE (getFirstValidation (fb_vals block)) (\<lambda>pair.
     Tier1Transaction_make C (fb_summary block) (snd pair) (fst pair) keys)"

definition SignSummary :: "Crypto \<Rightarrow> Summary \<Rightarrow> KeyRing \<Rightarrow> error + Signature" where
  "SignSummary C summary keys =
     bindE (getNodeKey keys 0) (\<lambda>key. SignBinary C key (DevcashHash C (sum_getCanonical summary)))"

section \<open>Layout and reading back\<close>

lemma fold_append: "fold (\<lambda>x acc. acc @ x) xs acc = acc @ concat xs"
  by (induction xs arbitrary: acc) simp_all

lemma fb_getCanonical_eq:
  "fb_getCanonical b =
     [fb_version b] @ le64 (fb_num_bytes b) @ (le64 (fb_block_time b) @ fb_prev_hash b @ fb_merkle_root b
     @ le64 (fb_tx_size b) @ le64 (fb_sum_size b) @ le32 (fb_val_count b))
     @ concat (fb_raw_transactions b) @ sum_getCanonical (fb_summary b) @ val_getCanonical (fb_vals b)"
  by (simp add: fb_getCanonical_def fold_append byte_mask Uint64ToBin_le Uint32ToBin_le Let_def)

lemma fb_fields_read:
  assumes "length p = 32" "length m = 32"
  shows "reads (fb_read_fields b) (le64 w @ p @ m @ le64 t @ le64 s @ le32 c)
    (b\<lparr>fb_block_time := w, fb_prev_hash := p, fb_merkle_root := m, fb_tx_size := t, fb_sum_size := s,
       fb_val_count := c\<rparr>)"
proof -
  have p: "reads (ib_copy 32 True) p p" and m: "reads (ib_copy 32 True) m m"
    by (rule reads_ib_copy; simp add: assms)+
  show ?thesis unfolding fb_read_fields_def
    by (intro reads_bind [OF reads_getNextUint64] reads_bind [OF p] reads_bind [OF m] reads_bind_return
        reads_getNextUint32)
qed

lemma fb_head_steps:
  assumes "ib_wf ib" "ib_rest ib = [0] @ le64 n @ (le64 w @ p @ m @ le64 t @ le64 s @ le32 c) @ r"
    and "length p = 32" "length m = 32"
  shows "getNextByte True ib = Inr (0, advance 1 ib) \<and> getNextUint64 True (advance 1 ib) = Inr (n, advance 9 ib) \<and>
    fb_read_fields b (advance 9 ib) =
      Inr (b\<lparr>fb_block_time := w, fb_prev_hash := p, fb_merkle_root := m, fb_tx_size := t, fb_sum_size := s,
             fb_val_count := c\<rparr>, advance 101 ib) \<and>
    \<not> ib_size ib < fb_MinSize"
proof -
  have 1: "getNextByte True ib = Inr (0, advance 1 ib)"
    using getNextByte_rest [OF assms(1)] assms(2) by simp
  have a1: "ib_wf (advance 1 ib)" "ib_rest (advance 1 ib) = le64 n @ (le64 w @ p @ m @ le64 t @ le64 s @ le32 c) @ r"
    using advance_facts [OF assms(1), of 1] assms(2) by simp_all
  have 2: "getNextUint64 True (advance 1 ib) = Inr (n, advance 9 ib)"
    using getNextUint64_rest [OF a1] by simp
  have a2: "ib_wf (advance 9 ib)" "ib_rest (advance 9 ib) = (le64 w @ p @ m @ le64 t @ le64 s @ le32 c) @ r"
    using advance_facts [OF a1(1), of 8] a1(2) by simp_all
  have 3: "fb_read_fields b (advance 9 ib) =
      Inr (b\<lparr>fb_block_time := w, fb_prev_hash := p, fb_merkle_root := m, fb_tx_size := t, fb_sum_size := s,
             fb_val_count := c\<rparr>, advance 101 ib)"
    using readsD [OF fb_fields_read [OF assms(3,4)] a2] assms(3,4) by simp
  have "101 \<le> length (ib_buffer ib)" using ib_rest_length [OF assms(1)] assms(2-4) by simp
  then have "\<not> ib_size ib < fb_MinSize"
    using assms(1) by (simp add: ib_size_def fb_MinSize_def vec_size_def word_less_nat_alt ib_wf_def)
  with 1 2 3 show ?thesis by blast
qed

lemma fb_head_read:
  assumes "ib_wf ib" "ib_rest ib = [0] @ le64 n @ (le64 w @ p @ m @ le64 t @ le64 s @ le32 c) @ r"
    and "length p = 32" "length m = 32" "fb_version b = 0" "n \<le> ib_size ib"
  shows "fb_read_head err b ib =
    Inr (b\<lparr>fb_version := 0, fb_num_bytes := n, fb_block_time := w, fb_prev_hash := p, fb_merkle_root := m,
           fb_tx_size := t, fb_sum_size := s, fb_val_count := c\<rparr>, advance 101 ib)"
  using fb_head_steps [OF assms(1-4)] assms(5,6) by (simp add: fb_read_head_def reader_simps Let_def)

text \<open>A block that holds the canonical forms of Tier-2 transactions is read back by \<open>Create\<close>, whatever
  follows it in the buffer.\<close>

definition fb_wf :: "FinalBlock \<Rightarrow> bool" where
  "fb_wf b =
     (length (fb_prev_hash b) = 32 \<and> length (fb_merkle_root b) = 32 \<and> fb_version b = 0 \<and>
      val_wf (fb_vals b) \<and> fb_val_count b = getValidationCount (fb_vals b) \<and>
      length (sigs (fb_vals b)) < 2 ^ 32 \<and> sum_encodable (fb_summary b) \<and>
      fb_tx_size b = vec_size (concat (fb_raw_transactions b)) \<and>
      fb_num_bytes b = vec_size (fb_getCanonical b))"

definition raw_t2 :: "bytes \<Rightarrow> bool" where
  "raw_t2 raw = (\<exists>oper xfers nonce sig b.
     t2_encodable oper xfers nonce sig \<and> raw = tx_canonical (t2_parts oper xfers nonce (sig_canonical sig) b))"

lemma raw_t2_facts: "raw_t2 raw \<Longrightarrow> reads getNextTransaction raw raw \<and> raw \<noteq> []"
  using reads_getNextTransaction_t2 by (force simp: raw_t2_def t2_parts_def le64_def)

lemma fb_Create_rest:
  assumes "fb_wf b" "\<forall>raw \<in> set (fb_raw_transactions b). raw_t2 raw"
    and "ib_wf ib" "ib_rest ib = fb_getCanonical b @ r"
  shows "fb_Create prior ib =
    Some (Inr (b\<lparr>fb_transactions := [], fb_state := prior\<rparr>, advance (length (fb_getCanonical b)) ib))"
proof -
  let ?T = "concat (fb_raw_transactions b)" and ?S = "sum_getCanonical (fb_summary b)"
    and ?V = "val_getCanonical (fb_vals b)"
  let ?b = "(FinalBlock_prior prior)\<lparr>fb_version := 0, fb_num_bytes := fb_num_bytes b, fb_block_time := fb_block_time b,
      fb_prev_hash := fb_prev_hash b, fb_merkle_root := fb_merkle_root b, fb_tx_size := fb_tx_size b,
      fb_sum_size := fb_sum_size b, fb_val_count := fb_val_count b\<rparr>"
  have h: "length (fb_prev_hash b) = 32" "length (fb_merkle_root b) = 32" "fb_version b = 0"
    using assms(1) by (simp_all add: fb_wf_def)
  have rest: "ib_rest ib = [0] @ le64 (fb_num_bytes b) @ (le64 (fb_block_time b) @ fb_prev_hash b @ fb_merkle_root b
     @ le64 (fb_tx_size b) @ le64 (fb_sum_size b) @ le32 (fb_val_count b)) @ ?T @ ?S @ ?V @ r"
    using assms(4) by (simp add: fb_getCanonical_eq h(3))
  have len: "length (fb_getCanonical b) = 101 + length ?T + length ?S + length ?V"
    using h by (simp add: fb_getCanonical_eq)
  have "length (fb_getCanonical b) \<le> length (ib_buffer ib)" "length (ib_buffer ib) < 2 ^ 63"
    using ib_rest_length [OF assms(3)] assms(3,4) by (simp_all add: ib_wf_def)
  then have "fb_num_bytes b \<le> ib_size ib"
    using assms(1) by (simp add: fb_wf_def ib_size_def vec_size_def word_le_nat_alt)
  then have 1: "fb_read_head DeserializationError (FinalBlock_prior prior) ib = Inr (?b, advance 101 ib)"
    by (intro fb_head_read [OF assms(3) rest h(1,2)]) (simp_all add: FinalBlock_prior_def)
  have a1: "ib_wf (advance 101 ib)" "ib_rest (advance 101 ib) = concat (map id (fb_raw_transactions b)) @ ?S @ ?V @ r"
    using advance_facts [OF assms(3), of 101] rest h by simp_all
  have 2: "read_while getNextTransaction (ib_offset (advance 101 ib) + fb_tx_size b) (advance 101 ib) =
      Some (Inr (fb_raw_transactions b, advance (101 + length ?T) ib))"
    using read_while_items [where enc = id and f = id and xs = "fb_raw_transactions b", OF _ a1 refl]
      raw_t2_facts assms(1,2) by (simp add: fb_wf_def vec_size_def)
  have a2: "ib_wf (advance (101 + length ?T) ib)" "ib_rest (advance (101 + length ?T) ib) = ?S @ ?V @ r"
    using advance_facts [OF a1(1), of "length ?T"] a1(2) by simp_all
  have e: "sum_encodable (fb_summary b)" "val_wf (fb_vals b)" "length (sigs (fb_vals b)) < 2 ^ 32"
    "fb_val_count b = getValidationCount (fb_vals b)"
    using assms(1) by (simp_all add: fb_wf_def)
  have 3: "Summary_read (advance (101 + length ?T) ib) =
      Inr (fb_summary b, advance (101 + length ?T + length ?S) ib)"
    using readsD [OF reads_Summary [OF e(1)] a2] by simp
  have a3: "ib_wf (advance (101 + length ?T + length ?S) ib)"
    "ib_rest (advance (101 + length ?T + length ?S) ib) = ?V @ r"
    using advance_facts [OF a2(1), of "length ?S"] a2(2) by simp_all
  have 4: "Validation_read_count (fb_val_count b) (advance (101 + length ?T + length ?S) ib) =
      Inr (fb_vals b, advance (length (fb_getCanonical b)) ib)"
    using readsD [OF reads_Validation_count [OF e(2,3)] a3] e(4) by (simp add: len)
  have "?b\<lparr>fb_raw_transactions := fb_raw_transactions b, fb_summary := fb_summary b, fb_vals := fb_vals b\<rparr> =
      b\<lparr>fb_transactions := [], fb_state := prior\<rparr>"
    using h(3) by (cases b) (simp add: FinalBlock_prior_def)
  then show ?thesis
    unfolding fb_Create_def using 1 2 3 4 by (simp add: reader_simps FinalBlock_prior_def)
qed

text \<open>The reader of the pool, in Tier-1 mode, reads back a block of checked Tier-1 transactions that fills
  the buffer.\<close>

lemma FinalBlock_tcm_head:
  fixes prior :: ChainState
  assumes "ib_wf ib" "ib_rest ib = [0] @ le64 n @ (le64 w @ p @ m @ le64 t @ le64 s @ le32 c) @ r"
    and "length p = 32" "length m = 32" "ib_size ib = n"
  defines "b \<equiv> (FinalBlock_prior prior)\<lparr>fb_version := 0, fb_num_bytes := n, fb_block_time := w, fb_prev_hash := p,
      fb_merkle_root := m, fb_tx_size := t, fb_sum_size := s, fb_val_count := c\<rparr>"
  shows "FinalBlock_tcm C prior keys tcm ib =
    bindP (CreateTransactions C (set_keys keys tcm) fb_MinSize t (advance 101 ib)) (\<lambda>((raw, vtx), ib).
    Some (bindR Summary_read (\<lambda>summary.
          bindR Validation_read (\<lambda>vals.
          returnR (b\<lparr>fb_transactions := vtx, fb_raw_transactions := raw, fb_summary := summary,
                     fb_vals := vals\<rparr>))) ib))"
proof -
  have "fb_version (FinalBlock_prior prior) = 0" by (simp add: FinalBlock_prior_def)
  moreover have "ib_size (advance 9 ib) = n" using assms(5) by (simp add: ib_size_def advance_def)
  ultimately show ?thesis
    using fb_head_steps [OF assms(1-4)] by (simp add: FinalBlock_tcm_def Let_def b_def)
qed

lemma FinalBlock_tcm_T1:
  assumes "fb_wf b" "node_pairs (fb_vals b)" "\<forall>tx \<in> set (fb_transactions b). t1_block_tx C keys tx"
    and "fb_raw_transactions b = map tx_getCanonical (fb_transactions b)" "length (fb_getCanonical b) < 2 ^ 63"
  shows "FinalBlock_tcm C prior keys (tcm_make mode_T1) (InputBuffer_make (fb_getCanonical b) 0) =
    Some (Inr (b\<lparr>fb_state := prior\<rparr>,
      advance (length (fb_getCanonical b)) (InputBuffer_make (fb_getCanonical b) 0)))"
proof -
  let ?ib = "InputBuffer_make (fb_getCanonical b) 0" and ?T = "concat (map tx_getCanonical (fb_transactions b))"
    and ?S = "sum_getCanonical (fb_summary b)" and ?V = "val_getCanonical (fb_vals b)"
  have h: "length (fb_prev_hash b) = 32" "length (fb_merkle_root b) = 32" "fb_version b = 0"
    "sum_encodable (fb_summary b)" "val_wf (fb_vals b)" "fb_tx_size b = vec_size ?T"
    using assms(1,4) by (simp_all add: fb_wf_def)
  have wf: "ib_wf ?ib" using assms(5) by (rule ib_wf_make)
  have size: "ib_size ?ib = fb_num_bytes b"
    using assms(1) by (simp add: ib_size_def InputBuffer_make_def fb_wf_def)
  have rest: "ib_rest ?ib = [0] @ le64 (fb_num_bytes b) @ (le64 (fb_block_time b) @ fb_prev_hash b @ fb_merkle_root b
     @ le64 (fb_tx_size b) @ le64 (fb_sum_size b) @ le32 (fb_val_count b)) @ ?T @ ?S @ ?V"
    by (simp add: fb_getCanonical_eq h(3) assms(4))
  have len: "length (fb_getCanonical b) = 101 + length ?T + length ?S + length ?V"
    using h by (simp add: fb_getCanonical_eq assms(4))
  have a1: "ib_wf (advance 101 ?ib)" "ib_rest (advance 101 ?ib) = ?T @ ?S @ ?V" "ib_offset (advance 101 ?ib) = 101"
    using advance_facts [OF wf, of 101] rest h len by (simp_all add: InputBuffer_make_def advance_def)
  have 2: "CreateTransactions C (set_keys keys (tcm_make mode_T1)) fb_MinSize (fb_tx_size b) (advance 101 ?ib) =
      Some (Inr ((map tx_getCanonical (fb_transactions b), fb_transactions b), advance (101 + length ?T) ?ib))"
    using CreateTransactions_T1 [OF assms(3) a1(1,2), of fb_MinSize "fb_tx_size b"] a1(3) h(6)
    by (simp add: fb_MinSize_def)
  have a2: "ib_wf (advance (101 + length ?T) ?ib)" "ib_rest (advance (101 + length ?T) ?ib) = ?S @ ?V"
    using advance_facts [OF a1(1), of "length ?T"] a1(2) by simp_all
  have 3: "Summary_read (advance (101 + length ?T) ?ib) =
      Inr (fb_summary b, advance (101 + length ?T + length ?S) ?ib)"
    using readsD [OF reads_Summary [OF h(4)] a2] by simp
  have a3: "ib_wf (advance (101 + length ?T + length ?S) ?ib)"
    "ib_rest (advance (101 + length ?T + length ?S) ?ib) = ?V @ []"
    using advance_facts [OF a2(1), of "length ?S"] a2(2) by simp_all
  have 4: "Validation_read (advance (101 + length ?T + length ?S) ?ib) =
      Inr (fb_vals b, advance (length (fb_getCanonical b)) ?ib)"
    using Validation_read_rest [OF a3 _ h(5) assms(2)] by (simp add: len)
  have "(FinalBlock_prior prior)\<lparr>fb_version := 0, fb_num_bytes := fb_num_bytes b, fb_block_time := fb_block_time b,
      fb_prev_hash := fb_prev_hash b, fb_merkle_root := fb_merkle_root b, fb_tx_size := fb_tx_size b,
      fb_sum_size := fb_sum_size b, fb_val_count := fb_val_count b, fb_transactions := fb_transactions b,
      fb_raw_transactions := map tx_getCanonical (fb_transactions b), fb_summary := fb_summary b,
      fb_vals := fb_vals b\<rparr> = b\<lparr>fb_state := prior\<rparr>"
    using h(3) assms(4) by (cases b) (simp add: FinalBlock_prior_def)
  then show ?thesis
    using FinalBlock_tcm_head [OF wf rest h(1,2) size] 2 3 4 by (simp add: reader_simps)
qed

section \<open>Finalising\<close>

lemma FinalBlock_of_fields [simp]:
  "fb_raw_transactions (FinalBlock_of C now p) = pb_getRawTransactions p"
  "fb_transactions (FinalBlock_of C now p) = pb_transactions p"
  "fb_summary (FinalBlock_of C now p) = pb_summary p" "fb_vals (FinalBlock_of C now p) = pb_vals p"
  "fb_state (FinalBlock_of C now p) = pb_state p" "fb_prev_hash (FinalBlock_of C now p) = pb_prev_hash p"
  "fb_version (FinalBlock_of C now p) = 0" "fb_num_bytes (FinalBlock_of C now p) = pb_num_bytes p + 40"
  "fb_tx_size (FinalBlock_of C now p) = pb_tx_size p" "fb_sum_size (FinalBlock_of C now p) = pb_sum_size p"
  "fb_val_count (FinalBlock_of C now p) = pb_val_count p" "fb_block_time (FinalBlock_of C now p) = now"
  by (simp_all add: FinalBlock_of_def Let_def)

lemma FinalBlock_of_merkle:
  "fb_merkle_root (FinalBlock_of C now p) = DevcashHash C (getBlockDigest (FinalBlock_of C now p))"
  by (simp add: FinalBlock_of_def Let_def getBlockDigest_def)

lemma FinalBlock_of_size:
  assumes "pb_wf p" "length (sigs (pb_vals p)) < 2 ^ 32" "\<And>m. length (sha256 C m) = 32"
  shows "vec_size (fb_getCanonical (FinalBlock_of C now p)) = fb_num_bytes (FinalBlock_of C now p)"
proof -
  have "length (fb_getCanonical (FinalBlock_of C now p)) = length (pb_getCanonical p) + 40"
    using assms(1,3) by (simp add: fb_getCanonical_eq pb_getCanonical_eq FinalBlock_of_merkle DevcashHash_def pb_wf_def)
  then show ?thesis using pb_wf_size [OF assms(1,2)] by (simp add: vec_size_def)
qed

lemma FinalBlock_of_wf:
  assumes "pb_wf p" "length (sigs (pb_vals p)) < 2 ^ 32" "\<And>m. length (sha256 C m) = 32" "sum_encodable (pb_summary p)"
  shows "fb_wf (FinalBlock_of C now p)"
  using FinalBlock_of_size [OF assms(1-3)] assms
  by (simp add: fb_wf_def FinalBlock_of_merkle DevcashHash_def pb_wf_def)

lemma compare_coins_eq: "length xs = length ys \<Longrightarrow> compare_coins xs ys \<longleftrightarrow> xs = ys"
  by (induction xs ys rule: compare_coins.induct) (auto simp: length_Suc_conv prod_eq_iff split: list.splits)

lemma compare_addrs_eq: "length xs = length ys \<Longrightarrow> compare_addrs xs ys \<longleftrightarrow> xs = ys"
  by (induction xs ys rule: compare_addrs.induct)
    (auto simp: length_Suc_conv prod_eq_iff compare_coins_eq split: list.splits)

section \<open>Properties\<close>


definition sample_t2_block :: ProposedBlock where
  "sample_t2_block = ProposedBlock_make (replicate 32 7) [Tier2 sample_t2] sample_summary Validation_Create ChainState_empty"

definition sample_final :: FinalBlock where
  "sample_final = FinalBlock_of sample_crypto 9 sample_t2_block"

lemma sample_t2_block_fields:
  "pb_vals sample_t2_block = Validation_Create" "pb_summary sample_t2_block = sample_summary"
  "pb_transactions sample_t2_block = [Tier2 sample_t2]" "pb_prev_hash sample_t2_block = replicate 32 7"
  by (simp_all add: sample_t2_block_def ProposedBlock_make_def Let_def)

lemma sample_t2_block_wf: "pb_wf sample_t2_block"
  unfolding sample_t2_block_def
  by (rule pb_wf_make) (simp, simp, simp add: node_pairs_def Validation_Create_def)

lemma sample_t2_raw:
  "\<exists>oper xfers nonce sig. t2_encodable oper xfers nonce sig \<and>
     tx_canonical sample_t2 = tx_canonical (t2_attach sig (t2_unsigned oper xfers nonce))"
proof -
  have "tx_canonical sample_t2 = tx_canonical (t2_attach (sample_sig 4) (t2_unsigned 2 sample_xfers sample_nonce))"
    by (simp add: t2_unsigned_parts t2_attach_parts sample_t2_def) (simp add: t2_parts_def)
  then show ?thesis using sample_t2_ok(4) by blast
qed

lemma sample_final_length: "length (fb_getCanonical sample_final) = 452"
  by (simp add: fb_getCanonical_eq sample_t2_block_fields FinalBlock_of_merkle DevcashHash_def sample_crypto_def
      sample_summary_length pb_getRawTransactions_def sample_t2_length val_getCanonical_eq Validation_Create_def
      sample_final_def)

lemma sample_final_wf: "fb_wf sample_final"
  unfolding sample_final_def
  by (rule FinalBlock_of_wf [OF sample_t2_block_wf])
    (simp_all add: sample_t2_block_fields Validation_Create_def sample_crypto_def)

lemma sample_final_raw: "\<forall>raw \<in> set (fb_raw_transactions sample_final). raw_t2 raw"
proof -
  have "raw_t2 (tx_canonical sample_t2)"
    using sample_t2_raw unfolding raw_t2_def t2_unsigned_parts t2_attach_parts append_Nil by blast
  then show ?thesis by (simp add: sample_final_def pb_getRawTransactions_def sample_t2_block_fields)
qed


text \<open>C24. \<open>FinalBlock::Create\<close> does not return on a malformed block: if the announced transactions end in
  fewer bytes than a transaction has, with a size field that points behind the end of the buffer,
  \<open>getNextTransaction\<close> returns an empty transaction without moving on, and the loop over the
  transactions never ends.\<close>

theorem fb_Create_hangs:
  assumes "length p = 32" "length m = 32" "length rest < 83" "0 < unat t" "unat t < 2 ^ 62"
    and "length rest < unat w + 156" "unat w < 2 ^ 62" "n \<le> 109 + vec_size rest"
  shows "fb_Create prior (InputBuffer_make
    ([0] @ le64 n @ (le64 tm @ p @ m @ le64 t @ le64 s @ le32 c) @ le64 w @ rest) 0) = None"
proof -
  let ?bs = "[0] @ le64 n @ (le64 tm @ p @ m @ le64 t @ le64 s @ le32 c) @ le64 w @ rest"
  let ?ib = "InputBuffer_make ?bs 0" and ?ib1 = "advance 101 (InputBuffer_make ?bs 0)"
  let ?b = "(FinalBlock_prior prior)\<lparr>fb_version := 0, fb_num_bytes := n, fb_block_time := tm,
      fb_prev_hash := p, fb_merkle_root := m, fb_tx_size := t, fb_sum_size := s, fb_val_count := c\<rparr>"
  have len: "length ?bs = 109 + length rest" using assms(1,2) by simp
  have wf: "ib_wf ?ib" using assms(3) len by (intro ib_wf_make) simp
  have "ib_size ?ib = 109 + vec_size rest" 
    by (simp only: ib_size_def InputBuffer_make_def InputBuffer.select_convs vec_size_def len) simp
  then have 1: "fb_read_head DeserializationError (FinalBlock_prior prior) ?ib = Inr (?b, ?ib1)"
    using assms(8) by (intro fb_head_read [OF wf _ assms(1,2)]) (simp_all add: FinalBlock_prior_def)
  have a1: "ib_wf ?ib1" "ib_rest ?ib1 = le64 w @ rest"
    using advance_facts [OF wf, of 101] len assms(1,2) by simp_all
  have g1: "ib_size ?ib1 < ib_offset ?ib1 + 91"
    using size_guard [OF a1(1), of 91] a1(2) assms(3) by simp
  have w: "unat (w + 106 + 8 + 50) = unat w + 164"
    using assms(7) unat_add_of_nat_64 [of w 164] by (simp add: add.assoc)
  then have g2: "ib_size ?ib1 < ib_offset ?ib1 + (w + 106 + 8 + 50)"
    using size_guard [OF a1(1), of "w + 106 + 8 + 50"] a1(2) assms(6,7) by simp
  have "getNextTransaction ?ib1 = Inr ([], ?ib1)"
    using g1 g2 getNextUint64_rest [OF a1, of False]
    by (simp add: getNextTransaction_def getNextT1Transaction_def reader_simps Let_def del: add_uminus_conv_diff)
  moreover have "ib_offset ?ib1 = 101" by (simp add: advance_def InputBuffer_make_def)
  moreover have "unat (101 + t) = 101 + unat t"
    using assms(5) unat_add_of_nat_64 [of t 101] by (simp add: add.commute)
  then have "101 < 101 + t" using assms(4) by (simp add: word_less_nat_alt)
  ultimately have "read_while getNextTransaction (ib_offset ?ib1 + t) ?ib1 = None"
    by (intro read_while_stuck) simp_all
  then show ?thesis using 1 by (simp add: fb_Create_def)
qed

theorem fb_Create_hangs_witness:
  "length (replicate 32 (0 :: byte)) = 32 \<and> (109 :: uint64) \<le> 109 + vec_size ([] :: bytes) \<and>
   fb_Create ChainState_empty (InputBuffer_make
     ([0] @ le64 109 @ (le64 5 @ replicate 32 0 @ replicate 32 0 @ le64 8 @ le64 0 @ le32 0) @ le64 1000 @ []) 0) = None"
  using fb_Create_hangs [of "replicate 32 0" "replicate 32 0" "[]" 8 1000 109 ChainState_empty 5 0 0]
  by (simp add: vec_size_def)

text \<open>C26. The chain state of a block that a node reads from a peer is the state the node had before: the
  transactions of the block are not applied to it. \<open>HandleFinalBlock\<close> appends such a block to the
  chain and \<open>getHighestChainState\<close> then returns its state, so that the balances moved by the blocks of
  other nodes are lost.\<close>

theorem remote_block_keeps_prior_state:
  assumes "FinalBlock_tcm C prior keys tcm ib = Some (Inr (b, ib'))"
  shows "fb_state b = prior"
proof -
  have head: "fb_read_fields x i = Inr (b1, i') \<Longrightarrow> fb_state b1 = fb_state x" for x i b1 i'
    by (auto simp: fb_read_fields_def reader_simps)
  show ?thesis
    using assms
    by (auto simp: FinalBlock_tcm_def Let_def bindP_eq_Some FinalBlock_prior_def reader_simps
        split: if_splits dest!: head)
qed

theorem remote_block_keeps_prior_state_witness:
  "\<exists>b ib'. FinalBlock_tcm sample_crypto ChainState_empty sample_keys (tcm_make mode_T1)
       (InputBuffer_make (fb_getCanonical (FinalBlock_of sample_crypto 9 sample_block)) 0) = Some (Inr (b, ib')) \<and>
     fb_state b = ChainState_empty \<and> fb_transactions b = [Tier1 sample_t1]"
proof -
  let ?f = "FinalBlock_of sample_crypto 9 sample_block"
  have f: "pb_vals sample_block = Validation_Create" "pb_summary sample_block = sample_summary"
    "pb_transactions sample_block = [Tier1 sample_t1]" "pb_prev_hash sample_block = replicate 32 7"
    by (simp_all add: sample_block_def ProposedBlock_make_def Let_def)
  have wf: "fb_wf ?f"
    by (rule FinalBlock_of_wf) (simp_all add: f Validation_Create_def sample_crypto_def)
  have "length (fb_getCanonical ?f) < 2 ^ 63"
    by (simp add: fb_getCanonical_eq f FinalBlock_of_merkle DevcashHash_def sample_crypto_def sample_summary_length
        pb_getRawTransactions_def val_getCanonical_eq Validation_Create_def sample_t1_length)
  then have "FinalBlock_tcm sample_crypto ChainState_empty sample_keys (tcm_make mode_T1)
       (InputBuffer_make (fb_getCanonical ?f) 0) =
      Some (Inr (?f\<lparr>fb_state := ChainState_empty\<rparr>, advance (length (fb_getCanonical ?f)) (InputBuffer_make (fb_getCanonical ?f) 0)))"
    using sample_t1_block_tx
    by (intro FinalBlock_tcm_T1 [OF wf]) (simp_all add: f node_pairs_def Validation_Create_def pb_getRawTransactions_def)
  with remote_block_keeps_prior_state [OF this] show ?thesis by (simp add: f)
qed

text \<open>\<open>CompareChainStateMaps\<close> decides equality of the maps of two chain states.\<close>

theorem CompareChainStateMaps_iff: "CompareChainStateMaps x y \<longleftrightarrow> x = y"
  by (auto simp: CompareChainStateMaps_def compare_addrs_eq)

text \<open>A final block made from a proposal that validates and has a signature yields its Tier-1
  transaction: \<open>CreateTier1Transaction\<close> does not throw, the transaction carries the summary of the
  block, the address of the first signer and its signature, and it is sound.\<close>

theorem final_block_gives_tier1:
  assumes "pb_wf p" "pb_validate C keys p = Inr True" "sigs (pb_vals p) \<noteq> []"
    and "sum_encodable (pb_summary p)" "length (sum_getCanonical (pb_summary p)) < 2 ^ 62"
  shows "\<exists>tx. CreateTier1Transaction C (FinalBlock_of C now p) keys = Inr tx \<and> tx_is_sound tx \<and>
    t1_getSummary tx = Inr (pb_summary p) \<and>
    t1_getNodeAddress tx = Inr (fst (hd (sigs (pb_vals p)))) \<and>
    t1_getSignature tx = Inr (snd (hd (sigs (pb_vals p))))"
proof -
  obtain a s rest where v: "sigs (pb_vals p) = (a, s) # rest" using assms(3) by (cases "sigs (pb_vals p)") auto
  have e: "t1_encodable (pb_summary p) a s"
    using assms(1,4,5) by (simp add: t1_encodable_def pb_wf_def val_wf_def node_pairs_def v)
  have sane: "isSane (pb_summary p)" and sz: "sig_size s = 106"
    using assms(1,2) by (auto simp: pb_validate_def pb_wf_def node_pairs_def v split: if_splits)
  have "verify_sigs C keys (sum_getCanonical (pb_summary p)) (sigs (pb_vals p)) = Inr True"
    using assms(2) by (simp add: pb_validate_def split: if_splits)
  then obtain k where k: "getKey C keys a = Inr k" "VerifyByteSig C k (DevcashHash C (sum_getCanonical (pb_summary p))) s"
    unfolding verify_sigs_True v by auto
  then have "t1_isSound C keys (t1_parts (pb_summary p) a s False) = Inr True"
    by (simp add: t1_isSound_parts [OF e])
  then have "Tier1Transaction_make C (pb_summary p) s a keys = Inr (t1_parts (pb_summary p) a s True)"
    using sane sz by (simp add: Tier1Transaction_make_def t1_checked_def t1_parts_def Let_def Uint64ToBin_le)
  then show ?thesis
    using t1_parts_getters [OF e, of True]
    by (simp add: CreateTier1Transaction_def getFirstValidation_def v) (simp add: t1_parts_def)
qed

theorem final_block_gives_tier1_witness:
  "let p = ProposedBlock_make (replicate 32 7) [Tier1 sample_t1] sample_summary
             \<lparr>sigs = [(sample_node, sample_sig 5)]\<rparr> ChainState_empty in
   pb_wf p \<and> pb_validate sample_crypto sample_keys p = Inr True \<and> sigs (pb_vals p) \<noteq> [] \<and>
   (\<exists>tx. CreateTier1Transaction sample_crypto (FinalBlock_of sample_crypto 9 p) sample_keys = Inr tx \<and>
      t1_getSummary tx = Inr sample_summary)"
proof -
  define p where "p = ProposedBlock_make (replicate 32 7) [Tier1 sample_t1] sample_summary
             \<lparr>sigs = [(sample_node, sample_sig 5)]\<rparr> ChainState_empty"
  have f: "pb_vals p = \<lparr>sigs = [(sample_node, sample_sig 5)]\<rparr>" "pb_summary p = sample_summary"
    "pb_transactions p = [Tier1 sample_t1]"
    by (simp_all add: p_def ProposedBlock_make_def Let_def)
  have "addr_size sample_node = 50" "sig_size (sample_sig 5) = 106"
    by (simp_all add: addr_size_def sig_size_def sample_node_def sample_sig_def sample_der_def)
  then have wf: "pb_wf p" unfolding p_def by (intro pb_wf_make) (simp_all add: val_wf_def node_pairs_def)
  have v: "pb_validate sample_crypto sample_keys p = Inr True"
    by (simp add: pb_validate_def f sample_summary_sane getKey_def sample_keys_def KeyRing_empty_def sample_crypto_verify)
  show ?thesis
    using final_block_gives_tier1 [OF wf v, of 9] wf v
    by (auto simp: f sample_summary_length Let_def simp flip: p_def)
qed

end
