(* ===== verification/Block_Chain.thy ===== *)
theory Block_Chain
  imports Final_Block
begin

text \<open>
  \<^verbatim>\<open>consensus/blockchain.h\<close>: the chain of finalised blocks of a node and its binary dumps. The
  counters are \<^verbatim>\<open>std::atomic<int>\<close>, 32-bit words read with \<open>sint\<close>. The hash that an empty chain
  returns is an uninitialised array, so its contents are an argument.

  Dumps are read back by loops that go on while the buffer has unread bytes; the body of such a loop
  creates a block and may itself not return, so the loop is a \<open>partial_function\<close> as well.
\<close>

section \<open>State and operations\<close>

record Blockchain =
  bc_chain :: "FinalBlock list"
  bc_name :: string
  bc_chain_size :: "32 word"
  bc_num_transactions :: "32 word"

definition Blockchain_make :: "string \<Rightarrow> Blockchain" where
  "Blockchain_make name = \<lparr>bc_chain = [], bc_name = name, bc_chain_size = 0, bc_num_transactions = 0\<rparr>"

definition bc_push_back :: "FinalBlock \<Rightarrow> Blockchain \<Rightarrow> Blockchain" where
  "bc_push_back block bc =
     bc\<lparr>bc_chain := bc_chain bc @ [block], bc_chain_size := bc_chain_size bc + 1,
        bc_num_transactions := bc_num_transactions bc + ucast (fb_getNumTransactions block)\<rparr>"

definition bc_getNumTransactions :: "Blockchain \<Rightarrow> size_t" where
  "bc_getNumTransactions bc = scast (bc_num_transactions bc)"

definition bc_back :: "Blockchain \<Rightarrow> error + FinalBlock" where
  "bc_back bc = (if bc_chain bc = [] then Inl (Undefined ''back of empty vector'') else Inr (last (bc_chain bc)))"

definition bc_size :: "Blockchain \<Rightarrow> size_t" where
  "bc_size bc = scast (bc_chain_size bc)"

definition getHighestMerkleRoot :: "bytes \<Rightarrow> Blockchain \<Rightarrow> error + bytes" where
  "getHighestMerkleRoot uninitialised bc =
     (if sint (bc_chain_size bc) < 1 then Inr uninitialised
      else bindE (bc_back bc) (\<lambda>b. Inr (fb_merkle_root b)))"

definition getHighestChainState :: "Blockchain \<Rightarrow> error + ChainState" where
  "getHighestChainState bc =
     (if sint (bc_chain_size bc) < 1 then Inr ChainState_empty
      else bindE (bc_back bc) (\<lambda>b. Inr (fb_state b)))"

definition BinaryDump :: "Blockchain \<Rightarrow> bytes" where
  "BinaryDump bc = fold (\<lambda>item out. out @ fb_getCanonical item) (bc_chain bc) []"

text \<open>The loop of \<^verbatim>\<open>PartialBinaryDump\<close> over the heights \<open>start\<close>, \<open>start + 1\<close>, \<dots> below \<open>size() - 1\<close>.\<close>

definition PartialBinaryDump :: "size_t \<Rightarrow> Blockchain \<Rightarrow> error + bytes" where
  "PartialBinaryDump start bc =
     (if 0 < bc_size bc then
        foldE (\<lambda>i out. bindE (vec_at (bc_chain bc) (of_nat i)) (\<lambda>b. Inr (out @ fb_getCanonical b)))
          [unat start ..< unat (bc_size bc - 1)] []
      else Inr [])"

section \<open>Reading a dump\<close>

partial_function (option) while_unread ::
  "('s \<Rightarrow> InputBuffer \<Rightarrow> (error + ('s \<times> InputBuffer)) option) \<Rightarrow> 's \<Rightarrow> InputBuffer
   \<Rightarrow> (error + ('s \<times> InputBuffer)) option" where
  "while_unread body s ib =
     (if ib_offset ib < ib_size ib then
        Option.bind (body s ib) (\<lambda>r. case r of Inl e \<Rightarrow> Some (Inl e) | Inr (s', ib') \<Rightarrow> while_unread body s' ib')
      else Some (Inr (s, ib)))"

lemma while_unread_step:
  "ib_offset ib < ib_size ib \<Longrightarrow> body s ib = Some (Inr (s', ib')) \<Longrightarrow>
   while_unread body s ib = while_unread body s' ib'"
  by (subst while_unread.simps) simp

lemma while_unread_done:
  assumes "ib_rest ib = []" "ib_wf ib"
  shows "while_unread body s ib = Some (Inr (s, ib))"
proof -
  have "unat (ib_offset ib) = length (ib_buffer ib)" "length (ib_buffer ib) < 2 ^ 63"
    using ib_rest_length [OF assms(2)] assms by (simp_all add: ib_wf_def)
  then have "\<not> ib_offset ib < ib_size ib" by (simp add: word_less_nat_alt ib_size_def vec_size_def)
  then show ?thesis by (subst while_unread.simps) simp
qed

text \<open>A buffer that holds encoded items, none of them empty, is read to its end, one item in each round.\<close>

lemma while_unread_items:
  assumes "\<And>x s ib r. x \<in> set xs \<Longrightarrow> ib_wf ib \<Longrightarrow> ib_rest ib = enc x @ r \<Longrightarrow>
      body s ib = Some (Inr (f x s, advance (length (enc x)) ib)) \<and> enc x \<noteq> []"
    and "ib_wf ib" "ib_rest ib = concat (map enc xs)"
  shows "while_unread body s ib = Some (Inr (fold f xs s, advance (length (concat (map enc xs))) ib))"
  using assms
proof (induction xs arbitrary: s ib)
  case Nil
  then show ?case by (simp add: while_unread_done)
next
  case (Cons x xs)
  let ?n = "length (enc x)"
  have r: "ib_rest ib = enc x @ concat (map enc xs)" using Cons.prems(3) by simp
  have 1: "body s ib = Some (Inr (f x s, advance ?n ib))" and ne: "enc x \<noteq> []"
    using Cons.prems(1) [OF _ Cons.prems(2) r] by simp_all
  have "unat (ib_offset ib) < length (ib_buffer ib)"
    using ib_rest_length [OF Cons.prems(2)] r ne by simp
  then have 2: "ib_offset ib < ib_size ib"
    using Cons.prems(2) by (simp add: word_less_nat_alt ib_size_def vec_size_def ib_wf_def)
  have a: "ib_wf (advance ?n ib)" "ib_rest (advance ?n ib) = concat (map enc xs)"
    using advance_facts [OF Cons.prems(2), of ?n] r by simp_all
  have "while_unread body (f x s) (advance ?n ib) =
      Some (Inr (fold f xs (f x s), advance (length (concat (map enc xs))) (advance ?n ib)))"
    using Cons.prems(1) by (intro Cons.IH a) simp_all
  then show ?case using while_unread_step [of ib body s, OF 2 1] by simp
qed

text \<open>All blocks of a dump, read with \<open>FinalBlock::Create\<close> as the handlers of the node do.\<close>

definition read_chain :: "ChainState \<Rightarrow> InputBuffer \<Rightarrow> (error + (FinalBlock list \<times> InputBuffer)) option" where
  "read_chain prior =
     while_unread (\<lambda>blocks ib. bindP (fb_Create prior ib) (\<lambda>(b, ib). Some (Inr (blocks @ [b], ib)))) []"

section \<open>Invariant\<close>

definition bc_wf :: "Blockchain \<Rightarrow> bool" where
  "bc_wf bc = (length (bc_chain bc) < 2 ^ 31 \<and> bc_chain_size bc = of_nat (length (bc_chain bc)) \<and>
     bc_num_transactions bc = ucast (\<Sum>b\<leftarrow>bc_chain bc. fb_getNumTransactions b))"

lemma bc_wf_make [simp]: "bc_wf (Blockchain_make name)"
  by (simp add: bc_wf_def Blockchain_make_def)

lemma ucast_add_64_32: "(ucast (a + b :: 64 word) :: 32 word) = ucast a + ucast b"
  by transfer (subst (2) take_bit_add [symmetric], simp add: take_bit_add)

lemma bc_wf_push_back:
  "bc_wf bc \<Longrightarrow> length (bc_chain bc) < 2 ^ 31 - 1 \<Longrightarrow> bc_wf (bc_push_back b bc)"
  by (simp add: bc_wf_def bc_push_back_def ucast_add_64_32)

lemma bc_push_back_chain [simp]: "bc_chain (bc_push_back b bc) = bc_chain bc @ [b]"
  by (simp add: bc_push_back_def)

lemma bc_size_eq:
  assumes "bc_wf bc"
  shows "unat (bc_size bc) = length (bc_chain bc)" "sint (bc_chain_size bc) = int (length (bc_chain bc))"
proof -
  have "sint (of_nat n :: 32 word) = int n" if "n < 2 ^ 31" for n
    using that by (simp add: sint_uint signed_take_bit_int_eq_self unsigned_of_nat take_bit_nat_eq_self)
  then show s: "sint (bc_chain_size bc) = int (length (bc_chain bc))" using assms by (simp add: bc_wf_def)
  have "bc_size bc = of_nat (length (bc_chain bc))" by (simp add: bc_size_def scast_eq s)
  then show "unat (bc_size bc) = length (bc_chain bc)" using assms by (simp add: bc_wf_def)
qed

lemma bc_tip:
  assumes "bc_wf bc"
  shows "bc_chain bc = [] \<Longrightarrow> getHighestChainState bc = Inr ChainState_empty"
    and "bc_chain bc \<noteq> [] \<Longrightarrow> getHighestChainState bc = Inr (fb_state (last (bc_chain bc)))"
    and "bc_chain bc \<noteq> [] \<Longrightarrow> bc_back bc = Inr (last (bc_chain bc))"
    and "0 < bc_size bc \<longleftrightarrow> bc_chain bc \<noteq> []"
  using bc_size_eq [OF assms]
  by (auto simp: getHighestChainState_def bc_back_def word_less_nat_alt Suc_le_eq)

lemma BinaryDump_eq: "BinaryDump bc = concat (map fb_getCanonical (bc_chain bc))"
  by (simp add: BinaryDump_def fold_concat)

lemma vec_at_of_nat: "i < length xs \<Longrightarrow> length xs < 2 ^ 64 \<Longrightarrow> vec_at xs (of_nat i) = Inr (xs ! i)"
  by (simp add: vec_at_def)

lemma foldE_vec_at:
  assumes "\<forall>i \<in> set is. i < length xs" "length xs < 2 ^ 64"
  shows "foldE (\<lambda>i out. bindE (vec_at xs (of_nat i)) (\<lambda>b. Inr (out @ f b))) is out =
    Inr (out @ concat (map (\<lambda>i. f (xs ! i)) is))"
  using assms by (induction "is" arbitrary: out) (simp_all add: vec_at_of_nat)

lemma PartialBinaryDump_eq:
  assumes "bc_wf bc"
  shows "PartialBinaryDump start bc =
    Inr (concat (map fb_getCanonical (drop (unat start) (butlast (bc_chain bc)))))"
proof (cases "bc_chain bc = []")
  case True
  then show ?thesis using bc_tip(4) [OF assms] by (simp add: PartialBinaryDump_def)
next
  case False
  let ?n = "length (bc_chain bc) - 1"
  have "bc_size bc \<noteq> 0" using bc_size_eq(1) [OF assms] False by auto
  then have n: "unat (bc_size bc - 1) = ?n" using bc_size_eq(1) [OF assms] by (simp add: unat_minus_one)
  have "drop (unat start) (butlast (bc_chain bc)) = map (\<lambda>i. bc_chain bc ! i) [unat start ..< ?n]"
    by (rule nth_equalityI) (simp_all add: nth_butlast)
  moreover have "length (bc_chain bc) < 2 ^ 64" using assms by (simp add: bc_wf_def)
  moreover have "\<forall>i \<in> set [unat start ..< ?n]. i < length (bc_chain bc)" by auto
  ultimately show ?thesis
    using False bc_tip(4) [OF assms] n foldE_vec_at [of "[unat start ..< ?n]" "bc_chain bc" fb_getCanonical "[]"]
    by (simp add: PartialBinaryDump_def comp_def del: set_upt)
qed

lemma fb_getCanonical_not_Nil: "fb_getCanonical b \<noteq> []"
  by (simp add: fb_getCanonical_eq)

lemma read_chain_blocks:
  assumes "\<forall>b \<in> set bs. fb_wf b \<and> (\<forall>raw \<in> set (fb_raw_transactions b). raw_t2 raw)"
    and "length (concat (map fb_getCanonical bs)) < 2 ^ 63"
  shows "\<exists>ib'. read_chain prior (InputBuffer_make (concat (map fb_getCanonical bs)) 0) =
    Some (Inr (map (\<lambda>b. b\<lparr>fb_transactions := [], fb_state := prior\<rparr>) bs, ib'))"
proof -
  have "fold (\<lambda>b blocks. blocks @ [b\<lparr>fb_transactions := [], fb_state := prior\<rparr>]) bs acc =
      acc @ map (\<lambda>b. b\<lparr>fb_transactions := [], fb_state := prior\<rparr>) bs" for acc
    by (induction bs arbitrary: acc) simp_all
  moreover have "while_unread (\<lambda>blocks ib. bindP (fb_Create prior ib) (\<lambda>(b, ib). Some (Inr (blocks @ [b], ib)))) []
      (InputBuffer_make (concat (map fb_getCanonical bs)) 0) =
    Some (Inr (fold (\<lambda>b blocks. blocks @ [b\<lparr>fb_transactions := [], fb_state := prior\<rparr>]) bs [],
      advance (length (concat (map fb_getCanonical bs))) (InputBuffer_make (concat (map fb_getCanonical bs)) 0)))"
    using fb_Create_rest assms(1) fb_getCanonical_not_Nil
    by (intro while_unread_items ib_wf_make assms(2)) auto
  ultimately show ?thesis by (simp add: read_chain_def)
qed

section \<open>Properties\<close>

text \<open>C19. The counters of a chain follow its blocks: the number of blocks is its size, the number of
  transactions the sum over the blocks. The dump of a chain of well-formed blocks of Tier-2 transactions is read back block by block,
  and the partial dump from a height is read back to exactly the blocks from that height to the
  penultimate one; it never throws, whatever the height.\<close>

theorem chain_dump_round_trip:
  assumes "bc_wf bc" "length (BinaryDump bc) < 2 ^ 63"
    and "\<forall>b \<in> set (bc_chain bc). fb_wf b \<and> (\<forall>raw \<in> set (fb_raw_transactions b). raw_t2 raw)"
  shows "unat (bc_size bc) = length (bc_chain bc) \<and>
    (\<exists>ib'. read_chain prior (InputBuffer_make (BinaryDump bc) 0) =
       Some (Inr (map (\<lambda>b. b\<lparr>fb_transactions := [], fb_state := prior\<rparr>) (bc_chain bc), ib'))) \<and>
    (\<exists>raw ib'. PartialBinaryDump start bc = Inr raw \<and>
       read_chain prior (InputBuffer_make raw 0) =
         Some (Inr (map (\<lambda>b. b\<lparr>fb_transactions := [], fb_state := prior\<rparr>)
                     (drop (unat start) (butlast (bc_chain bc))), ib')))"
proof -
  let ?bs = "drop (unat start) (butlast (bc_chain bc))"
  have sub: "set ?bs \<subseteq> set (bc_chain bc)" by (meson in_set_butlastD in_set_dropD subsetI)
  have "length (concat (map fb_getCanonical ?bs)) \<le> length (concat (map fb_getCanonical (butlast (bc_chain bc))))"
    using append_take_drop_id [of "unat start" "butlast (bc_chain bc)"]
    by (metis concat_append le_add2 length_append map_append)
  also have "\<dots> \<le> length (BinaryDump bc)"
    by (cases "bc_chain bc" rule: rev_cases) (simp_all add: BinaryDump_eq)
  finally have len: "length (concat (map fb_getCanonical ?bs)) < 2 ^ 63" using assms(2) by simp
  have "\<forall>b \<in> set ?bs. fb_wf b \<and> (\<forall>raw \<in> set (fb_raw_transactions b). raw_t2 raw)" using sub assms(3) by blast
  then show ?thesis
    using bc_size_eq(1) [OF assms(1)] read_chain_blocks [OF assms(3)] assms(2)
      read_chain_blocks [of ?bs, OF _ len] PartialBinaryDump_eq [OF assms(1), of start]
    by (simp add: BinaryDump_eq)
qed

definition sample_chain :: Blockchain where
  "sample_chain = bc_push_back sample_final (bc_push_back sample_final (Blockchain_make ''final_chain_''))"

theorem chain_dump_round_trip_witness:
  "bc_wf sample_chain \<and> list_all fb_wf (bc_chain sample_chain) \<and> length (BinaryDump sample_chain) < 2 ^ 63 \<and>
   (\<exists>raw ib'. PartialBinaryDump 0 sample_chain = Inr raw \<and>
      read_chain ChainState_empty (InputBuffer_make raw 0) =
        Some (Inr ([sample_final\<lparr>fb_transactions := [], fb_state := ChainState_empty\<rparr>], ib')))"
proof -
  have wf: "bc_wf sample_chain" unfolding sample_chain_def
    by (intro bc_wf_push_back bc_wf_make) (simp_all add: Blockchain_make_def)
  have c: "bc_chain sample_chain = [sample_final, sample_final]" by (simp add: sample_chain_def Blockchain_make_def)
  have len: "length (BinaryDump sample_chain) < 2 ^ 63" by (simp add: BinaryDump_eq c sample_final_length)
  have "\<forall>b \<in> set (bc_chain sample_chain). fb_wf b \<and> (\<forall>raw \<in> set (fb_raw_transactions b). raw_t2 raw)"
    using sample_final_wf sample_final_raw by (simp add: c)
  from chain_dump_round_trip [OF wf len this, of ChainState_empty 0] wf len
  show ?thesis using sample_final_wf by (auto simp: c)
qed

end
