(* ===== verification/Effects.thy ===== *)
theory Effects
  imports Tx_Creation
begin

text \<open>
  Programs that change a state and may throw: the pool, the message handlers and the controllers. A
  program maps a state to its outcome and the state it leaves, which is kept when an exception is thrown;
  \<open>None\<close> means that it loops for ever. A \<^verbatim>\<open>std::lock_guard\<close> is a flag in the state that is set for the
  rest of its block and cleared when the block is left, by an exception too. Taking a mutex that the same
  thread holds, or one that is never released again, is the outcome \<open>Blocked\<close>: the thread blocks for ever and
  keeps the mutexes it holds.

  \<open>keeps P m\<close> says that \<open>m\<close> preserves \<open>P\<close> on every path, exceptions included; it composes along all of the
  program constructs, so that the invariant of a component is proved operation by operation.
\<close>

section \<open>Programs\<close>

datatype 'a outcome = Returned 'a | Thrown error | Blocked string

type_synonym ('s, 'a) prog = "'s \<Rightarrow> ('a outcome \<times> 's) option"

fun outcome_of :: "error + 'a \<Rightarrow> 'a outcome" where
  "outcome_of (Inl e) = Thrown e"
| "outcome_of (Inr x) = Returned x"

definition returnM :: "'a \<Rightarrow> ('s, 'a) prog" where
  "returnM x = (\<lambda>s. Some (Returned x, s))"

definition throwM :: "error \<Rightarrow> ('s, 'a) prog" where
  "throwM e = (\<lambda>s. Some (Thrown e, s))"

definition bindM :: "('s, 'a) prog \<Rightarrow> ('a \<Rightarrow> ('s, 'b) prog) \<Rightarrow> ('s, 'b) prog" where
  "bindM m f = (\<lambda>s. case m s of
     None \<Rightarrow> None
   | Some (Returned x, s') \<Rightarrow> f x s'
   | Some (Thrown e, s') \<Rightarrow> Some (Thrown e, s')
   | Some (Blocked n, s') \<Rightarrow> Some (Blocked n, s'))"

definition getM :: "('s \<Rightarrow> 'a) \<Rightarrow> ('s, 'a) prog" where
  "getM f = (\<lambda>s. Some (Returned (f s), s))"

definition updM :: "('s \<Rightarrow> 's) \<Rightarrow> ('s, unit) prog" where
  "updM f = (\<lambda>s. Some (Returned (), f s))"

definition liftM :: "error + 'a \<Rightarrow> ('s, 'a) prog" where
  "liftM r = (\<lambda>s. Some (outcome_of r, s))"

definition liftP :: "(error + 'a) option \<Rightarrow> ('s, 'a) prog" where
  "liftP m = (\<lambda>s. case m of None \<Rightarrow> None | Some r \<Rightarrow> Some (outcome_of r, s))"

definition whenM :: "bool \<Rightarrow> ('s, unit) prog \<Rightarrow> ('s, unit) prog" where
  "whenM b m = (if b then m else returnM ())"

text \<open>A \<^verbatim>\<open>try\<close> block: \<open>handler e\<close> is what the \<^verbatim>\<open>catch\<close> clause for \<open>e\<close> does, \<open>None\<close> if there is none.\<close>

definition catchM :: "('s, 'a) prog \<Rightarrow> (error \<Rightarrow> ('s, 'a) prog option) \<Rightarrow> ('s, 'a) prog" where
  "catchM m handler = (\<lambda>s. case m s of
     None \<Rightarrow> None
   | Some (r, s') \<Rightarrow>
       (case r of
          Thrown e \<Rightarrow> (case handler e of None \<Rightarrow> Some (r, s') | Some h \<Rightarrow> h s')
        | _ \<Rightarrow> Some (r, s')))"

fun blocked :: "'a outcome \<Rightarrow> bool" where
  "blocked (Blocked name) = True"
| "blocked r = False"

definition with_lock :: "('s \<Rightarrow> bool) \<Rightarrow> (bool \<Rightarrow> 's \<Rightarrow> 's) \<Rightarrow> string \<Rightarrow> ('s, 'a) prog \<Rightarrow> ('s, 'a) prog" where
  "with_lock held set_held name m = (\<lambda>s.
     if held s then Some (Blocked name, s)
     else case m (set_held True s) of
       None \<Rightarrow> None
     | Some (r, s') \<Rightarrow> Some (r, if blocked r then s' else set_held False s'))"

text \<open>A program on a part of the state.\<close>

definition zoomM :: "('s \<Rightarrow> 't) \<Rightarrow> ('t \<Rightarrow> 's \<Rightarrow> 's) \<Rightarrow> ('t, 'a) prog \<Rightarrow> ('s, 'a) prog" where
  "zoomM get_part set_part m = (\<lambda>s. case m (get_part s) of
     None \<Rightarrow> None
   | Some (r, t) \<Rightarrow> Some (r, set_part t s))"

fun foldM :: "('a \<Rightarrow> 'b \<Rightarrow> ('s, 'b) prog) \<Rightarrow> 'a list \<Rightarrow> 'b \<Rightarrow> ('s, 'b) prog" where
  "foldM f [] b = returnM b"
| "foldM f (x # xs) b = bindM (f x b) (foldM f xs)"

named_theorems effect_simps \<open>programs applied to a state\<close>

lemma returnM_apply [effect_simps]: "returnM x s = Some (Returned x, s)"
  by (simp add: returnM_def)

lemma throwM_apply [effect_simps]: "throwM e s = Some (Thrown e, s)"
  by (simp add: throwM_def)

lemma getM_apply [effect_simps]: "getM f s = Some (Returned (f s), s)"
  by (simp add: getM_def)

lemma updM_apply [effect_simps]: "updM f s = Some (Returned (), f s)"
  by (simp add: updM_def)

lemma liftM_apply [effect_simps]: "liftM r s = Some (outcome_of r, s)"
  by (simp add: liftM_def)

lemma liftP_Some [effect_simps]: "liftP (Some r) s = Some (outcome_of r, s)" "liftP None s = None"
  by (simp_all add: liftP_def)

lemma whenM_apply [effect_simps]: "whenM b m s = (if b then m s else Some (Returned (), s))"
  by (simp add: whenM_def returnM_def)

lemma outcome_of_inject [simp]:
  "outcome_of r = Returned x \<longleftrightarrow> r = Inr x" "outcome_of r = Thrown e \<longleftrightarrow> r = Inl e" "outcome_of r \<noteq> Blocked n"
  "Returned x = outcome_of r \<longleftrightarrow> r = Inr x" "Thrown e = outcome_of r \<longleftrightarrow> r = Inl e" "\<not> blocked (outcome_of r)"
  by (cases r; auto)+

lemma bindM_simps [effect_simps]:
  "m s = None \<Longrightarrow> bindM m f s = None"
  "m s = Some (Thrown e, s') \<Longrightarrow> bindM m f s = Some (Thrown e, s')"
  "m s = Some (Blocked n, s') \<Longrightarrow> bindM m f s = Some (Blocked n, s')"
  "m s = Some (Returned x, s') \<Longrightarrow> bindM m f s = f x s'"
  by (simp_all add: bindM_def)

lemma bindM_Some:
  "bindM m f s = Some (r, s') \<longleftrightarrow>
     (\<exists>e. m s = Some (Thrown e, s') \<and> r = Thrown e) \<or> (\<exists>n. m s = Some (Blocked n, s') \<and> r = Blocked n) \<or>
     (\<exists>x t. m s = Some (Returned x, t) \<and> f x t = Some (r, s'))"
  by (auto simp: bindM_def split: option.splits outcome.splits)

lemma bindM_Returned:
  "bindM m f s = Some (Returned y, s') \<longleftrightarrow> (\<exists>x t. m s = Some (Returned x, t) \<and> f x t = Some (Returned y, s'))"
  by (auto simp: bindM_Some)

lemma bindM_return: "bindM (returnM x) f = f x"
  by (simp add: bindM_def returnM_def)

lemma bindM_assoc: "bindM (bindM m f) g = bindM m (\<lambda>x. bindM (f x) g)"
  by (rule ext) (simp add: bindM_def split: option.split outcome.split prod.split)

lemma foldM_append: "foldM f (xs @ ys) b = bindM (foldM f xs b) (foldM f ys)"
proof (induction xs arbitrary: b)
  case (Cons x xs)
  then have "foldM f (xs @ ys) = (\<lambda>b. bindM (foldM f xs b) (foldM f ys))" by (rule ext)
  then show ?case by (simp add: bindM_assoc)
qed (simp add: bindM_return)

lemma with_lock_free [effect_simps]:
  "\<not> held s \<Longrightarrow> m (set_held True s) = Some (r, s') \<Longrightarrow>
   with_lock held set_held n m s = Some (r, if blocked r then s' else set_held False s')"
  by (simp add: with_lock_def)

lemma with_lock_held [effect_simps]: "held s \<Longrightarrow> with_lock held set_held n m s = Some (Blocked n, s)"
  by (simp add: with_lock_def)

lemma zoomM_simps [effect_simps]:
  "m (g s) = Some (r, t) \<Longrightarrow> zoomM g u m s = Some (r, u t s)" "m (g s) = None \<Longrightarrow> zoomM g u m s = None"
  by (simp_all add: zoomM_def)

section \<open>Preservation\<close>

definition keeps :: "('s \<Rightarrow> bool) \<Rightarrow> ('s, 'a) prog \<Rightarrow> bool" where
  "keeps P m = (\<forall>s r s'. P s \<longrightarrow> m s = Some (r, s') \<longrightarrow> P s')"

named_theorems keeps_intros \<open>preservation along the program constructs\<close>

lemma keepsD: "keeps P m \<Longrightarrow> P s \<Longrightarrow> m s = Some (r, s') \<Longrightarrow> P s'"
  by (auto simp: keeps_def)

lemma keeps_pure [keeps_intros]:
  "keeps P (returnM x)" "keeps P (throwM e)" "keeps P (getM f)" "keeps P (liftM r)"
  by (auto simp: keeps_def effect_simps)

lemma keeps_liftP [keeps_intros]: "keeps P (liftP m)"
  by (auto simp: keeps_def liftP_def split: option.splits)

lemma keeps_upd [keeps_intros]: "(\<And>s. P s \<Longrightarrow> P (f s)) \<Longrightarrow> keeps P (updM f)"
  by (auto simp: keeps_def effect_simps)

lemma keeps_bind [keeps_intros]: "keeps P m \<Longrightarrow> (\<And>x. keeps P (f x)) \<Longrightarrow> keeps P (bindM m f)"
  unfolding keeps_def bindM_Some by blast

text \<open>The second program may rely on what the first one returns.\<close>

lemma keeps_bind_value:
  assumes "keeps P m" "\<And>s x t. P s \<Longrightarrow> m s = Some (Returned x, t) \<Longrightarrow> Q x" "\<And>x. Q x \<Longrightarrow> keeps P (f x)"
  shows "keeps P (bindM m f)"
  using assms unfolding keeps_def bindM_Some by blast

lemma keeps_if [keeps_intros]: "(b \<Longrightarrow> keeps P m) \<Longrightarrow> (\<not> b \<Longrightarrow> keeps P n) \<Longrightarrow> keeps P (if b then m else n)"
  by simp

lemma keeps_when [keeps_intros]: "(b \<Longrightarrow> keeps P m) \<Longrightarrow> keeps P (whenM b m)"
  by (simp add: whenM_def keeps_pure)

lemma keeps_prod [keeps_intros]: "(\<And>x y. keeps P (f x y)) \<Longrightarrow> keeps P (case p of (x, y) \<Rightarrow> f x y)"
  by (cases p) simp

lemma keeps_catch [keeps_intros]:
  assumes "keeps P m" "\<And>e h. handler e = Some h \<Longrightarrow> keeps P h"
  shows "keeps P (catchM m handler)"
  unfolding keeps_def
proof (intro allI impI)
  fix s r s'
  assume "P s" and eq: "catchM m handler s = Some (r, s')"
  then obtain q t where m: "m s = Some (q, t)" by (cases "m s") (auto simp: catchM_def)
  have t: "P t" using keepsD [OF assms(1) \<open>P s\<close> m] .
  show "P s'"
  proof (cases q)
    case (Thrown e)
    then show ?thesis
      using eq m t keepsD [OF assms(2) t] by (cases "handler e") (auto simp: catchM_def)
  qed (use eq m t in \<open>simp_all add: catchM_def\<close>)
qed

lemma keeps_fold [keeps_intros]: "(\<And>x b. x \<in> set xs \<Longrightarrow> keeps P (f x b)) \<Longrightarrow> keeps P (foldM f xs b)"
proof (induction xs arbitrary: b)
  case (Cons x xs)
  then show ?case by (auto intro!: keeps_bind)
qed (simp add: keeps_pure)

lemma keeps_lock [keeps_intros]:
  assumes "keeps P m" "\<And>b s. P (set_held b s) = P s"
  shows "keeps P (with_lock held set_held n m)"
  unfolding keeps_def
proof (intro allI impI)
  fix s r s'
  assume P: "P s" and eq: "with_lock held set_held n m s = Some (r, s')"
  show "P s'"
  proof (cases "held s")
    case False
    then obtain t where m: "m (set_held True s) = Some (r, t)" and s': "s' = t \<or> s' = set_held False t"
      using eq by (cases "m (set_held True s)") (auto simp: with_lock_def split: if_splits)
    have "P (set_held True s)" using P assms(2) by blast
    then have "P t" using keepsD [OF assms(1) _ m] by blast
    then show ?thesis using s' assms(2) by blast
  qed (use P eq in \<open>simp add: with_lock_def\<close>)
qed

lemma keeps_zoom [keeps_intros]:
  assumes "keeps Q m" "\<And>s. P s \<Longrightarrow> Q (g s)" "\<And>s t. P s \<Longrightarrow> Q t \<Longrightarrow> P (u t s)"
  shows "keeps P (zoomM g u m)"
  unfolding keeps_def
proof (intro allI impI)
  fix s r s'
  assume P: "P s" and eq: "zoomM g u m s = Some (r, s')"
  then obtain t where m: "m (g s) = Some (r, t)" and s': "s' = u t s"
    by (cases "m (g s)") (auto simp: zoomM_def)
  then have "Q t" using keepsD [OF assms(1) assms(2) [OF P] m] by blast
  then show "P s'" using s' assms(3) [OF P] by blast
qed

end
