(* ===== verification/Tx_Pool.thy ===== *)
theory Tx_Pool
  imports Final_Block Effects
begin

text \<open>
  \<^verbatim>\<open>consensus/UnrecordedTransactionPool.h\<close>: the transactions a node knows and has not recorded, with
  their reference counts, and the block it currently proposes. The methods are programs over the state
  of the pool; its two mutexes are flags of that state. The timers and the pause for a low volume of
  transactions have no effect on the state. Which directory of keys the creation manager points to is
  set by every reader before it is used, so the copy held by the pool is not updated by readers.
\<close>

section \<open>State\<close>

type_synonym SharedTransaction = "byte \<times> TransactionPtr"
type_synonym TxMap = "(Signature, SharedTransaction) omap"

record UnrecordedTransactionPool =
  utp_txs :: TxMap
  utp_txs_mutex :: bool
  utp_pending :: ProposedBlock
  utp_pending_mutex :: bool
  utp_num_cum_txs :: size_t
  utp_max_tx_per_block :: size_t
  utp_tcm :: TransactionCreationManager
  utp_mode :: eAppMode

type_synonym 'a pool_prog = "(UnrecordedTransactionPool, 'a) prog"

definition UnrecordedTransactionPool_make :: "ChainState \<Rightarrow> eAppMode \<Rightarrow> size_t \<Rightarrow> UnrecordedTransactionPool" where
  "UnrecordedTransactionPool_make prior mode max_tx_per_block =
     \<lparr>utp_txs = [], utp_txs_mutex = False, utp_pending = pb_Create_prior prior, utp_pending_mutex = False,
      utp_num_cum_txs = 0, utp_max_tx_per_block = max_tx_per_block, utp_tcm = tcm_make mode, utp_mode = mode\<rparr>"

definition lock_txs :: "'a pool_prog \<Rightarrow> 'a pool_prog" where
  "lock_txs = with_lock utp_txs_mutex (\<lambda>b. utp_txs_mutex_update (\<lambda>_. b)) ''txs_mutex_''"

definition lock_pending :: "'a pool_prog \<Rightarrow> 'a pool_prog" where
  "lock_pending = with_lock utp_pending_mutex (\<lambda>b. utp_pending_mutex_update (\<lambda>_. b)) ''pending_proposal_mutex_''"

section \<open>Adding transactions\<close>

text \<open>One round of the loop of \<open>AddTransactions\<close>; \<open>all_good\<close> is the flag the method returns.\<close>

definition add_one :: "Crypto \<Rightarrow> KeyRing \<Rightarrow> TransactionPtr \<Rightarrow> bool \<Rightarrow> bool pool_prog" where
  "add_one C keys item all_good =
     bindM (liftM (tx_getSignature item)) (\<lambda>sig.
     bindM (getM utp_txs) (\<lambda>txs.
     case map_of txs sig of
       Some (n, tx) \<Rightarrow>
         bindM (updM (\<lambda>p. p\<lparr>utp_txs := omap_set sig (n + 1, tx) (utp_txs p)\<rparr>)) (\<lambda>_. returnM all_good)
     | None \<Rightarrow>
         bindM (liftM (tx_isSound C keys item)) (\<lambda>sound.
         if sound then
           bindM (updM (\<lambda>p. p\<lparr>utp_txs := omap_insert sig (1, item) (utp_txs p),
                              utp_num_cum_txs := utp_num_cum_txs p + 1\<rparr>)) (\<lambda>_. returnM all_good)
         else returnM False)))"

text \<open>The loop keeps what the rounds before an exception did; the exception is caught outside of it.\<close>

definition AddTransactions :: "Crypto \<Rightarrow> KeyRing \<Rightarrow> TransactionPtr list \<Rightarrow> bool pool_prog" where
  "AddTransactions C keys txs =
     lock_txs (catchM (foldM (add_one C keys) txs True)
       (\<lambda>e. if is_std_exception e then Some (returnM False) else None))"

definition AddTransactions_serial :: "Crypto \<Rightarrow> KeyRing \<Rightarrow> bytes \<Rightarrow> bool pool_prog" where
  "AddTransactions_serial C keys serial =
     bindM (getM utp_mode) (\<lambda>mode.
     bindM (liftP (read_while (CreateTransaction C keys mode True) (vec_size serial) (InputBuffer_make serial 0)))
       (\<lambda>(temp, _). AddTransactions C keys temp))"

text \<open>\<open>AddAndVerifyTransactions\<close> uses the entry it looked up before it compares it with \<^verbatim>\<open>end()\<close>, so
  the branch for a transaction that is not in the pool is never reached.\<close>

definition verify_one :: "Crypto \<Rightarrow> KeyRing \<Rightarrow> TransactionPtr \<Rightarrow> bool \<times> ChainState \<times> Summary
    \<Rightarrow> (bool \<times> ChainState \<times> Summary) pool_prog" where
  "verify_one C keys item = (\<lambda>(go, state, summary).
     if \<not> go then returnM (go, state, summary)
     else
       bindM (liftM (tx_getSignature item)) (\<lambda>sig.
       bindM (getM utp_txs) (\<lambda>txs.
       case map_of txs sig of
         None \<Rightarrow> throwM (Undefined ''end iterator'')
       | Some (n, tx) \<Rightarrow>
           bindM (liftM (tx_isValid C keys tx (state, summary))) (\<lambda>(valid, state, summary).
           if \<not> valid then returnM (False, state, summary)
           else bindM (updM (\<lambda>p. p\<lparr>utp_txs := omap_set sig (n + 1, tx) (utp_txs p)\<rparr>))
                  (\<lambda>_. returnM (True, state, summary))))))"

definition AddAndVerifyTransactions ::
  "Crypto \<Rightarrow> KeyRing \<Rightarrow> TransactionPtr list \<Rightarrow> ChainState \<Rightarrow> Summary \<Rightarrow> (bool \<times> ChainState \<times> Summary) pool_prog" where
  "AddAndVerifyTransactions C keys txs state summary =
     lock_txs (foldM (verify_one C keys) txs (True, state, summary))"

section \<open>Queries\<close>

definition utp_getJSON :: "string pool_prog" where
  "utp_getJSON = lock_txs (bindM (getM utp_txs) (\<lambda>txs.
     bindM (liftM (mapE (\<lambda>item. tx_getJSON (snd (snd item))) txs)) (\<lambda>js.
     returnM (''['' @ join_comma js @ '']''))))"

definition utp_getCanonical :: "bytes pool_prog" where
  "utp_getCanonical = lock_txs (bindM (getM utp_txs) (\<lambda>txs.
     returnM (fold (\<lambda>item serial. serial @ tx_getCanonical (snd (snd item))) txs [])))"

definition HasPendingTransactions :: "bool pool_prog" where
  "HasPendingTransactions = lock_txs (getM (\<lambda>p. utp_txs p \<noteq> []))"

definition NumPendingTransactions :: "size_t pool_prog" where
  "NumPendingTransactions = lock_txs (getM (\<lambda>p. vec_size (utp_txs p)))"

definition HasProposal :: "bool pool_prog" where
  "HasProposal = lock_pending (getM (\<lambda>p. \<not> pb_isNull (utp_pending p)))"

definition getProposal :: "bytes pool_prog" where
  "getProposal = lock_pending (getM (\<lambda>p. pb_getCanonical (utp_pending p)))"

section \<open>Proposals\<close>

text \<open>The loop of \<open>CollectValidTransactions\<close> over the entries of the map, in the order of their
  signatures: the valid transactions, what validating them left of the state, the summary and the
  aggregate, and the map with the incremented counts, also when an exception ends the loop.\<close>

fun collect_loop ::
  "Crypto \<Rightarrow> KeyRing \<Rightarrow> ChainState \<Rightarrow> size_t \<Rightarrow> TxMap \<Rightarrow> uint32 \<Rightarrow> ChainState \<times> Summary \<times> aggregate
   \<Rightarrow> (error + (TransactionPtr list \<times> ChainState \<times> Summary \<times> aggregate)) \<times> TxMap" where
  "collect_loop C keys prior max_tx [] num_txs s = (Inr ([], s), [])"
| "collect_loop C keys prior max_tx ((sig, n, tx) # rest) num_txs s =
     (case tx_isValidInAggregate C keys prior tx s of
        Inl e \<Rightarrow> (Inl e, (sig, n, tx) # rest)
      | Inr (b, s') \<Rightarrow>
          if b then
            (if ucast (num_txs + 1) \<ge> max_tx then (Inr ([tx], s'), (sig, n + 1, tx) # rest)
             else
               let (r, rest') = collect_loop C keys prior max_tx rest (num_txs + 1) s'
               in (bindE r (\<lambda>(valid, s''). Inr (tx # valid, s'')), (sig, n + 1, tx) # rest'))
          else
            let (r, rest') = collect_loop C keys prior max_tx rest num_txs s' in (r, (sig, n, tx) # rest'))"

definition CollectValidTransactions ::
  "Crypto \<Rightarrow> KeyRing \<Rightarrow> ChainState \<Rightarrow> Summary \<Rightarrow> (TransactionPtr list \<times> ChainState \<times> Summary) pool_prog" where
  "CollectValidTransactions C keys state summary =
     lock_txs (\<lambda>p.
       let (r, txs) = collect_loop C keys state (utp_max_tx_per_block p) (utp_txs p) 0 (state, summary, [])
       in Some (outcome_of (bindE r (\<lambda>(valid, state, summary, _). Inr (valid, state, summary))),
                p\<lparr>utp_txs := txs\<rparr>))"

definition ProposeBlock :: "Crypto \<Rightarrow> bytes \<Rightarrow> ChainState \<Rightarrow> KeyRing \<Rightarrow> DevcashContext \<Rightarrow> bool pool_prog" where
  "ProposeBlock C prev_hash prior_state keys context =
     bindM (CollectValidTransactions C keys prior_state Summary_Create) (\<lambda>(validated, new_state, summary).
     bindM (liftM (signBlock C keys context
              (ProposedBlock_make prev_hash validated summary Validation_Create new_state))) (\<lambda>(_, new_proposal).
     lock_pending (bindM (updM (\<lambda>p. p\<lparr>utp_pending := fst (shallowCopy new_proposal)\<rparr>)) (\<lambda>_. returnM True))))"

fun reverify_loop ::
  "Crypto \<Rightarrow> KeyRing \<Rightarrow> ChainState \<Rightarrow> TransactionPtr list \<Rightarrow> ChainState \<times> Summary \<times> aggregate \<Rightarrow> error + bool" where
  "reverify_loop C keys prior [] s = Inr True"
| "reverify_loop C keys prior (tx # txs) s =
     bindE (tx_isValidInAggregate C keys prior tx s) (\<lambda>(b, s').
     if \<not> b then Inr False else reverify_loop C keys prior txs s')"

definition ReverifyTransactions :: "Crypto \<Rightarrow> ChainState \<Rightarrow> KeyRing \<Rightarrow> bool pool_prog" where
  "ReverifyTransactions C prior keys =
     lock_txs (bindM (getM (\<lambda>p. pb_transactions (utp_pending p))) (\<lambda>txs.
       liftM (reverify_loop C keys prior txs (prior, Summary_Create, []))))"

definition ReverifyProposal :: "Crypto \<Rightarrow> bytes \<Rightarrow> ChainState \<Rightarrow> KeyRing \<Rightarrow> DevcashContext \<Rightarrow> bool pool_prog" where
  "ReverifyProposal C prev_hash prior keys context =
     lock_pending (bindM (getM (\<lambda>p. pb_isNull (utp_pending p))) (\<lambda>null.
       if null then returnM False
       else
         bindM (ReverifyTransactions C prior keys) (\<lambda>ok.
         if ok then
           bindM (updM (\<lambda>p. p\<lparr>utp_pending := setPrevHash prev_hash (utp_pending p)\<rparr>)) (\<lambda>_. returnM True)
         else
           bindM (ProposeBlock C prev_hash prior keys context) (\<lambda>_. returnM False))))"

text \<open>\<open>checkValidationData\<close> throws before it changes the proposal or returns the changed one.\<close>

definition CheckValidation :: "InputBuffer \<Rightarrow> DevcashContext \<Rightarrow> bool pool_prog" where
  "CheckValidation buffer context =
     lock_pending (bindM (getM utp_pending) (\<lambda>b.
       if pb_isNull b then returnM False
       else
         bindM (liftM (checkValidationData context b buffer)) (\<lambda>((ok, b'), _).
         bindM (updM (\<lambda>p. p\<lparr>utp_pending := b'\<rparr>)) (\<lambda>_. returnM ok))))"

section \<open>Finalising\<close>

definition remove_one :: "TransactionPtr \<Rightarrow> unit \<Rightarrow> unit pool_prog" where
  "remove_one item _ =
     bindM (liftM (tx_getSignature item)) (\<lambda>sig.
     updM (\<lambda>p. p\<lparr>utp_txs := omap_erase sig (utp_txs p)\<rparr>))"

definition RemoveTransactions :: "ProposedBlock \<Rightarrow> bool pool_prog" where
  "RemoveTransactions proposed =
     lock_txs (bindM (foldM remove_one (pb_transactions proposed) ()) (\<lambda>_. returnM True))"

definition FinalizeBlock :: "Crypto \<Rightarrow> uint64 \<Rightarrow> ProposedBlock \<Rightarrow> FinalBlock pool_prog" where
  "FinalizeBlock C now proposal =
     bindM (RemoveTransactions proposal) (\<lambda>_. returnM (FinalBlock_of C now proposal))"

definition FinalizeLocalBlock :: "Crypto \<Rightarrow> uint64 \<Rightarrow> FinalBlock pool_prog" where
  "FinalizeLocalBlock C now =
     lock_pending (bindM (getM utp_pending) (\<lambda>b.
       bindM (FinalizeBlock C now b) (\<lambda>final_block.
       bindM (updM (\<lambda>p. p\<lparr>utp_pending := pb_setNull (utp_pending p)\<rparr>)) (\<lambda>_. returnM final_block))))"

definition FinalizeRemoteBlock :: "Crypto \<Rightarrow> InputBuffer \<Rightarrow> ChainState \<Rightarrow> KeyRing \<Rightarrow> FinalBlock pool_prog" where
  "FinalizeRemoteBlock C buffer prior keys =
     bindM (getM utp_tcm) (\<lambda>tcm.
     bindM (liftP (FinalBlock_tcm C prior keys tcm buffer)) (\<lambda>(final, _). returnM final))"

definition GarbageCollect :: "int pool_prog" where
  "GarbageCollect = returnM 0"

section \<open>Collecting transactions\<close>

abbreviation bare :: "TxMap \<Rightarrow> (Signature \<times> TransactionPtr) list" where
  "bare txs \<equiv> map (\<lambda>(sig, n, tx). (sig, tx)) txs"

lemma collect_loop_frame:
  "collect_loop C keys prior m txs num s = (r, txs') \<Longrightarrow> bare txs' = bare txs"
  by (induction C keys prior m txs num s arbitrary: r txs' rule: collect_loop.induct)
    (auto simp: Let_def split: sum.splits prod.splits if_splits)

lemma collect_loop_sub:
  "collect_loop C keys prior m txs num s = (Inr (valid, s'), txs') \<Longrightarrow> set valid \<subseteq> (snd \<circ> snd) ` set txs"
proof (induction C keys prior m txs num s arbitrary: valid txs' rule: collect_loop.induct)
  case (2 C keys prior m sig n tx rest num s)
  obtain b s1 where v: "tx_isValidInAggregate C keys prior tx s = Inr (b, s1)"
    using "2.prems" by (auto split: sum.splits)
  show ?case
  proof (cases b)
    case False
    then show ?thesis
      using "2.prems" "2.IH"(2) [OF v refl] v by (auto simp: Let_def split: prod.splits)
  next
    case True
    then show ?thesis
      using "2.prems" "2.IH"(1) [OF v refl True] v by (fastforce simp: Let_def split: prod.splits if_splits)
  qed
qed simp

text \<open>Whatever the loop accepts or rejects, the state and the summary it leaves differ from those it
  started with by the same postings.\<close>

lemma collect_loop_posts:
  assumes "collect_loop C keys prior m txs num (st, sm, agg) = (Inr (valid, st', sm', agg'), txs')"
    and "\<forall>(sig, n, tx) \<in> set txs. postable (tx_getTransfers tx)"
  shows "\<exists>ps. st' = fold cs_post ps st \<and> sm' = fold sum_post ps sm"
  using assms
proof (induction txs arbitrary: num st sm agg valid txs')
  case Nil
  then show ?case by (auto intro: exI [of _ "[]"])
next
  case (Cons e rest)
  obtain sig n tx where e: "e = (sig, n, tx)" by (cases e)
  obtain b st1 sm1 agg1 where v: "tx_isValidInAggregate C keys prior tx (st, sm, agg) = Inr (b, st1, sm1, agg1)"
    using Cons.prems(1) e by (auto split: sum.splits)
  obtain ps where ps: "st1 = fold cs_post ps st" "sm1 = fold sum_post ps sm"
    using tx.prefix [OF v] Cons.prems(2) e by auto
  have "(st', sm') = (st1, sm1) \<or> (\<exists>num valid txs'. collect_loop C keys prior m rest num (st1, sm1, agg1) =
      (Inr (valid, st', sm', agg'), txs'))"
    using Cons.prems(1) v
    by (cases b; cases "ucast (num + 1) \<ge> m") (auto simp: e Let_def split: prod.splits)
  then show ?case
  proof
    assume "(st', sm') = (st1, sm1)"
    then show ?thesis using ps by auto
  next
    assume "\<exists>num valid txs'. collect_loop C keys prior m rest num (st1, sm1, agg1) = (Inr (valid, st', sm', agg'), txs')"
    then obtain qs where "st' = fold cs_post qs st1" "sm' = fold sum_post qs sm1"
      using Cons.IH Cons.prems(2) e by (metis (no_types, lifting) list.set_intros(2))
    then show ?thesis using ps by (intro exI [of _ "ps @ qs"]) simp
  qed
qed

lemma collect_loop_bound:
  assumes "collect_loop C keys prior m txs num s = (Inr (valid, s'), txs')" "unat num + length txs < 2 ^ 32"
    and "unat num < unat m \<or> num = 0"
  shows "unat num + length valid \<le> max 1 (unat m)"
  using assms
proof (induction C keys prior m txs num s arbitrary: valid txs' rule: collect_loop.induct)
  case (1 C keys prior m num s)
  then show ?case by auto
next
  case (2 C keys prior m sig n tx rest num s)
  obtain b s1 where v: "tx_isValidInAggregate C keys prior tx s = Inr (b, s1)"
    using "2.prems" by (auto split: sum.splits)
  have n: "unat (num + 1) = Suc (unat num)" using "2.prems"(2) by (simp add: unat_word_ariths)
  then have u: "unat (ucast (num + 1) :: 64 word) = Suc (unat num)" using unat_bound [of num]
    by (simp add: unsigned_ucast_eq take_bit_nat_eq_self)
  show ?case
  proof (cases b)
    case False
    then show ?thesis
      using "2.prems" "2.IH"(2) [OF v refl] v by (auto simp: Let_def split: prod.splits)
  next
    case True
    show ?thesis
    proof (cases "ucast (num + 1) \<ge> m")
      case le: True
      then show ?thesis using "2.prems" v True u by (auto simp: word_le_nat_alt)
    next
      case False
      then obtain valid' txs'' where r: "collect_loop C keys prior m rest (num + 1) s1 = (Inr (valid', s'), txs'')"
        and "valid = tx # valid'"
        using "2.prems"(1) v True by (auto simp: Let_def split: prod.splits sum.splits)
      moreover have "unat (num + 1) < unat m" using False u n by (simp add: word_le_nat_alt)
      moreover have "unat (num + 1) + length rest < 2 ^ 32" using "2.prems"(2) n by simp
      ultimately show ?thesis
        using "2.IH"(1) [OF v refl True False r] n by simp
    qed
  qed
qed

section \<open>Invariant\<close>

definition tx_checked :: "Crypto \<Rightarrow> KeyRing \<Rightarrow> Signature \<Rightarrow> TransactionPtr \<Rightarrow> bool" where
  "tx_checked C keys sig tx = (tx_getSignature tx = Inr sig \<and> tx_isSound C keys tx = Inr True)"

text \<open>Every transaction of the pool is stored under its own signature and is sound, and so is every
  transaction of the pending proposal.\<close>

definition pool_wf :: "Crypto \<Rightarrow> KeyRing \<Rightarrow> UnrecordedTransactionPool \<Rightarrow> bool" where
  "pool_wf C keys p =
     (omap_ok (utp_txs p) \<and> (\<forall>(sig, tx) \<in> set (bare (utp_txs p)). tx_checked C keys sig tx) \<and>
      (\<forall>tx \<in> set (pb_transactions (utp_pending p)). \<exists>sig. tx_checked C keys sig tx))"

lemma pool_wf_locks [simp]:
  "pool_wf C keys (p\<lparr>utp_txs_mutex := b\<rparr>) = pool_wf C keys p"
  "pool_wf C keys (p\<lparr>utp_pending_mutex := b\<rparr>) = pool_wf C keys p"
  by (simp_all add: pool_wf_def)

lemma pool_wf_make [simp]: "pool_wf C keys (UnrecordedTransactionPool_make prior mode n)"
  by (simp add: pool_wf_def UnrecordedTransactionPool_make_def pb_Create_prior_def)

lemma keeps_lock_txs [keeps_intros]: "keeps (pool_wf C keys) m \<Longrightarrow> keeps (pool_wf C keys) (lock_txs m)"
  unfolding lock_txs_def by (rule keeps_lock) simp_all

lemma keeps_lock_pending [keeps_intros]: "keeps (pool_wf C keys) m \<Longrightarrow> keeps (pool_wf C keys) (lock_pending m)"
  unfolding lock_pending_def by (rule keeps_lock) simp_all

lemma pool_wf_insert:
  "pool_wf C keys p \<Longrightarrow> tx_checked C keys sig tx \<Longrightarrow>
   pool_wf C keys (p\<lparr>utp_txs := omap_insert sig (n, tx) (utp_txs p), utp_num_cum_txs := k\<rparr>)"
  using set_omap_insert [of sig "(n, tx)" "utp_txs p"] by (fastforce simp: pool_wf_def)

lemma pool_wf_count:
  "pool_wf C keys p \<Longrightarrow> map_of (utp_txs p) sig = Some (n, tx) \<Longrightarrow>
   pool_wf C keys (p\<lparr>utp_txs := omap_set sig (k, tx) (utp_txs p)\<rparr>)"
  using set_omap_set [of sig "(k, tx)" "utp_txs p"] map_of_SomeD [of "utp_txs p" sig "(n, tx)"]
  by (fastforce simp: pool_wf_def)

lemma pool_wf_erase: "pool_wf C keys p \<Longrightarrow> pool_wf C keys (p\<lparr>utp_txs := omap_erase sig (utp_txs p)\<rparr>)"
  using set_omap_erase [of sig "utp_txs p"] by (fastforce simp: pool_wf_def)

lemma pool_wf_bare:
  assumes "pool_wf C keys p" "bare txs = bare (utp_txs p)"
  shows "pool_wf C keys (p\<lparr>utp_txs := txs\<rparr>)"
proof -
  have k: "map fst m = map fst (bare m)" for m :: TxMap by (induction m) auto
  have "map fst txs = map fst (utp_txs p)" using assms(2) k [of txs] k [of "utp_txs p"] by simp
  then show ?thesis using assms by (simp add: pool_wf_def)
qed

lemma pool_wf_pending:
  "pool_wf C keys p \<Longrightarrow> \<forall>tx \<in> set (pb_transactions b). \<exists>sig. tx_checked C keys sig tx \<Longrightarrow>
   pool_wf C keys (p\<lparr>utp_pending := b\<rparr>)"
  by (simp add: pool_wf_def)

text \<open>One round of \<open>AddTransactions\<close>, branch by branch.\<close>

lemma add_one_apply:
  "add_one C keys item good p = Some
     (case tx_getSignature item of
        Inl e \<Rightarrow> (Thrown e, p)
      | Inr sig \<Rightarrow>
          (case map_of (utp_txs p) sig of
             Some (n, tx) \<Rightarrow> (Returned good, p\<lparr>utp_txs := omap_set sig (n + 1, tx) (utp_txs p)\<rparr>)
           | None \<Rightarrow>
               (case tx_isSound C keys item of
                  Inl e \<Rightarrow> (Thrown e, p)
                | Inr sound \<Rightarrow>
                    if sound then (Returned good, p\<lparr>utp_txs := omap_insert sig (1, item) (utp_txs p),
                                               utp_num_cum_txs := utp_num_cum_txs p + 1\<rparr>)
                    else (Returned False, p))))"
  by (auto simp: add_one_def bindM_def effect_simps split: sum.splits option.splits)

lemma keeps_add_one [keeps_intros]: "keeps (pool_wf C keys) (add_one C keys item good)"
  unfolding keeps_def add_one_apply
  by (auto simp: pool_wf_count pool_wf_insert tx_checked_def split: sum.splits option.splits if_splits)

lemma keeps_AddTransactions [keeps_intros]: "keeps (pool_wf C keys) (AddTransactions C keys txs)"
  unfolding AddTransactions_def by (intro keeps_intros) (auto split: if_splits intro: keeps_intros)

lemma keeps_AddTransactions_serial [keeps_intros]: "keeps (pool_wf C keys) (AddTransactions_serial C keys serial)"
  unfolding AddTransactions_serial_def by (intro keeps_intros)

lemma keeps_verify_one [keeps_intros]: "keeps (pool_wf C keys) (verify_one C keys' item acc)"
  unfolding keeps_def
  by (cases acc) (auto simp: verify_one_def bindM_Some effect_simps pool_wf_count
      split: option.splits if_splits prod.splits)

lemma keeps_AddAndVerify [keeps_intros]: "keeps (pool_wf C keys) (AddAndVerifyTransactions C keys' txs st sm)"
  unfolding AddAndVerifyTransactions_def by (intro keeps_intros)

lemma lock_txs_free:
  "\<not> utp_txs_mutex p \<Longrightarrow> m (p\<lparr>utp_txs_mutex := True\<rparr>) = Some (r, q\<lparr>utp_txs_mutex := True\<rparr>) \<Longrightarrow>
   \<not> utp_txs_mutex q \<Longrightarrow> \<not> blocked r \<Longrightarrow> lock_txs m p = Some (r, q)"
  by (simp add: lock_txs_def with_lock_def)

lemma lock_pending_free:
  "\<not> utp_pending_mutex p \<Longrightarrow> m (p\<lparr>utp_pending_mutex := True\<rparr>) = Some (r, q\<lparr>utp_pending_mutex := True\<rparr>) \<Longrightarrow>
   \<not> utp_pending_mutex q \<Longrightarrow> \<not> blocked r \<Longrightarrow> lock_pending m p = Some (r, q)"
  by (simp add: lock_pending_def with_lock_def)

lemma lock_pending_held:
  "utp_pending_mutex p \<Longrightarrow> lock_pending m p = Some (Blocked ''pending_proposal_mutex_'', p)"
  by (simp add: lock_pending_def with_lock_def)

lemma Collect_apply:
  assumes "\<not> utp_txs_mutex p"
    and "collect_loop C keys st (utp_max_tx_per_block p) (utp_txs p) 0 (st, sm, []) = (r, txs)"
  shows "CollectValidTransactions C keys st sm p =
    Some (outcome_of (bindE r (\<lambda>(valid, st, sm, _). Inr (valid, st, sm))), p\<lparr>utp_txs := txs\<rparr>)"
  unfolding CollectValidTransactions_def using assms by (intro lock_txs_free) simp_all

lemma Collect_Some:
  assumes "CollectValidTransactions C keys st sm p = Some (r, p')"
  shows "utp_txs_mutex p \<and> r = Blocked ''txs_mutex_'' \<and> p' = p \<or>
    (\<exists>q txs. \<not> utp_txs_mutex p \<and> p' = p\<lparr>utp_txs := txs\<rparr> \<and>
      collect_loop C keys st (utp_max_tx_per_block p) (utp_txs p) 0 (st, sm, []) = (q, txs) \<and>
      outcome_of (bindE q (\<lambda>(valid, st, sm, _). Inr (valid, st, sm))) = r)"
proof (cases "utp_txs_mutex p")
  case True
  then show ?thesis using assms by (simp add: CollectValidTransactions_def lock_txs_def with_lock_def)
next
  case False
  obtain q txs where "collect_loop C keys st (utp_max_tx_per_block p) (utp_txs p) 0 (st, sm, []) = (q, txs)"
    by fastforce
  with Collect_apply [OF False this] False assms show ?thesis by auto
qed

lemma keeps_Collect [keeps_intros]: "keeps (pool_wf C keys) (CollectValidTransactions C keys' st sm)"
  unfolding keeps_def
proof (intro allI impI)
  fix p r p'
  assume "pool_wf C keys p" "CollectValidTransactions C keys' st sm p = Some (r, p')"
  then show "pool_wf C keys p'"
    using Collect_Some [of C keys' st sm p r p'] collect_loop_frame by (auto intro!: pool_wf_bare)
qed

lemma Collect_checked:
  assumes "pool_wf C keys p" "CollectValidTransactions C keys' st sm p = Some (Returned (valid, st', sm'), p')"
  shows "\<forall>tx \<in> set valid. \<exists>sig. tx_checked C keys sig tx"
proof -
  obtain s txs where "collect_loop C keys' st (utp_max_tx_per_block p) (utp_txs p) 0 (st, sm, []) = (Inr (valid, s), txs)"
    using Collect_Some [OF assms(2)] by auto
  then have "set valid \<subseteq> (snd \<circ> snd) ` set (utp_txs p)" by (rule collect_loop_sub)
  then show ?thesis using assms(1) by (fastforce simp: pool_wf_def)
qed

lemma signBlock_transactions:
  "signBlock C keys context b = Inr (r, b') \<Longrightarrow> pb_transactions b' = pb_transactions b \<and> pb_summary b' = pb_summary b \<and>
     pb_state b' = pb_state b \<and> pb_prev_hash b' = pb_prev_hash b"
  by (auto simp: signBlock_def Let_def)

lemma keeps_ProposeBlock [keeps_intros]:
  "keeps (pool_wf C keys) (ProposeBlock C prev_hash prior keys context)"
  unfolding ProposeBlock_def
proof (rule keeps_bind_value [where Q = "\<lambda>(valid, _). \<forall>tx \<in> set valid. \<exists>sig. tx_checked C keys sig tx"])
  show "keeps (pool_wf C keys) (CollectValidTransactions C keys prior Summary_Create)" by (rule keeps_Collect)
next
  fix p x p'
  assume "pool_wf C keys p" "CollectValidTransactions C keys prior Summary_Create p = Some (Returned x, p')"
  then show "case x of (valid, _) \<Rightarrow> \<forall>tx \<in> set valid. \<exists>sig. tx_checked C keys sig tx"
    using Collect_checked by (cases x) auto
next
  fix x :: "TransactionPtr list \<times> ChainState \<times> Summary"
  assume *: "case x of (valid, _) \<Rightarrow> \<forall>tx \<in> set valid. \<exists>sig. tx_checked C keys sig tx"
  obtain valid st sm where x: "x = (valid, st, sm)" by (cases x)
  let ?b = "ProposedBlock_make prev_hash valid sm Validation_Create st"
  have "keeps (pool_wf C keys) (bindM (liftM (signBlock C keys context ?b)) (\<lambda>(_, b).
      lock_pending (bindM (updM (\<lambda>p. p\<lparr>utp_pending := fst (shallowCopy b)\<rparr>)) (\<lambda>_. returnM True))))"
  proof (rule keeps_bind_value [where Q = "\<lambda>(_, b). pb_transactions b = valid"])
    show "keeps (pool_wf C keys) (liftM (signBlock C keys context ?b))" by (rule keeps_intros)
  next
    fix p y p'
    assume "(liftM (signBlock C keys context ?b) :: (bool \<times> ProposedBlock) pool_prog) p = Some (Returned y, p')"
    then show "case y of (_, b) \<Rightarrow> pb_transactions b = valid"
      using signBlock_transactions by (cases y) (fastforce simp: effect_simps ProposedBlock_make_def Let_def)
  next
    fix y :: "bool \<times> ProposedBlock"
    assume "case y of (_, b) \<Rightarrow> pb_transactions b = valid"
    then show "keeps (pool_wf C keys) (case y of (_, b) \<Rightarrow>
        lock_pending (bindM (updM (\<lambda>p. p\<lparr>utp_pending := fst (shallowCopy b)\<rparr>)) (\<lambda>_. returnM True)))"
      using * x by (cases y) (auto simp: shallowCopy_def intro!: keeps_intros pool_wf_pending)
  qed
  then show "keeps (pool_wf C keys) (case x of (validated, new_state, summary) \<Rightarrow>
      bindM (liftM (signBlock C keys context (ProposedBlock_make prev_hash validated summary Validation_Create new_state)))
        (\<lambda>(_, new_proposal). lock_pending (bindM (updM (\<lambda>p. p\<lparr>utp_pending := fst (shallowCopy new_proposal)\<rparr>)) (\<lambda>_. returnM True))))"
    by (simp add: x)
qed

lemma keeps_ReverifyTransactions [keeps_intros]: "keeps (pool_wf C keys) (ReverifyTransactions C prior keys')"
  unfolding ReverifyTransactions_def by (intro keeps_intros)

lemma keeps_ReverifyProposal [keeps_intros]:
  "keeps (pool_wf C keys) (ReverifyProposal C prev_hash prior keys context)"
  unfolding ReverifyProposal_def
  by (intro keeps_intros pool_wf_pending) (auto simp: pool_wf_def setPrevHash_def)

lemma checkValidationData_frame:
  "checkValidationData context b ib = Inr ((ok, b'), ib') \<Longrightarrow>
   pb_transactions b' = pb_transactions b \<and> pb_summary b' = pb_summary b \<and> pb_state b' = pb_state b \<and>
   pb_prev_hash b' = pb_prev_hash b"
  by (auto simp: checkValidationData_def reader_simps Let_def split: if_splits)

lemma keeps_CheckValidation [keeps_intros]: "keeps (pool_wf C keys) (CheckValidation buffer context)"
  unfolding CheckValidation_def
proof (rule keeps_lock_pending, unfold keeps_def, intro allI impI)
  fix p r p'
  assume wf: "pool_wf C keys p"
    and "bindM (getM utp_pending) (\<lambda>b. if pb_isNull b then returnM False
      else bindM (liftM (checkValidationData context b buffer)) (\<lambda>((ok, b'), _).
           bindM (updM (\<lambda>p. p\<lparr>utp_pending := b'\<rparr>)) (\<lambda>_. returnM ok))) p = Some (r, p')"
  then have "p' = p \<or> (\<exists>ok b' ib'. checkValidationData context (utp_pending p) buffer = Inr ((ok, b'), ib') \<and>
      p' = p\<lparr>utp_pending := b'\<rparr>)"
    by (auto simp: bindM_Some effect_simps split: if_splits)
  then show "pool_wf C keys p'"
    using wf checkValidationData_frame by (fastforce simp: pool_wf_def)
qed

lemma keeps_FinalizeBlock [keeps_intros]: "keeps (pool_wf C keys) (FinalizeBlock C now b)"
  unfolding FinalizeBlock_def RemoveTransactions_def remove_one_def by (intro keeps_intros pool_wf_erase)

lemma keeps_FinalizeLocalBlock [keeps_intros]: "keeps (pool_wf C keys) (FinalizeLocalBlock C now)"
  unfolding FinalizeLocalBlock_def
  by (intro keeps_intros pool_wf_pending) (auto simp: pool_wf_def pb_setNull_def)

lemma keeps_FinalizeRemoteBlock [keeps_intros]: "keeps P (FinalizeRemoteBlock C buffer prior keys)"
  unfolding FinalizeRemoteBlock_def by (intro keeps_intros)

lemma keeps_queries [keeps_intros]:
  "keeps (pool_wf C keys) HasPendingTransactions" "keeps (pool_wf C keys) HasProposal"
  "keeps (pool_wf C keys) getProposal"
  unfolding HasPendingTransactions_def HasProposal_def getProposal_def by (intro keeps_intros)+

section \<open>Outcomes of the operations\<close>

lemma ProposeBlock_apply:
  assumes "\<not> utp_txs_mutex p"
    and "collect_loop C keys prior (utp_max_tx_per_block p) (utp_txs p) 0 (prior, Summary_Create, []) =
      (Inr (valid, st, sm, agg), txs)"
    and "signBlock C keys context (ProposedBlock_make prev_hash valid sm Validation_Create st) = Inr (ok, b)"
  shows "ProposeBlock C prev_hash prior keys context p =
    (if utp_pending_mutex p then Some (Blocked ''pending_proposal_mutex_'', p\<lparr>utp_txs := txs\<rparr>)
     else Some (Returned True, p\<lparr>utp_txs := txs, utp_pending := b\<rparr>))"
  using Collect_apply [OF assms(1,2)] assms(3)
  by (simp add: ProposeBlock_def bindM_def effect_simps lock_pending_def with_lock_def shallowCopy_def)

lemma ProposeBlock_Returned:
  assumes "ProposeBlock C prev_hash prior keys context p = Some (Returned r, p')"
  obtains valid st sm agg txs ok b where "\<not> utp_txs_mutex p" "\<not> utp_pending_mutex p"
    "collect_loop C keys prior (utp_max_tx_per_block p) (utp_txs p) 0 (prior, Summary_Create, []) =
      (Inr (valid, st, sm, agg), txs)"
    "signBlock C keys context (ProposedBlock_make prev_hash valid sm Validation_Create st) = Inr (ok, b)"
    "p' = p\<lparr>utp_txs := txs, utp_pending := b\<rparr>" r
proof -
  obtain valid st sm q where c: "CollectValidTransactions C keys prior Summary_Create p = Some (Returned (valid, st, sm), q)"
    and s: "bindM (liftM (signBlock C keys context (ProposedBlock_make prev_hash valid sm Validation_Create st)))
      (\<lambda>(_, b). lock_pending (bindM (updM (\<lambda>p. p\<lparr>utp_pending := fst (shallowCopy b)\<rparr>)) (\<lambda>_. returnM True))) q
      = Some (Returned r, p')"
    using assms by (auto simp: ProposeBlock_def bindM_Returned)
  obtain agg txs where free: "\<not> utp_txs_mutex p"
    and l: "collect_loop C keys prior (utp_max_tx_per_block p) (utp_txs p) 0 (prior, Summary_Create, []) =
      (Inr (valid, st, sm, agg), txs)"
    using Collect_Some [OF c] by auto
  obtain ok b where b: "signBlock C keys context (ProposedBlock_make prev_hash valid sm Validation_Create st) = Inr (ok, b)"
    using s by (auto simp: bindM_Returned effect_simps)
  from ProposeBlock_apply [OF free l b] assms have "\<not> utp_pending_mutex p" "p' = p\<lparr>utp_txs := txs, utp_pending := b\<rparr>" r
    by (auto split: if_splits)
  with that free l b show thesis by blast
qed

lemma ReverifyTransactions_apply:
  "\<not> utp_txs_mutex p \<Longrightarrow> ReverifyTransactions C prior keys p =
     Some (outcome_of (reverify_loop C keys prior (pb_transactions (utp_pending p)) (prior, Summary_Create, [])), p)"
  unfolding ReverifyTransactions_def by (intro lock_txs_free) (simp_all add: bindM_def effect_simps)

lemma ReverifyProposal_ok:
  assumes "\<not> utp_txs_mutex p" "\<not> utp_pending_mutex p" "\<not> pb_isNull (utp_pending p)"
    and "reverify_loop C keys prior (pb_transactions (utp_pending p)) (prior, Summary_Create, []) = Inr True"
  shows "ReverifyProposal C prev_hash prior keys context p =
    Some (Returned True, p\<lparr>utp_pending := setPrevHash prev_hash (utp_pending p)\<rparr>)"
  unfolding ReverifyProposal_def
  using assms by (intro lock_pending_free) (simp_all add: bindM_def effect_simps ReverifyTransactions_apply)

lemma ReverifyProposal_null:
  "\<not> utp_pending_mutex p \<Longrightarrow> pb_isNull (utp_pending p) \<Longrightarrow>
   ReverifyProposal C prev_hash prior keys context p = Some (Returned False, p)"
  unfolding ReverifyProposal_def by (intro lock_pending_free) (simp_all add: bindM_def effect_simps)

lemma ReverifyProposal_throws:
  assumes "\<not> utp_txs_mutex p" "\<not> utp_pending_mutex p" "\<not> pb_isNull (utp_pending p)"
    and "reverify_loop C keys prior (pb_transactions (utp_pending p)) (prior, Summary_Create, []) = Inl e"
  shows "ReverifyProposal C prev_hash prior keys context p = Some (Thrown e, p)"
  unfolding ReverifyProposal_def
  using assms by (intro lock_pending_free) (simp_all add: bindM_def effect_simps ReverifyTransactions_apply)

text \<open>A proposal that is no longer valid: \<open>ProposeBlock\<close> is called while the mutex is held.\<close>

lemma ReverifyProposal_invalid:
  assumes "\<not> utp_txs_mutex p" "\<not> utp_pending_mutex p" "\<not> pb_isNull (utp_pending p)"
    and "reverify_loop C keys prior (pb_transactions (utp_pending p)) (prior, Summary_Create, []) = Inr False"
    and "collect_loop C keys prior (utp_max_tx_per_block p) (utp_txs p) 0 (prior, Summary_Create, []) =
      (Inr (valid, st, sm, agg), txs)"
    and "signBlock C keys context (ProposedBlock_make prev_hash valid sm Validation_Create st) = Inr (ok, b)"
  shows "ReverifyProposal C prev_hash prior keys context p =
    Some (Blocked ''pending_proposal_mutex_'', p\<lparr>utp_txs := txs, utp_pending_mutex := True\<rparr>)"
proof -
  have "ProposeBlock C prev_hash prior keys context (p\<lparr>utp_pending_mutex := True\<rparr>) =
      Some (Blocked ''pending_proposal_mutex_'', p\<lparr>utp_txs := txs, utp_pending_mutex := True\<rparr>)"
    using ProposeBlock_apply [of "p\<lparr>utp_pending_mutex := True\<rparr>", OF _ _ assms(6)] assms(1,5) by simp
  then show ?thesis
    unfolding ReverifyProposal_def
    using assms(1-4) by (simp add: lock_pending_def with_lock_def bindM_def effect_simps ReverifyTransactions_apply)
qed

text \<open>Adding sound transactions.\<close>

definition refs :: "UnrecordedTransactionPool \<Rightarrow> Signature \<Rightarrow> byte" where
  "refs p sig = (case map_of (utp_txs p) sig of None \<Rightarrow> 0 | Some (n, tx) \<Rightarrow> n)"

definition with_sig :: "Signature \<Rightarrow> TransactionPtr list \<Rightarrow> nat" where
  "with_sig sig txs = length (filter (\<lambda>tx. tx_getSignature tx = Inr sig) txs)"

lemma with_sig_simps [simp]:
  "with_sig sig [] = 0" "with_sig sig (tx # txs) = (if tx_getSignature tx = Inr sig then 1 else 0) + with_sig sig txs"
  by (simp_all add: with_sig_def)

lemma add_one_sound:
  assumes "omap_ok (utp_txs p)" "tx_checked C keys sig tx"
  shows "\<exists>p'. add_one C keys tx good p = Some (Returned good, p') \<and> omap_ok (utp_txs p') \<and>
    refs p' = (refs p)(sig := refs p sig + 1) \<and> dom (map_of (utp_txs p')) = insert sig (dom (map_of (utp_txs p))) \<and>
    utp_pending p' = utp_pending p \<and> utp_txs_mutex p' = utp_txs_mutex p \<and> utp_pending_mutex p' = utp_pending_mutex p"
  using assms
  by (cases "map_of (utp_txs p) sig")
    (auto simp: add_one_apply tx_checked_def refs_def map_of_omap_set map_of_omap_insert fun_eq_iff)

lemma add_all_sound:
  assumes "omap_ok (utp_txs p)" "\<forall>tx \<in> set txs. \<exists>sig. tx_checked C keys sig tx"
  shows "\<exists>p'. foldM (add_one C keys) txs good p = Some (Returned good, p') \<and> omap_ok (utp_txs p') \<and>
    (\<forall>sig. refs p' sig = refs p sig + of_nat (with_sig sig txs)) \<and>
    dom (map_of (utp_txs p')) = dom (map_of (utp_txs p)) \<union> {sig. \<exists>tx \<in> set txs. tx_getSignature tx = Inr sig} \<and>
    utp_pending p' = utp_pending p \<and> utp_txs_mutex p' = utp_txs_mutex p \<and> utp_pending_mutex p' = utp_pending_mutex p"
  using assms
proof (induction txs arbitrary: p)
  case (Cons tx txs)
  obtain sig where c: "tx_checked C keys sig tx" using Cons.prems(2) by auto
  then have sig: "tx_getSignature tx = Inr sig" by (simp add: tx_checked_def)
  obtain q where q: "add_one C keys tx good p = Some (Returned good, q)" "omap_ok (utp_txs q)"
    "refs q = (refs p)(sig := refs p sig + 1)" "dom (map_of (utp_txs q)) = insert sig (dom (map_of (utp_txs p)))"
    "utp_pending q = utp_pending p" "utp_txs_mutex q = utp_txs_mutex p" "utp_pending_mutex q = utp_pending_mutex p"
    using add_one_sound [OF Cons.prems(1) c, of good] by blast
  obtain r where r: "foldM (add_one C keys) txs good q = Some (Returned good, r)" "omap_ok (utp_txs r)"
    "\<forall>sig. refs r sig = refs q sig + of_nat (with_sig sig txs)"
    "dom (map_of (utp_txs r)) = dom (map_of (utp_txs q)) \<union> {sig. \<exists>tx \<in> set txs. tx_getSignature tx = Inr sig}"
    "utp_pending r = utp_pending q" "utp_txs_mutex r = utp_txs_mutex q" "utp_pending_mutex r = utp_pending_mutex q"
    using Cons.IH [OF q(2)] Cons.prems(2) by auto
  have "refs r s = refs p s + of_nat (with_sig s (tx # txs))" for s
    using r(3) q(3) sig by (auto simp: algebra_simps)
  then show ?case
    using q r sig by (auto simp: bindM_def)
qed (simp add: returnM_def)

lemma dom_erase: "omap_ok m \<Longrightarrow> map_of (omap_erase k m) = (map_of m) |` (- {k})"
  by (simp add: map_of_omap_erase restrict_map_def fun_eq_iff)

lemma remove_loop:
  assumes "\<forall>tx \<in> set txs. \<exists>sig. tx_getSignature tx = Inr sig" "omap_ok (utp_txs p)"
  shows "\<exists>m. foldM remove_one txs u p = Some (Returned (), p\<lparr>utp_txs := m\<rparr>) \<and> omap_ok m \<and>
    map_of m = map_of (utp_txs p) |` (- {sig. \<exists>tx \<in> set txs. tx_getSignature tx = Inr sig})"
  using assms
proof (induction txs arbitrary: p u)
  case Nil
  then show ?case by (intro exI [of _ "utp_txs p"]) (simp add: returnM_def restrict_map_def)
next
  case (Cons tx txs)
  obtain sig where sig: "tx_getSignature tx = Inr sig" using Cons.prems(1) by auto
  let ?q = "p\<lparr>utp_txs := omap_erase sig (utp_txs p)\<rparr>"
  obtain m where m: "foldM remove_one txs () ?q = Some (Returned (), ?q\<lparr>utp_txs := m\<rparr>)" "omap_ok m"
    "map_of m = map_of (utp_txs ?q) |` (- {sig. \<exists>tx \<in> set txs. tx_getSignature tx = Inr sig})"
    using Cons.IH [of ?q "()"] Cons.prems by auto
  have "map_of m = map_of (utp_txs p) |` (- {sig. \<exists>tx \<in> set (tx # txs). tx_getSignature tx = Inr sig})"
    using m(3) dom_erase [OF Cons.prems(2), of sig] sig by (auto simp: restrict_map_def fun_eq_iff)
  moreover have "remove_one tx u p = Some (Returned (), ?q)"
    using sig by (simp add: remove_one_def bindM_def effect_simps)
  ultimately show ?case using m(1,2) by (intro exI [of _ m]) (simp add: bindM_def)
qed

lemma FinalizeLocalBlock_apply:
  assumes "\<not> utp_txs_mutex p" "\<not> utp_pending_mutex p" "omap_ok (utp_txs p)"
    and "\<forall>tx \<in> set (pb_transactions (utp_pending p)). \<exists>sig. tx_getSignature tx = Inr sig"
  shows "\<exists>m. FinalizeLocalBlock C now p = Some (Returned (FinalBlock_of C now (utp_pending p)),
      p\<lparr>utp_txs := m, utp_pending := pb_setNull (utp_pending p)\<rparr>) \<and> omap_ok m \<and>
    map_of m = map_of (utp_txs p) |` (- {sig. \<exists>tx \<in> set (pb_transactions (utp_pending p)). tx_getSignature tx = Inr sig})"
proof -
  let ?p = "p\<lparr>utp_pending_mutex := True\<rparr>"
  obtain m where m: "foldM remove_one (pb_transactions (utp_pending p)) ()
        (?p\<lparr>utp_txs_mutex := True\<rparr>) = Some (Returned (), ?p\<lparr>utp_txs_mutex := True, utp_txs := m\<rparr>)" "omap_ok m"
    "map_of m = map_of (utp_txs p) |` (- {sig. \<exists>tx \<in> set (pb_transactions (utp_pending p)). tx_getSignature tx = Inr sig})"
    using remove_loop [OF assms(4), of "?p\<lparr>utp_txs_mutex := True\<rparr>" "()"] assms(3) by auto
  have "RemoveTransactions (utp_pending p) ?p = Some (Returned True, ?p\<lparr>utp_txs := m\<rparr>)"
    unfolding RemoveTransactions_def
    using m(1) assms(1) by (intro lock_txs_free) (simp_all add: bindM_def effect_simps)
  then have "FinalizeLocalBlock C now p = Some (Returned (FinalBlock_of C now (utp_pending p)),
      p\<lparr>utp_txs := m, utp_pending := pb_setNull (utp_pending p)\<rparr>)"
    unfolding FinalizeLocalBlock_def
    using assms(2) by (intro lock_pending_free) (simp_all add: bindM_def effect_simps FinalizeBlock_def)
  with m show ?thesis by blast
qed

lemma fresh_block_signed:
  assumes "signBlock C keys context (ProposedBlock_make h txs sm Validation_Create st) = Inr (ok, b)"
    and "kr_wf keys" "ctx_peer_count context = 3" "length h = 32"
  shows "pb_wf b \<and> length (sigs (pb_vals b)) = 1 \<and> pb_transactions b = txs \<and> pb_summary b = sm \<and> pb_state b = st \<and>
    pb_prev_hash b = h \<and> pb_version b = 0 \<and>
    (\<exists>a s k. a \<in> set (node_list keys) \<and> sigs (pb_vals b) = [(a, s)] \<and> map_of (key_map keys) a = Some k \<and>
       SignBinary C k (DevcashHash C (sum_getCanonical sm)) = Inr s)"
proof -
  let ?b = "ProposedBlock_make h txs sm Validation_Create st"
  have f: "sigs (pb_vals ?b) = []" "pb_val_count ?b = 0" "pb_transactions ?b = txs" "pb_summary ?b = sm"
    "pb_state ?b = st" "pb_prev_hash ?b = h" "pb_version ?b = 0"
    "pb_sum_size ?b = sum_getByteSize sm" "pb_tx_size ?b = vec_size (concat (map tx_getCanonical txs))"
    by (simp_all add: ProposedBlock_make_def Validation_Create_def getValidationCount_def Let_def
        tx_ptr_getByteSize_def fold_vec_size)
  obtain a k s where a: "a \<in> set (node_list keys)" "addr_wf a" "addr_size a = 50"
    and k: "map_of (key_map keys) a = Some k" and s: "sig_wf s" "sig_size s = 106"
      "SignBinary C k (DevcashHash C (sum_getCanonical sm)) = Inr s"
    and b: "b = ?b\<lparr>pb_vals := \<lparr>sigs = [(a, s)]\<rparr>, pb_val_count := 1,
       pb_num_bytes := pb_total_bytes (pb_tx_size ?b) (pb_sum_size ?b) 1\<rparr>"
    using signBlock_Inr [OF assms(1-3)] f by auto
  have "pb_wf b"
    using a s assms(4) f
    by (simp add: pb_wf_def b val_wf_def node_pairs_def getValidationCount_def pb_getRawTransactions_def)
  then show ?thesis using a k s f by (auto simp: b)
qed

section \<open>Properties\<close>

text \<open>C12. Every operation of the pool keeps its invariant, on every path, exceptions included: the map is
  ordered, every transaction is stored under its own signature and is sound, and the transactions of
  the pending proposal are sound. A new pool satisfies it.\<close>

theorem pool_invariant:
  "pool_wf C keys (UnrecordedTransactionPool_make prior mode n) \<and>
   keeps (pool_wf C keys) (AddTransactions C keys txs) \<and>
   keeps (pool_wf C keys) (AddTransactions_serial C keys serial) \<and>
   keeps (pool_wf C keys) (AddAndVerifyTransactions C keys txs st sm) \<and>
   keeps (pool_wf C keys) (ProposeBlock C prev_hash prior keys context) \<and>
   keeps (pool_wf C keys) (ReverifyProposal C prev_hash prior keys context) \<and>
   keeps (pool_wf C keys) (CheckValidation buffer context) \<and>
   keeps (pool_wf C keys) (FinalizeLocalBlock C now) \<and>
   keeps (pool_wf C keys) (FinalizeRemoteBlock C buffer prior keys)"
  by (intro conjI pool_wf_make keeps_intros)

text \<open>C11. A block that \<open>ProposeBlock\<close> makes pending is well formed, carries the given previous hash and one
  signature, and holds only transactions of the pool, no more of them than the limit for a block (at
  least one). Its summary is exactly the difference between its chain state and the state before, for
  every address and coin, although transactions that were rejected half-way have left their traces in
  both. The transactions of the pool stay the same.\<close>

theorem ProposeBlock_effect:
  assumes "ProposeBlock C prev_hash prior keys context p = Some (Returned r, p')"
    and "cs_wf prior" "kr_wf keys" "ctx_peer_count context = 3" "length prev_hash = 32"
    and "\<forall>(sig, n, tx) \<in> set (utp_txs p). postable (tx_getTransfers tx)" "length (utp_txs p) < 2 ^ 32"
  shows "r \<and> pb_wf (utp_pending p') \<and> pb_prev_hash (utp_pending p') = prev_hash \<and>
    length (sigs (pb_vals (utp_pending p'))) = 1 \<and>
    set (pb_transactions (utp_pending p')) \<subseteq> (snd \<circ> snd) ` set (utp_txs p) \<and>
    length (pb_transactions (utp_pending p')) \<le> max 1 (unat (utp_max_tx_per_block p)) \<and>
    (\<forall>a c. net_change (pb_summary (utp_pending p')) a c =
            balance (pb_state (utp_pending p')) a c - balance prior a c) \<and>
    bare (utp_txs p') = bare (utp_txs p)"
proof -
  obtain valid st sm agg txs ok b where l:
    "collect_loop C keys prior (utp_max_tx_per_block p) (utp_txs p) 0 (prior, Summary_Create, []) =
      (Inr (valid, st, sm, agg), txs)"
    and s: "signBlock C keys context (ProposedBlock_make prev_hash valid sm Validation_Create st) = Inr (ok, b)"
    and p': "p' = p\<lparr>utp_txs := txs, utp_pending := b\<rparr>" and r
    by (rule ProposeBlock_Returned [OF assms(1)])
  obtain ps where "st = fold cs_post ps prior" "sm = fold sum_post ps Summary_Create"
    using collect_loop_posts [OF l assms(6)] by blast
  then have "balance st a c - balance prior a c = net_change sm a c - net_change Summary_Create a c" for a c
    using cs_sum.in_step [OF assms(2) sum_wf_Create] by simp
  moreover have "net_change Summary_Create a c = 0" for a c
    by (simp add: net_change_def Summary_Create_def pair_change_def coin_amount_def delayed_amount_def)
  moreover have "length valid \<le> max 1 (unat (utp_max_tx_per_block p))"
    using collect_loop_bound [OF l] assms(7) by simp
  ultimately show ?thesis
    using fresh_block_signed [OF s assms(3-5)] collect_loop_sub [OF l] collect_loop_frame [OF l] \<open>r\<close>
    by (simp add: p')
qed

text \<open>A pool with the sample Tier-1 transaction.\<close>

definition sample_pool :: UnrecordedTransactionPool where
  "sample_pool = (UnrecordedTransactionPool_make ChainState_empty mode_T1 10)
     \<lparr>utp_txs := [(sample_sig 5, 1, Tier1 sample_t1)]\<rparr>"

definition sample_state :: ChainState where
  "sample_state = fold cs_post sample_postings ChainState_empty"

lemma sample_t1_xfers:
  "t1_getTransfers sample_t1 = Inr (sum_getTransfers sample_summary)" "t1_isSound C keys sample_t1 = Inr True"
  "t1_getSignature sample_t1 = Inr (sample_sig 5)"
  using t1_parts_getters [OF sample_t1_encodable, of True]
  by (simp_all add: sample_t1_def t1_getTransfers_def t1_isSound_def) (simp_all add: t1_parts_def)

lemma sample_t1_postable: "postable (tx_getTransfers (Tier1 sample_t1))"
proof -
  have "\<forall>e \<in> set (summary_map sample_summary). addr_wf (fst e)" by (simp add: sample_summary_map)
  from sum_getTransfers_postings [OF this] show ?thesis by (simp add: postable_def sample_t1_xfers)
qed

lemma sample_accepted:
  "tx_isValidInAggregate C keys prior (Tier1 sample_t1) (ChainState_empty, Summary_Create, []) =
   Inr (True, sample_state, sample_summary, [(sample_wallet, SmartCoin_make sample_wallet 1 (- 10))])"
  by (simp add: t1_isValidInAggregate_def sample_t1_xfers sum_getTransfers_def sample_summary_map catch_false_def
      commit_coins_def sum_addItem4_def Let_def sample_state_def sample_postings_def)
    (simp add: sample_summary_def)

lemma sample_collect:
  "collect_loop C keys ChainState_empty (utp_max_tx_per_block sample_pool) (utp_txs sample_pool) 0
     (ChainState_empty, Summary_Create, []) =
   (Inr ([Tier1 sample_t1], sample_state, sample_summary, [(sample_wallet, SmartCoin_make sample_wallet 1 (- 10))]),
    [(sample_sig 5, 2, Tier1 sample_t1)])"
  using sample_accepted [of C keys ChainState_empty]
  by (simp add: sample_pool_def UnrecordedTransactionPool_make_def)

lemma sample_sign:
  "signBlock sample_crypto sample_keys sample_context (ProposedBlock_make h txs sm Validation_Create st) =
   Inr (True, ProposedBlock_make h txs sm \<lparr>sigs = [(sample_node, sample_sig 5)]\<rparr> st)"
proof -
  have "ucast (get_current_node sample_context) mod ctx_peer_count sample_context = (0 :: size_t)"
    by (simp add: get_current_node_def sample_context_def DevcashContext_make_def Let_def)
  moreover have "addr_size sample_node = 50" "sig_size (sample_sig 5) = 106"
    by (simp_all add: addr_size_def sig_size_def sample_node_def sample_sig_def sample_der_def)
  ultimately show ?thesis
    by (simp add: signBlock_def Let_def getNodeAddr_def vec_at_def getNodeKey_def sample_keys_def
        KeyRing_empty_def sample_crypto_sign addValidation_def ProposedBlock_make_def Validation_Create_def
        getValidationCount_def)
qed

definition sample_proposal :: "bytes \<Rightarrow> ProposedBlock" where
  "sample_proposal h = ProposedBlock_make h [Tier1 sample_t1] sample_summary \<lparr>sigs = [(sample_node, sample_sig 5)]\<rparr> sample_state"

lemma sample_propose:
  "ProposeBlock sample_crypto h ChainState_empty sample_keys sample_context sample_pool =
   Some (Returned True, sample_pool\<lparr>utp_txs := [(sample_sig 5, 2, Tier1 sample_t1)], utp_pending := sample_proposal h\<rparr>)"
  using ProposeBlock_apply [of sample_pool, OF _ sample_collect sample_sign]
  by (simp add: sample_proposal_def) (simp add: sample_pool_def UnrecordedTransactionPool_make_def)

theorem ProposeBlock_effect_witness:
  "\<exists>p'. ProposeBlock sample_crypto (replicate 32 7) ChainState_empty sample_keys sample_context sample_pool = Some (Returned True, p') \<and>
     cs_wf ChainState_empty \<and> kr_wf sample_keys \<and> pb_wf (utp_pending p') \<and>
     net_change (pb_summary (utp_pending p')) sample_wallet 1 = balance (pb_state (utp_pending p')) sample_wallet 1"
  using ProposeBlock_effect [OF sample_propose [of "replicate 32 7"]] sample_propose [of "replicate 32 7"]
    sample_t1_postable
  by (simp add: sample_pool_def UnrecordedTransactionPool_make_def)

text \<open>C14. \<open>AddTransactions\<close> on sound transactions adds for each of them one reference to its signature, modulo
  256, and new entries for the signatures it did not know. If a transaction follows whose signature cannot
  be read, or which is new and whose soundness check throws, as that of Tier-2 transactions does for
  unsound ones, then the exception is caught, the result is false, the transactions before it stay added,
  and those after it are not looked at.\<close>

theorem AddTransactions_effect:
  assumes "\<not> utp_txs_mutex p" "omap_ok (utp_txs p)" "\<forall>tx \<in> set good. \<exists>sig. tx_checked C keys sig tx"
    and "rest = [] \<or> (\<exists>e. is_std_exception e \<and> (tx_getSignature (hd rest) = Inl e \<or>
      (\<exists>sig. tx_getSignature (hd rest) = Inr sig \<and> map_of (utp_txs p) sig = None \<and> with_sig sig good = 0 \<and>
        tx_isSound C keys (hd rest) = Inl e)))"
  shows "\<exists>p'. AddTransactions C keys (good @ rest) p = Some (Returned (rest = []), p') \<and>
    (\<forall>sig. refs p' sig = refs p sig + of_nat (with_sig sig good)) \<and>
    dom (map_of (utp_txs p')) = dom (map_of (utp_txs p)) \<union> {sig. \<exists>tx \<in> set good. tx_getSignature tx = Inr sig} \<and>
    utp_pending p' = utp_pending p"
proof -
  let ?p = "p\<lparr>utp_txs_mutex := True\<rparr>"
  have refs: "refs (q\<lparr>utp_txs_mutex := b\<rparr>) = refs q" for q b by (simp add: refs_def fun_eq_iff)
  obtain q where q: "foldM (add_one C keys) good True ?p = Some (Returned True, q)"
    "\<forall>sig. refs q sig = refs p sig + of_nat (with_sig sig good)"
    "dom (map_of (utp_txs q)) = dom (map_of (utp_txs p)) \<union> {sig. \<exists>tx \<in> set good. tx_getSignature tx = Inr sig}"
    "utp_pending q = utp_pending p" "utp_txs_mutex q"
    using add_all_sound [of ?p good C keys True] assms(2,3) by (auto simp: refs)
  have r: "catchM (foldM (add_one C keys) (good @ rest) True)
      (\<lambda>e. if is_std_exception e then Some (returnM False) else None) ?p = Some (Returned (rest = []), q)"
  proof (cases rest)
    case (Cons tx txs)
    have new: "map_of (utp_txs q) sig = None" if "map_of (utp_txs p) sig = None" "with_sig sig good = 0" for sig
      using q(3) that by (auto simp: domIff with_sig_def filter_empty_conv)
    have "\<exists>e. is_std_exception e \<and> add_one C keys tx True q = Some (Thrown e, q)"
      using assms(4) new by (auto simp: Cons add_one_apply)
    then show ?thesis
      using q(1) by (auto simp: Cons foldM_append catchM_def bindM_def effect_simps)
  qed (use q(1) in \<open>simp add: catchM_def\<close>)
  have "AddTransactions C keys (good @ rest) p = Some (Returned (rest = []), q\<lparr>utp_txs_mutex := False\<rparr>)"
    unfolding AddTransactions_def using assms(1) r q(5) by (intro lock_txs_free) simp_all
  then show ?thesis using q(2-4) by (auto simp: refs)
qed

text \<open>A Tier-2 transaction with a privileged operation of a wallet.\<close>

definition sample_unsound :: Tier2Transaction where
  "sample_unsound = t2_parts eModify sample_xfers sample_nonce (sig_canonical (sample_sig 7)) False"

lemma sample_unsound:
  "t2_getSignature sample_unsound = Inr (sample_sig 7)"
  "\<exists>s. t2_isSound sample_crypto keys sample_unsound = Inl (RuntimeError s)"
proof -
  have "sig_fits eModify (sample_sig 7)"
    by (simp add: sig_fits_def sample_sig_def sample_der_def sig_size_def sig_wf_def)
  then show "t2_getSignature sample_unsound = Inr (sample_sig 7)"
    by (simp add: sample_unsound_def t2_getSignature_parts)
  have "length (sig_canonical (sample_sig 7)) < 2 ^ 60" by (simp add: sample_sig_def sample_der_def)
  moreover have "foldE t2_sender_step sample_xfers (0, False, Address_default) = Inr (0, True, sample_wallet)"
    by (simp add: sample_xfers_def sample_xfer_def sample_xfer2_def)
  moreover have "\<not> isINN sample_wallet" by (simp add: isINN_def isNodeAddress_def addr_isNull_def sample_wallet_def)
  ultimately show "\<exists>s. t2_isSound sample_crypto keys sample_unsound = Inl (RuntimeError s)"
    by (simp add: sample_unsound_def t2_isSound_parts)
qed

theorem AddTransactions_effect_witness:
  "\<exists>p'. AddTransactions sample_crypto sample_keys ([Tier1 sample_t1, Tier1 sample_t1] @ [Tier2 sample_unsound]) sample_pool
     = Some (Returned False, p') \<and> refs p' (sample_sig 5) = 3 \<and> refs sample_pool (sample_sig 5) = 1"
proof -
  have "tx_checked sample_crypto sample_keys (sample_sig 5) (Tier1 sample_t1)"
    by (simp add: tx_checked_def sample_t1_xfers)
  moreover have "\<not> utp_txs_mutex sample_pool" "refs sample_pool (sample_sig 5) = 1" "omap_ok (utp_txs sample_pool)"
    by (simp_all add: sample_pool_def UnrecordedTransactionPool_make_def refs_def)
  moreover have "sample_sig 7 \<noteq> sample_sig 5" by (simp add: sample_sig_def sample_der_def)
  moreover from this have "map_of (utp_txs sample_pool) (sample_sig 7) = None"
    by (simp add: sample_pool_def UnrecordedTransactionPool_make_def)
  moreover obtain s where "t2_isSound sample_crypto sample_keys sample_unsound = Inl (RuntimeError s)"
    using sample_unsound(2) by blast
  then have "\<exists>e. is_std_exception e \<and> t2_isSound sample_crypto sample_keys sample_unsound = Inl e"
    by (intro exI [of _ "RuntimeError s"]) simp
  moreover have "\<exists>sig. tx_checked sample_crypto sample_keys sig (Tier1 sample_t1)" using calculation(1) by blast
  ultimately show ?thesis
    using AddTransactions_effect [of sample_pool "[Tier1 sample_t1, Tier1 sample_t1]" sample_crypto sample_keys "[Tier2 sample_unsound]"]
    by (auto simp: sample_t1_xfers sample_unsound(1))
qed

text \<open>C15. All outcomes of \<open>ReverifyProposal\<close>. Without a proposal it returns false. If all transactions are
  still valid it only replaces the previous hash: the chain state of the proposal, its summary and its
  signatures stay those of the old proposal. If a transaction is no longer valid it calls \<open>ProposeBlock\<close>
  while it holds the mutex that \<open>ProposeBlock\<close> locks, so the thread blocks for ever and keeps the mutex.\<close>

theorem ReverifyProposal_outcomes:
  assumes "\<not> utp_txs_mutex p" "\<not> utp_pending_mutex p"
    and "collect_loop C keys prior (utp_max_tx_per_block p) (utp_txs p) 0 (prior, Summary_Create, []) =
      (Inr (valid, st, sm, agg), txs)"
    and "signBlock C keys context (ProposedBlock_make prev_hash valid sm Validation_Create st) = Inr (ok, b)"
  shows "ReverifyProposal C prev_hash prior keys context p = Some
    (if pb_isNull (utp_pending p) then (Returned False, p)
     else case reverify_loop C keys prior (pb_transactions (utp_pending p)) (prior, Summary_Create, []) of
       Inl e \<Rightarrow> (Thrown e, p)
     | Inr still_valid \<Rightarrow>
         if still_valid then (Returned True, p\<lparr>utp_pending := (utp_pending p)\<lparr>pb_prev_hash := prev_hash\<rparr>\<rparr>)
         else (Blocked ''pending_proposal_mutex_'', p\<lparr>utp_txs := txs, utp_pending_mutex := True\<rparr>))"
  using assms ReverifyProposal_null [of p] ReverifyProposal_ok [of p] ReverifyProposal_throws [of p]
    ReverifyProposal_invalid [of p]
  by (auto simp: setPrevHash_def split: sum.splits)

definition sample_double :: UnrecordedTransactionPool where
  "sample_double = sample_pool\<lparr>utp_pending := ProposedBlock_make (replicate 32 7) [Tier1 sample_t1, Tier1 sample_t1]
     sample_summary Validation_Create ChainState_empty\<rparr>"

lemma sample_double_invalid:
  "reverify_loop C keys ChainState_empty [Tier1 sample_t1, Tier1 sample_t1] (ChainState_empty, Summary_Create, []) = Inr False"
proof -
  have "getAmount 1 sample_wallet ChainState_empty = Inr 0" by (simp add: getAmount_def ChainState_empty_def)
  then show ?thesis
    using sample_accepted [of C keys ChainState_empty]
    by (simp add: t1_isValidInAggregate_def sample_t1_xfers sum_getTransfers_def sample_summary_map catch_false_def
        commit_coins_def Let_def SmartCoin_make_def)
qed

theorem ReverifyProposal_outcomes_witness:
  "\<exists>p'. ReverifyProposal sample_crypto (replicate 32 8) ChainState_empty sample_keys sample_context sample_double =
     Some (Blocked ''pending_proposal_mutex_'', p')"
proof -
  have c: "collect_loop sample_crypto sample_keys ChainState_empty (utp_max_tx_per_block sample_double)
      (utp_txs sample_double) 0 (ChainState_empty, Summary_Create, []) =
    (Inr ([Tier1 sample_t1], sample_state, sample_summary, [(sample_wallet, SmartCoin_make sample_wallet 1 (- 10))]),
     [(sample_sig 5, 2, Tier1 sample_t1)])"
    using sample_collect [of sample_crypto sample_keys] by (simp add: sample_double_def)
  have f: "pb_transactions (utp_pending sample_double) = [Tier1 sample_t1, Tier1 sample_t1]"
    "\<not> pb_isNull (utp_pending sample_double)" "\<not> utp_txs_mutex sample_double" "\<not> utp_pending_mutex sample_double"
    by (simp_all add: sample_double_def ProposedBlock_make_def Let_def pb_isNull_def pb_total_bytes_def pb_MinSize_def
        tx_ptr_getByteSize_def vec_size_def sample_t1_length sum_getByteSize_def sample_summary_length
        getValidationCount_def Validation_Create_def sample_pool_def UnrecordedTransactionPool_make_def)
  show ?thesis
    using ReverifyProposal_outcomes [OF f(3,4) c sample_sign, of "replicate 32 8"]
    by (simp add: f(1,2) sample_double_invalid del: reverify_loop.simps)
qed

text \<open>C16. If none of the pending transactions is valid, \<open>ProposeBlock\<close> proposes a block without transactions. The
  pool counts it as a proposal; every validator that checks it finds it invalid; and every later
  \<open>ReverifyProposal\<close> confirms it with a new previous hash, so that the pool never proposes anything else.\<close>

theorem empty_proposal_sticks:
  assumes "\<not> utp_txs_mutex p" "\<not> utp_pending_mutex p"
    and "collect_loop C keys prior (utp_max_tx_per_block p) (utp_txs p) 0 (prior, Summary_Create, []) =
      (Inr ([], st, sm, agg), txs)"
    and "signBlock C keys context (ProposedBlock_make prev_hash [] sm Validation_Create st) = Inr (ok, b)"
    and "kr_wf keys" "ctx_peer_count context = 3" "length prev_hash = 32" "length (sum_getCanonical sm) < 2 ^ 62"
  shows "\<exists>p'. ProposeBlock C prev_hash prior keys context p = Some (Returned True, p') \<and> HasProposal p' = Some (Returned True, p') \<and>
    pb_transactions (utp_pending p') = [] \<and> pb_validate C' keys' (utp_pending p') = Inr False \<and>
    (\<exists>p''. ReverifyProposal C prev_hash' prior' keys context p' = Some (Returned True, p'') \<and> HasProposal p'' = Some (Returned True, p'') \<and>
       pb_transactions (utp_pending p'') = [] \<and> utp_txs p'' = utp_txs p')"
proof -
  let ?p' = "p\<lparr>utp_txs := txs, utp_pending := b\<rparr>"
  let ?p'' = "?p'\<lparr>utp_pending := setPrevHash prev_hash' b\<rparr>"
  note b = fresh_block_signed [OF assms(4-7)]
  have "pb_num_bytes b = 61 + of_nat (length (sum_getCanonical sm)) + 156"
    using b by (simp add: pb_wf_def pb_getRawTransactions_def vec_size_def sum_getByteSize_def getValidationCount_def
        pb_total_bytes_def pb_MinSize_def pairSize_def)
  then have n: "pb_num_bytes b = 217 + of_nat (length (sum_getCanonical sm))" by simp
  have "unat (217 :: 64 word) + length (sum_getCanonical sm) < 2 ^ 64" using assms(8) by simp
  then have "unat (pb_num_bytes b) = unat (217 :: 64 word) + length (sum_getCanonical sm)"
    unfolding n by (rule unat_add_of_nat_64)
  then have null: "\<not> pb_isNull b" by (simp add: pb_isNull_def pb_MinSize_def word_less_nat_alt)
  have has: "HasProposal q = Some (Returned (\<not> pb_isNull (utp_pending q)), q)" if "\<not> utp_pending_mutex q" for q
    unfolding HasProposal_def using that by (intro lock_pending_free) (simp_all add: effect_simps)
  have "ReverifyProposal C prev_hash' prior' keys context ?p' = Some (Returned True, ?p'')"
    using ReverifyProposal_ok [of ?p' C keys prior' prev_hash' "context"] assms(1,2) null b by simp
  moreover have "ProposeBlock C prev_hash prior keys context p = Some (Returned True, ?p')"
    using ProposeBlock_apply [OF assms(1,3,4)] assms(2) by simp
  moreover have "pb_validate C' keys' b = Inr False" using b by (simp add: pb_validate_def)
  moreover have "\<not> pb_isNull (setPrevHash prev_hash' b)" using null by (simp add: pb_isNull_def setPrevHash_def)
  ultimately show ?thesis
    using null b has [of ?p'] has [of ?p''] assms(2) by (auto simp: setPrevHash_def)
qed

theorem empty_proposal_sticks_witness:
  "\<exists>p'. ProposeBlock sample_crypto (replicate 32 7) ChainState_empty sample_keys sample_context
       (UnrecordedTransactionPool_make ChainState_empty mode_T2 10) = Some (Returned True, p') \<and>
     kr_wf sample_keys \<and> pb_validate sample_crypto sample_keys (utp_pending p') = Inr False"
proof -
  let ?p = "UnrecordedTransactionPool_make ChainState_empty mode_T2 10"
  have c: "collect_loop sample_crypto sample_keys ChainState_empty (utp_max_tx_per_block ?p) (utp_txs ?p) 0
      (ChainState_empty, Summary_Create, []) = (Inr ([], ChainState_empty, Summary_Create, []), [])"
    by (simp add: UnrecordedTransactionPool_make_def)
  have "\<not> utp_txs_mutex ?p" "\<not> utp_pending_mutex ?p" by (simp_all add: UnrecordedTransactionPool_make_def)
  moreover have "length (sum_getCanonical Summary_Create) < 2 ^ 62"
    by (simp add: sum_getCanonical_eq Summary_Create_def)
  ultimately show ?thesis
    using empty_proposal_sticks [OF _ _ c sample_sign, of "replicate 32 7"] by fastforce
qed

text \<open>C13. \<open>FinalizeLocalBlock\<close> returns the final block of the pending proposal, removes exactly its transactions
  from the pool, whatever their reference counts are, and leaves no proposal behind.\<close>

theorem FinalizeLocalBlock_effect:
  assumes "\<not> utp_txs_mutex p" "\<not> utp_pending_mutex p" "pool_wf C keys p"
  shows "\<exists>p'. FinalizeLocalBlock C now p = Some (Returned (FinalBlock_of C now (utp_pending p)), p') \<and>
    map_of (utp_txs p') = map_of (utp_txs p) |`
      (- {sig. \<exists>tx \<in> set (pb_transactions (utp_pending p)). tx_getSignature tx = Inr sig}) \<and>
    pb_isNull (utp_pending p') \<and> pool_wf C keys p'"
proof -
  have sig: "\<forall>tx \<in> set (pb_transactions (utp_pending p)). \<exists>sig. tx_getSignature tx = Inr sig" and ok: "omap_ok (utp_txs p)"
    using assms(3) by (auto simp: pool_wf_def tx_checked_def)
  obtain m where m: "FinalizeLocalBlock C now p = Some (Returned (FinalBlock_of C now (utp_pending p)),
      p\<lparr>utp_txs := m, utp_pending := pb_setNull (utp_pending p)\<rparr>)"
    "map_of m = map_of (utp_txs p) |` (- {sig. \<exists>tx \<in> set (pb_transactions (utp_pending p)). tx_getSignature tx = Inr sig})"
    using FinalizeLocalBlock_apply [OF assms(1,2) ok sig, of C now] by blast
  have "pool_wf C keys (p\<lparr>utp_txs := m, utp_pending := pb_setNull (utp_pending p)\<rparr>)"
    using keepsD [OF keeps_FinalizeLocalBlock assms(3) m(1)] .
  then show ?thesis using m by (auto simp: pb_isNull_def pb_setNull_def pb_MinSize_def)
qed

theorem FinalizeLocalBlock_effect_witness:
  "let p = sample_pool\<lparr>utp_pending := sample_proposal (replicate 32 7)\<rparr> in
   pool_wf sample_crypto sample_keys p \<and>
   (\<exists>p'. FinalizeLocalBlock sample_crypto 9 p =
       Some (Returned (FinalBlock_of sample_crypto 9 (sample_proposal (replicate 32 7))), p') \<and>
      map_of (utp_txs p') (sample_sig 5) = None)"
proof -
  let ?p = "sample_pool\<lparr>utp_pending := sample_proposal (replicate 32 7)\<rparr>"
  have wf: "pool_wf sample_crypto sample_keys ?p"
    by (simp add: pool_wf_def sample_pool_def UnrecordedTransactionPool_make_def tx_checked_def sample_t1_xfers
        sample_proposal_def ProposedBlock_make_def Let_def)
  have "\<not> utp_txs_mutex ?p" "\<not> utp_pending_mutex ?p"
    by (simp_all add: sample_pool_def UnrecordedTransactionPool_make_def)
  from FinalizeLocalBlock_effect [OF this wf, of 9] wf show ?thesis
    by (auto simp: sample_proposal_def ProposedBlock_make_def Let_def sample_t1_xfers restrict_map_def)
qed

end
