(* ===== verification/Messages.thy ===== *)
theory Messages
  imports Input_Buffer
begin

text \<open>
  \<^verbatim>\<open>types/DevcashMessage.h\<close>: the messages that nodes exchange and their wire format. Scalars are copied
  as they are in memory, in little-endian order. Sizes and positions are \<^verbatim>\<open>unsigned int\<close>, 32-bit words
  whose sums wrap around; a failed \<^verbatim>\<open>assert\<close> is \<open>Aborted\<close>.
\<close>

section \<open>Messages\<close>

text \<open>The enumerators, and \<open>unnamed_type\<close> for the other values that copying four bytes can produce.\<close>

datatype eMessageType =
    FINAL_BLOCK
  | PROPOSAL_BLOCK
  | TRANSACTION_ANNOUNCEMENT
  | VALID
  | REQUEST_BLOCK
  | GET_BLOCKS_SINCE
  | BLOCKS_SINCE
  | NUM_TYPES
  | unnamed_type uint32

fun message_type_value :: "eMessageType \<Rightarrow> uint32" where
  "message_type_value FINAL_BLOCK = 0"
| "message_type_value PROPOSAL_BLOCK = 1"
| "message_type_value TRANSACTION_ANNOUNCEMENT = 2"
| "message_type_value VALID = 3"
| "message_type_value REQUEST_BLOCK = 4"
| "message_type_value GET_BLOCKS_SINCE = 5"
| "message_type_value BLOCKS_SINCE = 6"
| "message_type_value NUM_TYPES = 7"
| "message_type_value (unnamed_type v) = v"

definition message_type_of :: "uint32 \<Rightarrow> eMessageType" where
  "message_type_of v =
     (if v = 0 then FINAL_BLOCK else if v = 1 then PROPOSAL_BLOCK else if v = 2 then TRANSACTION_ANNOUNCEMENT
      else if v = 3 then VALID else if v = 4 then REQUEST_BLOCK else if v = 5 then GET_BLOCKS_SINCE
      else if v = 6 then BLOCKS_SINCE else if v = 7 then NUM_TYPES else unnamed_type v)"

record DevcashMessage =
  msg_uri :: string
  msg_type :: eMessageType
  msg_data :: bytes
  msg_index :: uint32

definition DevcashMessage_index :: "uint32 \<Rightarrow> DevcashMessage" where
  "DevcashMessage_index message_index =
     \<lparr>msg_uri = [], msg_type = VALID, msg_data = [], msg_index = message_index\<rparr>"

definition DevcashMessage_make :: "string \<Rightarrow> eMessageType \<Rightarrow> bytes \<Rightarrow> uint32 \<Rightarrow> DevcashMessage" where
  "DevcashMessage_make uri ty data index =
     \<lparr>msg_uri = uri, msg_type = ty, msg_data = data, msg_index = index\<rparr>"

definition DevcashMessage_string :: "string \<Rightarrow> eMessageType \<Rightarrow> string \<Rightarrow> uint32 \<Rightarrow> DevcashMessage" where
  "DevcashMessage_string uri ty data index =
     \<lparr>msg_uri = uri, msg_type = ty, msg_data = Str2Bin data, msg_index = index\<rparr>"

text \<open>\<open>object\<close> is the object as it is in memory, \<open>n\<close> the size of the object that is read. The index is a
  signed \<^verbatim>\<open>int\<close>.\<close>

definition SetData :: "bytes \<Rightarrow> DevcashMessage \<Rightarrow> DevcashMessage" where
  "SetData object msg = msg\<lparr>msg_data := object\<rparr>"

definition GetData :: "size_t \<Rightarrow> uint32 \<Rightarrow> DevcashMessage \<Rightarrow> error + bytes" where
  "GetData n index msg =
     (if vec_size (msg_data msg) < n + scast index then Inl (Aborted ''GetData'')
      else vec_range (msg_data msg) (unat (scast index :: size_t)) (unat n))"

definition GetMessageType :: "DevcashMessage \<Rightarrow> string" where
  "GetMessageType message =
     (case msg_type message of
        FINAL_BLOCK \<Rightarrow> ''FINAL_BLOCK''
      | PROPOSAL_BLOCK \<Rightarrow> ''PROPOSAL_BLOCK''
      | TRANSACTION_ANNOUNCEMENT \<Rightarrow> ''TRANSACTION_ANNOUNCEMENT''
      | VALID \<Rightarrow> ''VALID''
      | REQUEST_BLOCK \<Rightarrow> ''REQUEST_BLOCK''
      | GET_BLOCKS_SINCE \<Rightarrow> ''GET_BLOCKS_SINCE''
      | BLOCKS_SINCE \<Rightarrow> ''BLOCKS_SINCE''
      | _ \<Rightarrow> ''ERROR_DEFAULT'')"

section \<open>Serialisation\<close>

text \<open>\<open>append\<close> of a scalar: the position is cut to 32 bits, the buffer resized to end behind the object and
  the object copied there. The overloads for strings and vectors append their size as a scalar first.\<close>

definition append_scalar :: "bytes \<Rightarrow> bytes \<Rightarrow> bytes" where
  "append_scalar object buf = take (unat (of_nat (length buf) :: uint32)) buf @ object"

definition append_string :: "string \<Rightarrow> bytes \<Rightarrow> bytes" where
  "append_string str buf = append_scalar (le32 (of_nat (length str))) buf @ Str2Bin str"

definition append_vector :: "bytes \<Rightarrow> bytes \<Rightarrow> bytes" where
  "append_vector vec buf = append_scalar (le32 (of_nat (length vec))) buf @ vec"

definition kMSG_HEADER :: byte where
  "kMSG_HEADER = 52"

definition serialize :: "DevcashMessage \<Rightarrow> bytes" where
  "serialize msg =
     (let bs = append_scalar [kMSG_HEADER] [];
          bs = append_scalar (le32 (msg_index msg)) bs;
          bs = append_scalar (le32 (message_type_value (msg_type msg))) bs;
          bs = append_string (msg_uri msg) bs
      in append_vector (msg_data msg) bs)"

section \<open>Deserialisation\<close>

text \<open>\<open>extract\<close> of a scalar of \<open>n\<close> bytes. The check adds a \<^verbatim>\<open>size_t\<close>, the returned index is cut to 32 bits.\<close>

definition extract_scalar :: "nat \<Rightarrow> bytes \<Rightarrow> uint32 \<Rightarrow> error + (bytes \<times> uint32)" where
  "extract_scalar n buffer index =
     (if length buffer < unat index + n then Inl (Aborted ''extract'')
      else Inr (take n (drop (unat index) buffer), index + of_nat n))"

definition extract_u32 :: "bytes \<Rightarrow> uint32 \<Rightarrow> error + (uint32 \<times> uint32)" where
  "extract_u32 buffer index =
     bindE (extract_scalar 4 buffer index) (\<lambda>(bs, index). Inr (of_nat (le_value bs), index))"

text \<open>The overloads for strings and vectors check \<^verbatim>\<open>new_index + size\<close> in 32 bits. The string is read through
  the address of an element of the buffer, which has to exist.\<close>

definition extract_string :: "bytes \<Rightarrow> uint32 \<Rightarrow> error + (string \<times> uint32)" where
  "extract_string buffer index =
     bindE (extract_u32 buffer index) (\<lambda>(size, new_index).
     if length buffer < unat (new_index + size) then Inl (Aborted ''extract'')
     else if length buffer \<le> unat new_index then Inl (Undefined ''element past end'')
     else bindE (vec_range buffer (unat new_index) (unat size)) (\<lambda>bs. Inr (Bin2Str bs, new_index + size)))"

definition extract_vector :: "bytes \<Rightarrow> uint32 \<Rightarrow> error + (bytes \<times> uint32)" where
  "extract_vector buffer index =
     bindE (extract_u32 buffer index) (\<lambda>(size, new_index).
     if length buffer < unat (new_index + size) then Inl (Aborted ''extract'')
     else bindE (vec_range buffer (unat new_index) (unat size)) (\<lambda>bs. Inr (bs, new_index + size)))"

definition deserialize :: "bytes \<Rightarrow> error + DevcashMessage" where
  "deserialize bytes =
     bindE (extract_scalar 1 bytes 0) (\<lambda>(header_version, buffer_index).
     if header_version \<noteq> [kMSG_HEADER] then Inl (Aborted ''deserialize'')
     else
       bindE (extract_u32 bytes buffer_index) (\<lambda>(index, buffer_index).
       bindE (extract_u32 bytes buffer_index) (\<lambda>(ty, buffer_index).
       bindE (extract_string bytes buffer_index) (\<lambda>(uri, buffer_index).
       bindE (extract_vector bytes buffer_index) (\<lambda>(data, _).
       Inr \<lparr>msg_uri = uri, msg_type = message_type_of ty, msg_data = data, msg_index = index\<rparr>)))))"

section \<open>Round trip\<close>

definition msg_wf :: "DevcashMessage \<Rightarrow> bool" where
  "msg_wf msg =
     (17 + length (msg_uri msg) + length (msg_data msg) < 2 ^ 32 \<and>
      message_type_of (message_type_value (msg_type msg)) = msg_type msg)"

lemma msg_type_named: "\<forall>v. ty \<noteq> unnamed_type v \<Longrightarrow> message_type_of (message_type_value ty) = ty"
  by (cases ty) (auto simp: message_type_of_def)

lemma append_scalar_eq: "length buf < 2 ^ 32 \<Longrightarrow> append_scalar object buf = buf @ object"
  by (simp add: append_scalar_def)

lemma serialize_eq:
  "17 + length (msg_uri msg) + length (msg_data msg) < 2 ^ 32 \<Longrightarrow>
   serialize msg = [kMSG_HEADER] @ le32 (msg_index msg) @ le32 (message_type_value (msg_type msg))
     @ le32 (of_nat (length (msg_uri msg))) @ Str2Bin (msg_uri msg) @ le32 (of_nat (length (msg_data msg))) @ msg_data msg"
  by (simp add: serialize_def append_string_def append_vector_def append_scalar_eq Str2Bin_def)

lemma extract_u32_at:
  assumes "length p = unat i" "unat i + 4 < 2 ^ 32"
  shows "extract_u32 (p @ le32 w @ r) i = Inr (w, i + 4)"
  using assms by (simp add: extract_u32_def extract_scalar_def)

lemma unat_add_32: "unat (i :: uint32) + unat j < 2 ^ 32 \<Longrightarrow> unat (i + j) = unat i + unat j"
  by (simp add: unat_word_ariths)

lemma extract_sized:
  assumes "length p = unat i" "unat i + 4 + length bs < 2 ^ 32" "length (p @ le32 (of_nat (length bs)) @ bs @ r) < 2 ^ 63"
  shows "extract_vector (p @ le32 (of_nat (length bs)) @ bs @ r) i = Inr (bs, i + 4 + of_nat (length bs))"
    and "bs @ r \<noteq> [] \<Longrightarrow> extract_string (p @ le32 (of_nat (length bs)) @ bs @ r) i =
      Inr (Bin2Str bs, i + 4 + of_nat (length bs))"
proof -
  have u: "unat (i + 4) = unat i + 4" using unat_add_32 [of i 4] assms(2) by simp
  have v: "unat (i + 4 + of_nat (length bs)) = unat i + 4 + length bs"
    using unat_add_32 [of "i + 4" "of_nat (length bs)"] u assms(2) by simp
  have x: "extract_u32 (p @ le32 (of_nat (length bs)) @ bs @ r) i = Inr (of_nat (length bs), i + 4)"
    using assms by (intro extract_u32_at) simp_all
  have "vec_range (p @ le32 (of_nat (length bs)) @ bs @ r) (unat (i + 4)) (unat (of_nat (length bs) :: uint32)) = Inr bs"
    using u assms by simp
  then show "extract_vector (p @ le32 (of_nat (length bs)) @ bs @ r) i = Inr (bs, i + 4 + of_nat (length bs))"
    and "bs @ r \<noteq> [] \<Longrightarrow> extract_string (p @ le32 (of_nat (length bs)) @ bs @ r) i =
      Inr (Bin2Str bs, i + 4 + of_nat (length bs))"
    using x u v assms(1) by (simp_all add: extract_vector_def extract_string_def)
qed

lemma deserialize_serialize:
  assumes "msg_wf msg" "length (serialize msg @ r) < 2 ^ 63"
  shows "deserialize (serialize msg @ r) = Inr msg"
proof -
  let ?i = "le32 (msg_index msg)" and ?t = "le32 (message_type_value (msg_type msg))"
    and ?u = "Str2Bin (msg_uri msg)" and ?d = "msg_data msg"
  let ?lu = "le32 (of_nat (length (msg_uri msg)))" and ?ld = "le32 (of_nat (length ?d))"
  have small: "17 + length (msg_uri msg) + length ?d < 2 ^ 32" using assms(1) by (simp add: msg_wf_def)
  note ser = serialize_eq [OF small]
  have lu: "length ?u = length (msg_uri msg)" by (simp add: Str2Bin_def)
  have 1: "extract_u32 (serialize msg @ r) 1 = Inr (msg_index msg, 5)"
    using extract_u32_at [of "[kMSG_HEADER]" 1 "msg_index msg"] by (simp add: ser)
  have 2: "extract_u32 (serialize msg @ r) 5 = Inr (message_type_value (msg_type msg), 9)"
    using extract_u32_at [of "[kMSG_HEADER] @ ?i" 5 "message_type_value (msg_type msg)"] by (simp add: ser)
  have ne: "?ld \<noteq> []" by (metis length_le(1) list.size(3) zero_neq_numeral)
  have 3: "extract_string (serialize msg @ r) 9 = Inr (msg_uri msg, 13 + of_nat (length ?u))"
    using extract_sized(2) [of "[kMSG_HEADER] @ ?i @ ?t" 9 ?u "?ld @ ?d @ r"] assms(2) small lu ne
    by (simp add: ser)
  have "unat (13 + of_nat (length ?u) :: uint32) = 13 + length ?u"
    using unat_add_32 [of 13 "of_nat (length ?u)"] small lu by simp
  then have 4: "\<exists>n. extract_vector (serialize msg @ r) (13 + of_nat (length ?u)) = Inr (?d, n)"
    using extract_sized(1) [of "[kMSG_HEADER] @ ?i @ ?t @ ?lu @ ?u" "13 + of_nat (length ?u)" ?d r] assms(2) small lu
    by (simp add: ser)
  have "extract_scalar 1 (serialize msg @ r) 0 = Inr ([kMSG_HEADER], 1)"
    by (simp add: extract_scalar_def ser)
  moreover have "message_type_of (message_type_value (msg_type msg)) = msg_type msg"
    using assms(1) by (simp add: msg_wf_def)
  ultimately show ?thesis using 1 2 3 4 by (auto simp: deserialize_def)
qed

section \<open>Properties\<close>

text \<open>C17. A message of less than \<open>2 ^ 32\<close> bytes whose type is an enumerator is read back from its serialised
  form, whatever follows it in the buffer.\<close>

theorem message_round_trip:
  assumes "msg_wf msg" "length (serialize msg @ r) < 2 ^ 63"
  shows "deserialize (serialize msg @ r) = Inr msg"
  using assms by (rule deserialize_serialize)

definition sample_message :: DevcashMessage where
  "sample_message = DevcashMessage_make ''shard-1'' PROPOSAL_BLOCK [1, 2, 3] 1000001"

theorem message_round_trip_witness:
  "msg_wf sample_message \<and> deserialize (serialize sample_message @ [9]) = Inr sample_message"
proof -
  have wf: "msg_wf sample_message"
    by (simp add: msg_wf_def sample_message_def DevcashMessage_make_def message_type_of_def)
  moreover have "length (serialize sample_message @ [9]) < 2 ^ 63"
    using wf by (simp add: serialize_eq msg_wf_def sample_message_def DevcashMessage_make_def Str2Bin_def)
  ultimately show ?thesis using message_round_trip [of sample_message "[9]"] by simp
qed

text \<open>C18. The bounds check of \<open>extract\<close> adds the size field to the index in 32 bits: a message whose size field
  for the URI is at least \<open>2 ^ 32 - 13\<close> passes it, and the string is then read from behind the end of the
  buffer.\<close>

theorem deserialize_size_wraps:
  assumes "2 ^ 32 - 13 \<le> unat n" "length rest < unat n"
  shows "\<exists>what. deserialize ([kMSG_HEADER] @ le32 i @ le32 t @ le32 n @ rest) = Inl (Undefined what)"
proof -
  let ?bs = "[kMSG_HEADER] @ le32 i @ le32 t @ le32 n @ rest"
  have 0: "extract_scalar 1 ?bs 0 = Inr ([kMSG_HEADER], 1)" by (simp add: extract_scalar_def)
  have 1: "extract_u32 ?bs 1 = Inr (i, 5)" using extract_u32_at [of "[kMSG_HEADER]" 1 i] by simp
  have 2: "extract_u32 ?bs 5 = Inr (t, 9)" using extract_u32_at [of "[kMSG_HEADER] @ le32 i" 5 t] by simp
  have 3: "extract_u32 ?bs 9 = Inr (n, 13)" using extract_u32_at [of "[kMSG_HEADER] @ le32 i @ le32 t" 9 n] by simp
  have "unat (13 + n) = 13 + unat n - 2 ^ 32"
    using assms(1) unat_bound [of n] by (simp add: unat_word_ariths mod_if)
  then have "\<not> length ?bs < unat (13 + n)" using unat_bound [of n] by simp
  moreover have "\<not> 13 + unat n \<le> length ?bs" using assms(2) by simp
  ultimately have "\<exists>what. extract_string ?bs 9 = Inl (Undefined what)"
    using 3 by (auto simp: extract_string_def vec_range_def)
  then show ?thesis using 0 1 2 by (auto simp: deserialize_def)
qed

theorem deserialize_size_wraps_witness:
  "2 ^ 32 - 13 \<le> unat (0xFFFFFFFF :: uint32) \<and> length ([7, 7] :: bytes) < unat (0xFFFFFFFF :: uint32) \<and>
   (\<exists>what. deserialize ([kMSG_HEADER] @ le32 1 @ le32 1 @ le32 0xFFFFFFFF @ [7, 7]) = Inl (Undefined what))"
  using deserialize_size_wraps [of "0xFFFFFFFF" "[7, 7]" 1 1] by simp

end
