(* ===== verification/Handlers.thy ===== *)
theory Handlers
  imports Block_Chain Tx_Pool Messages
begin

text \<open>
  \<^verbatim>\<open>consensus/tier2_message_handlers.cpp\<close>: what a node does with the messages of its peers. The handlers
  get the chain, the pool and a callback that sends messages by reference; here they are programs on the
  state that holds the three, with the messages that were sent in the order of sending. The clock is the
  argument \<open>now\<close>; the estimated rates and the other log entries are left out.
\<close>

section \<open>State\<close>

text \<open>The state that the controllers of a node share, the counter of the controller that talks to other
  shards, and the mutexes of the three controllers.\<close>

record NodeState =
  final_chain :: Blockchain
  utx_pool :: UnrecordedTransactionPool
  outgoing :: "DevcashMessage list"
  remote_blocks :: uint64
  validator_mutex :: bool
  consensus_mutex :: bool
  utx_mutex :: bool

type_synonym 'a node_prog = "(NodeState, 'a) prog"

definition pool_op :: "'a pool_prog \<Rightarrow> 'a node_prog" where
  "pool_op = zoomM utx_pool (\<lambda>p. utx_pool_update (\<lambda>_. p))"

definition chain_get :: "(Blockchain \<Rightarrow> error + 'a) \<Rightarrow> 'a node_prog" where
  "chain_get f = bindM (getM (\<lambda>s. f (final_chain s))) liftM"

definition chain_push :: "FinalBlock \<Rightarrow> unit node_prog" where
  "chain_push b = updM (\<lambda>s. s\<lparr>final_chain := bc_push_back b (final_chain s)\<rparr>)"

definition send :: "DevcashMessage \<Rightarrow> unit node_prog" where
  "send msg = updM (\<lambda>s. s\<lparr>outgoing := outgoing s @ [msg]\<rparr>)"

section \<open>Proposals\<close>

definition GenesisHash :: "Crypto \<Rightarrow> bytes" where
  "GenesisHash C = DevcashHash C (Str2Bin ''Genesis'')"

definition CreateNextProposal :: "Crypto \<Rightarrow> KeyRing \<Rightarrow> DevcashContext \<Rightarrow> bytes node_prog" where
  "CreateNextProposal C keys context =
     bindM (getM (\<lambda>s. bc_size (final_chain s))) (\<lambda>block_height.
     bindM (pool_op HasProposal) (\<lambda>has.
     bindM (if has then returnM False else pool_op HasPendingTransactions) (\<lambda>propose.
     bindM
       (if propose then
          if 0 < block_height then
            bindM (chain_get bc_back) (\<lambda>top.
            bindM (chain_get getHighestChainState) (\<lambda>prior.
            pool_op (ProposeBlock C (DevcashHash C (fb_getCanonical top)) prior keys context)))
          else pool_op (ProposeBlock C (GenesisHash C) ChainState_empty keys context)
        else returnM False) (\<lambda>_.
     pool_op getProposal))))"

text \<open>The index of a proposal: the multiplication is one of \<^verbatim>\<open>unsigned int\<close>, the addition one of
  \<^verbatim>\<open>size_t\<close>, the parameter a 32-bit integer.\<close>

definition proposal_index :: "size_t \<Rightarrow> DevcashContext \<Rightarrow> uint32" where
  "proposal_index block_height context =
     ucast (block_height + 1 + ucast ((get_current_node context + 1) * 1000000))"

definition my_turn :: "size_t \<Rightarrow> DevcashContext \<Rightarrow> bool" where
  "my_turn block_height context =
     (block_height mod ctx_peer_count context = ucast (get_current_node context) mod ctx_peer_count context)"

text \<open>The part of \<open>HandleFinalBlock\<close> and of \<open>validatorCallback\<close> that creates and sends a proposal unless
  there is one.\<close>

definition propose_next :: "Crypto \<Rightarrow> KeyRing \<Rightarrow> DevcashContext \<Rightarrow> size_t \<Rightarrow> bool node_prog" where
  "propose_next C keys context block_height =
     bindM (pool_op HasProposal) (\<lambda>has.
     if has then returnM False
     else
       bindM (CreateNextProposal C keys context) (\<lambda>proposal.
       if isNullProposal proposal then returnM False
       else
         bindM (send (DevcashMessage_make (get_shard_uri context) PROPOSAL_BLOCK proposal
                  (proposal_index block_height context))) (\<lambda>_.
         returnM True)))"

section \<open>Consensus messages\<close>

definition HandleFinalBlock :: "Crypto \<Rightarrow> DevcashMessage \<Rightarrow> DevcashContext \<Rightarrow> KeyRing \<Rightarrow> bool node_prog" where
  "HandleFinalBlock C msg context keys =
     bindM (chain_get getHighestChainState) (\<lambda>prior.
     bindM (pool_op (FinalizeRemoteBlock C (InputBuffer_make (msg_data msg) 0) prior keys)) (\<lambda>top_block.
     bindM (chain_push top_block) (\<lambda>_.
     bindM (pool_op HasProposal) (\<lambda>has.
     bindM
       (if has then
          pool_op (ReverifyProposal C (DevcashHash C (fb_getCanonical top_block)) (fb_state top_block) keys context)
        else returnM False) (\<lambda>_.
     bindM (getM (\<lambda>s. bc_size (final_chain s))) (\<lambda>block_height.
     bindM (pool_op HasPendingTransactions) (\<lambda>pending.
     if \<not> pending then returnM False
     else if my_turn block_height context then propose_next C keys context block_height
     else returnM False)))))))"

definition HandleProposalBlock :: "Crypto \<Rightarrow> DevcashMessage \<Rightarrow> DevcashContext \<Rightarrow> KeyRing \<Rightarrow> bool node_prog" where
  "HandleProposalBlock C msg context keys =
     bindM (chain_get getHighestChainState) (\<lambda>prior.
     bindM (getM (\<lambda>s. utp_tcm (utx_pool s))) (\<lambda>tcm.
     bindM (liftP (pb_Create C prior keys tcm (InputBuffer_make (msg_data msg) 0))) (\<lambda>(to_validate, _).
     bindM (liftM (pb_validate C keys to_validate)) (\<lambda>valid.
     if \<not> valid then returnM False
     else
       bindM (liftM (signBlock C keys context to_validate)) (\<lambda>(signed, to_validate).
       if \<not> signed then returnM False
       else
         bindM (send (DevcashMessage_make (get_shard_uri context) VALID (getValidationData to_validate)
                  (msg_index msg))) (\<lambda>_.
         returnM True))))))"

definition HandleValidationBlock :: "Crypto \<Rightarrow> uint64 \<Rightarrow> DevcashMessage \<Rightarrow> DevcashContext \<Rightarrow> bool node_prog" where
  "HandleValidationBlock C now msg context =
     bindM (pool_op (CheckValidation (InputBuffer_make (msg_data msg) 0) context)) (\<lambda>ready.
     if \<not> ready then returnM False
     else
       bindM (pool_op (FinalizeLocalBlock C now)) (\<lambda>top_block.
       bindM (chain_push top_block) (\<lambda>_.
       bindM (send (DevcashMessage_make (get_shard_uri context) FINAL_BLOCK (fb_getCanonical top_block)
                (msg_index msg))) (\<lambda>_.
       returnM True))))"

section \<open>Messages of other shards\<close>

text \<open>One round of the loop that turns the blocks of a Tier-2 chain into Tier-1 transactions.\<close>

definition tier1_of_block :: "Crypto \<Rightarrow> KeyRing \<Rightarrow> bytes \<Rightarrow> InputBuffer \<Rightarrow> (error + (bytes \<times> InputBuffer)) option" where
  "tier1_of_block C keys tier1_data ib =
     bindP (fb_Create ChainState_empty ib) (\<lambda>(one_block, ib).
     Some (bindE (getFirstValidation (fb_vals one_block)) (\<lambda>pair.
           bindE (Tier1Transaction_make C (Summary_Copy (fb_summary one_block)) (snd pair) (fst pair) keys) (\<lambda>tx.
           Inr (tier1_data @ tx_canonical tx, ib)))))"

definition HandleBlocksSinceRequest :: "Crypto \<Rightarrow> DevcashMessage \<Rightarrow> DevcashContext \<Rightarrow> KeyRing \<Rightarrow> bool node_prog" where
  "HandleBlocksSinceRequest C msg context keys =
     (if vec_size (msg_data msg) < 16 then returnM False
      else
        bindM (liftM (BinToUint32 (msg_data msg) 0)) (\<lambda>height.
        bindM (liftM (BinToUint32 (msg_data msg) 8)) (\<lambda>node.
        bindM (chain_get (PartialBinaryDump (ucast height))) (\<lambda>raw.
        case ctx_app_mode context of
          mode_T2 \<Rightarrow>
            bindM (liftP (while_unread (tier1_of_block C keys) [] (InputBuffer_make raw 0))) (\<lambda>(tier1_data, _).
            bindM (send (DevcashMessage_make (get_uri_from_index context node) TRANSACTION_ANNOUNCEMENT tier1_data
                     (msg_index msg))) (\<lambda>_.
            returnM True))
        | mode_T1 \<Rightarrow>
            bindM (getM (\<lambda>s. bc_size (final_chain s) - 1)) (\<lambda>covered_height.
            bindM (send (DevcashMessage_make (get_uri_from_index context node) BLOCKS_SINCE
                     (Uint64ToBin covered_height [] @ raw) (msg_index msg))) (\<lambda>_.
            returnM True))
        | mode_scan \<Rightarrow> returnM False))))"

text \<open>One round of the loop over the blocks of the other tier. The state is a local variable.\<close>

definition coins_of_block :: "uint64 \<Rightarrow> Address list \<Rightarrow> ChainState \<Rightarrow> InputBuffer
    \<Rightarrow> (error + (ChainState \<times> InputBuffer)) option" where
  "coins_of_block now wallets state ib =
     bindP (fb_Create state ib) (\<lambda>(one_block, ib).
     let elapsed = now - fb_block_time one_block;
         sum = Summary_Copy (fb_summary one_block)
     in Some (Inr (fold (\<lambda>addr state. fold (\<lambda>coin state. snd (addCoin coin state)) (getCoinsByAddr addr elapsed sum) state)
                     wallets state, ib)))"

definition HandleBlocksSince :: "uint64 \<Rightarrow> DevcashMessage \<Rightarrow> DevcashContext \<Rightarrow> KeyRing \<Rightarrow> bool node_prog" where
  "HandleBlocksSince now msg context keys =
     (let buffer = InputBuffer_make (msg_data msg) 0 in
      if ib_size buffer < 8 then returnM False
      else
        bindM (liftM (getNextUint64 True buffer)) (\<lambda>(height, buffer).
        if ctx_app_mode context = mode_T2 then
          bindM (liftM (getDesignatedWallets keys (ctx_current_shard context))) (\<lambda>wallets.
          bindM (chain_get getHighestChainState) (\<lambda>state.
          bindM (liftP (while_unread (coins_of_block now wallets) state buffer)) (\<lambda>_.
          bindM (updM (\<lambda>s. if height > remote_blocks s then s\<lparr>remote_blocks := height\<rparr> else s)) (\<lambda>_.
          returnM False))))
        else returnM False))"

section \<open>What the handlers preserve\<close>

text \<open>The pool has no proposal, or one for a block after the block with hash \<open>h\<close>.\<close>

definition pending_for :: "bytes \<Rightarrow> UnrecordedTransactionPool \<Rightarrow> bool" where
  "pending_for h p = (pb_isNull (utp_pending p) \<or> pb_prev_hash (utp_pending p) = h)"

lemma keeps_pending_locks [keeps_intros]:
  "keeps (pending_for h) m \<Longrightarrow> keeps (pending_for h) (lock_txs m)"
  "keeps (pending_for h) m \<Longrightarrow> keeps (pending_for h) (lock_pending m)"
  unfolding lock_txs_def lock_pending_def by (rule keeps_lock; simp add: pending_for_def)+

lemma keeps_pending_queries [keeps_intros]:
  "keeps (pending_for h) HasPendingTransactions" "keeps (pending_for h) HasProposal" "keeps (pending_for h) getProposal"
  unfolding HasPendingTransactions_def HasProposal_def getProposal_def by (intro keeps_intros)+

lemma keeps_pending_add [keeps_intros]: "keeps (pending_for h) (AddTransactions_serial C keys serial)"
proof -
  have "keeps (pending_for h) (add_one C keys item good)" for item good
    unfolding keeps_def add_one_apply
    by (auto simp: pending_for_def split: sum.splits option.splits if_splits)
  then show ?thesis
    unfolding AddTransactions_serial_def AddTransactions_def
    by (intro keeps_intros) (auto split: if_splits intro: keeps_intros)
qed

lemma keeps_pending_collect [keeps_intros]: "keeps (pending_for h) (CollectValidTransactions C keys st sm)"
  unfolding keeps_def
proof (intro allI impI)
  fix p r p'
  assume "pending_for h p" "CollectValidTransactions C keys st sm p = Some (r, p')"
  then show "pending_for h p'" using Collect_Some [of C keys st sm p r p'] by (auto simp: pending_for_def)
qed

lemma keeps_pending_propose [keeps_intros]: "keeps (pending_for h) (ProposeBlock C h prior keys context)"
proof -
  have "keeps (pending_for h) (bindM (liftM (signBlock C keys context (ProposedBlock_make h valid sm Validation_Create st)))
      (\<lambda>(_, b). lock_pending (bindM (updM (\<lambda>p. p\<lparr>utp_pending := fst (shallowCopy b)\<rparr>)) (\<lambda>_. returnM True))))"
    for valid sm st
  proof (rule keeps_bind_value [where Q = "\<lambda>(_, b). pb_prev_hash b = h"])
    fix p x p'
    assume "(liftM (signBlock C keys context (ProposedBlock_make h valid sm Validation_Create st)) ::
      (bool \<times> ProposedBlock) pool_prog) p = Some (Returned x, p')"
    then have "signBlock C keys context (ProposedBlock_make h valid sm Validation_Create st) = Inr x"
      by (simp add: effect_simps)
    then show "case x of (_, b) \<Rightarrow> pb_prev_hash b = h"
      by (cases x) (auto dest!: signBlock_transactions simp: ProposedBlock_make_def Let_def)
  next
    fix x :: "bool \<times> ProposedBlock"
    assume "case x of (_, b) \<Rightarrow> pb_prev_hash b = h"
    then show "keeps (pending_for h) (case x of (_, b) \<Rightarrow>
        lock_pending (bindM (updM (\<lambda>p. p\<lparr>utp_pending := fst (shallowCopy b)\<rparr>)) (\<lambda>_. returnM True)))"
      by (cases x) (auto intro!: keeps_intros simp: pending_for_def shallowCopy_def)
  qed (rule keeps_intros)
  note signed = this
  show ?thesis unfolding ProposeBlock_def
    by (rule keeps_bind [OF keeps_pending_collect]) (intro keeps_prod signed)
qed

lemma keeps_pending_check [keeps_intros]: "keeps (pending_for h) (CheckValidation buffer context)"
  unfolding CheckValidation_def
proof (rule keeps_pending_locks(2), unfold keeps_def, intro allI impI)
  fix p r p'
  assume p: "pending_for h p"
    and "bindM (getM utp_pending) (\<lambda>b. if pb_isNull b then returnM False
      else bindM (liftM (checkValidationData context b buffer)) (\<lambda>((ok, b'), _).
           bindM (updM (\<lambda>p. p\<lparr>utp_pending := b'\<rparr>)) (\<lambda>_. returnM ok))) p = Some (r, p')"
  then have "p' = p \<or> \<not> pb_isNull (utp_pending p) \<and> (\<exists>ok b' ib'. checkValidationData context (utp_pending p) buffer =
      Inr ((ok, b'), ib') \<and> p' = p\<lparr>utp_pending := b'\<rparr>)"
    by (auto simp: bindM_Some effect_simps split: if_splits)
  then show "pending_for h p'"
    using p checkValidationData_frame by (fastforce simp: pending_for_def)
qed

lemma keeps_pending_finalize [keeps_intros]: "keeps (pending_for h) (FinalizeLocalBlock C now)"
proof -
  have "keeps (pending_for h) (FinalizeBlock C now b)" for b
    unfolding FinalizeBlock_def RemoveTransactions_def remove_one_def
    by (intro keeps_intros) (simp add: pending_for_def)
  then show ?thesis
    unfolding FinalizeLocalBlock_def
    by (intro keeps_intros) (simp_all add: pending_for_def pb_setNull_def pb_isNull_def pb_MinSize_def)
qed

lemma keeps_pending_tcm [keeps_intros]:
  "keeps (pending_for h) (updM (\<lambda>p. p\<lparr>utp_tcm := f (utp_tcm p)\<rparr>))"
  "keeps (pool_wf C keys) (updM (\<lambda>p. p\<lparr>utp_tcm := f (utp_tcm p)\<rparr>))"
  by (rule keeps_upd; simp add: pending_for_def pool_wf_def)+

lemma keeps_chain_get [keeps_intros]: "keeps P (chain_get f)"
  unfolding chain_get_def by (intro keeps_intros)

lemma chain_get_apply: "chain_get f s = Some (outcome_of (f (final_chain s)), s)"
  by (simp add: chain_get_def bindM_def effect_simps)

definition tip_hash :: "Crypto \<Rightarrow> NodeState \<Rightarrow> bytes" where
  "tip_hash C s =
     (let blocks = bc_chain (final_chain s) in
      if blocks = [] then GenesisHash C else DevcashHash C (fb_getCanonical (last blocks)))"

text \<open>What the threads rely on: the counters follow the chain, the pool is well formed, and, while the
  consensus thread is \<open>live\<close>, a proposal is one for a block behind the last block.\<close>

definition node_ok :: "Crypto \<Rightarrow> KeyRing \<Rightarrow> bool \<Rightarrow> FinalBlock list \<Rightarrow> NodeState \<Rightarrow> bool" where
  "node_ok C keys live blocks s =
     (bc_chain (final_chain s) = blocks \<and> bc_wf (final_chain s) \<and> pool_wf C keys (utx_pool s) \<and>
      (live \<longrightarrow> pending_for (tip_hash C s) (utx_pool s)))"

lemma tip_hash_update [simp]:
  "tip_hash C (s\<lparr>utx_pool := p\<rparr>) = tip_hash C s" "tip_hash C (s\<lparr>outgoing := ms\<rparr>) = tip_hash C s"
  "tip_hash C (s\<lparr>remote_blocks := h\<rparr>) = tip_hash C s" "tip_hash C (s\<lparr>validator_mutex := b\<rparr>) = tip_hash C s"
  "tip_hash C (s\<lparr>consensus_mutex := b\<rparr>) = tip_hash C s" "tip_hash C (s\<lparr>utx_mutex := b\<rparr>) = tip_hash C s"
  by (simp_all add: tip_hash_def)

lemma node_ok_update [simp]:
  "node_ok C keys live bs (s\<lparr>outgoing := ms\<rparr>) = node_ok C keys live bs s"
  "node_ok C keys live bs (s\<lparr>remote_blocks := h\<rparr>) = node_ok C keys live bs s"
  "node_ok C keys live bs (s\<lparr>validator_mutex := b\<rparr>) = node_ok C keys live bs s"
  "node_ok C keys live bs (s\<lparr>consensus_mutex := b\<rparr>) = node_ok C keys live bs s"
  "node_ok C keys live bs (s\<lparr>utx_mutex := b\<rparr>) = node_ok C keys live bs s"
  by (simp_all add: node_ok_def)

lemma tip_hash_eq:
  "tip_hash C s = (if bc_chain (final_chain s) = [] then GenesisHash C
     else DevcashHash C (fb_getCanonical (last (bc_chain (final_chain s)))))"
  by (simp add: tip_hash_def)

text \<open>A program of the pool that keeps the two parts about the pool keeps all of it.\<close>

lemma keeps_node_pool [keeps_intros]:
  assumes "keeps (pool_wf C keys) m"
    and "\<And>s. live \<Longrightarrow> node_ok C keys live bs s \<Longrightarrow> keeps (pending_for (tip_hash C s)) m"
  shows "keeps (node_ok C keys live bs) (pool_op m)"
  unfolding keeps_def
proof (intro allI impI)
  fix s r s'
  assume ok: "node_ok C keys live bs s" and "pool_op m s = Some (r, s')"
  then obtain p where m: "m (utx_pool s) = Some (r, p)" and s': "s' = s\<lparr>utx_pool := p\<rparr>"
    by (auto simp: pool_op_def zoomM_def split: option.splits)
  have "pool_wf C keys p" "live \<Longrightarrow> pending_for (tip_hash C s) p"
    using ok keepsD [OF assms(1) _ m] keepsD [OF assms(2) [OF _ ok] _ m] by (simp_all add: node_ok_def)
  then show "node_ok C keys live bs s'" using ok s' by (simp add: node_ok_def)
qed

lemma keeps_node_queries [keeps_intros]:
  "keeps (node_ok C keys live bs) (pool_op HasProposal)" "keeps (node_ok C keys live bs) (pool_op HasPendingTransactions)"
  "keeps (node_ok C keys live bs) (pool_op getProposal)"
  "keeps (node_ok C keys live bs) (pool_op (AddTransactions_serial C keys serial))"
  "keeps (node_ok C keys live bs) (pool_op (FinalizeRemoteBlock C buffer prior keys'))"
  "keeps (node_ok C keys live bs) (pool_op (CheckValidation buffer context))"
  "keeps (node_ok C keys live bs) (pool_op (FinalizeLocalBlock C now))"
  "keeps (node_ok C keys live bs) (pool_op (updM (\<lambda>p. p\<lparr>utp_tcm := f (utp_tcm p)\<rparr>)))"
  by (intro keeps_node_pool keeps_intros)+

lemma keeps_node_send [keeps_intros]: "keeps (node_ok C keys live bs) (send msg)"
  unfolding send_def by (rule keeps_upd) simp

lemma keeps_node_propose:
  assumes "h = (if bs = [] then GenesisHash C else DevcashHash C (fb_getCanonical (last bs)))"
  shows "keeps (node_ok C keys live bs) (pool_op (ProposeBlock C h prior keys context))"
proof (rule keeps_node_pool)
  fix s
  assume "node_ok C keys live bs s"
  then have "tip_hash C s = h" using assms by (auto simp: node_ok_def tip_hash_eq)
  then show "keeps (pending_for (tip_hash C s)) (ProposeBlock C h prior keys context)" by (auto intro: keeps_intros)
qed (rule keeps_intros)

lemma keeps_CreateNextProposal [keeps_intros]: "keeps (node_ok C keys live bs) (CreateNextProposal C keys context)"
  unfolding CreateNextProposal_def
proof (rule keeps_bind_value [where Q = "\<lambda>n. (0 < n) = (bs \<noteq> [])"], goal_cases)
  case (2 s n t)
  then show ?case using bc_tip(4) by (auto simp: effect_simps node_ok_def)
next
  case (3 n)
  have propose: "keeps (node_ok C keys live bs) (bindM (chain_get bc_back) (\<lambda>top. bindM (chain_get getHighestChainState) (\<lambda>prior.
      pool_op (ProposeBlock C (DevcashHash C (fb_getCanonical top)) prior keys context))))" if "bs \<noteq> []"
  proof (rule keeps_bind_value [where Q = "\<lambda>top. top = last bs"], goal_cases)
    case (2 s top t)
    then show ?case using that bc_tip(3) by (auto simp: chain_get_apply node_ok_def)
  qed (use that in \<open>auto intro!: keeps_intros keeps_node_propose\<close>)
  have propose_if: "keeps (node_ok C keys live bs) (if b then if 0 < n then bindM (chain_get bc_back) (\<lambda>top.
        bindM (chain_get getHighestChainState) (\<lambda>prior.
        pool_op (ProposeBlock C (DevcashHash C (fb_getCanonical top)) prior keys context)))
      else pool_op (ProposeBlock C (GenesisHash C) ChainState_empty keys context) else returnM False)" for b
    using 3 propose by (auto intro: keeps_node_propose keeps_pure)
  have query_if: "keeps (node_ok C keys live bs) (if b then returnM False else pool_op HasPendingTransactions)" for b
    by (auto intro: keeps_intros)
  show ?case
    by (rule keeps_bind [OF keeps_node_queries(1)])
      (rule keeps_bind [OF query_if], rule keeps_bind [OF propose_if], rule keeps_node_queries)
qed (rule keeps_intros)

lemma keeps_propose_next [keeps_intros]: "keeps (node_ok C keys live bs) (propose_next C keys context n)"
  unfolding propose_next_def by (intro keeps_intros)

lemma keeps_HandleProposalBlock [keeps_intros]: "keeps (node_ok C keys live bs) (HandleProposalBlock C msg context keys)"
  unfolding HandleProposalBlock_def by (intro keeps_intros)

lemma keeps_mode:
  "keeps P a \<Longrightarrow> keeps P b \<Longrightarrow> keeps P c \<Longrightarrow>
   keeps P (case m of mode_T1 \<Rightarrow> a | mode_T2 \<Rightarrow> b | mode_scan \<Rightarrow> c)"
  by (cases m) simp_all

lemma keeps_HandleBlocksSinceRequest [keeps_intros]:
  "keeps (node_ok C keys live bs) (HandleBlocksSinceRequest C msg context keys')"
  unfolding HandleBlocksSinceRequest_def by (intro keeps_intros keeps_mode)

lemma keeps_HandleBlocksSince [keeps_intros]: "keeps (node_ok C keys live bs) (HandleBlocksSince now msg context keys')"
  unfolding HandleBlocksSince_def Let_def by (intro keeps_intros) simp

text \<open>Only \<open>push_back\<close> changes the chain.\<close>

lemma keeps_chain_pool [keeps_intros]: "keeps (\<lambda>s. final_chain s = c) (pool_op m)"
  by (auto simp: keeps_def pool_op_def zoomM_def split: option.splits)

lemma keeps_chain_send [keeps_intros]: "keeps (\<lambda>s. final_chain s = c) (send msg)"
  unfolding send_def by (rule keeps_upd) simp

lemma keeps_chain_propose [keeps_intros]: "keeps (\<lambda>s. final_chain s = c) (propose_next C keys context n)"
  unfolding propose_next_def CreateNextProposal_def by (intro keeps_intros)

section \<open>Blocks that a node finalises\<close>

text \<open>A block behind the block with hash \<open>h\<close>, of checked transactions, validated by more than half of the peers
  and with the hash of its own digest.\<close>

definition local_block :: "Crypto \<Rightarrow> KeyRing \<Rightarrow> DevcashContext \<Rightarrow> bytes \<Rightarrow> FinalBlock \<Rightarrow> bool" where
  "local_block C keys context h b =
     (fb_prev_hash b = h \<and> ctx_peer_count context div 2 < ucast (fb_val_count b) \<and>
      fb_val_count b = getValidationCount (fb_vals b) \<and>
      fb_raw_transactions b = map tx_getCanonical (fb_transactions b) \<and>
      (\<forall>tx \<in> set (fb_transactions b). \<exists>sig. tx_checked C keys sig tx) \<and>
      fb_merkle_root b = DevcashHash C (getBlockDigest b))"

lemma CheckValidation_True:
  assumes "CheckValidation buffer context p = Some (Returned True, p')"
  shows "\<not> pb_isNull (utp_pending p) \<and> (\<exists>b. p' = p\<lparr>utp_pending := b\<rparr> \<and> \<not> utp_pending_mutex p \<and>
    pb_prev_hash b = pb_prev_hash (utp_pending p) \<and> pb_transactions b = pb_transactions (utp_pending p) \<and>
    pb_val_count b = getValidationCount (pb_vals b) \<and> ctx_peer_count context div 2 < ucast (pb_val_count b))"
proof -
  have free: "\<not> utp_pending_mutex p" using assms by (auto simp: CheckValidation_def lock_pending_held)
  let ?p = "p\<lparr>utp_pending_mutex := True\<rparr>"
  have "\<exists>q. bindM (getM utp_pending) (\<lambda>b. if pb_isNull b then returnM False
      else bindM (liftM (checkValidationData context b buffer)) (\<lambda>((ok, b'), _).
           bindM (updM (\<lambda>p. p\<lparr>utp_pending := b'\<rparr>)) (\<lambda>_. returnM ok))) ?p = Some (Returned True, q) \<and>
      p' = q\<lparr>utp_pending_mutex := False\<rparr>"
    using assms free unfolding CheckValidation_def lock_pending_def with_lock_def by (auto split: option.splits)
  then obtain b ib where nn: "\<not> pb_isNull (utp_pending p)"
    and c: "checkValidationData context (utp_pending p) buffer = Inr ((True, b), ib)"
    and p': "p' = p\<lparr>utp_pending := b\<rparr>"
    using free by (auto simp: bindM_Returned effect_simps split: if_splits)
  have "pb_val_count b = getValidationCount (pb_vals b) \<and> ctx_peer_count context div 2 < ucast (pb_val_count b)"
    using c by (auto simp: checkValidationData_def reader_simps Let_def split: if_splits)
  then show ?thesis using nn p' free checkValidationData_frame [OF c] by blast
qed

lemma FinalizeLocalBlock_Returned:
  assumes "FinalizeLocalBlock C now p = Some (Returned b, p')" "pool_wf C keys p"
  shows "b = FinalBlock_of C now (utp_pending p) \<and> pb_isNull (utp_pending p')"
proof -
  have 1: "\<not> utp_pending_mutex p" using assms(1) by (auto simp: FinalizeLocalBlock_def lock_pending_held)
  have 2: "\<not> utp_txs_mutex p"
    using assms(1) 1
    by (auto simp: FinalizeLocalBlock_def lock_pending_def with_lock_def bindM_def effect_simps FinalizeBlock_def
        RemoveTransactions_def lock_txs_def)
  have "\<forall>tx \<in> set (pb_transactions (utp_pending p)). \<exists>sig. tx_getSignature tx = Inr sig"
    using assms(2) by (auto simp: pool_wf_def tx_checked_def)
  then obtain m where "FinalizeLocalBlock C now p = Some (Returned (FinalBlock_of C now (utp_pending p)),
      p\<lparr>utp_txs := m, utp_pending := pb_setNull (utp_pending p)\<rparr>)"
    using FinalizeLocalBlock_apply [OF 2 1, of C now] assms(2) by (auto simp: pool_wf_def)
  with assms(1) show ?thesis by (auto simp: pb_isNull_def pb_setNull_def pb_MinSize_def)
qed

lemma FinalBlock_of_local:
  assumes "\<forall>tx \<in> set (pb_transactions p). \<exists>sig. tx_checked C keys sig tx"
    and "pb_val_count p = getValidationCount (pb_vals p)" "ctx_peer_count context div 2 < ucast (pb_val_count p)"
  shows "local_block C keys context (pb_prev_hash p) (FinalBlock_of C now p)"
  using assms by (simp add: local_block_def FinalBlock_of_def Let_def pb_getRawTransactions_def getBlockDigest_def)

lemma pool_op_Some:
  "pool_op m s = Some (r, s') \<longleftrightarrow> (\<exists>p. m (utx_pool s) = Some (r, p) \<and> s' = s\<lparr>utx_pool := p\<rparr>)"
  by (auto simp: pool_op_def zoomM_def split: option.splits)

text \<open>What \<open>HandleValidationBlock\<close> leaves: the chain as it was, or with a block of this node behind its last
  block, which is sent to the peers and whose proposal is gone.\<close>

lemma HandleValidationBlock_result:
  assumes ok: "node_ok C keys True bs s" and eq: "HandleValidationBlock C now msg context s = Some (r, s')"
  shows "node_ok C keys True bs s' \<and> outgoing s' = outgoing s \<or>
    (\<exists>b. r = Returned True \<and> local_block C keys context (tip_hash C s) b \<and>
       final_chain s' = bc_push_back b (final_chain s) \<and> pool_wf C keys (utx_pool s') \<and>
       pb_isNull (utp_pending (utx_pool s')) \<and>
       outgoing s' = outgoing s @ [DevcashMessage_make (get_shard_uri context) FINAL_BLOCK (fb_getCanonical b) (msg_index msg)])"
proof -
  let ?check = "pool_op (CheckValidation (InputBuffer_make (msg_data msg) 0) context)"
  obtain q t where c: "?check s = Some (q, t)" using eq by (auto simp: HandleValidationBlock_def bindM_Some)
  have t: "node_ok C keys True bs t" "outgoing t = outgoing s" "final_chain t = final_chain s"
    using keepsD [OF keeps_node_queries(6) ok c] c by (auto simp: pool_op_Some)
  show ?thesis
  proof (cases "q = Returned True")
    case False
    then show ?thesis
      using eq c t by (cases q) (auto simp: HandleValidationBlock_def bindM_def effect_simps)
  next
    case True
    obtain q' u where f: "pool_op (FinalizeLocalBlock C now) t = Some (q', u)"
      using eq c True by (auto simp: HandleValidationBlock_def bindM_Some)
    have u: "node_ok C keys True bs u" "outgoing u = outgoing t" "final_chain u = final_chain t"
      using keepsD [OF keeps_node_queries(7) t(1) f] f by (auto simp: pool_op_Some)
    show ?thesis
    proof (cases q')
      case (Returned b)
      obtain p where p: "\<not> pb_isNull (utp_pending (utx_pool s))" "utx_pool t = (utx_pool s)\<lparr>utp_pending := p\<rparr>"
        "pb_prev_hash p = pb_prev_hash (utp_pending (utx_pool s))"
        "pb_val_count p = getValidationCount (pb_vals p)" "ctx_peer_count context div 2 < ucast (pb_val_count p)"
        using c True CheckValidation_True by (fastforce simp: pool_op_Some)
      have h: "pb_prev_hash p = tip_hash C s" using ok p(1,3) by (simp add: node_ok_def pending_for_def)
      have b: "b = FinalBlock_of C now p" "pb_isNull (utp_pending (utx_pool u))"
        using f Returned t(1) p(2) FinalizeLocalBlock_Returned by (fastforce simp: pool_op_Some node_ok_def)+
      have "local_block C keys context (tip_hash C s) b"
        using FinalBlock_of_local [OF _ p(4,5)] t(1) p(2) h b(1) by (auto simp: node_ok_def pool_wf_def)
      then show ?thesis
        using eq c True f Returned u t b(2)
        by (auto simp: HandleValidationBlock_def bindM_def effect_simps chain_push_def send_def node_ok_def)
    qed (use eq c True f u t in \<open>auto simp: HandleValidationBlock_def bindM_def effect_simps\<close>)
  qed
qed

lemma HasProposal_Some:
  "HasProposal p = Some (r, p') \<longleftrightarrow> p' = p \<and>
     r = (if utp_pending_mutex p then Blocked ''pending_proposal_mutex_'' else Returned (\<not> pb_isNull (utp_pending p)))"
  by (auto simp: HasProposal_def lock_pending_def with_lock_def effect_simps)

lemma ReverifyTransactions_Some:
  "ReverifyTransactions C prior keys p = Some (r, p') \<Longrightarrow> p' = p"
  by (cases "utp_txs_mutex p")
    (auto simp: ReverifyTransactions_apply, simp add: ReverifyTransactions_def lock_txs_def with_lock_def)

lemma ReverifyProposal_Returned:
  assumes "ReverifyProposal C h prior keys context p = Some (Returned x, p')"
  shows "pending_for h p'"
proof -
  have free: "\<not> utp_pending_mutex p" using assms by (auto simp: ReverifyProposal_def lock_pending_held)
  show ?thesis
  proof (cases "pb_isNull (utp_pending p)")
    case True
    then show ?thesis using assms ReverifyProposal_null [OF free] by (auto simp: pending_for_def)
  next
    case False
    let ?p = "p\<lparr>utp_pending_mutex := True\<rparr>"
    obtain q where q: "bindM (ReverifyTransactions C prior keys) (\<lambda>ok. if ok then
          bindM (updM (\<lambda>p. p\<lparr>utp_pending := setPrevHash h (utp_pending p)\<rparr>)) (\<lambda>_. returnM True)
        else bindM (ProposeBlock C h prior keys context) (\<lambda>_. returnM False)) ?p = Some (Returned x, q)"
      "p' = q\<lparr>utp_pending_mutex := False\<rparr>"
      using assms free False
      by (auto simp: ReverifyProposal_def lock_pending_def with_lock_def bindM_simps(4) getM_apply split: option.splits)
    have "\<not> utp_pending_mutex ?p" if "ProposeBlock C h prior keys context ?p = Some (Returned y, u)" for y u
      using that by (rule ProposeBlock_Returned)
    then have "q = ?p\<lparr>utp_pending := setPrevHash h (utp_pending p)\<rparr>"
      using q(1) by (auto simp: bindM_Returned effect_simps dest!: ReverifyTransactions_Some split: if_splits)
    then show ?thesis using q(2) by (simp add: pending_for_def setPrevHash_def)
  qed
qed

text \<open>The part of \<open>HandleFinalBlock\<close> behind \<open>push_back\<close>: whatever happens, the chain stays as it is and the
  pool well formed; if the handler returns, a proposal that is left is one behind the new block.\<close>

definition after_push :: "Crypto \<Rightarrow> DevcashContext \<Rightarrow> KeyRing \<Rightarrow> FinalBlock \<Rightarrow> bool node_prog" where
  "after_push C context keys top_block =
     bindM (pool_op HasProposal) (\<lambda>has.
     bindM
       (if has then
          pool_op (ReverifyProposal C (DevcashHash C (fb_getCanonical top_block)) (fb_state top_block) keys context)
        else returnM False) (\<lambda>_.
     bindM (getM (\<lambda>s. bc_size (final_chain s))) (\<lambda>block_height.
     bindM (pool_op HasPendingTransactions) (\<lambda>pending.
     if \<not> pending then returnM False
     else if my_turn block_height context then propose_next C keys context block_height
     else returnM False))))"

lemma keeps_chain_after_push: "keeps (\<lambda>s. final_chain s = c) (after_push C context keys b)"
  unfolding after_push_def by (intro keeps_intros)

lemma after_push_result:
  assumes wf: "bc_wf (final_chain s)" "pool_wf C keys (utx_pool s)"
    and chain: "bc_chain (final_chain s) = bs @ [b]" and eq: "after_push C context keys b s = Some (r, s')"
  shows "bc_chain (final_chain s') = bs @ [b] \<and> bc_wf (final_chain s') \<and> pool_wf C keys (utx_pool s') \<and>
    (\<forall>x. r = Returned x \<longrightarrow> node_ok C keys True (bs @ [b]) s')"
proof -
  let ?h = "DevcashHash C (fb_getCanonical b)"
  let ?rev = "\<lambda>has. if has then pool_op (ReverifyProposal C ?h (fb_state b) keys context) else returnM False"
  let ?tail = "bindM (getM (\<lambda>s. bc_size (final_chain s))) (\<lambda>n. bindM (pool_op HasPendingTransactions) (\<lambda>pending.
    if \<not> pending then returnM False else if my_turn n context then propose_next C keys context n else returnM False))"
  have tip: "tip_hash C s = ?h" using chain by (simp add: tip_hash_eq)
  show ?thesis
  proof (cases "utp_pending_mutex (utx_pool s)")
    case True
    then show ?thesis
      using eq wf chain by (auto simp: after_push_def bindM_Some pool_op_Some HasProposal_Some)
  next
    case False
    define has where "has = (\<not> pb_isNull (utp_pending (utx_pool s)))"
    have eq': "bindM (?rev has) (\<lambda>_. ?tail) s = Some (r, s')"
      using eq False has_def by (auto simp: after_push_def bindM_Some pool_op_Some HasProposal_Some)
    then obtain q t where q: "?rev has s = Some (q, t)" by (auto simp: bindM_Some)
    have t: "final_chain t = final_chain s" "pool_wf C keys (utx_pool t)"
      using q wf(2) keepsD [OF keeps_ReverifyProposal wf(2)]
      by (auto simp: pool_op_Some effect_simps split: if_splits)
    show ?thesis
    proof (cases q)
      case (Returned x)
      have "pending_for ?h (utx_pool t)"
        using q Returned has_def ReverifyProposal_Returned
        by (cases has) (fastforce simp: pool_op_Some effect_simps pending_for_def)+
      then have "node_ok C keys True (bs @ [b]) t"
        using t wf chain by (simp add: node_ok_def tip_hash_eq)
      moreover have "?tail t = Some (r, s')" using eq' q Returned by (simp add: bindM_simps)
      moreover have "keeps (node_ok C keys True (bs @ [b])) ?tail" by (intro keeps_intros)
      ultimately have "node_ok C keys True (bs @ [b]) s'" by (meson keepsD)
      then show ?thesis by (simp add: node_ok_def)
    qed (use eq' q t wf chain in \<open>auto simp: bindM_simps\<close>)
  qed
qed

lemma HandleFinalBlock_split:
  "HandleFinalBlock C msg context keys = bindM (bindM (chain_get getHighestChainState) (\<lambda>prior.
     pool_op (FinalizeRemoteBlock C (InputBuffer_make (msg_data msg) 0) prior keys))) (\<lambda>b.
     bindM (chain_push b) (\<lambda>_. after_push C context keys b))"
  unfolding HandleFinalBlock_def after_push_def bindM_assoc ..

lemma HandleFinalBlock_result:
  assumes ok: "node_ok C keys True bs s" and eq: "HandleFinalBlock C msg context keys s = Some (r, s')"
    and short: "length (bc_chain (final_chain s')) < 2 ^ 31"
  shows "node_ok C keys True bs s' \<or>
    (\<exists>b. bc_chain (final_chain s') = bs @ [b] \<and> bc_wf (final_chain s') \<and> pool_wf C keys (utx_pool s') \<and>
      (\<forall>x. r = Returned x \<longrightarrow> node_ok C keys True (bs @ [b]) s'))"
proof -
  note H = HandleFinalBlock_split [of C msg "context" keys]
  let ?read = "bindM (chain_get getHighestChainState) (\<lambda>prior.
      pool_op (FinalizeRemoteBlock C (InputBuffer_make (msg_data msg) 0) prior keys))"
  obtain q t where q: "?read s = Some (q, t)" using eq by (auto simp: H bindM_Some)
  have t: "node_ok C keys True bs t"
    using keepsD [OF keeps_bind [OF keeps_chain_get keeps_node_queries(5)] ok q] .
  show ?thesis
  proof (cases q)
    case (Returned b)
    let ?t = "t\<lparr>final_chain := bc_push_back b (final_chain t)\<rparr>"
    have a: "after_push C context keys b ?t = Some (r, s')"
      using eq q Returned by (simp add: H bindM_simps chain_push_def effect_simps)
    have "final_chain s' = final_chain ?t" using keepsD [OF keeps_chain_after_push _ a] by simp
    then have "bc_wf (final_chain ?t)" "pool_wf C keys (utx_pool ?t)" "bc_chain (final_chain ?t) = bs @ [b]"
      using t short by (simp_all add: node_ok_def bc_wf_push_back)
    from after_push_result [OF this a] show ?thesis by blast
  qed (use eq q t in \<open>auto simp: H bindM_simps\<close>)
qed

text \<open>The chain grows by at most one block, without assumptions on the state.\<close>

definition grown :: "NodeState \<Rightarrow> NodeState \<Rightarrow> bool" where
  "grown s s' = (final_chain s' = final_chain s \<or> (\<exists>b. final_chain s' = bc_push_back b (final_chain s)))"

lemma grown_refl [simp]: "grown s s"
  by (simp add: grown_def)

lemma HandleFinalBlock_grown:
  assumes "HandleFinalBlock C msg context keys s = Some (r, s')"
  shows "grown s s'"
proof -
  let ?read = "bindM (chain_get getHighestChainState) (\<lambda>prior.
      pool_op (FinalizeRemoteBlock C (InputBuffer_make (msg_data msg) 0) prior keys))"
  obtain q t where q: "?read s = Some (q, t)" using assms by (auto simp: HandleFinalBlock_split bindM_Some)
  have t: "final_chain t = final_chain s"
    using keepsD [OF keeps_bind [OF keeps_chain_get keeps_chain_pool] refl q] .
  show ?thesis
  proof (cases q)
    case (Returned b)
    have "after_push C context keys b (t\<lparr>final_chain := bc_push_back b (final_chain t)\<rparr>) = Some (r, s')"
      using assms q Returned by (simp add: HandleFinalBlock_split bindM_simps chain_push_def effect_simps)
    from keepsD [OF keeps_chain_after_push refl this] show ?thesis by (auto simp: grown_def t)
  qed (use assms q t in \<open>auto simp: HandleFinalBlock_split bindM_simps grown_def\<close>)
qed

lemma HandleValidationBlock_grown:
  assumes "HandleValidationBlock C now msg context s = Some (r, s')"
  shows "grown s s'"
  using assms
  by (auto simp: HandleValidationBlock_def bindM_Some pool_op_Some chain_push_def send_def effect_simps grown_def
      split: if_splits)

lemma keeps_chain_proposal [keeps_intros]:
  "keeps (\<lambda>s. final_chain s = c) (HandleProposalBlock C msg context keys)"
  unfolding HandleProposalBlock_def by (intro keeps_intros)

end
