(* ===== verification/Controllers.thy ===== *)
theory Controllers
  imports Handlers
begin

text \<open>
  The threads of a node. \<^verbatim>\<open>concurrency/*Controller.cpp\<close>: the three callbacks; \<^verbatim>\<open>concurrency/ThreadGroup.cpp\<close>
  and \<^verbatim>\<open>concurrency/DevcashMPMCQueue.h\<close>: the threads that take messages from a queue and hand them to a
  callback; \<^verbatim>\<open>modules/BlockchainModule.cpp\<close>: the node that owns them, with the dispatch of incoming messages
  and the main loop; \<^verbatim>\<open>io/message_service.cpp\<close>: what it does with the frames of a message.

  A node moves in steps: a frame arrives, a message is sent, the main loop goes round or one of the threads
  does the next part of its loop. The run of a callback is one step. The queues, which come from a library,
  are lists.
\<close>

section \<open>Callbacks\<close>

definition validatorCallback :: "Crypto \<Rightarrow> KeyRing \<Rightarrow> DevcashContext \<Rightarrow> DevcashMessage option \<Rightarrow> unit node_prog" where
  "validatorCallback C keys context ptr =
     with_lock validator_mutex (\<lambda>b. validator_mutex_update (\<lambda>_. b)) ''ValidatorController::mutex_''
       (case ptr of
          None \<Rightarrow> throwM (DevcashMessageError ''validatorCallback(): ptr == nullptr, ignoring'')
        | Some msg \<Rightarrow>
            if msg_type msg = TRANSACTION_ANNOUNCEMENT then
              bindM (pool_op (AddTransactions_serial C keys (msg_data msg))) (\<lambda>_.
              bindM (getM (\<lambda>s. bc_size (final_chain s))) (\<lambda>block_height.
              if my_turn block_height context then
                bindM (propose_next C keys context block_height) (\<lambda>_. returnM ())
              else returnM ()))
            else
              throwM (DevcashMessageError
                (''Wrong message type arrived: '' @ to_string_u (message_type_value (msg_type msg)))))"

text \<open>The dispatch inside of the \<^verbatim>\<open>try\<close> block. \<^verbatim>\<open>throw e\<close> in its \<^verbatim>\<open>catch\<close> clause throws a copy of the
  base class.\<close>

definition consensus_dispatch ::
  "Crypto \<Rightarrow> KeyRing \<Rightarrow> DevcashContext \<Rightarrow> uint64 \<Rightarrow> DevcashMessage option \<Rightarrow> unit node_prog" where
  "consensus_dispatch C keys context now ptr =
     (case ptr of
        None \<Rightarrow> throwM (Undefined ''null pointer'')
      | Some msg \<Rightarrow>
          (case msg_type msg of
             FINAL_BLOCK \<Rightarrow> bindM (HandleFinalBlock C msg context keys) (\<lambda>_. returnM ())
           | PROPOSAL_BLOCK \<Rightarrow>
               bindM (pool_op (updM (\<lambda>p. p\<lparr>utp_tcm := set_keys keys (utp_tcm p)\<rparr>))) (\<lambda>_.
               bindM (HandleProposalBlock C msg context keys) (\<lambda>_. returnM ()))
           | VALID \<Rightarrow> bindM (HandleValidationBlock C now msg context) (\<lambda>_. returnM ())
           | ty \<Rightarrow>
               throwM (DevcashMessageError
                 (''consensusCallback(): Unexpected message type:'' @ to_string_u (message_type_value ty)))))"

definition consensusCallback ::
  "Crypto \<Rightarrow> KeyRing \<Rightarrow> DevcashContext \<Rightarrow> uint64 \<Rightarrow> DevcashMessage option \<Rightarrow> unit node_prog" where
  "consensusCallback C keys context now ptr =
     with_lock consensus_mutex (\<lambda>b. consensus_mutex_update (\<lambda>_. b)) ''ConsensusController::mutex_''
       (catchM (consensus_dispatch C keys context now ptr)
          (\<lambda>e. if is_std_exception e then Some (throwM StdException) else None))"

definition request_blocks :: "DevcashContext \<Rightarrow> eAppMode \<Rightarrow> unit node_prog" where
  "request_blocks context mode =
     bindM (getM remote_blocks) (\<lambda>blocks.
     bindM (getM (\<lambda>s. bc_size (final_chain s))) (\<lambda>size.
     if blocks < size then
       let request = Uint64ToBin (ucast (get_current_node context)) (Uint64ToBin blocks []);
           peer = ucast (get_current_node context) mod ctx_peer_count context :: size_t;
           ask = (\<lambda>index. send (DevcashMessage_make (get_uri_from_index context (ucast index)) GET_BLOCKS_SINCE
                                  request (ucast blocks)))
       in (case mode of
             mode_T1 \<Rightarrow>
               bindM (ask (ctx_peer_count context + peer)) (\<lambda>_. ask (ctx_peer_count context * 2 + peer))
           | mode_T2 \<Rightarrow> ask peer
           | mode_scan \<Rightarrow> returnM ())
     else returnM ()))"

definition message_dispatch ::
  "Crypto \<Rightarrow> KeyRing \<Rightarrow> DevcashContext \<Rightarrow> eAppMode \<Rightarrow> uint64 \<Rightarrow> DevcashMessage option \<Rightarrow> unit node_prog" where
  "message_dispatch C keys context mode now ptr =
     (case ptr of
        None \<Rightarrow> throwM (Undefined ''null pointer'')
      | Some msg \<Rightarrow>
          (case msg_type msg of
             REQUEST_BLOCK \<Rightarrow> request_blocks context mode
           | GET_BLOCKS_SINCE \<Rightarrow> bindM (HandleBlocksSinceRequest C msg context keys) (\<lambda>_. returnM ())
           | BLOCKS_SINCE \<Rightarrow> bindM (HandleBlocksSince now msg context keys) (\<lambda>_. returnM ())
           | _ \<Rightarrow> returnM ()))"

fun is_deserialization_error :: "error \<Rightarrow> bool" where
  "is_deserialization_error (DeserializationError what) = True"
| "is_deserialization_error e = False"

definition messageCallback ::
  "Crypto \<Rightarrow> KeyRing \<Rightarrow> DevcashContext \<Rightarrow> eAppMode \<Rightarrow> uint64 \<Rightarrow> DevcashMessage option \<Rightarrow> unit node_prog" where
  "messageCallback C keys context mode now ptr =
     with_lock utx_mutex (\<lambda>b. utx_mutex_update (\<lambda>_. b)) ''InternetworkController::utx_mutex_''
       (catchM (message_dispatch C keys context mode now ptr)
          (\<lambda>e. if is_deserialization_error e then Some (returnM ()) else None))"

section \<open>Threads\<close>

text \<open>Where a thread is: about to start its loop, at the condition of the loop, waiting in \<open>pop\<close>, out of the
  loop, blocked on a mutex, or in a callback that loops for ever.\<close>

datatype thread_status = Starting | Testing | Popping | Exited | Hung string | Spinning

record ThreadGroup =
  num_threads :: nat
  thread_pool :: "thread_status list"
  thread_queue :: "DevcashMessage list"
  keep_popping :: bool
  callback_attached :: bool
  do_run :: bool

definition ThreadGroup_make :: "nat \<Rightarrow> ThreadGroup" where
  "ThreadGroup_make n =
     \<lparr>num_threads = n, thread_pool = [], thread_queue = [], keep_popping = True, callback_attached = False,
      do_run = False\<rparr>"

text \<open>A null pointer is \<open>None\<close>.\<close>

definition attachCallback :: "'callback option \<Rightarrow> ThreadGroup \<Rightarrow> error + ThreadGroup" where
  "attachCallback callback tg =
     (case callback of
        None \<Rightarrow> Inl (RuntimeError ''Cannot attach a nullptr callback'')
      | Some _ \<Rightarrow> Inr (tg\<lparr>callback_attached := True\<rparr>))"

definition pushMessage :: "DevcashMessage option \<Rightarrow> ThreadGroup \<Rightarrow> error + ThreadGroup" where
  "pushMessage message tg =
     (case message of
        None \<Rightarrow> Inl (RuntimeError ''pushMessage(): cannot push a nullptr to the input queue'')
      | Some msg \<Rightarrow> Inr (tg\<lparr>thread_queue := thread_queue tg @ [msg]\<rparr>))"

definition tg_start :: "ThreadGroup \<Rightarrow> bool \<times> ThreadGroup" where
  "tg_start tg =
     (if \<not> do_run tg then
        (True, tg\<lparr>do_run := True, thread_pool := thread_pool tg @ replicate (num_threads tg) Starting\<rparr>)
      else (False, tg))"

text \<open>\<open>stop\<close>, without the waiting for the threads at its end.\<close>

definition tg_stop :: "ThreadGroup \<Rightarrow> bool \<times> ThreadGroup" where
  "tg_stop tg =
     (if \<not> do_run tg then (False, tg) else (True, tg\<lparr>do_run := False, keep_popping := False\<rparr>))"

text \<open>\<open>pop\<close>, as a thread that waits in it sees the queue: \<open>None\<close> to wait on, otherwise the pointer it returns.\<close>

definition pop :: "ThreadGroup \<Rightarrow> (DevcashMessage option \<times> ThreadGroup) option" where
  "pop tg =
     (case thread_queue tg of
        [] \<Rightarrow> if keep_popping tg then None else Some (None, tg)
      | msg # rest \<Rightarrow> Some (Some msg, tg\<lparr>thread_queue := rest\<rparr>))"

text \<open>What a thread does after its callback: an exception that is no \<^verbatim>\<open>std::exception\<close> leaves the thread and
  ends the process, as undefined behaviour and a failed assertion are taken to do.\<close>

fun after_callback :: "unit outcome \<Rightarrow> thread_status option" where
  "after_callback (Returned u) = Some Testing"
| "after_callback (Thrown e) = (if is_std_exception e then Some Exited else None)"
| "after_callback (Blocked n) = Some (Hung n)"

text \<open>The next part of the loop of thread \<open>i\<close>. The flag says that the process ends.\<close>

definition loop_step ::
  "(DevcashMessage option \<Rightarrow> unit node_prog) \<Rightarrow> nat \<Rightarrow> ThreadGroup \<times> NodeState \<Rightarrow> bool \<times> ThreadGroup \<times> NodeState" where
  "loop_step callback i = (\<lambda>(tg, s).
     if \<not> i < length (thread_pool tg) then (False, tg, s)
     else
       (case thread_pool tg ! i of
          Starting \<Rightarrow>
            (False, tg\<lparr>thread_pool := (thread_pool tg)[i := if callback_attached tg then Testing else Exited]\<rparr>, s)
        | Testing \<Rightarrow>
            (False, tg\<lparr>thread_pool := (thread_pool tg)[i := if do_run tg then Popping else Exited]\<rparr>, s)
        | Popping \<Rightarrow>
            (case pop tg of
               None \<Rightarrow> (False, tg, s)
             | Some (ptr, tg) \<Rightarrow>
                 (case callback ptr s of
                    None \<Rightarrow> (False, tg\<lparr>thread_pool := (thread_pool tg)[i := Spinning]\<rparr>, s)
                  | Some (r, s') \<Rightarrow>
                      (case after_callback r of
                         None \<Rightarrow> (True, tg, s')
                       | Some st \<Rightarrow> (False, tg\<lparr>thread_pool := (thread_pool tg)[i := st]\<rparr>, s'))))
        | _ \<Rightarrow> (False, tg, s)))"

section \<open>What the callbacks preserve\<close>

lemma keeps_validatorCallback: "keeps (node_ok C keys live bs) (validatorCallback C keys context ptr)"
  unfolding validatorCallback_def by (cases ptr) (auto intro!: keeps_intros)

lemma keeps_request_blocks [keeps_intros]: "keeps (node_ok C keys live bs) (request_blocks context mode)"
  unfolding request_blocks_def Let_def by (intro keeps_intros keeps_mode)

lemma keeps_messageCallback: "keeps (node_ok C keys live bs) (messageCallback C keys' context mode now ptr)"
proof -
  have "keeps (node_ok C keys live bs) (message_dispatch C keys' context mode now ptr)"
    unfolding message_dispatch_def by (auto intro!: keeps_intros split: option.split eMessageType.split)
  then show ?thesis
    unfolding messageCallback_def by (auto intro!: keeps_intros split: if_splits)
qed

text \<open>The outcomes of the consensus callback: the chain as it was, or with one more block. That block was read
  from a \<open>FINAL_BLOCK\<close> message or is one that this node finalised behind its last block.\<close>

definition from_message :: "Crypto \<Rightarrow> KeyRing \<Rightarrow> DevcashContext \<Rightarrow> bytes \<Rightarrow> DevcashMessage option \<Rightarrow> FinalBlock \<Rightarrow> bool" where
  "from_message C keys context h ptr b =
     (\<exists>msg. ptr = Some msg \<and>
        (msg_type msg = FINAL_BLOCK \<or> msg_type msg = VALID \<and> local_block C keys context h b))"

definition consensus_outcome ::
  "Crypto \<Rightarrow> KeyRing \<Rightarrow> DevcashContext \<Rightarrow> FinalBlock list \<Rightarrow> bytes \<Rightarrow> DevcashMessage option \<Rightarrow> bool \<Rightarrow> NodeState \<Rightarrow> bool" where
  "consensus_outcome C keys context bs h ptr returned s' =
     (node_ok C keys True bs s' \<or>
      (\<exists>b. node_ok C keys False (bs @ [b]) s' \<and> (returned \<longrightarrow> node_ok C keys True (bs @ [b]) s') \<and>
         from_message C keys context h ptr b))"

lemma dispatch_final:
  assumes ok: "node_ok C keys True bs s" and eq: "consensus_dispatch C keys context now (Some msg) s = Some (r, s')"
    and short: "length (bc_chain (final_chain s')) < 2 ^ 31" and ty: "msg_type msg = FINAL_BLOCK"
  shows "consensus_outcome C keys context bs h (Some msg) (r = Returned ()) s'"
proof -
  obtain q where q: "HandleFinalBlock C msg context keys s = Some (q, s')" "r = Returned () \<longrightarrow> (\<exists>x. q = Returned x)"
    using eq ty by (auto simp: consensus_dispatch_def bindM_Some returnM_apply)
  from HandleFinalBlock_result [OF ok q(1) short] show ?thesis
  proof
    assume "\<exists>b. bc_chain (final_chain s') = bs @ [b] \<and> bc_wf (final_chain s') \<and> pool_wf C keys (utx_pool s') \<and>
      (\<forall>x. q = Returned x \<longrightarrow> node_ok C keys True (bs @ [b]) s')"
    then show ?thesis using q(2) ty unfolding consensus_outcome_def node_ok_def from_message_def by blast
  qed (simp add: consensus_outcome_def)
qed

lemma dispatch_valid:
  assumes ok: "node_ok C keys True bs s" and eq: "consensus_dispatch C keys context now (Some msg) s = Some (r, s')"
    and short: "length (bc_chain (final_chain s')) < 2 ^ 31" and ty: "msg_type msg = VALID"
  shows "consensus_outcome C keys context bs (tip_hash C s) (Some msg) (r = Returned ()) s'"
proof -
  obtain q where q: "HandleValidationBlock C now msg context s = Some (q, s')"
    using eq ty by (auto simp: consensus_dispatch_def bindM_Some returnM_apply)
  from HandleValidationBlock_result [OF ok q] show ?thesis
  proof (elim disjE conjE exE)
    fix b
    assume b: "final_chain s' = bc_push_back b (final_chain s)" "pool_wf C keys (utx_pool s')"
      "pb_isNull (utp_pending (utx_pool s'))" "local_block C keys context (tip_hash C s) b"
    have "node_ok C keys live (bs @ [b]) s'" for live
      using b(1-3) ok short by (simp add: node_ok_def pending_for_def bc_wf_push_back)
    then show ?thesis using b(4) ty unfolding consensus_outcome_def from_message_def by blast
  qed (simp add: consensus_outcome_def)
qed

lemma consensus_dispatch_result:
  assumes ok: "node_ok C keys True bs s" and eq: "consensus_dispatch C keys context now ptr s = Some (r, s')"
    and short: "length (bc_chain (final_chain s')) < 2 ^ 31"
  shows "consensus_outcome C keys context bs (tip_hash C s) ptr (r = Returned ()) s'"
proof (cases "\<exists>msg. ptr = Some msg \<and> msg_type msg \<in> {FINAL_BLOCK, VALID}")
  case True
  then obtain msg where "ptr = Some msg" "msg_type msg = FINAL_BLOCK \<or> msg_type msg = VALID" by blast
  then show ?thesis
    using ok eq short dispatch_final [of C keys bs s "context" now msg] dispatch_valid [of C keys bs s "context" now msg]
    by simp blast
next
  case False
  have "keeps (node_ok C keys True bs) (consensus_dispatch C keys context now ptr)"
  proof (cases ptr)
    case None
    then show ?thesis by (simp add: consensus_dispatch_def keeps_pure)
  next
    case (Some msg)
    have "keeps (node_ok C keys True bs) (bindM (pool_op (updM (\<lambda>p. p\<lparr>utp_tcm := set_keys keys (utp_tcm p)\<rparr>))) (\<lambda>_.
        bindM (HandleProposalBlock C msg context keys) (\<lambda>_. returnM ())))"
      by (intro keeps_bind keeps_node_queries keeps_HandleProposalBlock keeps_pure)
    then show ?thesis
      using Some False by (cases "msg_type msg") (simp_all add: consensus_dispatch_def keeps_pure)
  qed
  from keepsD [OF this ok eq] show ?thesis by (simp add: consensus_outcome_def)
qed

lemma consensusCallback_result:
  assumes ok: "node_ok C keys True bs s" and eq: "consensusCallback C keys context now ptr s = Some (r, s')"
    and short: "length (bc_chain (final_chain s')) < 2 ^ 31"
  shows "consensus_outcome C keys context bs (tip_hash C s) ptr (r = Returned ()) s'"
proof (cases "consensus_mutex s")
  case True
  then show ?thesis using ok eq by (simp add: consensusCallback_def effect_simps consensus_outcome_def)
next
  case False
  let ?s = "s\<lparr>consensus_mutex := True\<rparr>"
  obtain q t where q: "consensus_dispatch C keys context now ptr ?s = Some (q, t)"
    "r = Returned () \<longrightarrow> q = Returned ()" "s' = t \<or> s' = t\<lparr>consensus_mutex := False\<rparr>"
    using eq False
    by (auto simp: consensusCallback_def with_lock_def catchM_def throwM_def
        split: option.splits outcome.splits if_splits)
  have "node_ok C keys True bs ?s" "length (bc_chain (final_chain t)) < 2 ^ 31" using ok short q(3) by auto
  from consensus_dispatch_result [OF this(1) q(1) this(2)] q(2,3) show ?thesis
    by (auto simp: consensus_outcome_def)
qed

lemma consensusCallback_grown:
  assumes "consensusCallback C keys context now ptr s = Some (r, s')"
  shows "grown s s'"
proof (cases "consensus_mutex s")
  case True
  then show ?thesis using assms by (simp add: consensusCallback_def effect_simps grown_def)
next
  case False
  let ?s = "s\<lparr>consensus_mutex := True\<rparr>"
  obtain q t where q: "consensus_dispatch C keys context now ptr ?s = Some (q, t)"
    "s' = t \<or> s' = t\<lparr>consensus_mutex := False\<rparr>"
    using assms False
    by (auto simp: consensusCallback_def with_lock_def catchM_def throwM_def
        split: option.splits outcome.splits if_splits)
  have "grown ?s t"
  proof (cases ptr)
    case None
    then show ?thesis using q(1) by (simp add: consensus_dispatch_def throwM_apply grown_def)
  next
    case (Some msg)
    have keep: "keeps (\<lambda>t. final_chain t = final_chain ?s)
        (bindM (pool_op (updM (\<lambda>p. p\<lparr>utp_tcm := set_keys keys (utp_tcm p)\<rparr>))) (\<lambda>_.
         bindM (HandleProposalBlock C msg context keys) (\<lambda>_. returnM ())))"
      by (intro keeps_intros)
    show ?thesis
    proof (cases "msg_type msg")
      case PROPOSAL_BLOCK
      then show ?thesis
        using q(1) Some keepsD [OF keep refl] by (simp add: consensus_dispatch_def grown_def)
    qed (use q(1) Some in \<open>auto simp: consensus_dispatch_def bindM_Some returnM_apply throwM_apply
        dest: HandleFinalBlock_grown HandleValidationBlock_grown\<close>)
  qed
  then show ?thesis using q(2) by (auto simp: grown_def)
qed

lemma keeps_chain_callbacks:
  "keeps (\<lambda>s. final_chain s = c) (validatorCallback C keys context ptr)"
  "keeps (\<lambda>s. final_chain s = c) (messageCallback C keys context mode now ptr)"
proof -
  show "keeps (\<lambda>s. final_chain s = c) (validatorCallback C keys context ptr)"
    unfolding validatorCallback_def by (cases ptr) (auto intro!: keeps_intros)
  have "keeps (\<lambda>s. final_chain s = c) (message_dispatch C keys context mode now ptr)"
    unfolding message_dispatch_def request_blocks_def HandleBlocksSinceRequest_def HandleBlocksSince_def Let_def
    by (auto intro!: keeps_intros keeps_mode split: option.split eMessageType.split)
  then show "keeps (\<lambda>s. final_chain s = c) (messageCallback C keys context mode now ptr)"
    unfolding messageCallback_def by (auto intro!: keeps_intros split: if_splits)
qed

lemmas callback_results = keeps_validatorCallback keeps_messageCallback consensusCallback_result

end
