(* ===== verification/Node_Module.thy ===== *)
theory Node_Module
  imports Controllers
begin

text \<open>
  \<^verbatim>\<open>modules/BlockchainModule.cpp\<close> and \<^verbatim>\<open>io/message_service.cpp\<close>: a node, the frames it receives and
  publishes, and the steps it takes. The theorems are about every state that a started node can reach,
  whatever frames arrive and however its threads are scheduled.
\<close>

section \<open>The node\<close>

record Node =
  nd_state :: NodeState
  nd_validator :: ThreadGroup
  nd_consensus :: ThreadGroup
  nd_internetwork :: ThreadGroup
  nd_remote_blocks :: uint64
  nd_shutdown :: bool
  nd_request_shutdown :: bool
  nd_server_running :: bool
  nd_client_running :: bool
  nd_published :: "(string \<times> bytes) list"
  nd_terminated :: bool

text \<open>The constructor and \<open>Create\<close>. The counter of the internetwork controller is not initialised, so its
  value is an argument. The executors have one thread each.\<close>

definition BlockchainModule_make :: "uint64 \<Rightarrow> ChainState \<Rightarrow> eAppMode \<Rightarrow> size_t \<Rightarrow> Node" where
  "BlockchainModule_make uninitialised prior mode max_tx_per_block =
     \<lparr>nd_state =
        \<lparr>final_chain = Blockchain_make ''final_chain_'',
         utx_pool = UnrecordedTransactionPool_make prior mode max_tx_per_block,
         outgoing = [], remote_blocks = uninitialised,
         validator_mutex = False, consensus_mutex = False, utx_mutex = False\<rparr>,
      nd_validator = ThreadGroup_make 1, nd_consensus = ThreadGroup_make 1, nd_internetwork = ThreadGroup_make 1,
      nd_remote_blocks = 0, nd_shutdown = False, nd_request_shutdown = False, nd_server_running = False,
      nd_client_running = False, nd_published = [], nd_terminated = False\<rparr>"

definition BlockchainModule_Create :: "uint64 \<Rightarrow> ChainState \<Rightarrow> eAppMode \<Rightarrow> size_t \<Rightarrow> error + Node" where
  "BlockchainModule_Create uninitialised prior mode max_tx_per_block =
     (let n = BlockchainModule_make uninitialised prior mode max_tx_per_block in
      bindE (attachCallback (Some validatorCallback) (nd_validator n)) (\<lambda>validator.
      bindE (attachCallback (Some consensusCallback) (nd_consensus n)) (\<lambda>consensus.
      bindE (attachCallback (Some messageCallback) (nd_internetwork n)) (\<lambda>internetwork.
      Inr (n\<lparr>nd_validator := validator, nd_consensus := consensus, nd_internetwork := internetwork\<rparr>)))))"

definition handleMessage :: "DevcashMessage \<Rightarrow> Node \<Rightarrow> error + Node" where
  "handleMessage message n =
     (case msg_type message of
        TRANSACTION_ANNOUNCEMENT \<Rightarrow>
          bindE (pushMessage (Some message) (nd_validator n)) (\<lambda>tg. Inr (n\<lparr>nd_validator := tg\<rparr>))
      | GET_BLOCKS_SINCE \<Rightarrow>
          bindE (pushMessage (Some message) (nd_internetwork n)) (\<lambda>tg. Inr (n\<lparr>nd_internetwork := tg\<rparr>))
      | BLOCKS_SINCE \<Rightarrow>
          bindE (pushMessage (Some message) (nd_internetwork n)) (\<lambda>tg. Inr (n\<lparr>nd_internetwork := tg\<rparr>))
      | REQUEST_BLOCK \<Rightarrow>
          bindE (pushMessage (Some message) (nd_internetwork n)) (\<lambda>tg. Inr (n\<lparr>nd_internetwork := tg\<rparr>))
      | FINAL_BLOCK \<Rightarrow>
          bindE (pushMessage (Some message) (nd_consensus n)) (\<lambda>tg. Inr (n\<lparr>nd_consensus := tg\<rparr>))
      | PROPOSAL_BLOCK \<Rightarrow>
          bindE (pushMessage (Some message) (nd_consensus n)) (\<lambda>tg. Inr (n\<lparr>nd_consensus := tg\<rparr>))
      | VALID \<Rightarrow>
          bindE (pushMessage (Some message) (nd_consensus n)) (\<lambda>tg. Inr (n\<lparr>nd_consensus := tg\<rparr>))
      | ty \<Rightarrow> Inl (DevcashMessageError (''Unknown message type:'' @ to_string_u (message_type_value ty))))"

text \<open>\<open>init\<close> and the first part of \<open>start\<close>: the server, the clients and the executors run.\<close>

definition module_start :: "Node \<Rightarrow> Node" where
  "module_start n =
     n\<lparr>nd_server_running := True, nd_client_running := True,
       nd_consensus := snd (tg_start (nd_consensus n)),
       nd_internetwork := snd (tg_start (nd_internetwork n)),
       nd_validator := snd (tg_start (nd_validator n))\<rparr>"

text \<open>One round of the main loop.\<close>

definition main_loop_step :: "DevcashContext \<Rightarrow> Node \<Rightarrow> Node" where
  "main_loop_step context n =
     (let size = bc_size (final_chain (nd_state n)) in
      if \<not> nd_shutdown n \<and> nd_remote_blocks n < size then
        n\<lparr>nd_state := (nd_state n)\<lparr>outgoing := outgoing (nd_state n)
            @ [DevcashMessage_make (ctx_uri context) REQUEST_BLOCK [] (ucast (nd_remote_blocks n))]\<rparr>,
          nd_remote_blocks := size\<rparr>
      else n)"

definition module_shutdown :: "Node \<Rightarrow> Node" where
  "module_shutdown n = n\<lparr>nd_request_shutdown := True, nd_client_running := False, nd_server_running := False\<rparr>"

section \<open>Frames\<close>

text \<open>The client: an empty frame is a timeout. An exception that leaves this \<^verbatim>\<open>noexcept\<close> method ends the
  process.\<close>

definition processIncomingMessage :: "string \<Rightarrow> bytes \<Rightarrow> Node \<Rightarrow> Node" where
  "processIncomingMessage uri mess n =
     (if uri = [] then n
      else if mess = [] then n
      else
        case bindE (deserialize mess) (\<lambda>devcash_message. handleMessage devcash_message n) of
          Inl e \<Rightarrow> n\<lparr>nd_terminated := True\<rparr>
        | Inr n' \<Rightarrow> n')"

text \<open>The server takes one message from its queue and sends it.\<close>

definition sendMessage :: "DevcashMessage \<Rightarrow> Node \<Rightarrow> Node" where
  "sendMessage msg n =
     (if \<not> nd_server_running n then n
      else n\<lparr>nd_published := nd_published n @ [(msg_uri msg, serialize msg)]\<rparr>)"

definition server_step :: "Node \<Rightarrow> Node" where
  "server_step n =
     (case outgoing (nd_state n) of
        [] \<Rightarrow> n
      | msg # rest \<Rightarrow> sendMessage msg (n\<lparr>nd_state := (nd_state n)\<lparr>outgoing := rest\<rparr>\<rparr>))"

section \<open>Steps\<close>

definition validator_step :: "Crypto \<Rightarrow> KeyRing \<Rightarrow> DevcashContext \<Rightarrow> nat \<Rightarrow> Node \<Rightarrow> Node" where
  "validator_step C keys context i n =
     (let (ended, tg, s) = loop_step (validatorCallback C keys context) i (nd_validator n, nd_state n)
      in n\<lparr>nd_validator := tg, nd_state := s, nd_terminated := ended\<rparr>)"

definition consensus_step :: "Crypto \<Rightarrow> KeyRing \<Rightarrow> DevcashContext \<Rightarrow> uint64 \<Rightarrow> nat \<Rightarrow> Node \<Rightarrow> Node" where
  "consensus_step C keys context now i n =
     (let (ended, tg, s) = loop_step (consensusCallback C keys context now) i (nd_consensus n, nd_state n)
      in n\<lparr>nd_consensus := tg, nd_state := s, nd_terminated := ended\<rparr>)"

definition internetwork_step ::
  "Crypto \<Rightarrow> KeyRing \<Rightarrow> DevcashContext \<Rightarrow> eAppMode \<Rightarrow> uint64 \<Rightarrow> nat \<Rightarrow> Node \<Rightarrow> Node" where
  "internetwork_step C keys context mode now i n =
     (let (ended, tg, s) = loop_step (messageCallback C keys context mode now) i (nd_internetwork n, nd_state n)
      in n\<lparr>nd_internetwork := tg, nd_state := s, nd_terminated := ended\<rparr>)"

inductive node_step :: "Crypto \<Rightarrow> KeyRing \<Rightarrow> DevcashContext \<Rightarrow> eAppMode \<Rightarrow> Node \<Rightarrow> Node \<Rightarrow> bool"
  for C keys "context" mode where
  receive: "\<not> nd_terminated n \<Longrightarrow> nd_client_running n \<Longrightarrow> node_step C keys context mode n (processIncomingMessage uri mess n)"
| publish: "\<not> nd_terminated n \<Longrightarrow> node_step C keys context mode n (server_step n)"
| tick: "\<not> nd_terminated n \<Longrightarrow> node_step C keys context mode n (main_loop_step context n)"
| validator: "\<not> nd_terminated n \<Longrightarrow> node_step C keys context mode n (validator_step C keys context i n)"
| consensus: "\<not> nd_terminated n \<Longrightarrow> node_step C keys context mode n (consensus_step C keys context now i n)"
| internetwork: "\<not> nd_terminated n \<Longrightarrow> node_step C keys context mode n (internetwork_step C keys context mode now i n)"
| shutdown: "\<not> nd_terminated n \<Longrightarrow> node_step C keys context mode n (module_shutdown n)"

inductive_cases node_stepE: "node_step C keys context mode n n'"

text \<open>The states that a started node can reach.\<close>

inductive reachable :: "Crypto \<Rightarrow> KeyRing \<Rightarrow> DevcashContext \<Rightarrow> eAppMode \<Rightarrow> Node \<Rightarrow> bool"
  for C keys "context" mode where
  started: "BlockchainModule_Create uninitialised prior mode max_tx = Inr n \<Longrightarrow>
    reachable C keys context mode (module_start n)"
| steps: "reachable C keys context mode n \<Longrightarrow> node_step C keys context mode n n' \<Longrightarrow>
    reachable C keys context mode n'"

section \<open>Invariant\<close>

abbreviation blocks :: "Node \<Rightarrow> FinalBlock list" where
  "blocks n \<equiv> bc_chain (final_chain (nd_state n))"

fun active :: "thread_status \<Rightarrow> bool" where
  "active Starting = True"
| "active Testing = True"
| "active Popping = True"
| "active st = False"

definition consensus_live :: "Node \<Rightarrow> bool" where
  "consensus_live n = (\<not> nd_terminated n \<and> list_ex active (thread_pool (nd_consensus n)))"

definition node_inv :: "Crypto \<Rightarrow> KeyRing \<Rightarrow> Node \<Rightarrow> bool" where
  "node_inv C keys n =
     (length (thread_pool (nd_consensus n)) = 1 \<and>
      (length (blocks n) < 2 ^ 31 \<longrightarrow> node_ok C keys (consensus_live n) (blocks n) (nd_state n)))"

lemma node_ok_weaken: "node_ok C keys live bs s \<Longrightarrow> (live' \<longrightarrow> live) \<Longrightarrow> node_ok C keys live' bs s"
  by (auto simp: node_ok_def)

text \<open>A step of a thread leaves the shared state or runs the callback on the next message.\<close>

lemma loop_step_cases:
  assumes "loop_step callback i (tg, s) = (ended, tg', s')"
  obtains
    (idle) "s' = s" "\<not> ended" "length (thread_pool tg') = length (thread_pool tg)"
      "list_ex active (thread_pool tg') \<longrightarrow> list_ex active (thread_pool tg)"
  | (run) ptr tg0 r where "i < length (thread_pool tg)" "thread_pool tg ! i = Popping" "pop tg = Some (ptr, tg0)"
      "callback ptr s = Some (r, s')" "ended = (after_callback r = None)"
      "thread_pool tg' = (thread_pool tg)[i := case after_callback r of None \<Rightarrow> Popping | Some st \<Rightarrow> st]"
proof -
  have ex: "list_ex active (xs[i := st]) \<longrightarrow> list_ex active xs" if "i < length xs" "active (xs ! i)" for xs st
    using that by (auto simp: list_ex_length)
  have upd: "thread_pool tg0 = thread_pool tg" if "pop tg = Some (ptr, tg0)" for ptr tg0
    using that by (auto simp: pop_def split: list.splits if_splits)
  show thesis
  proof (cases "i < length (thread_pool tg) \<and> thread_pool tg ! i = Popping")
    case False
    then show thesis
      using assms idle ex [of "thread_pool tg"] by (cases "thread_pool tg ! i") (auto simp: loop_step_def split: if_splits)
  next
    case True
    show thesis
    proof (cases "pop tg")
      case None
      then show thesis using assms True idle by (simp add: loop_step_def)
    next
      case (Some p)
      obtain ptr tg0 where p: "p = (ptr, tg0)" by (cases p)
      show thesis
      proof (cases "callback ptr s")
        case None
        then show thesis
          using assms True Some p idle upd ex [of "thread_pool tg"] by (auto simp: loop_step_def)
      next
        case (Some q)
        have same: "(thread_pool tg)[i := Popping] = thread_pool tg" using True by (metis list_update_id)
        from Some show thesis
          using assms True \<open>pop tg = Some p\<close> p upd run same
          by (cases q) (auto simp: loop_step_def split: option.splits)
      qed
    qed
  qed
qed

lemma inv_frame:
  assumes "node_inv C keys n" "final_chain (nd_state n') = final_chain (nd_state n)"
    and "utx_pool (nd_state n') = utx_pool (nd_state n)" "consensus_live n' \<longrightarrow> consensus_live n"
    and "length (thread_pool (nd_consensus n')) = length (thread_pool (nd_consensus n))"
  shows "node_inv C keys n'"
  using assms by (auto simp: node_inv_def node_ok_def tip_hash_def)

lemma processIncomingMessage_frame:
  "nd_state (processIncomingMessage uri mess n) = nd_state n \<and>
   thread_pool (nd_consensus (processIncomingMessage uri mess n)) = thread_pool (nd_consensus n) \<and>
   (nd_terminated n \<longrightarrow> nd_terminated (processIncomingMessage uri mess n))"
  by (auto simp: processIncomingMessage_def handleMessage_def pushMessage_def bindE_def
      split: sum.splits eMessageType.splits)

lemma server_step_frame:
  "final_chain (nd_state (server_step n)) = final_chain (nd_state n) \<and>
   utx_pool (nd_state (server_step n)) = utx_pool (nd_state n) \<and>
   nd_consensus (server_step n) = nd_consensus n \<and> nd_terminated (server_step n) = nd_terminated n"
  by (auto simp: server_step_def sendMessage_def split: list.splits)

lemma main_loop_frame:
  "final_chain (nd_state (main_loop_step context n)) = final_chain (nd_state n) \<and>
   utx_pool (nd_state (main_loop_step context n)) = utx_pool (nd_state n) \<and>
   nd_consensus (main_loop_step context n) = nd_consensus n \<and>
   nd_terminated (main_loop_step context n) = nd_terminated n"
  by (auto simp: main_loop_step_def Let_def)

text \<open>The threads other than the consensus thread never change the chain and keep the invariant.\<close>

lemma other_thread:
  assumes inv: "node_inv C keys n" and alive: "\<not> nd_terminated n"
    and loop: "loop_step callback i (tg, nd_state n) = (ended, tg', s')"
    and keep: "\<And>ptr bs live. keeps (node_ok C keys live bs) (callback ptr)"
    and chain: "\<And>ptr c. keeps (\<lambda>s. final_chain s = c) (callback ptr)"
    and n': "nd_state n' = s'" "nd_consensus n' = nd_consensus n"
  shows "node_inv C keys n' \<and> final_chain (nd_state n') = final_chain (nd_state n)"
  using loop
proof (cases rule: loop_step_cases)
  case idle
  then show ?thesis
    using inv n' alive by (auto intro!: inv_frame [OF inv] simp: consensus_live_def)
next
  case (run ptr tg0 r)
  have fc: "final_chain s' = final_chain (nd_state n)" using keepsD [OF chain refl run(4)] .
  have "node_ok C keys (consensus_live n) (blocks n) s'" if "length (blocks n) < 2 ^ 31"
    using keepsD [OF keep _ run(4)] inv that unfolding node_inv_def by blast
  then have "node_ok C keys (consensus_live n') (blocks n) s'" if "length (blocks n) < 2 ^ 31"
    using that n' alive by (auto intro: node_ok_weaken simp: consensus_live_def)
  then show ?thesis using inv n' fc by (simp add: node_inv_def)
qed

text \<open>A step of the consensus thread may append one block.\<close>

definition appended :: "Crypto \<Rightarrow> KeyRing \<Rightarrow> DevcashContext \<Rightarrow> Node \<Rightarrow> FinalBlock \<Rightarrow> bool" where
  "appended C keys context n b =
     (case thread_queue (nd_consensus n) of
        [] \<Rightarrow> False
      | msg # _ \<Rightarrow>
          msg_type msg = FINAL_BLOCK \<or>
          msg_type msg = VALID \<and> local_block C keys context (tip_hash C (nd_state n)) b)"

definition chain_step :: "Crypto \<Rightarrow> KeyRing \<Rightarrow> DevcashContext \<Rightarrow> Node \<Rightarrow> Node \<Rightarrow> bool" where
  "chain_step C keys context n n' =
     (final_chain (nd_state n') = final_chain (nd_state n) \<or>
      (\<exists>b. final_chain (nd_state n') = bc_push_back b (final_chain (nd_state n)) \<and> consensus_live n \<and>
         (length (blocks n') < 2 ^ 31 \<longrightarrow> appended C keys context n b)))"

lemma consensus_run:
  assumes inv: "node_inv C keys n" and alive: "\<not> nd_terminated n"
    and run: "i < length (thread_pool (nd_consensus n))" "thread_pool (nd_consensus n) ! i = Popping"
      "pop (nd_consensus n) = Some (ptr, tg0)"
      "consensusCallback C keys context now ptr (nd_state n) = Some (r, nd_state n')"
    and n': "nd_terminated n' = (after_callback r = None)"
      "thread_pool (nd_consensus n') = (thread_pool (nd_consensus n))
         [i := case after_callback r of None \<Rightarrow> Popping | Some st \<Rightarrow> st]"
  shows "node_inv C keys n' \<and> chain_step C keys context n n'"
proof -
  have one: "length (thread_pool (nd_consensus n)) = 1" using inv by (simp add: node_inv_def)
  then obtain st where st: "thread_pool (nd_consensus n) = [st]" by (auto simp: length_Suc_conv)
  have live: "consensus_live n" using alive run(1,2) st by (simp add: consensus_live_def)
  have live': "consensus_live n' \<longrightarrow> r = Returned ()"
    using n' st run(1) by (cases r) (auto simp: consensus_live_def split: if_splits)
  have grown: "grown (nd_state n) (nd_state n')" by (rule consensusCallback_grown [OF run(4)])
  have out: "consensus_outcome C keys context (blocks n) (tip_hash C (nd_state n)) ptr (r = Returned ()) (nd_state n')"
    if "length (blocks n') < 2 ^ 31"
  proof -
    have "length (blocks n) < 2 ^ 31" using grown that by (auto simp: grown_def)
    then have "node_ok C keys True (blocks n) (nd_state n)" using inv live by (simp add: node_inv_def)
    from consensusCallback_result [OF this run(4) that] show ?thesis .
  qed
  have "node_ok C keys (consensus_live n') (blocks n') (nd_state n')" if "length (blocks n') < 2 ^ 31"
    using out [OF that] live' unfolding consensus_outcome_def node_ok_def by blast
  moreover have "length (thread_pool (nd_consensus n')) = 1" using n'(2) one by simp
  moreover have "appended C keys context n b"
    if "length (blocks n') < 2 ^ 31" "final_chain (nd_state n') = bc_push_back b (final_chain (nd_state n))" for b
  proof -
    have "from_message C keys context (tip_hash C (nd_state n)) ptr b"
      using out [OF that(1)] that(2) by (auto simp: consensus_outcome_def node_ok_def)
    then show ?thesis
      using run(3) by (auto simp: from_message_def appended_def pop_def split: list.splits if_splits)
  qed
  ultimately show ?thesis using grown live by (auto simp: node_inv_def chain_step_def grown_def)
qed

lemma consensus_step_result:
  assumes inv: "node_inv C keys n" and alive: "\<not> nd_terminated n"
  shows "node_inv C keys (consensus_step C keys context now i n) \<and>
    chain_step C keys context n (consensus_step C keys context now i n)"
proof -
  obtain ended tg s where l: "loop_step (consensusCallback C keys context now) i (nd_consensus n, nd_state n) = (ended, tg, s)"
    by (metis prod_cases3)
  let ?n = "n\<lparr>nd_consensus := tg, nd_state := s, nd_terminated := ended\<rparr>"
  have "node_inv C keys ?n \<and> chain_step C keys context n ?n"
    using l
  proof (cases rule: loop_step_cases)
    case idle
    then have "node_inv C keys ?n" using alive by (intro inv_frame [OF inv]) (auto simp: consensus_live_def)
    with idle show ?thesis by (simp add: chain_step_def)
  next
    case (run ptr tg0 r)
    then show ?thesis by (intro consensus_run [OF inv alive run(1-3)]) simp_all
  qed
  then show ?thesis by (simp add: consensus_step_def l)
qed

lemma thread_step_result:
  assumes "node_inv C keys n" "\<not> nd_terminated n"
  shows "node_inv C keys (validator_step C keys context i n) \<and>
      final_chain (nd_state (validator_step C keys context i n)) = final_chain (nd_state n)"
    and "node_inv C keys (internetwork_step C keys context mode now i n) \<and>
      final_chain (nd_state (internetwork_step C keys context mode now i n)) = final_chain (nd_state n)"
proof -
  obtain ended tg s where v: "loop_step (validatorCallback C keys context) i (nd_validator n, nd_state n) = (ended, tg, s)"
    by (metis prod_cases3)
  show "node_inv C keys (validator_step C keys context i n) \<and>
      final_chain (nd_state (validator_step C keys context i n)) = final_chain (nd_state n)"
    by (rule other_thread [OF assms v keeps_validatorCallback keeps_chain_callbacks(1)]) (simp_all add: validator_step_def v)
  obtain ended tg s where m: "loop_step (messageCallback C keys context mode now) i (nd_internetwork n, nd_state n) =
      (ended, tg, s)" by (metis prod_cases3)
  show "node_inv C keys (internetwork_step C keys context mode now i n) \<and>
      final_chain (nd_state (internetwork_step C keys context mode now i n)) = final_chain (nd_state n)"
    by (rule other_thread [OF assms m keeps_messageCallback keeps_chain_callbacks(2)]) (simp_all add: internetwork_step_def m)
qed

lemma node_step_result:
  assumes inv: "node_inv C keys n" and step: "node_step C keys context mode n n'"
  shows "node_inv C keys n' \<and> chain_step C keys context n n'"
  using step
proof cases
  case (receive uri mess)
  then have "node_inv C keys n'"
    using processIncomingMessage_frame [of uri mess n]
    by (intro inv_frame [OF inv]) (auto simp: consensus_live_def)
  then show ?thesis using receive processIncomingMessage_frame [of uri mess n] by (simp add: chain_step_def)
next
  case publish
  then have "node_inv C keys n'"
    using server_step_frame [of n] by (intro inv_frame [OF inv]) (simp_all add: consensus_live_def)
  then show ?thesis using publish server_step_frame [of n] by (simp add: chain_step_def)
next
  case tick
  then have "node_inv C keys n'"
    using main_loop_frame [of "context" n] by (intro inv_frame [OF inv]) (simp_all add: consensus_live_def)
  then show ?thesis using tick main_loop_frame [of "context" n] by (simp add: chain_step_def)
next
  case shutdown
  then have "node_inv C keys n'"
    by (intro inv_frame [OF inv]) (simp_all add: consensus_live_def module_shutdown_def)
  then show ?thesis using shutdown by (simp add: chain_step_def module_shutdown_def)
qed (use thread_step_result [OF inv] consensus_step_result [OF inv] in \<open>simp_all add: chain_step_def\<close>)

lemma node_inv_start:
  assumes "BlockchainModule_Create u prior mode max_tx = Inr n"
  shows "node_inv C keys (module_start n)"
proof -
  have "pending_for h (UnrecordedTransactionPool_make prior mode max_tx)" for h
    by (simp add: pending_for_def UnrecordedTransactionPool_make_def pb_Create_prior_def pb_isNull_def pb_MinSize_def)
  then show ?thesis
    using assms
    by (auto simp: BlockchainModule_Create_def BlockchainModule_make_def attachCallback_def module_start_def
        tg_start_def ThreadGroup_make_def node_inv_def node_ok_def Let_def)
qed

lemma reachable_inv: "reachable C keys context mode n \<Longrightarrow> node_inv C keys n"
  by (induction rule: reachable.induct) (use node_inv_start node_step_result in blast)+

section \<open>A node that has received one message\<close>

definition start_node :: "uint64 \<Rightarrow> ChainState \<Rightarrow> eAppMode \<Rightarrow> size_t \<Rightarrow> Node" where
  "start_node uninitialised prior mode max_tx =
     (let tg = (ThreadGroup_make 1)\<lparr>callback_attached := True, do_run := True, thread_pool := [Starting]\<rparr>
      in (BlockchainModule_make uninitialised prior mode max_tx)
           \<lparr>nd_server_running := True, nd_client_running := True, nd_validator := tg, nd_consensus := tg,
            nd_internetwork := tg\<rparr>)"

definition holding :: "DevcashMessage \<Rightarrow> Node \<Rightarrow> Node" where
  "holding msg n = n\<lparr>nd_consensus := (nd_consensus n)\<lparr>thread_pool := [Popping], thread_queue := [msg]\<rparr>\<rparr>"

lemma reachable_start: "reachable C keys context mode (start_node u prior mode max_tx)"
proof -
  let ?n = "BlockchainModule_make u prior mode max_tx"
  let ?tg = "(ThreadGroup_make 1)\<lparr>callback_attached := True\<rparr>"
  have "BlockchainModule_Create u prior mode max_tx =
      Inr (?n\<lparr>nd_validator := ?tg, nd_consensus := ?tg, nd_internetwork := ?tg\<rparr>)"
    by (simp add: BlockchainModule_Create_def attachCallback_def Let_def BlockchainModule_make_def)
  from reachable.started [OF this] show ?thesis
    by (simp add: start_node_def module_start_def tg_start_def ThreadGroup_make_def Let_def BlockchainModule_make_def)
qed

lemma serialize_length: "msg_wf msg \<Longrightarrow> length (serialize msg) < 2 ^ 63"
  by (simp add: msg_wf_def serialize_eq Str2Bin_def)

lemma serialize_not_Nil: "msg_wf msg \<Longrightarrow> serialize msg \<noteq> []"
  by (simp add: msg_wf_def serialize_eq)

lemma receive_consensus:
  assumes "msg_wf msg" "msg_type msg \<in> {FINAL_BLOCK, PROPOSAL_BLOCK, VALID}" "uri \<noteq> []"
  shows "processIncomingMessage uri (serialize msg) n =
    n\<lparr>nd_consensus := (nd_consensus n)\<lparr>thread_queue := thread_queue (nd_consensus n) @ [msg]\<rparr>\<rparr>"
  using assms deserialize_serialize [of msg "[]"] serialize_length [of msg] serialize_not_Nil [of msg]
  by (auto simp: processIncomingMessage_def handleMessage_def pushMessage_def)

lemma reachable_holding:
  assumes "msg_wf msg" "msg_type msg \<in> {FINAL_BLOCK, PROPOSAL_BLOCK, VALID}"
  shows "reachable C keys context mode (holding msg (start_node u prior mode max_tx))"
proof -
  let ?n = "start_node u prior mode max_tx"
  let ?c = "consensus_step C keys context 0 0"
  let ?r = "processIncomingMessage ''shard-0'' (serialize msg) ?n"
  have r: "?r = ?n\<lparr>nd_consensus := (nd_consensus ?n)\<lparr>thread_queue := [msg]\<rparr>\<rparr>"
    using receive_consensus [OF assms, of "''shard-0''" ?n] by (simp add: start_node_def Let_def ThreadGroup_make_def)
  note simps = start_node_def ThreadGroup_make_def BlockchainModule_make_def Let_def
  have "node_step C keys context mode ?n ?r" by (rule node_step.receive) (simp_all add: simps)
  moreover have "node_step C keys context mode ?r (?c ?r)"
    by (rule node_step.consensus) (unfold r, simp add: simps)
  moreover have c1: "?c ?r = ?n\<lparr>nd_consensus := (nd_consensus ?n)\<lparr>thread_queue := [msg], thread_pool := [Testing]\<rparr>\<rparr>"
    unfolding r by (simp add: consensus_step_def loop_step_def simps)
  moreover have "node_step C keys context mode (?c ?r) (?c (?c ?r))"
    by (rule node_step.consensus) (unfold c1, simp add: simps)
  moreover have "?c (?c ?r) = holding msg ?n"
    unfolding c1 by (simp add: consensus_step_def loop_step_def holding_def simps)
  ultimately show ?thesis using reachable_start by (metis reachable.steps)
qed

lemma consensus_step_holding:
  assumes "thread_pool (nd_consensus n) = [Popping]" "thread_queue (nd_consensus n) = msg # rest"
    and "consensusCallback C keys context now (Some msg) (nd_state n) = Some (r, s)"
  shows "consensus_step C keys context now 0 n =
    n\<lparr>nd_consensus := (nd_consensus n)\<lparr>thread_queue := rest,
        thread_pool := [case after_callback r of None \<Rightarrow> Popping | Some st \<Rightarrow> st]\<rparr>,
      nd_state := s, nd_terminated := (after_callback r = None)\<rparr>"
  using assms by (cases "after_callback r") (simp_all add: consensus_step_def loop_step_def pop_def)

section \<open>The end of the consensus thread\<close>

text \<open>A proposal that cannot be read makes the callback throw; the thread leaves its loop.\<close>

lemma unreadable_proposal:
  assumes "bc_wf (final_chain s)" "\<not> consensus_mutex s" "msg_type msg = PROPOSAL_BLOCK"
    and "\<And>prior tcm. pb_Create C prior keys tcm (InputBuffer_make (msg_data msg) 0) = Some (Inl e)"
    and "is_std_exception e"
  shows "\<exists>s'. consensusCallback C keys context now (Some msg) s = Some (Thrown StdException, s') \<and>
    final_chain s' = final_chain s"
proof -
  let ?s = "s\<lparr>consensus_mutex := True, utx_pool := (utx_pool s)\<lparr>utp_tcm := set_keys keys (utp_tcm (utx_pool s))\<rparr>\<rparr>"
  obtain prior where "getHighestChainState (final_chain s) = Inr prior"
    using bc_tip(1,2) [OF assms(1)] by (cases "bc_chain (final_chain s) = []") auto
  then have "consensus_dispatch C keys context now (Some msg) (s\<lparr>consensus_mutex := True\<rparr>) = Some (Thrown e, ?s)"
    using assms(3,4)
    by (simp add: consensus_dispatch_def HandleProposalBlock_def bindM_def pool_op_def effect_simps chain_get_apply)
  then show ?thesis
    using assms(2,5) by (simp add: consensusCallback_def with_lock_def catchM_def effect_simps)
qed

lemma dead_stays_dead:
  assumes "node_step C keys context mode n n'" "\<not> list_ex active (thread_pool (nd_consensus n))"
  shows "\<not> list_ex active (thread_pool (nd_consensus n'))"
  using assms(1)
proof cases
  case (consensus now i)
  obtain ended tg s where l: "loop_step (consensusCallback C keys context now) i (nd_consensus n, nd_state n) = (ended, tg, s)"
    by (metis prod_cases3)
  then have "\<not> list_ex active (thread_pool tg)"
  proof (cases rule: loop_step_cases)
    case (run ptr tg0 r)
    then have "list_ex active (thread_pool (nd_consensus n))" by (auto simp: list_ex_length)
    then show ?thesis using assms(2) by simp
  qed (use assms(2) in simp)
  then show ?thesis using consensus l by (simp add: consensus_step_def)
qed (use assms(2) processIncomingMessage_frame server_step_frame main_loop_frame in
    \<open>auto simp: validator_step_def internetwork_step_def module_shutdown_def split: prod.splits\<close>)

lemma dead_consensus:
  assumes "rtranclp (node_step C keys context mode) n n'" "node_inv C keys n"
    and "\<not> list_ex active (thread_pool (nd_consensus n))"
  shows "final_chain (nd_state n') = final_chain (nd_state n)"
proof -
  have "node_inv C keys n' \<and> \<not> list_ex active (thread_pool (nd_consensus n')) \<and>
    final_chain (nd_state n') = final_chain (nd_state n)"
    using assms
  proof (induction rule: rtranclp_induct)
    case (step m m')
    then have "node_inv C keys m' \<and> chain_step C keys context m m'" using node_step_result by blast
    moreover have "\<not> list_ex active (thread_pool (nd_consensus m'))" using step dead_stays_dead by blast
    ultimately show ?case using step by (auto simp: chain_step_def consensus_live_def)
  qed simp
  then show ?thesis by blast
qed

lemma pb_Create_short: "length data < 61 \<Longrightarrow>
   pb_Create C prior keys tcm (InputBuffer_make data 0) = Some (Inl (RuntimeError ''Invalid serialized ProposedBlock, too small!''))"
  by (simp add: pb_Create_def InputBuffer_make_def ib_size_def vec_size_def pb_MinSize_def word_less_nat_alt)

text \<open>A block that is too short to be one, received while the pool has no proposal and no transactions.\<close>

definition idle_pool :: "UnrecordedTransactionPool \<Rightarrow> bool" where
  "idle_pool p = (utp_txs p = [] \<and> pb_isNull (utp_pending p) \<and> \<not> utp_txs_mutex p \<and> \<not> utp_pending_mutex p)"

lemma idle_queries:
  assumes "idle_pool p"
  shows "HasProposal p = Some (Returned False, p)" "HasPendingTransactions p = Some (Returned False, p)"
    "getProposal p = Some (Returned (pb_getCanonical (utp_pending p)), p)"
  using assms
  by (simp_all add: idle_pool_def HasProposal_def HasPendingTransactions_def getProposal_def lock_pending_def
      lock_txs_def with_lock_def effect_simps)

lemma short_final_block:
  assumes wf: "bc_wf (final_chain s)" and free: "\<not> consensus_mutex s" and idle: "idle_pool (utx_pool s)"
    and msg: "msg_type msg = FINAL_BLOCK" "length (msg_data msg) < 101"
    and prior: "getHighestChainState (final_chain s) = Inr prior"
  shows "consensusCallback C keys context now (Some msg) s =
    Some (Returned (), s\<lparr>final_chain := bc_push_back (FinalBlock_prior prior) (final_chain s)\<rparr>)"
proof -
  let ?s = "s\<lparr>consensus_mutex := True\<rparr>" and ?b = "FinalBlock_prior prior"
  let ?t = "?s\<lparr>final_chain := bc_push_back ?b (final_chain s)\<rparr>"
  have "FinalBlock_tcm C prior keys tcm (InputBuffer_make (msg_data msg) 0) = Some (Inr (?b, InputBuffer_make (msg_data msg) 0))" for tcm
    using msg(2)
    by (simp add: FinalBlock_tcm_def InputBuffer_make_def ib_size_def vec_size_def fb_MinSize_def word_less_nat_alt Let_def)
  then have "FinalizeRemoteBlock C (InputBuffer_make (msg_data msg) 0) prior keys (utx_pool s) =
      Some (Returned ?b, utx_pool s)"
    by (simp add: FinalizeRemoteBlock_def bindM_def effect_simps)
  then have "HandleFinalBlock C msg context keys ?s = Some (Returned False, ?t)"
    using prior idle_queries [OF idle]
    by (simp add: HandleFinalBlock_def bindM_def effect_simps chain_get_apply chain_push_def pool_op_def)
  then have "consensus_dispatch C keys context now (Some msg) ?s = Some (Returned (), ?t)"
    using msg(1) by (simp add: consensus_dispatch_def bindM_def effect_simps)
  then show ?thesis using free by (simp add: consensusCallback_def with_lock_def catchM_def)
qed

text \<open>A proposal that is null but not all zeros: what is left of one that was finalised.\<close>

lemma pb_Create_null:
  assumes "pb_version b = 0" "pb_num_bytes b = 0" "length (pb_prev_hash b) = 32" "length (pb_getCanonical b) < 2 ^ 63"
  shows "\<exists>what. \<forall>prior tcm. pb_Create C prior keys tcm (InputBuffer_make (pb_getCanonical b) 0) = Some (Inl (RuntimeError what))"
proof -
  let ?ib = "InputBuffer_make (pb_getCanonical b) 0"
  obtain rest where c: "pb_getCanonical b = [0] @ le64 0 @ rest" and len: "61 \<le> length (pb_getCanonical b)"
    using assms(1-3) by (simp add: pb_getCanonical_eq)
  have size: "unat (ib_size ?ib) = length (pb_getCanonical b)"
    using assms(4) by (simp add: InputBuffer_make_def ib_size_def vec_size_def)
  then have "\<not> ib_size ?ib < pb_MinSize" "ib_size ?ib \<noteq> 0"
    using len by (auto simp: pb_MinSize_def word_less_nat_alt)
  moreover have wf: "ib_wf ?ib" "ib_rest ?ib = 0 # le64 0 @ rest" using assms(4) c by (simp_all add: ib_wf_make)
  have 1: "getNextByte True ?ib = Inr (0, advance 1 ?ib)" using getNextByte_rest [OF wf, of True] by simp
  have a: "ib_wf (advance 1 ?ib)" "ib_rest (advance 1 ?ib) = le64 0 @ rest"
    using advance_facts [OF wf(1), of 1] wf(2) by simp_all
  have 2: "getNextUint64 True (advance 1 ?ib) = Inr (0, advance 8 (advance 1 ?ib))"
    using getNextUint64_rest [OF a, of True] by simp
  have 3: "ib_size (advance n ib) = ib_size ib" for n ib by (simp add: advance_def ib_size_def)
  have "pb_version (pb_Create_prior prior) = 0" for prior by (simp add: pb_Create_prior_def)
  ultimately show ?thesis
    using 1 2 3 by (simp add: pb_Create_def pb_read_header_def reader_simps)
qed

definition short_message :: "eMessageType \<Rightarrow> DevcashMessage" where
  "short_message ty = DevcashMessage_make ''shard-0'' ty [1, 2, 3] 7"

lemma short_message_wf: "ty \<in> {FINAL_BLOCK, PROPOSAL_BLOCK, VALID} \<Longrightarrow> msg_wf (short_message ty)"
  by (auto simp: msg_wf_def short_message_def DevcashMessage_make_def message_type_of_def)

lemma holding_simps [simp]:
  "nd_state (holding msg n) = nd_state n" "thread_pool (nd_consensus (holding msg n)) = [Popping]"
  "thread_queue (nd_consensus (holding msg n)) = [msg]" "nd_terminated (holding msg n) = nd_terminated n"
  by (simp_all add: holding_def)

lemma start_node_simps [simp]:
  "final_chain (nd_state (start_node u prior mode k)) = Blockchain_make ''final_chain_''"
  "utx_pool (nd_state (start_node u prior mode k)) = UnrecordedTransactionPool_make prior mode k"
  "\<not> consensus_mutex (nd_state (start_node u prior mode k))" "\<not> validator_mutex (nd_state (start_node u prior mode k))"
  "\<not> nd_terminated (start_node u prior mode k)"
  by (simp_all add: start_node_def BlockchainModule_make_def Let_def)

lemma idle_start: "idle_pool (UnrecordedTransactionPool_make prior mode k)"
  by (simp add: idle_pool_def UnrecordedTransactionPool_make_def pb_Create_prior_def pb_isNull_def pb_MinSize_def)

lemma not_all_zero: "x \<in> set xs \<Longrightarrow> x \<noteq> 0 \<Longrightarrow> \<not> isNullProposal xs"
  by (metis in_set_replicate isNullProposal_def)

lemma empty_announcement:
  assumes "\<not> utp_txs_mutex p"
  shows "AddTransactions_serial C keys [] p = Some (Returned True, p)"
proof -
  have "read_while (CreateTransaction C keys (utp_mode p) True) 0 (InputBuffer_make [] 0) = Some (Inr ([], InputBuffer_make [] 0))"
    by (subst read_while.simps) (simp add: InputBuffer_make_def)
  moreover have "AddTransactions C keys [] p = Some (Returned True, p)"
    unfolding AddTransactions_def using assms by (intro lock_txs_free) (simp_all add: catchM_def effect_simps)
  ultimately show ?thesis by (simp add: AddTransactions_serial_def bindM_def effect_simps vec_size_def)
qed

lemma idle_propose:
  assumes "idle_pool (utx_pool s)" "x \<in> set (pb_prev_hash (utp_pending (utx_pool s)))" "x \<noteq> 0"
  shows "propose_next C keys context n s =
    Some (Returned True, s\<lparr>outgoing := outgoing s @ [DevcashMessage_make (get_shard_uri context) PROPOSAL_BLOCK
      (pb_getCanonical (utp_pending (utx_pool s))) (proposal_index n context)]\<rparr>)"
proof -
  have "x \<in> set (pb_getCanonical (utp_pending (utx_pool s)))" using assms(2) by (simp add: pb_getCanonical_eq)
  then have nz: "\<not> isNullProposal (pb_getCanonical (utp_pending (utx_pool s)))" using assms(3) not_all_zero by blast
  have "CreateNextProposal C keys context s = Some (Returned (pb_getCanonical (utp_pending (utx_pool s))), s)"
    using idle_queries [OF assms(1)] by (simp add: CreateNextProposal_def bindM_def effect_simps pool_op_def)
  then show ?thesis
    using nz idle_queries(1) [OF assms(1)] by (simp add: propose_next_def bindM_def effect_simps pool_op_def send_def)
qed

section \<open>Properties\<close>





text \<open>C4. A proposal that a node cannot read stops it: the exception ends the consensus thread, the only one that
  appends blocks, and the chain of the node never changes again, whatever happens after that.\<close>

theorem unreadable_proposal_stops_node:
  assumes "reachable C keys context mode n" "length (bc_chain (final_chain (nd_state n))) < 2 ^ 31"
    and "thread_pool (nd_consensus n) = [Popping]" "thread_queue (nd_consensus n) = msg # rest"
    and "\<not> nd_terminated n" "\<not> consensus_mutex (nd_state n)" "msg_type msg = PROPOSAL_BLOCK"
    and "\<And>prior tcm. pb_Create C prior keys tcm (InputBuffer_make (msg_data msg) 0) = Some (Inl e)"
    and "is_std_exception e"
    and "rtranclp (node_step C keys context mode) (consensus_step C keys context now 0 n) n'"
  shows "thread_pool (nd_consensus (consensus_step C keys context now 0 n)) = [Exited] \<and>
    final_chain (nd_state n') = final_chain (nd_state n)"
proof -
  let ?n = "consensus_step C keys context now 0 n"
  have inv: "node_inv C keys n" using assms(1) by (rule reachable_inv)
  then have "bc_wf (final_chain (nd_state n))" using assms(2) by (simp add: node_inv_def node_ok_def)
  from unreadable_proposal [OF this assms(6-9), of "context" now] obtain s where
    s: "consensusCallback C keys context now (Some msg) (nd_state n) = Some (Thrown StdException, s)"
    "final_chain s = final_chain (nd_state n)" by blast
  have n: "thread_pool (nd_consensus ?n) = [Exited]" "nd_state ?n = s"
    using consensus_step_holding [OF assms(3,4) s(1)] by simp_all
  have "node_inv C keys ?n" using consensus_step_result [OF inv assms(5)] by blast
  from dead_consensus [OF assms(10) this] n s(2) show ?thesis by simp
qed

theorem unreadable_proposal_stops_node_witness:
  "let n = holding (short_message PROPOSAL_BLOCK) (start_node 7 ChainState_empty mode_T1 10);
       n' = consensus_step sample_crypto sample_keys sample_context 5 0 n in
   reachable sample_crypto sample_keys sample_context mode_T1 n \<and>
   thread_pool (nd_consensus n') = [Exited] \<and> final_chain (nd_state n') = Blockchain_make ''final_chain_''"
proof -
  let ?msg = "short_message PROPOSAL_BLOCK" and ?e = "RuntimeError ''Invalid serialized ProposedBlock, too small!''"
  let ?n = "holding ?msg (start_node 7 ChainState_empty mode_T1 10)"
  have r: "reachable sample_crypto sample_keys sample_context mode_T1 ?n"
    by (intro reachable_holding short_message_wf) (simp_all add: short_message_def DevcashMessage_make_def)
  have p: "pb_Create sample_crypto prior sample_keys tcm (InputBuffer_make (msg_data ?msg) 0) = Some (Inl ?e)" for prior tcm
    by (rule pb_Create_short) (simp add: short_message_def DevcashMessage_make_def)
  have t: "msg_type ?msg = PROPOSAL_BLOCK" by (simp add: short_message_def DevcashMessage_make_def)
  have "thread_pool (nd_consensus (consensus_step sample_crypto sample_keys sample_context 5 0 ?n)) = [Exited] \<and>
      final_chain (nd_state (consensus_step sample_crypto sample_keys sample_context 5 0 ?n)) = final_chain (nd_state ?n)"
    by (rule unreadable_proposal_stops_node [OF r _ _ _ _ _ t p _ rtranclp.rtrancl_refl])
      (simp_all add: Blockchain_make_def)
  with r show ?thesis by (simp add: Let_def)
qed

text \<open>C6. \<open>FINAL_BLOCK\<close> messages are not checked: one of less than 101 bytes is appended to the chain of an idle node
  as an empty block of no validations that names the all-zero hash as the one of its predecessor, and the consensus
  thread goes on.\<close>

theorem short_final_block_appended:
  assumes "reachable C keys context mode n" "length (bc_chain (final_chain (nd_state n))) < 2 ^ 31 - 1"
    and "thread_pool (nd_consensus n) = [Popping]" "thread_queue (nd_consensus n) = msg # rest"
    and "\<not> consensus_mutex (nd_state n)" "idle_pool (utx_pool (nd_state n))"
    and "msg_type msg = FINAL_BLOCK" "length (msg_data msg) < 101"
  shows "\<exists>b. bc_chain (final_chain (nd_state (consensus_step C keys context now 0 n))) =
      bc_chain (final_chain (nd_state n)) @ [b] \<and>
    fb_prev_hash b = replicate 32 0 \<and> sigs (fb_vals b) = [] \<and> fb_transactions b = [] \<and>
    thread_pool (nd_consensus (consensus_step C keys context now 0 n)) = [Testing]"
proof -
  have wf: "bc_wf (final_chain (nd_state n))"
    using reachable_inv [OF assms(1)] assms(2) by (simp add: node_inv_def node_ok_def)
  obtain prior where "getHighestChainState (final_chain (nd_state n)) = Inr prior"
    using bc_tip(1,2) [OF wf] by (cases "bc_chain (final_chain (nd_state n)) = []") auto
  from consensus_step_holding [OF assms(3,4) short_final_block [OF wf assms(5-8) this]] show ?thesis
    by (simp add: FinalBlock_prior_def Validation_Create_def)
qed

theorem short_final_block_appended_witness:
  "let n = holding (short_message FINAL_BLOCK) (start_node 7 ChainState_empty mode_T1 10);
       n' = consensus_step sample_crypto sample_keys sample_context 5 0 n in
   reachable sample_crypto sample_keys sample_context mode_T1 n \<and>
   (\<exists>b. bc_chain (final_chain (nd_state n')) = [b] \<and> fb_prev_hash b = replicate 32 0)"
proof -
  let ?msg = "short_message FINAL_BLOCK"
  let ?n = "holding ?msg (start_node 7 ChainState_empty mode_T1 10)"
  have r: "reachable sample_crypto sample_keys sample_context mode_T1 ?n"
    by (intro reachable_holding short_message_wf) (simp_all add: short_message_def DevcashMessage_make_def)
  have m: "msg_type ?msg = FINAL_BLOCK" "length (msg_data ?msg) < 101"
    by (simp_all add: short_message_def DevcashMessage_make_def)
  show ?thesis
    using short_final_block_appended [OF r _ _ _ _ _ m, of "[]" 5] r idle_start
    by (auto simp: Let_def Blockchain_make_def)
qed

text \<open>C7. The receiving method is \<^verbatim>\<open>noexcept\<close> and a message of an unknown type makes the dispatch throw: such a message
  ends the process of the node, and no step follows.\<close>

theorem unknown_type_terminates:
  assumes "msg_wf msg" "msg_type msg = NUM_TYPES \<or> (\<exists>v. msg_type msg = unnamed_type v)" "uri \<noteq> []"
  shows "nd_terminated (processIncomingMessage uri (serialize msg) n) \<and>
    \<not> node_step C keys context mode (processIncomingMessage uri (serialize msg) n) n'"
proof -
  have "nd_terminated (processIncomingMessage uri (serialize msg) n)"
    using assms deserialize_serialize [of msg "[]"] serialize_length [of msg] serialize_not_Nil [of msg]
    by (auto simp: processIncomingMessage_def handleMessage_def)
  then show ?thesis by (auto elim: node_stepE)
qed

theorem unknown_type_terminates_witness:
  "nd_terminated (processIncomingMessage ''shard-0'' (serialize (short_message NUM_TYPES))
     (start_node 7 ChainState_empty mode_T1 10))"
  using unknown_type_terminates [of "short_message NUM_TYPES" "''shard-0''" "start_node 7 ChainState_empty mode_T1 10"]
  by (simp add: msg_wf_def short_message_def DevcashMessage_make_def message_type_of_def)

text \<open>C5. A node whose proposal was finalised and whose pool is empty answers an announcement of no transactions with
  what is left of that proposal, which no node can read: the consensus callback of every node that receives it
  throws.\<close>

theorem stale_proposal_sent:
  assumes "idle_pool (utx_pool s)" "\<not> validator_mutex s" "my_turn (bc_size (final_chain s)) context"
    and "utp_pending (utx_pool s) = pb_setNull b" "pb_version b = 0" "length (pb_prev_hash b) = 32"
    and "x \<in> set (pb_prev_hash b)" "x \<noteq> 0" "length (pb_getCanonical b) < 2 ^ 63"
    and "msg_type msg = TRANSACTION_ANNOUNCEMENT" "msg_data msg = []"
  shows "\<exists>m. validatorCallback C keys context (Some msg) s = Some (Returned (), s\<lparr>outgoing := outgoing s @ [m]\<rparr>) \<and>
    msg_type m = PROPOSAL_BLOCK \<and>
    (\<forall>C' keys' context' now t. bc_wf (final_chain t) \<longrightarrow> \<not> consensus_mutex t \<longrightarrow>
       (\<exists>t'. consensusCallback C' keys' context' now (Some m) t = Some (Thrown StdException, t')))"
proof -
  let ?p = "pb_setNull b"
  let ?m = "DevcashMessage_make (get_shard_uri context) PROPOSAL_BLOCK (pb_getCanonical ?p)
    (proposal_index (bc_size (final_chain s)) context)"
  let ?s = "s\<lparr>validator_mutex := True\<rparr>"
  have sent: "propose_next C keys context (bc_size (final_chain s)) ?s =
      Some (Returned True, ?s\<lparr>outgoing := outgoing s @ [?m]\<rparr>)"
    using idle_propose [of ?s x C keys "context"] assms(1,4,7,8) by (simp add: pb_setNull_def)
  have add: "AddTransactions_serial C keys [] (utx_pool s) = Some (Returned True, utx_pool s)"
    using assms(1) by (intro empty_announcement) (simp add: idle_pool_def)
  have "validatorCallback C keys context (Some msg) s = Some (Returned (), s\<lparr>outgoing := outgoing s @ [?m]\<rparr>)"
    using sent add assms(2,3,10,11)
    by (simp add: validatorCallback_def with_lock_def bindM_def effect_simps pool_op_def)
  moreover have "length (pb_getCanonical ?p) < 2 ^ 63" using assms(9) by (simp add: pb_getCanonical_eq pb_setNull_def pb_getRawTransactions_def)
  then have "\<exists>what. \<forall>prior tcm. pb_Create C' prior keys' tcm (InputBuffer_make (pb_getCanonical ?p) 0) =
      Some (Inl (RuntimeError what))" for C' keys'
    using assms(5,6) by (intro pb_Create_null) (simp_all add: pb_setNull_def)
  then have "\<exists>t'. consensusCallback C' keys' context' now (Some ?m) t = Some (Thrown StdException, t')"
    if "bc_wf (final_chain t)" "\<not> consensus_mutex t" for C' keys' context' now t
    using unreadable_proposal [OF that, of ?m C' keys' _ context' now] by (fastforce simp: DevcashMessage_make_def)
  ultimately show ?thesis by (intro exI [of _ ?m]) (simp add: DevcashMessage_make_def)
qed

theorem stale_proposal_sent_witness:
  "let p = (pb_Create_prior ChainState_empty)\<lparr>pb_prev_hash := replicate 32 7\<rparr>;
       t = nd_state (start_node 7 ChainState_empty mode_T1 10);
       s = t\<lparr>utx_pool := (utx_pool t)\<lparr>utp_pending := pb_setNull p\<rparr>\<rparr> in
   (\<exists>m t'. validatorCallback sample_crypto sample_keys sample_context
        (Some (DevcashMessage_make ''RemoteURI-0'' TRANSACTION_ANNOUNCEMENT [] 3)) s =
      Some (Returned (), s\<lparr>outgoing := outgoing s @ [m]\<rparr>) \<and>
    consensusCallback sample_crypto sample_keys sample_context 5 (Some m) t = Some (Thrown StdException, t'))"
proof -
  let ?p = "(pb_Create_prior ChainState_empty)\<lparr>pb_prev_hash := replicate 32 7\<rparr>"
  let ?t = "nd_state (start_node 7 ChainState_empty mode_T1 10)"
  let ?s = "?t\<lparr>utx_pool := (utx_pool ?t)\<lparr>utp_pending := pb_setNull ?p\<rparr>\<rparr>"
  let ?msg = "DevcashMessage_make ''RemoteURI-0'' TRANSACTION_ANNOUNCEMENT [] 3"
  have "idle_pool (utx_pool ?s)"
    by (simp add: idle_pool_def UnrecordedTransactionPool_make_def pb_setNull_def pb_isNull_def pb_MinSize_def)
  moreover have "my_turn (bc_size (final_chain ?s)) sample_context"
    by (simp add: my_turn_def bc_size_def Blockchain_make_def sample_context_def DevcashContext_make_def get_current_node_def Let_def)
  moreover have "length (pb_getCanonical ?p) < 2 ^ 63"
    by (simp add: pb_getCanonical_eq pb_getRawTransactions_def pb_Create_prior_def Summary_Create_def Validation_Create_def
        sum_getCanonical_def val_getCanonical_def Uint32ToBin_le)
  ultimately have "\<exists>m. validatorCallback sample_crypto sample_keys sample_context (Some ?msg) ?s =
      Some (Returned (), ?s\<lparr>outgoing := outgoing ?s @ [m]\<rparr>) \<and> msg_type m = PROPOSAL_BLOCK \<and>
    (\<forall>C' keys' context' now t. bc_wf (final_chain t) \<longrightarrow> \<not> consensus_mutex t \<longrightarrow>
       (\<exists>t'. consensusCallback C' keys' context' now (Some m) t = Some (Thrown StdException, t')))"
    by (intro stale_proposal_sent [where b = ?p and x = 7]) (simp_all add: pb_Create_prior_def DevcashMessage_make_def)
  moreover have "bc_wf (final_chain ?t)" "\<not> consensus_mutex ?t" by simp_all
  ultimately show ?thesis unfolding Let_def by blast
qed

end
