(* ===== verification/Consensus_Round.thy ===== *)
theory Consensus_Round
  imports Node_Module
begin

text \<open>
  One round of consensus in a Tier-1 shard: the proposal of one node, the validation by a second one, the
  block that the first one finalises and its arrival at a third one. The messages are the ones that the
  callbacks of the nodes send, and the states those in which they leave their nodes.
\<close>

section \<open>The validator\<close>

lemma set_keys_mode: "tcm_app_mode tcm = mode_T1 \<Longrightarrow> set_keys keys tcm = set_keys keys (tcm_make mode_T1)"
  by (cases tcm) (simp add: set_keys_def tcm_make_def)

lemma pb_Create_mode:
  "tcm_app_mode tcm = mode_T1 \<Longrightarrow> pb_Create C prior keys tcm ib = pb_Create C prior keys (tcm_make mode_T1) ib"
  by (simp only: pb_Create_def set_keys_mode [of tcm keys])

lemma FinalBlock_tcm_mode:
  "tcm_app_mode tcm = mode_T1 \<Longrightarrow> FinalBlock_tcm C prior keys tcm ib = FinalBlock_tcm C prior keys (tcm_make mode_T1) ib"
  by (simp only: FinalBlock_tcm_def set_keys_mode [of tcm keys])

text \<open>The chain state of a block has no part in validating and signing it.\<close>

lemma signBlock_state:
  "signBlock C keys context b = Inr (r, b') \<Longrightarrow> signBlock C keys context (b\<lparr>pb_state := st\<rparr>) = Inr (r, b'\<lparr>pb_state := st\<rparr>)"
  by (auto simp: signBlock_def Let_def)

lemma validate_state: "pb_validate C keys (b\<lparr>pb_state := st\<rparr>) = pb_validate C keys b"
  by (simp add: pb_validate_def)

text \<open>A proposal that a Tier-1 shard can agree on: a well-formed block of checked transactions that validates.\<close>

definition good_proposal :: "Crypto \<Rightarrow> KeyRing \<Rightarrow> ProposedBlock \<Rightarrow> bool" where
  "good_proposal C keys b =
     (pb_wf b \<and> pb_version b = 0 \<and> (\<forall>tx \<in> set (pb_transactions b). t1_block_tx C keys tx) \<and>
      sum_encodable (pb_summary b) \<and> length (pb_getCanonical b) < 2 ^ 62 \<and> length (sigs (pb_vals b)) = 1 \<and>
      pb_validate C keys b = Inr True)"

lemma validator_answers:
  assumes good: "good_proposal C keys b" and sign: "signBlock C keys context b = Inr (r, b')" "r"
    and msg: "msg_type msg = PROPOSAL_BLOCK" "msg_data msg = pb_getCanonical b"
    and s: "bc_wf (final_chain s)" "\<not> consensus_mutex s" "tcm_app_mode (utp_tcm (utx_pool s)) = mode_T1"
  shows "\<exists>s'. consensusCallback C keys context now (Some msg) s = Some (Returned (), s') \<and>
    final_chain s' = final_chain s \<and>
    outgoing s' = outgoing s @ [DevcashMessage_make (get_shard_uri context) VALID (getValidationData b') (msg_index msg)]"
proof -
  obtain prior where prior: "getHighestChainState (final_chain s) = Inr prior"
    using bc_tip(1,2) [OF s(1)] by (cases "bc_chain (final_chain s) = []") auto
  let ?tcm = "set_keys keys (utp_tcm (utx_pool s))"
  have "tcm_app_mode ?tcm = mode_T1" using s(3) by (simp add: set_keys_def)
  then have c: "pb_Create C prior keys ?tcm (InputBuffer_make (pb_getCanonical b) 0) =
      Some (Inr (b\<lparr>pb_state := prior\<rparr>, advance (length (pb_getCanonical b)) (InputBuffer_make (pb_getCanonical b) 0)))"
    using good by (simp add: pb_Create_mode pb_Create_T1 good_proposal_def)
  have v: "pb_validate C keys (b\<lparr>pb_state := prior\<rparr>) = Inr True" using good by (simp add: validate_state good_proposal_def)
  have g: "getValidationData (b'\<lparr>pb_state := prior\<rparr>) = getValidationData b'" by (simp add: getValidationData_def)
  show ?thesis
    using msg prior c v g signBlock_state [OF sign(1), of prior] sign(2) s(2)
    by (simp add: consensusCallback_def with_lock_def catchM_def consensus_dispatch_def HandleProposalBlock_def bindM_def
        pool_op_def effect_simps chain_get_apply send_def)
qed

section \<open>The proposer\<close>

text \<open>What a second signature makes of a proposal.\<close>

lemma signed_twice:
  assumes good: "good_proposal C keys b" and sign: "signBlock C keys context b = Inr (r, b')"
    and "kr_wf keys" "ctx_peer_count context = 3" "length (sigs (pb_vals b')) = 2"
  shows "r" "pb_wf b'" "pb_vals b' = snd (addValidation_all (pb_vals b') (pb_vals b))"
    "b' = b\<lparr>pb_vals := pb_vals b', pb_val_count := 2, pb_num_bytes := pb_total_bytes (pb_tx_size b) (pb_sum_size b) 2\<rparr>"
proof -
  have wf: "pb_wf b" and one: "length (sigs (pb_vals b)) = 1" using good by (simp_all add: good_proposal_def)
  then have ok: "omap_ok (sigs (pb_vals b))" and count: "pb_val_count b = 1"
    by (simp_all add: pb_wf_def val_wf_def getValidationCount_def)
  obtain a k s where a: "addr_wf a" "addr_size a = 50" and s: "sig_wf s" "sig_size s = 106" and "r"
    and b': "b' = b\<lparr>pb_vals := \<lparr>sigs = omap_insert a s (sigs (pb_vals b))\<rparr>, pb_val_count := pb_val_count b + 1,
           pb_num_bytes := pb_total_bytes (pb_tx_size b) (pb_sum_size b) (pb_val_count b + 1)\<rparr>"
    using signBlock_Inr [OF sign assms(3,4)] by blast
  have new: "map_of (sigs (pb_vals b)) a = None"
  proof (rule ccontr)
    assume "map_of (sigs (pb_vals b)) a \<noteq> None"
    then have "omap_insert a s (sigs (pb_vals b)) = sigs (pb_vals b)"
      using ok by (auto simp: map_of_omap_insert intro!: omap_eqI)
    then show False using assms(5) one b' by simp
  qed
  show "r" by fact
  have v: "val_wf (pb_vals b')" using val_wf_insert [of "pb_vals b" a s] wf a s by (simp add: b' pb_wf_def val_wf_def)
  moreover have "node_pairs (pb_vals b')"
    using set_omap_insert [of a s "sigs (pb_vals b)"] wf a s unfolding node_pairs_def pb_wf_def b' by fastforce
  ultimately show "pb_wf b'"
    using wf omap_insert_new [OF new] by (simp add: b' pb_wf_def getValidationCount_def pb_getRawTransactions_def)
  have "map_of (sigs (snd (addValidation_all (pb_vals b') (pb_vals b)))) = map_of (sigs (pb_vals b'))"
    "omap_ok (sigs (snd (addValidation_all (pb_vals b') (pb_vals b))))"
    using addValidation_all_spec [of "pb_vals b" "pb_vals b'"] ok new
    by (auto simp: b' map_of_omap_insert map_add_def fun_eq_iff split: option.splits)
  then have "sigs (snd (addValidation_all (pb_vals b') (pb_vals b))) = sigs (pb_vals b')"
    using v by (intro omap_eqI) (simp_all add: val_wf_def)
  then show "pb_vals b' = snd (addValidation_all (pb_vals b') (pb_vals b))"
    by (cases "pb_vals b'"; cases "snd (addValidation_all (pb_vals b') (pb_vals b))") simp
  show "b' = b\<lparr>pb_vals := pb_vals b', pb_val_count := 2, pb_num_bytes := pb_total_bytes (pb_tx_size b) (pb_sum_size b) 2\<rparr>"
    using b' count by simp
qed

lemma good_not_null: "good_proposal C keys b \<Longrightarrow> \<not> pb_isNull b"
proof -
  assume g: "good_proposal C keys b"
  have "61 \<le> length (pb_getCanonical b)" using g by (simp add: good_proposal_def pb_getCanonical_eq pb_wf_def)
  moreover have "vec_size (pb_getCanonical b) = pb_num_bytes b" using g pb_wf_size [of b] by (simp add: good_proposal_def)
  then have "unat (pb_num_bytes b) = length (pb_getCanonical b)"
    using g by (auto simp: good_proposal_def vec_size_def simp flip: \<open>vec_size (pb_getCanonical b) = pb_num_bytes b\<close>)
  ultimately show ?thesis by (simp add: pb_isNull_def pb_MinSize_def word_less_nat_alt)
qed

lemma proposer_finalises:
  assumes good: "good_proposal C keys b" and sign: "signBlock C keys context' b = Inr (r, b')"
    and keys: "kr_wf keys" "ctx_peer_count context' = 3" "length (sigs (pb_vals b')) = 2" "ctx_peer_count context = 3"
    and msg: "msg_type msg = VALID" "msg_data msg = getValidationData b'"
    and s: "utp_pending (utx_pool s) = b" "pool_wf C keys (utx_pool s)" "\<not> consensus_mutex s"
      "\<not> utp_txs_mutex (utx_pool s)" "\<not> utp_pending_mutex (utx_pool s)"
  shows "\<exists>s'. consensusCallback C keys context now (Some msg) s = Some (Returned (), s') \<and>
    final_chain s' = bc_push_back (FinalBlock_of C now b') (final_chain s) \<and> pb_isNull (utp_pending (utx_pool s')) \<and>
    outgoing s' = outgoing s @ [DevcashMessage_make (get_shard_uri context) FINAL_BLOCK
      (fb_getCanonical (FinalBlock_of C now b')) (msg_index msg)]"
proof -
  note two = signed_twice [OF good sign keys(1-3)]
  let ?ib = "InputBuffer_make (msg_data msg) 0" and ?p = "(utx_pool s)\<lparr>utp_pending := b'\<rparr>"
  have wf: "pb_wf b" using good by (simp add: good_proposal_def)
  have np: "node_pairs (pb_vals b')" "length (pb_prev_hash b') = 32" "pb_prev_hash b' = pb_prev_hash b"
    using two(2) signBlock_transactions [OF sign] by (simp_all add: pb_wf_def)
  have count: "getValidationCount (pb_vals b') = 2" using keys(3) by (simp add: getValidationCount_def)
  have "length (getValidationData b') < 2 ^ 63"
    using np keys(3) by (simp add: getValidationData_def length_node_pairs)
  from checkValidationData_same [OF wf two(2) np(3) _ this, of "context"] keys(3)
  have "\<exists>ib'. checkValidationData context b ?ib = Inr ((True, b'), ib')"
    using two(4) count keys(4) msg(2) by (simp flip: two(3))
  then have check: "CheckValidation ?ib context (utx_pool s) = Some (Returned True, ?p)"
    unfolding CheckValidation_def
    using s good_not_null [OF good] by (intro lock_pending_free) (auto simp: bindM_def effect_simps)
  have pwf: "pool_wf C keys ?p"
    using s(1,2) signBlock_transactions [OF sign] by (simp add: pool_wf_def)
  then have "\<forall>tx \<in> set (pb_transactions (utp_pending ?p)). \<exists>sig. tx_getSignature tx = Inr sig"
    by (auto simp: pool_wf_def tx_checked_def)
  from FinalizeLocalBlock_apply [OF _ _ _ this, of C now] s(4,5) pwf obtain m where
    "FinalizeLocalBlock C now ?p = Some (Returned (FinalBlock_of C now b'), ?p\<lparr>utp_txs := m, utp_pending := pb_setNull b'\<rparr>)"
    by (auto simp: pool_wf_def)
  with check show ?thesis
    using msg(1) s(3)
    by (simp add: consensusCallback_def with_lock_def catchM_def consensus_dispatch_def HandleValidationBlock_def bindM_def
        pool_op_def effect_simps chain_push_def send_def pb_isNull_def pb_setNull_def pb_MinSize_def)
qed

section \<open>The other nodes\<close>

lemma receiver_appends:
  assumes sha: "\<And>m. length (sha256 C m) = 32" and good: "good_proposal C keys b"
    and sign: "signBlock C keys context' b = Inr (r, b')"
    and keys: "kr_wf keys" "ctx_peer_count context' = 3" "length (sigs (pb_vals b')) = 2"
    and msg: "msg_type msg = FINAL_BLOCK" "msg_data msg = fb_getCanonical (FinalBlock_of C now' b')"
    and s: "bc_wf (final_chain s)" "\<not> consensus_mutex s" "tcm_app_mode (utp_tcm (utx_pool s)) = mode_T1"
      "pb_isNull (utp_pending (utx_pool s))" "\<not> utp_txs_mutex (utx_pool s)" "\<not> utp_pending_mutex (utx_pool s)"
      "\<not> my_turn (bc_size (bc_push_back (FinalBlock_of C now' b') (final_chain s))) context"
    and prior: "getHighestChainState (final_chain s) = Inr prior"
  shows "consensusCallback C keys context now (Some msg) s =
    Some (Returned (), s\<lparr>final_chain := bc_push_back ((FinalBlock_of C now' b')\<lparr>fb_state := prior\<rparr>) (final_chain s)\<rparr>)"
proof -
  let ?f = "FinalBlock_of C now' b'" and ?ib = "InputBuffer_make (msg_data msg) 0"
  note two = signed_twice [OF good sign keys]
  note frame = signBlock_transactions [OF sign]
  have few: "length (sigs (pb_vals b')) < 2 ^ 32" using keys(3) by simp
  have enc: "sum_encodable (pb_summary b')" "\<forall>tx \<in> set (pb_transactions b'). t1_block_tx C keys tx"
    using good frame by (simp_all add: good_proposal_def)
  have np: "node_pairs (pb_vals b)" "node_pairs (pb_vals b')" "length (sigs (pb_vals b)) = 1"
    using good two(2) by (simp_all add: good_proposal_def pb_wf_def)
  have raw: "pb_getRawTransactions b' = pb_getRawTransactions b" using frame by (simp add: pb_getRawTransactions_def)
  have "length (pb_getCanonical b) < 2 ^ 62" using good by (simp add: good_proposal_def)
  then have "length (fb_getCanonical ?f) < 2 ^ 63"
    using np keys(3) frame
    by (simp add: fb_getCanonical_eq pb_getCanonical_eq FinalBlock_of_merkle DevcashHash_def sha raw length_node_pairs)
  then have "FinalBlock_tcm C prior keys (tcm_make mode_T1) (InputBuffer_make (fb_getCanonical ?f) 0) =
      Some (Inr (?f\<lparr>fb_state := prior\<rparr>, advance (length (fb_getCanonical ?f)) (InputBuffer_make (fb_getCanonical ?f) 0)))"
    using FinalBlock_of_wf [OF two(2) few sha enc(1)] np(2) enc(2)
    by (intro FinalBlock_tcm_T1) (simp_all add: pb_getRawTransactions_def)
  then have fin: "FinalizeRemoteBlock C ?ib prior keys (utx_pool s) = Some (Returned (?f\<lparr>fb_state := prior\<rparr>), utx_pool s)"
    using s(3) msg(2) by (simp add: FinalizeRemoteBlock_def bindM_def effect_simps FinalBlock_tcm_mode)
  have has: "HasProposal p = Some (Returned False, p)" if "p = utx_pool s" for p
    using s(4,6) that by (auto simp: HasProposal_Some)
  have "HasPendingTransactions (utx_pool s) = Some (Returned (utp_txs (utx_pool s) \<noteq> []), utx_pool s)"
    unfolding HasPendingTransactions_def using s(5) by (intro lock_txs_free) (simp_all add: effect_simps)
  moreover have "bc_size (bc_push_back (?f\<lparr>fb_state := prior\<rparr>) c) = bc_size (bc_push_back ?f c)" for c
    by (simp add: bc_size_def bc_push_back_def)
  ultimately show ?thesis
    using msg(1) prior fin has s(2,7)
    by (simp add: consensusCallback_def with_lock_def catchM_def consensus_dispatch_def HandleFinalBlock_def bindM_def
        pool_op_def effect_simps chain_get_apply chain_push_def)
qed

section \<open>The round\<close>

text \<open>A proposal that is sent is the one that the pool keeps.\<close>

lemma getProposal_Returned:
  "getProposal p = Some (Returned d, p') \<Longrightarrow> p' = p \<and> d = pb_getCanonical (utp_pending p) \<and> \<not> utp_pending_mutex p"
  by (cases "utp_pending_mutex p") (auto simp: getProposal_def lock_pending_def with_lock_def effect_simps)

lemma keeps_outgoing_pool [keeps_intros]: "keeps (\<lambda>s. outgoing s = ms) (pool_op m)"
  by (auto simp: keeps_def pool_op_def zoomM_def split: option.splits)

lemma CreateNextProposal_Returned:
  assumes "CreateNextProposal C keys context s = Some (Returned d, s')"
  shows "d = pb_getCanonical (utp_pending (utx_pool s')) \<and> \<not> utp_pending_mutex (utx_pool s') \<and> outgoing s' = outgoing s"
proof -
  have "keeps (\<lambda>t. outgoing t = outgoing s) (CreateNextProposal C keys context)"
    unfolding CreateNextProposal_def by (intro keeps_intros)
  from keepsD [OF this refl assms] have o: "outgoing s' = outgoing s" .
  have "\<exists>t. pool_op getProposal t = Some (Returned d, s')"
    using assms unfolding CreateNextProposal_def bindM_Returned by blast
  then show ?thesis using o by (auto simp: pool_op_Some dest: getProposal_Returned)
qed

lemma propose_next_sends:
  assumes "propose_next C keys context n s = Some (Returned True, s')"
  shows "outgoing s' = outgoing s @ [DevcashMessage_make (get_shard_uri context) PROPOSAL_BLOCK
      (pb_getCanonical (utp_pending (utx_pool s'))) (proposal_index n context)] \<and>
    \<not> utp_pending_mutex (utx_pool s')"
proof -
  obtain d t t0 where t: "CreateNextProposal C keys context t0 = Some (Returned d, t)" "outgoing t0 = outgoing s"
    and s': "s' = t\<lparr>outgoing := outgoing t @ [DevcashMessage_make (get_shard_uri context) PROPOSAL_BLOCK d (proposal_index n context)]\<rparr>"
    using assms
    by (auto simp: propose_next_def bindM_Returned pool_op_Some HasProposal_Some send_def effect_simps split: if_splits)
  from CreateNextProposal_Returned [OF t(1)] t(2) show ?thesis by (simp add: s')
qed

text \<open>C1. A round of consensus in a Tier-1 shard succeeds. Node A sends a proposal; node B, which can sign and had not
  signed it, reads it, finds it valid and answers; node A merges the validation, appends the final block with both
  signatures to its chain, drops the proposal and sends the block; node D reads it and appends the same block, with
  the chain state it had before. It assumes that SHA-256 digests have 32 bytes.\<close>

theorem consensus_round:
  assumes sha256_size: "\<forall>m. length (sha256 C m) = 32"
    and A: "propose_next C keys contextA height s0 = Some (Returned True, sA)"
      "good_proposal C keys (utp_pending (utx_pool sA))" "pool_wf C keys (utx_pool sA)"
      "\<not> consensus_mutex sA" "\<not> utp_txs_mutex (utx_pool sA)" "ctx_peer_count contextA = 3"
    and B: "signBlock C keys contextB (utp_pending (utx_pool sA)) = Inr (r, b)" "length (sigs (pb_vals b)) = 2"
      "kr_wf keys" "ctx_peer_count contextB = 3"
      "bc_wf (final_chain sB)" "\<not> consensus_mutex sB" "tcm_app_mode (utp_tcm (utx_pool sB)) = mode_T1"
    and D: "bc_wf (final_chain sD)" "\<not> consensus_mutex sD" "tcm_app_mode (utp_tcm (utx_pool sD)) = mode_T1"
      "pb_isNull (utp_pending (utx_pool sD))" "\<not> utp_txs_mutex (utx_pool sD)" "\<not> utp_pending_mutex (utx_pool sD)"
      "\<not> my_turn (scast (bc_chain_size (final_chain sD) + 1)) contextD"
  shows "\<exists>proposal validation final sB' sA' sD' prior.
    outgoing sA = outgoing s0 @ [proposal] \<and>
    consensusCallback C keys contextB nowB (Some proposal) sB = Some (Returned (), sB') \<and>
    outgoing sB' = outgoing sB @ [validation] \<and>
    consensusCallback C keys contextA nowA (Some validation) sA = Some (Returned (), sA') \<and>
    outgoing sA' = outgoing sA @ [final] \<and> pb_isNull (utp_pending (utx_pool sA')) \<and>
    bc_chain (final_chain sA') = bc_chain (final_chain sA) @ [FinalBlock_of C nowA b] \<and>
    consensusCallback C keys contextD nowD (Some final) sD = Some (Returned (), sD') \<and>
    getHighestChainState (final_chain sD) = Inr prior \<and>
    bc_chain (final_chain sD') = bc_chain (final_chain sD) @ [(FinalBlock_of C nowA b)\<lparr>fb_state := prior\<rparr>]"
proof -
  let ?b = "utp_pending (utx_pool sA)"
  let ?m1 = "DevcashMessage_make (get_shard_uri contextA) PROPOSAL_BLOCK (pb_getCanonical ?b) (proposal_index height contextA)"
  let ?m2 = "DevcashMessage_make (get_shard_uri contextB) VALID (getValidationData b) (msg_index ?m1)"
  let ?m3 = "DevcashMessage_make (get_shard_uri contextA) FINAL_BLOCK (fb_getCanonical (FinalBlock_of C nowA b)) (msg_index ?m2)"
  have r: "r" using signed_twice(1) [OF A(2) B(1,3,4,2)] .
  have fields: "msg_type (DevcashMessage_make u ty d i) = ty" "msg_data (DevcashMessage_make u ty d i) = d" for u ty d i
    by (simp_all add: DevcashMessage_make_def)
  note sent = propose_next_sends [OF A(1)]
  obtain sB' where b: "consensusCallback C keys contextB nowB (Some ?m1) sB = Some (Returned (), sB')"
    "outgoing sB' = outgoing sB @ [?m2]"
    using validator_answers [OF A(2) B(1) r _ _ B(5-7), of ?m1 nowB] by (auto simp: fields)
  obtain sA' where a: "consensusCallback C keys contextA nowA (Some ?m2) sA = Some (Returned (), sA')"
    "final_chain sA' = bc_push_back (FinalBlock_of C nowA b) (final_chain sA)" "pb_isNull (utp_pending (utx_pool sA'))"
    "outgoing sA' = outgoing sA @ [?m3]"
    using proposer_finalises [OF A(2) B(1) B(3,4,2) A(6) _ _ refl A(3,4,5), of ?m2 nowA] sent by (auto simp: fields)
  obtain prior where prior: "getHighestChainState (final_chain sD) = Inr prior"
    using bc_tip(1,2) [OF D(1)] by (cases "bc_chain (final_chain sD) = []") auto
  have "\<not> my_turn (bc_size (bc_push_back (FinalBlock_of C nowA b) (final_chain sD))) contextD"
    using D(7) by (simp add: bc_size_def bc_push_back_def)
  from receiver_appends [OF _ A(2) B(1) B(3,4,2) _ _ D(1-6) this prior, of ?m3 nowD] sha256_size
  have "consensusCallback C keys contextD nowD (Some ?m3) sD =
      Some (Returned (), sD\<lparr>final_chain := bc_push_back ((FinalBlock_of C nowA b)\<lparr>fb_state := prior\<rparr>) (final_chain sD)\<rparr>)"
    by (simp add: fields)
  with a b prior sent show ?thesis by (auto simp del: bc_push_back_chain simp: bc_push_back_chain [symmetric])
qed

text \<open>A shard with two listed nodes; the first one has the sample transaction in its pool.\<close>

definition ring2 :: KeyRing where
  "ring2 = KeyRing_empty\<lparr>key_map := [(sample_node, 5), (sample_node2, 5)], node_list := [sample_node, sample_node2]\<rparr>"

definition context_of :: "uint32 \<Rightarrow> DevcashContext" where
  "context_of i = DevcashContext_make i 0 mode_T1 [] [] [] 10000 0"

definition fresh_node :: NodeState where
  "fresh_node = nd_state (start_node 0 ChainState_empty mode_T1 10)"

definition proposing_node :: NodeState where
  "proposing_node = fresh_node\<lparr>utx_pool := sample_pool\<rparr>"

definition proposed_node :: NodeState where
  "proposed_node = proposing_node
     \<lparr>utx_pool := sample_pool\<lparr>utp_txs := [(sample_sig 5, 2, Tier1 sample_t1)], utp_pending := sample_proposal (replicate 32 7)\<rparr>,
      outgoing := [DevcashMessage_make (get_shard_uri (context_of 0)) PROPOSAL_BLOCK
        (pb_getCanonical (sample_proposal (replicate 32 7))) (proposal_index 0 (context_of 0))]\<rparr>"

lemma nodes_ordered: "sample_node < sample_node2"
proof -
  have "replicate 49 x = x # replicate 48 x" for x :: byte by (simp add: numeral_eq_Suc)
  then show ?thesis by (simp add: sample_node_def sample_node2_def less_Address_def)
qed

lemma ring2_facts:
  "kr_wf ring2" "ctx_peer_count (context_of i) = 3" "getKey sample_crypto ring2 sample_node = Inr 5"
  "addr_size sample_node = 50" "addr_size sample_node2 = 50" "sig_size (sample_sig 5) = 106" "sample_node2 \<noteq> sample_node"
proof -
  have "addr_wf sample_node2" by (simp add: sample_node2_def addr_wf_def)
  then show "kr_wf ring2"
    using nodes_ordered by (simp add: kr_wf_def ring2_def KeyRing_empty_def)
  show "ctx_peer_count (context_of i) = 3" by (simp add: context_of_def DevcashContext_make_def Let_def)
  show "getKey sample_crypto ring2 sample_node = Inr 5" by (simp add: getKey_def ring2_def KeyRing_empty_def)
  show "addr_size sample_node = 50" "addr_size sample_node2 = 50" "sig_size (sample_sig 5) = 106"
    by (simp_all add: sample_node2_def addr_size_def sig_size_def sample_node_def sample_sig_def sample_der_def)
  show "sample_node2 \<noteq> sample_node" using nodes_ordered by auto
qed

lemma node_numbers:
  "ucast (get_current_node (context_of 0)) mod ctx_peer_count (context_of 0) = (0 :: size_t)"
  "ucast (get_current_node (context_of 1)) mod ctx_peer_count (context_of 1) = (1 :: size_t)"
  by (simp_all add: get_current_node_def context_of_def DevcashContext_make_def Let_def)

lemma ring2_sign:
  "signBlock sample_crypto ring2 (context_of 0) (ProposedBlock_make h txs sm Validation_Create st) =
     Inr (True, ProposedBlock_make h txs sm \<lparr>sigs = [(sample_node, sample_sig 5)]\<rparr> st)"
  "signBlock sample_crypto ring2 (context_of 1) (ProposedBlock_make h txs sm \<lparr>sigs = [(sample_node, sample_sig 5)]\<rparr> st) =
     Inr (True, ProposedBlock_make h txs sm \<lparr>sigs = [(sample_node, sample_sig 5), (sample_node2, sample_sig 5)]\<rparr> st)"
  using ring2_facts(4-7) node_numbers nodes_ordered
  by (simp_all add: signBlock_def Let_def getNodeAddr_def vec_at_def getNodeKey_def ring2_def KeyRing_empty_def
      sample_crypto_sign addValidation_def ProposedBlock_make_def Validation_Create_def getValidationCount_def)

lemma sample_round_good: "good_proposal sample_crypto ring2 (sample_proposal (replicate 32 7))"
proof -
  let ?b = "sample_proposal (replicate 32 7)"
  have f: "pb_vals ?b = \<lparr>sigs = [(sample_node, sample_sig 5)]\<rparr>" "pb_summary ?b = sample_summary"
    "pb_transactions ?b = [Tier1 sample_t1]" "pb_version ?b = 0" "pb_prev_hash ?b = replicate 32 7"
    by (simp_all add: sample_proposal_def ProposedBlock_make_def Let_def)
  have np: "node_pairs (pb_vals ?b)" using ring2_facts by (simp add: f node_pairs_def)
  have wf: "pb_wf ?b"
    unfolding sample_proposal_def using ring2_facts by (intro pb_wf_make) (simp_all add: val_wf_def node_pairs_def)
  have "t1_isSound sample_crypto ring2 (t1_parts sample_summary sample_node (sample_sig 5) False) = Inr True"
    using ring2_facts(3) by (simp add: t1_isSound_parts sample_crypto_verify)
  then have "t1_block_tx sample_crypto ring2 (Tier1 sample_t1)"
    unfolding t1_block_tx_def sample_t1_def using sample_t1_encodable by blast
  moreover have "length (pb_getCanonical ?b) < 2 ^ 62"
    using length_node_pairs [OF np]
    by (simp add: pb_getCanonical_eq pb_getRawTransactions_def f sample_summary_length sample_t1_length)
  moreover have "pb_validate sample_crypto ring2 ?b = Inr True"
    using ring2_facts(3) by (simp add: pb_validate_def f sample_summary_sane sample_crypto_verify)
  ultimately show ?thesis using wf by (simp add: good_proposal_def f)
qed

lemma sample_round_proposes:
  "propose_next sample_crypto ring2 (context_of 0) 0 proposing_node = Some (Returned True, proposed_node)"
proof -
  let ?h = "replicate 32 7 :: bytes" and ?pool = "utx_pool proposed_node"
  have gen: "GenesisHash sample_crypto = ?h"
    by (simp add: GenesisHash_def DevcashHash_def sample_crypto_def Str2Bin_def)
  have pool: "utx_pool proposing_node = sample_pool" by (simp add: proposing_node_def)
  have free: "\<not> utp_txs_mutex sample_pool" "\<not> utp_pending_mutex sample_pool" "utp_txs sample_pool \<noteq> []"
    "pb_isNull (utp_pending sample_pool)"
    by (simp_all add: sample_pool_def UnrecordedTransactionPool_make_def pb_Create_prior_def pb_isNull_def pb_MinSize_def)
  have p: "ProposeBlock sample_crypto ?h ChainState_empty ring2 (context_of 0) sample_pool = Some (Returned True, ?pool)"
    using ProposeBlock_apply [OF free(1) sample_collect [of sample_crypto ring2] ring2_sign(1) [of ?h]] free(2)
    by (simp add: proposed_node_def sample_proposal_def)
  have has: "HasProposal sample_pool = Some (Returned False, sample_pool)" using free by (simp add: HasProposal_Some)
  have pend: "HasPendingTransactions sample_pool = Some (Returned True, sample_pool)"
    unfolding HasPendingTransactions_def using free by (intro lock_txs_free) (simp_all add: effect_simps)
  have get: "getProposal ?pool = Some (Returned (pb_getCanonical (sample_proposal ?h)), ?pool)"
    unfolding getProposal_def using free(2) by (intro lock_pending_free) (simp_all add: effect_simps proposed_node_def)
  have size: "bc_size (final_chain proposing_node) = 0"
    by (simp add: proposing_node_def fresh_node_def bc_size_def Blockchain_make_def)
  have "CreateNextProposal sample_crypto ring2 (context_of 0) proposing_node =
      Some (Returned (pb_getCanonical (sample_proposal ?h)), proposing_node\<lparr>utx_pool := ?pool\<rparr>)"
    using p has pend get gen size pool by (simp add: CreateNextProposal_def bindM_def pool_op_def effect_simps)
  moreover have "7 \<in> set (pb_getCanonical (sample_proposal ?h))"
    by (simp add: pb_getCanonical_eq sample_proposal_def ProposedBlock_make_def Let_def)
  then have "\<not> isNullProposal (pb_getCanonical (sample_proposal ?h))" using not_all_zero by fastforce
  ultimately show ?thesis
    using has pool
    by (simp add: propose_next_def bindM_def pool_op_def effect_simps send_def)
      (simp add: proposed_node_def proposing_node_def fresh_node_def start_node_def BlockchainModule_make_def Let_def
        bindM_def effect_simps send_def)
qed

theorem consensus_round_witness:
  "\<exists>proposal validation final sA' sB' sD'.
    outgoing proposed_node = [proposal] \<and>
    consensusCallback sample_crypto ring2 (context_of 1) 3 (Some proposal) fresh_node = Some (Returned (), sB') \<and>
    outgoing sB' = [validation] \<and>
    consensusCallback sample_crypto ring2 (context_of 0) 4 (Some validation) proposed_node = Some (Returned (), sA') \<and>
    outgoing sA' = [proposal, final] \<and>
    consensusCallback sample_crypto ring2 (context_of 2) 5 (Some final) fresh_node = Some (Returned (), sD') \<and>
    map fb_getCanonical (bc_chain (final_chain sA')) = map fb_getCanonical (bc_chain (final_chain sD')) \<and>
    length (bc_chain (final_chain sA')) = 1"
proof -
  let ?b = "ProposedBlock_make (replicate 32 7) [Tier1 sample_t1] sample_summary
    \<lparr>sigs = [(sample_node, sample_sig 5), (sample_node2, sample_sig 5)]\<rparr> sample_state"
  have sign: "signBlock sample_crypto ring2 (context_of 1) (utp_pending (utx_pool proposed_node)) = Inr (True, ?b)"
    using ring2_sign(2) by (simp add: proposed_node_def sample_proposal_def)
  have wf: "pool_wf sample_crypto ring2 (utx_pool proposed_node)"
    by (simp add: pool_wf_def proposed_node_def tx_checked_def sample_t1_xfers sample_proposal_def ProposedBlock_make_def Let_def)
  have fresh: "bc_wf (final_chain fresh_node)" "\<not> consensus_mutex fresh_node" "idle_pool (utx_pool fresh_node)"
    "tcm_app_mode (utp_tcm (utx_pool fresh_node)) = mode_T1" "outgoing fresh_node = []" "bc_chain (final_chain fresh_node) = []"
    using idle_start by (simp_all add: fresh_node_def)
      (simp_all add: UnrecordedTransactionPool_make_def tcm_make_def start_node_def BlockchainModule_make_def Blockchain_make_def Let_def)
  have turn: "\<not> my_turn (scast (bc_chain_size (final_chain fresh_node) + 1)) (context_of 2)"
    by (simp add: my_turn_def fresh_node_def Blockchain_make_def context_of_def DevcashContext_make_def get_current_node_def Let_def)
  have same: "fb_getCanonical (f\<lparr>fb_state := st\<rparr>) = fb_getCanonical f" for f st by (simp add: fb_getCanonical_eq)
  have sha: "\<forall>m. length (sha256 sample_crypto m) = 32" by (simp add: sample_crypto_def)
  have A: "good_proposal sample_crypto ring2 (utp_pending (utx_pool proposed_node))" "\<not> consensus_mutex proposed_node"
    "\<not> utp_txs_mutex (utx_pool proposed_node)" "outgoing proposing_node = []" "bc_chain (final_chain proposed_node) = []"
    using sample_round_good fresh
    by (simp_all add: proposed_node_def proposing_node_def) (simp add: sample_pool_def UnrecordedTransactionPool_make_def)
  have two: "length (sigs (pb_vals ?b)) = 2" by (simp add: ProposedBlock_make_def Let_def)
  have D: "pb_isNull (utp_pending (utx_pool fresh_node))" "\<not> utp_txs_mutex (utx_pool fresh_node)"
    "\<not> utp_pending_mutex (utx_pool fresh_node)" using fresh(3) by (simp_all add: idle_pool_def)
  from consensus_round [OF sha sample_round_proposes A(1) wf A(2,3) ring2_facts(2) sign two ring2_facts(1,2) fresh(1,2,4)
      fresh(1,2,4) D turn, of 3 4 5] A(4,5) fresh(5,6)
  obtain proposal validation final sB' sA' sD' prior where r: "outgoing proposed_node = [proposal]"
    "consensusCallback sample_crypto ring2 (context_of 1) 3 (Some proposal) fresh_node = Some (Returned (), sB')"
    "outgoing sB' = [validation]"
    "consensusCallback sample_crypto ring2 (context_of 0) 4 (Some validation) proposed_node = Some (Returned (), sA')"
    "outgoing sA' = [proposal, final]"
    "consensusCallback sample_crypto ring2 (context_of 2) 5 (Some final) fresh_node = Some (Returned (), sD')"
    and c: "bc_chain (final_chain sA') = [FinalBlock_of sample_crypto 4 ?b]"
    "bc_chain (final_chain sD') = [(FinalBlock_of sample_crypto 4 ?b)\<lparr>fb_state := prior\<rparr>]"
    by auto
  have "map fb_getCanonical (bc_chain (final_chain sA')) = map fb_getCanonical (bc_chain (final_chain sD'))"
    "length (bc_chain (final_chain sA')) = 1" by (simp_all add: c same)
  with r show ?thesis by blast
qed

end
