(* ===== verification/Queues.thy ===== *)
theory Queues
  imports Controllers
begin

text \<open>
  \<^verbatim>\<open>concurrency/DevcashRingQueue.h\<close>, a bounded queue in a ring of pointers, and the interface that it
  shares with the queues of the thread groups: first in, first out. The methods of the ring are programs of
  one thread; waiting for a condition that no other thread makes true is the outcome \<open>Blocked\<close>. The positions
  and the counter are \<^verbatim>\<open>int\<close>; they stay between \<open>- 1\<close> and the size of the ring, so that they are \<open>int\<close>
  here. The mutexes, which each method releases before it returns, are left out.
\<close>

section \<open>The interface\<close>

text \<open>\<open>holds q xs\<close>: the queue holds the messages \<open>xs\<close>, the oldest one first; \<open>fits n\<close>: it has room for \<open>n\<close>.\<close>

locale fifo =
  fixes enqueue :: "'m \<Rightarrow> 'q \<Rightarrow> 'q option"
    and dequeue :: "'q \<Rightarrow> ('m \<times> 'q) option"
    and holds :: "'q \<Rightarrow> 'm list \<Rightarrow> bool"
    and fits :: "nat \<Rightarrow> bool"
  assumes enqueue: "holds q xs \<Longrightarrow> fits (Suc (length xs)) \<Longrightarrow> \<exists>q'. enqueue m q = Some q' \<and> holds q' (xs @ [m])"
    and dequeue: "holds q (x # xs) \<Longrightarrow> \<exists>q'. dequeue q = Some (x, q') \<and> holds q' xs"
    and dequeue_empty: "holds q [] \<Longrightarrow> dequeue q = None"
    and fits_less: "fits n \<Longrightarrow> k \<le> n \<Longrightarrow> fits k"
begin

primrec enqueue_all :: "'m list \<Rightarrow> 'q \<Rightarrow> 'q option" where
  "enqueue_all [] q = Some q"
| "enqueue_all (m # ms) q = Option.bind (enqueue m q) (enqueue_all ms)"

primrec dequeue_all :: "nat \<Rightarrow> 'q \<Rightarrow> ('m list \<times> 'q) option" where
  "dequeue_all 0 q = Some ([], q)"
| "dequeue_all (Suc n) q =
     Option.bind (dequeue q) (\<lambda>(x, q). Option.bind (dequeue_all n q) (\<lambda>(xs, q). Some (x # xs, q)))"

lemma enqueue_all_holds:
  "holds q xs \<Longrightarrow> fits (length xs + length ms) \<Longrightarrow> \<exists>q'. enqueue_all ms q = Some q' \<and> holds q' (xs @ ms)"
proof (induction ms arbitrary: q xs)
  case (Cons m ms)
  then obtain q1 where 1: "enqueue m q = Some q1" "holds q1 (xs @ [m])"
    using enqueue [of q xs m] fits_less [of "length xs + length (m # ms)" "Suc (length xs)"] by auto
  then obtain q2 where "enqueue_all ms q1 = Some q2" "holds q2 ((xs @ [m]) @ ms)"
    using Cons.IH [OF 1(2)] Cons.prems(2) by auto
  with 1 show ?case by simp
qed simp

lemma dequeue_all_holds: "holds q (xs @ ys) \<Longrightarrow> \<exists>q'. dequeue_all (length xs) q = Some (xs, q') \<and> holds q' ys"
proof (induction xs arbitrary: q)
  case (Cons x xs)
  then obtain q1 where 1: "dequeue q = Some (x, q1)" "holds q1 (xs @ ys)" using dequeue [of q x "xs @ ys"] by auto
  with Cons.IH [OF 1(2)] show ?case by auto
qed simp

text \<open>What was put in comes out, in the same order, and nothing else.\<close>

lemma in_order:
  assumes "holds q []" "fits (length ms)"
  shows "\<exists>q1 q2. enqueue_all ms q = Some q1 \<and> dequeue_all (length ms) q1 = Some (ms, q2) \<and> dequeue q2 = None"
  using enqueue_all_holds [of q "[]" ms] dequeue_all_holds [of _ ms "[]"] dequeue_empty assms by fastforce

end

section \<open>The queue of a thread group\<close>

definition tg_enqueue :: "DevcashMessage \<Rightarrow> ThreadGroup \<Rightarrow> ThreadGroup option" where
  "tg_enqueue msg tg = (case pushMessage (Some msg) tg of Inl e \<Rightarrow> None | Inr tg' \<Rightarrow> Some tg')"

definition tg_dequeue :: "ThreadGroup \<Rightarrow> (DevcashMessage \<times> ThreadGroup) option" where
  "tg_dequeue tg = (case pop tg of Some (Some msg, tg') \<Rightarrow> Some (msg, tg') | _ \<Rightarrow> None)"

interpretation group_queue: fifo tg_enqueue tg_dequeue "\<lambda>tg xs. thread_queue tg = xs" "\<lambda>n. True"
  by unfold_locales (auto simp: tg_enqueue_def pushMessage_def tg_dequeue_def pop_def)

section \<open>The ring\<close>

record DevcashRingQueue =
  kRingSize :: int
  ptrRing :: "DevcashMessage option list"
  pushAt :: int
  popAt :: int
  rq_pending :: int
  isEmpty :: bool
  isFull :: bool
  stopNow :: bool

definition kDEFAULT_RING_SIZE :: int where
  "kDEFAULT_RING_SIZE = 10"

text \<open>The size is converted from \<^verbatim>\<open>size_t\<close> to \<^verbatim>\<open>int\<close>.\<close>

definition DevcashRingQueue_make :: "size_t \<Rightarrow> DevcashRingQueue" where
  "DevcashRingQueue_make n =
     \<lparr>kRingSize = sint (ucast n :: uint32), ptrRing = replicate (nat (sint (ucast n :: uint32))) None,
      pushAt = 0, popAt = 0, rq_pending = 0, isEmpty = True, isFull = False, stopNow = False\<rparr>"

definition DevcashRingQueue_default :: DevcashRingQueue where
  "DevcashRingQueue_default =
     \<lparr>kRingSize = kDEFAULT_RING_SIZE, ptrRing = replicate (nat kDEFAULT_RING_SIZE) None,
      pushAt = 0, popAt = 0, rq_pending = 0, isEmpty = True, isFull = False, stopNow = False\<rparr>"

definition at :: "int \<Rightarrow> DevcashMessage option list \<Rightarrow> error + DevcashMessage option" where
  "at i ring = (if 0 \<le> i \<and> i < int (length ring) then Inr (ring ! nat i) else Inl OutOfRange)"

text \<open>The exceptions of \<open>push\<close> and \<open>pop\<close> are caught; a failed \<^verbatim>\<open>assert\<close> aborts.\<close>

definition rq_push :: "DevcashMessage option \<Rightarrow> DevcashRingQueue \<Rightarrow> bool outcome \<times> DevcashRingQueue" where
  "rq_push pointer q =
     (if pointer = None then (Thrown (Aborted ''push''), q)
      else if isFull q then (Blocked ''full_'', q)
      else
        case at (pushAt q) (ptrRing q) of
          Inl e \<Rightarrow> (Returned False, q)
        | Inr _ \<Rightarrow>
            let q = q\<lparr>ptrRing := (ptrRing q)[nat (pushAt q) := pointer], rq_pending := rq_pending q + 1\<rparr>;
                q = (if pushAt q + 1 = popAt q then q\<lparr>isFull := True\<rparr> else q);
                q = (if pushAt q + 1 \<ge> kRingSize q \<and> popAt q = 0 then q\<lparr>isEmpty := True\<rparr> else q);
                q = q\<lparr>isEmpty := False, pushAt := pushAt q + 1\<rparr>;
                q = (if pushAt q \<ge> kRingSize q then q\<lparr>pushAt := 0\<rparr> else q);
                q = q\<lparr>isFull := (pushAt q = popAt q)\<rparr>
            in (Returned True, q))"

definition rq_popGuard :: "DevcashRingQueue \<Rightarrow> unit outcome \<times> DevcashRingQueue" where
  "rq_popGuard q =
     (if isEmpty q then (Blocked ''empty_'', q)
      else
        let q = q\<lparr>rq_pending := rq_pending q - 1\<rparr>;
            q = (if popAt q + 1 = pushAt q then q\<lparr>isEmpty := True\<rparr> else q);
            q = (if popAt q + 1 \<ge> kRingSize q \<and> pushAt q = 0 then q\<lparr>isEmpty := True\<rparr> else q)
        in (Returned (), q))"

definition rq_pop :: "DevcashRingQueue \<Rightarrow> DevcashMessage option outcome \<times> DevcashRingQueue" where
  "rq_pop q =
     (case at (popAt q) (ptrRing q) of
        Inl e \<Rightarrow> (Returned None, q)
      | Inr out \<Rightarrow>
          let q = q\<lparr>ptrRing := (ptrRing q)[nat (popAt q) := None], isFull := False, popAt := popAt q + 1\<rparr>;
              q = (if popAt q \<ge> kRingSize q then q\<lparr>popAt := 0\<rparr> else q);
              q = q\<lparr>isEmpty := (popAt q = pushAt q)\<rparr>
          in (if out = None then Thrown (Aborted ''pop'') else Returned out, q))"

definition rq_clearBlockers :: "DevcashRingQueue \<Rightarrow> DevcashRingQueue" where
  "rq_clearBlockers q = q\<lparr>stopNow := True, isEmpty := False, isFull := False, rq_pending := 0\<rparr>"

section \<open>Refinement\<close>

text \<open>The messages that the ring holds start at \<open>popAt\<close> and go round.\<close>

definition ring_holds :: "nat \<Rightarrow> DevcashRingQueue \<Rightarrow> DevcashMessage list \<Rightarrow> bool" where
  "ring_holds n q xs =
     (0 < n \<and> kRingSize q = int n \<and> length (ptrRing q) = n \<and> 0 \<le> popAt q \<and> popAt q < int n \<and>
      length xs \<le> n \<and> pushAt q = (popAt q + int (length xs)) mod int n \<and>
      rq_pending q = int (length xs) \<and> (isEmpty q \<longleftrightarrow> xs = []) \<and> (isFull q \<longleftrightarrow> length xs = n) \<and>
      (\<forall>i < length xs. ptrRing q ! ((nat (popAt q) + i) mod n) = Some (xs ! i)))"

lemma ring_mod_inj:
  assumes "i < n" "j < n" "(p + i) mod n = (p + j) mod (n :: nat)"
  shows "i = j"
proof -
  have "a = b" if "a \<le> b" "b < n" "(p + a) mod n = (p + b) mod n" for a b
  proof -
    have "n dvd (p + b) - (p + a)" using that(3) by (metis mod_eq_dvd_iff_nat add_le_cancel_left that(1))
    then show ?thesis using that(1,2) by (auto dest: dvd_imp_le)
  qed
  then show ?thesis using assms by (metis nat_le_linear)
qed

lemma ring_round:
  assumes "p < n" "k \<le> (n :: nat)"
  shows "(p + k) mod n = p \<longleftrightarrow> k = 0 \<or> k = n"
proof
  assume "(p + k) mod n = p"
  then show "k = 0 \<or> k = n" using assms ring_mod_inj [of k n 0 p] by (cases "k = n") auto
qed (use assms in auto)

lemma ring_holds_nat:
  "ring_holds n q xs \<longleftrightarrow> (\<exists>p. p < n \<and> kRingSize q = int n \<and> length (ptrRing q) = n \<and> popAt q = int p \<and>
     length xs \<le> n \<and> pushAt q = int ((p + length xs) mod n) \<and> rq_pending q = int (length xs) \<and>
     (isEmpty q \<longleftrightarrow> xs = []) \<and> (isFull q \<longleftrightarrow> length xs = n) \<and>
     (\<forall>i < length xs. ptrRing q ! ((p + i) mod n) = Some (xs ! i)))" (is "?l \<longleftrightarrow> ?r")
proof
  assume ?l
  then show ?r by (intro exI [of _ "nat (popAt q)"]) (auto simp: ring_holds_def zmod_int)
next
  assume ?r
  then show ?l by (auto simp: ring_holds_def zmod_int)
qed

text \<open>The flags that \<open>push\<close> sets before it moves the position are overwritten behind that.\<close>

lemma rq_push_eq:
  assumes "\<not> isFull q" "0 \<le> pushAt q" "pushAt q < int (length (ptrRing q))"
    and "r = (if pushAt q + 1 \<ge> kRingSize q then 0 else pushAt q + 1)"
  shows "rq_push (Some m) q = (Returned True, q\<lparr>ptrRing := (ptrRing q)[nat (pushAt q) := Some m],
    rq_pending := rq_pending q + 1, isEmpty := False, pushAt := r, isFull := (r = popAt q)\<rparr>)"
  using assms by (cases q) (simp add: rq_push_def at_def Let_def)

lemma rq_push_room:
  assumes "ring_holds n q xs" "length xs < n"
  shows "\<exists>q'. rq_push (Some m) q = (Returned True, q') \<and> ring_holds n q' (xs @ [m])"
proof -
  obtain p where p: "p < n" "kRingSize q = int n" "length (ptrRing q) = n" "popAt q = int p"
    "pushAt q = int ((p + length xs) mod n)" "rq_pending q = int (length xs)" "isFull q \<longleftrightarrow> length xs = n"
    and at: "\<And>i. i < length xs \<Longrightarrow> ptrRing q ! ((p + i) mod n) = Some (xs ! i)"
    using assms(1) unfolding ring_holds_nat by auto
  let ?k = "(p + length xs) mod n" and ?k' = "(p + Suc (length xs)) mod n"
  have k: "?k < n" using p(1) by simp
  have next_push: "(if int ?k + 1 \<ge> int n then 0 else int ?k + 1) = int ?k'"
    using k by (cases "Suc ?k = n") (simp_all add: mod_Suc, linarith?)
  then have next_push': "int ?k' = (if pushAt q + 1 \<ge> kRingSize q then 0 else pushAt q + 1)"
    unfolding p(2,5) by (rule sym)
  have full: "?k' = p \<longleftrightarrow> Suc (length xs) = n" using ring_round [OF p(1), of "Suc (length xs)"] assms(2) by auto
  let ?q = "q\<lparr>ptrRing := (ptrRing q)[?k := Some m], rq_pending := rq_pending q + 1, isEmpty := False, pushAt := int ?k',
    isFull := (Suc (length xs) = n)\<rparr>"
  have "rq_push (Some m) q = (Returned True, ?q)"
    using rq_push_eq [OF _ _ _ next_push', of m] p k assms(2) full by simp
  moreover have "ring_holds n ?q (xs @ [m])"
    unfolding ring_holds_nat
  proof (intro exI [of _ p] conjI allI impI)
    fix i
    assume "i < length (xs @ [m])"
    then show "ptrRing ?q ! ((p + i) mod n) = Some ((xs @ [m]) ! i)"
      using at [of i] ring_mod_inj [of i n "length xs" p] assms(2) k p(3)
      by (cases "i = length xs") (auto simp: nth_append nth_list_update)
  qed (use p assms(2) in auto)
  ultimately show ?thesis by blast
qed

lemma rq_push_full: "ring_holds n q xs \<Longrightarrow> length xs = n \<Longrightarrow> rq_push (Some m) q = (Blocked ''full_'', q)"
  by (auto simp: ring_holds_def rq_push_def)

lemma rq_popGuard_eq:
  "\<not> isEmpty q \<Longrightarrow> rq_popGuard q = (Returned (), q\<lparr>rq_pending := rq_pending q - 1,
     isEmpty := (popAt q + 1 = pushAt q \<or> popAt q + 1 \<ge> kRingSize q \<and> pushAt q = 0)\<rparr>)"
  by (cases q) (simp add: rq_popGuard_def Let_def)

lemma rq_pop_eq:
  assumes "0 \<le> popAt q" "popAt q < int (length (ptrRing q))"
    and "r = (if popAt q + 1 \<ge> kRingSize q then 0 else popAt q + 1)" "ptrRing q ! nat (popAt q) = Some m"
  shows "rq_pop q = (Returned (Some m), q\<lparr>ptrRing := (ptrRing q)[nat (popAt q) := None], isFull := False,
    popAt := r, isEmpty := (r = pushAt q)\<rparr>)"
  using assms by (cases q) (simp add: rq_pop_def at_def Let_def)

lemma rq_pop_next:
  assumes "ring_holds n q (x # xs)"
  shows "\<exists>q1 q2. rq_popGuard q = (Returned (), q1) \<and> rq_pop q1 = (Returned (Some x), q2) \<and> ring_holds n q2 xs"
proof -
  obtain p where p: "p < n" "kRingSize q = int n" "length (ptrRing q) = n" "popAt q = int p" "Suc (length xs) \<le> n"
    "pushAt q = int ((p + Suc (length xs)) mod n)" "rq_pending q = int (Suc (length xs))" "\<not> isEmpty q"
    and at: "\<And>i. i < Suc (length xs) \<Longrightarrow> ptrRing q ! ((p + i) mod n) = Some ((x # xs) ! i)"
    using assms unfolding ring_holds_nat by auto
  let ?p' = "Suc p mod n"
  have front: "ptrRing q ! p = Some x" using at [of 0] p(1) by simp
  have next_pop: "(if int p + 1 \<ge> int n then 0 else int p + 1) = int ?p'"
    using p(1) by (cases "Suc p = n") simp_all
  then have next_pop': "int ?p' = (if popAt q' + 1 \<ge> kRingSize q' then 0 else popAt q' + 1)"
    if "popAt q' = popAt q" "kRingSize q' = kRingSize q" for q'
    unfolding that p(2,4) by (rule sym)
  have shift: "(?p' + i) mod n = (p + Suc i) mod n" for i by (simp add: mod_add_left_eq)
  have "xs = [] \<longleftrightarrow> ?p' = (?p' + length xs) mod n"
    using ring_round [of ?p' n "length xs"] p(1,5) by (cases "length xs = n") auto
  then have empty: "?p' = (p + Suc (length xs)) mod n \<longleftrightarrow> xs = []" unfolding shift by blast
  obtain e where g: "rq_popGuard q = (Returned (), q\<lparr>rq_pending := int (length xs), isEmpty := e\<rparr>)"
    using rq_popGuard_eq [OF p(8)] p(7) by simp
  let ?q = "q\<lparr>rq_pending := int (length xs), isEmpty := (xs = []), ptrRing := (ptrRing q)[p := None], isFull := False, popAt := int ?p'\<rparr>"
  have "rq_pop (q\<lparr>rq_pending := int (length xs), isEmpty := e\<rparr>) = (Returned (Some x), ?q)"
    using rq_pop_eq [of "q\<lparr>rq_pending := int (length xs), isEmpty := e\<rparr>", OF _ _ next_pop'] p(1-4,6) front empty by simp
  moreover have "ring_holds n ?q xs"
    unfolding ring_holds_nat
  proof (intro exI [of _ ?p'] conjI allI impI)
    fix i
    assume "i < length xs"
    then show "ptrRing ?q ! ((?p' + i) mod n) = Some (xs ! i)"
      using at [of "Suc i"] ring_mod_inj [of "Suc i" n 0 p] p(1,3,5) by (auto simp: shift nth_list_update)
  qed (use p in \<open>auto simp: shift\<close>)
  ultimately show ?thesis using g by blast
qed

lemma rq_pop_empty: "ring_holds n q [] \<Longrightarrow> rq_popGuard q = (Blocked ''empty_'', q)"
  by (simp add: ring_holds_def rq_popGuard_def)

definition ring_enqueue :: "DevcashMessage \<Rightarrow> DevcashRingQueue \<Rightarrow> DevcashRingQueue option" where
  "ring_enqueue msg q = (case rq_push (Some msg) q of (Returned True, q') \<Rightarrow> Some q' | _ \<Rightarrow> None)"

definition ring_dequeue :: "DevcashRingQueue \<Rightarrow> (DevcashMessage \<times> DevcashRingQueue) option" where
  "ring_dequeue q =
     (case rq_popGuard q of
        (Returned u, q1) \<Rightarrow> (case rq_pop q1 of (Returned (Some msg), q2) \<Rightarrow> Some (msg, q2) | _ \<Rightarrow> None)
      | _ \<Rightarrow> None)"

interpretation ring_queue: fifo ring_enqueue ring_dequeue "ring_holds n" "\<lambda>k. k \<le> n" for n
proof unfold_locales
  fix q xs m
  assume "ring_holds n q xs" "Suc (length xs) \<le> n"
  then show "\<exists>q'. ring_enqueue m q = Some q' \<and> ring_holds n q' (xs @ [m])"
    using rq_push_room [of n q xs m] by (auto simp: ring_enqueue_def)
next
  fix q x xs
  assume "ring_holds n q (x # xs)"
  then show "\<exists>q'. ring_dequeue q = Some (x, q') \<and> ring_holds n q' xs"
    using rq_pop_next [of n q x xs] by (auto simp: ring_dequeue_def)
next
  fix q
  assume "ring_holds n q []"
  then show "ring_dequeue q = None" by (simp add: ring_dequeue_def rq_pop_empty)
qed simp

lemma ring_holds_make:
  assumes "sint (ucast n :: uint32) = int k" "0 < k"
  shows "ring_holds k (DevcashRingQueue_make n) []"
  using assms by (simp add: ring_holds_def DevcashRingQueue_make_def)

text \<open>Two consumers that have passed the guard before either of them pops leave the flag as it was, so a third one
  passes as well, with two messages in the ring.\<close>

lemma guards_overcommit:
  assumes "ring_holds n q [a, b]"
  shows "\<exists>q1 q2 q3. rq_popGuard q = (Returned (), q1) \<and> rq_popGuard q1 = (Returned (), q2) \<and>
    rq_popGuard q2 = (Returned (), q3) \<and> rq_pending q3 = - 1"
proof -
  obtain p where p: "p < n" "kRingSize q = int n" "popAt q = int p" "2 \<le> n" "pushAt q = int ((p + 2) mod n)"
    "rq_pending q = 2" "\<not> isEmpty q"
    using assms unfolding ring_holds_nat by auto
  have "(p + 2) mod n = (if p + 2 < n then p + 2 else p + 2 - n)"
    using p(1,4) by (simp add: mod_if)
  then have "\<not> (popAt q + 1 = pushAt q \<or> popAt q + 1 \<ge> kRingSize q \<and> pushAt q = 0)"
    using p by auto
  then show ?thesis using p(6,7) by (simp add: rq_popGuard_eq)
qed

section \<open>Properties\<close>

text \<open>C40. The ring implements a bounded first-in first-out queue. While there is room \<open>push\<close> appends the message and
  returns true; when the ring is full it blocks. \<open>popGuard\<close> and \<open>pop\<close> return the oldest message and remove it; on an
  empty ring the guard blocks. Any sequence of messages for which there is room is returned in the order in
  which it was pushed.\<close>

theorem ring_refines_fifo:
  assumes "ring_holds n q xs"
  shows "(if length xs < n
     then \<exists>q'. rq_push (Some m) q = (Returned True, q') \<and> ring_holds n q' (xs @ [m])
     else rq_push (Some m) q = (Blocked ''full_'', q)) \<and>
    (case xs of
       [] \<Rightarrow> rq_popGuard q = (Blocked ''empty_'', q)
     | x # ys \<Rightarrow> \<exists>q1 q2. rq_popGuard q = (Returned (), q1) \<and> rq_pop q1 = (Returned (Some x), q2) \<and> ring_holds n q2 ys) \<and>
    (length xs + length ms \<le> n \<longrightarrow>
       (\<exists>q1 q2. ring_queue.enqueue_all ms q = Some q1 \<and>
          ring_queue.dequeue_all (length (xs @ ms)) q1 = Some (xs @ ms, q2) \<and> ring_holds n q2 []))"
proof (intro conjI impI)
  show "if length xs < n then \<exists>q'. rq_push (Some m) q = (Returned True, q') \<and> ring_holds n q' (xs @ [m])
     else rq_push (Some m) q = (Blocked ''full_'', q)"
    using rq_push_room [OF assms] rq_push_full [OF assms] assms by (auto simp: ring_holds_def)
  show "case xs of [] \<Rightarrow> rq_popGuard q = (Blocked ''empty_'', q)
     | x # ys \<Rightarrow> \<exists>q1 q2. rq_popGuard q = (Returned (), q1) \<and> rq_pop q1 = (Returned (Some x), q2) \<and> ring_holds n q2 ys"
    using rq_pop_empty [of n q] rq_pop_next [of n q] assms by (cases xs) auto
  assume "length xs + length ms \<le> n"
  then obtain q1 where "ring_queue.enqueue_all ms q = Some q1" "ring_holds n q1 ((xs @ ms) @ [])"
    using ring_queue.enqueue_all_holds [OF assms] by auto
  with ring_queue.dequeue_all_holds [OF this(2)]
  show "\<exists>q1 q2. ring_queue.enqueue_all ms q = Some q1 \<and>
      ring_queue.dequeue_all (length (xs @ ms)) q1 = Some (xs @ ms, q2) \<and> ring_holds n q2 []" by blast
qed

definition ring_sample :: "uint32 \<Rightarrow> DevcashMessage" where
  "ring_sample i = DevcashMessage_index i"

theorem ring_refines_fifo_witness:
  "ring_holds 3 (DevcashRingQueue_make 3) [] \<and>
   (\<exists>q1 q2. ring_queue.enqueue_all [ring_sample 1, ring_sample 2] (DevcashRingQueue_make 3) = Some q1 \<and>
      ring_queue.dequeue_all 2 q1 = Some ([ring_sample 1, ring_sample 2], q2))"
proof -
  have h: "ring_holds 3 (DevcashRingQueue_make 3) []" by (rule ring_holds_make) simp_all
  from ring_refines_fifo [OF h, of "ring_sample 0" "[ring_sample 1, ring_sample 2]"] h show ?thesis
    by (auto simp: numeral_2_eq_2)
qed

end
