(* ===== verification/Oracles.thy ===== *)
theory Oracles
  imports Block_Chain
begin

text \<open>
  \<^verbatim>\<open>oracles/\<close>: the oracles that check a proposal against a chain and turn it into transactions. The
  abstract class of \<^verbatim>\<open>oracleInterface.h\<close> is the record \<open>oracle_class\<close> of its methods, and each of
  the eight derived classes is one value of it. An object is its data and its last error message; a
  method takes the object and returns it, as the checks of \<^verbatim>\<open>data\<close>, \<^verbatim>\<open>dcash\<close> and \<^verbatim>\<open>dnero\<close> set the
  message.

  The locale \<open>oracle_contract\<close> has the contract that the comments of the interface give. The eight classes are
  interpretations of it, and \<open>validateOracle\<close>, which the announcer calls, is analysed once inside it.
\<close>

section \<open>The interface\<close>

record Oracle =
  raw_data :: string
  error_msg :: string

definition Oracle_make :: "string \<Rightarrow> Oracle" where
  "Oracle_make data = \<lparr>raw_data = data, error_msg = []\<rparr>"

type_synonym oracle_actions = "(uint64, Tier2Transaction list) omap"

record oracle_class =
  getOracleName :: string
  getShardIndex :: uint64
  getCoinIndex :: uint64
  isSound :: "Oracle \<Rightarrow> error + (bool \<times> Oracle)"
  isValid :: "Blockchain \<Rightarrow> Oracle \<Rightarrow> error + (bool \<times> Oracle)"
  getErrorMessage :: "Oracle \<Rightarrow> string"
  getTransactions :: "Blockchain \<Rightarrow> Oracle \<Rightarrow> error + (oracle_actions \<times> Oracle)"
  getJSON :: "Oracle \<Rightarrow> error + string"
  Sign :: "Crypto \<Rightarrow> string \<Rightarrow> string \<Rightarrow> string \<Rightarrow> Oracle \<Rightarrow> error + (string \<times> Oracle)"

definition orc_getCanonical :: "Oracle \<Rightarrow> bytes" where
  "orc_getCanonical orc = Str2Bin (raw_data orc)"

text \<open>All classes define the two decomposition maps in the same way.\<close>

definition getDecompositionMap :: "oracle_class \<Rightarrow> Blockchain \<Rightarrow> Oracle \<Rightarrow> (string, bytes) omap" where
  "getDecompositionMap cls context orc = [(getOracleName cls, Str2Bin (raw_data orc))]"

definition getDecompositionMapJSON :: "oracle_class \<Rightarrow> Blockchain \<Rightarrow> Oracle \<Rightarrow> error + (string, string) omap" where
  "getDecompositionMapJSON cls context orc =
     bindE (getJSON cls orc) (\<lambda>json. Inr [(getOracleName cls, json)])"

definition orc_fail :: "string \<Rightarrow> Oracle \<Rightarrow> error + (bool \<times> Oracle)" where
  "orc_fail msg orc = Inr (False, orc\<lparr>error_msg := msg\<rparr>)"

text \<open>\<^verbatim>\<open>std::string::substr\<close>.\<close>

definition substr :: "string \<Rightarrow> size_t \<Rightarrow> size_t \<Rightarrow> error + string" where
  "substr s pos n = (if length s < unat pos then Inl OutOfRange else Inr (take (unat n) (drop (unat pos) s)))"

section \<open>Stubs\<close>

definition stub_message :: "Oracle \<Rightarrow> string" where
  "stub_message orc = ''WARNING: This oracle is a stub.''"

definition key_json :: "Oracle \<Rightarrow> error + string" where
  "key_json orc = Inr (''{'' @ dq @ ''key'' @ dq @ '':'' @ dq @ ToHexAll (Str2Bin (raw_data orc)) @ dq @ ''}'')"

definition never :: "Oracle \<Rightarrow> error + (bool \<times> Oracle)" where
  "never orc = Inr (False, orc)"

definition no_actions :: "Blockchain \<Rightarrow> Oracle \<Rightarrow> error + (oracle_actions \<times> Oracle)" where
  "no_actions context orc = Inr ([], orc)"

definition keep_data :: "Crypto \<Rightarrow> string \<Rightarrow> string \<Rightarrow> string \<Rightarrow> Oracle \<Rightarrow> error + (string \<times> Oracle)" where
  "keep_data C address key aes_password orc = Inr (raw_data orc, orc)"

definition api_oracle :: oracle_class where
  "api_oracle =
     \<lparr>getOracleName = ''io.devv.api'', getShardIndex = 5, getCoinIndex = 5, isSound = never,
      isValid = (\<lambda>context. never), getErrorMessage = stub_message, getTransactions = no_actions,
      getJSON = key_json, Sign = keep_data\<rparr>"

definition id_oracle :: oracle_class where
  "id_oracle =
     \<lparr>getOracleName = ''io.devv.id'', getShardIndex = 3, getCoinIndex = 3, isSound = never,
      isValid = (\<lambda>context. never), getErrorMessage = stub_message, getTransactions = no_actions,
      getJSON = key_json, Sign = keep_data\<rparr>"

definition vote_oracle :: oracle_class where
  "vote_oracle =
     \<lparr>getOracleName = ''io.devv.vote'', getShardIndex = 4, getCoinIndex = 4, isSound = never,
      isValid = (\<lambda>context. never), getErrorMessage = stub_message, getTransactions = no_actions,
      getJSON = key_json, Sign = keep_data\<rparr>"

definition dneroavailable_oracle :: oracle_class where
  "dneroavailable_oracle =
     \<lparr>getOracleName = ''io.devv.dneroavailable'', getShardIndex = 1, getCoinIndex = 1, isSound = never,
      isValid = (\<lambda>context. never), getErrorMessage = error_msg, getTransactions = no_actions,
      getJSON = (\<lambda>orc. Inr []), Sign = keep_data\<rparr>"

definition dnerowallet_oracle :: oracle_class where
  "dnerowallet_oracle =
     \<lparr>getOracleName = ''io.devv.dnerowallet'', getShardIndex = 2, getCoinIndex = 2, isSound = never,
      isValid = (\<lambda>context. never), getErrorMessage = error_msg, getTransactions = no_actions,
      getJSON = (\<lambda>orc. Inr []), Sign = keep_data\<rparr>"

section \<open>Transactions as proposals: \<^verbatim>\<open>dcash\<close> and \<^verbatim>\<open>dnero\<close>\<close>

text \<open>The transaction that the data of the oracle encode.\<close>

definition oracle_tx :: "Oracle \<Rightarrow> error + Tier2Transaction" where
  "oracle_tx orc = bindE (t2_QuickCreate (InputBuffer_make (Str2Bin (raw_data orc)) 0)) (\<lambda>(tx, _). Inr tx)"

text \<open>A loop over the transfers with \<^verbatim>\<open>return false\<close> at the first bad one.\<close>

fun all_transfers :: "(Transfer \<Rightarrow> error + bool) \<Rightarrow> Transfer list \<Rightarrow> error + bool" where
  "all_transfers ok [] = Inr True"
| "all_transfers ok (t # ts) = bindE (ok t) (\<lambda>b. if b then all_transfers ok ts else Inr False)"

text \<open>A loop over the transfers that ends at the first one with a negative amount.\<close>

fun at_sender :: "(Address \<Rightarrow> error + bool) \<Rightarrow> Transfer list \<Rightarrow> error + bool" where
  "at_sender ok [] = Inr True"
| "at_sender ok (t # ts) =
     bindE (xfer_getAmount t) (\<lambda>amount.
     if sint amount < 0 then bindE (xfer_getAddress t) ok else at_sender ok ts)"

definition transfer_isSound :: "(uint64 \<Rightarrow> bool) \<Rightarrow> string \<Rightarrow> Oracle \<Rightarrow> error + (bool \<times> Oracle)" where
  "transfer_isSound delay_ok msg orc =
     bindE (oracle_tx orc) (\<lambda>tx.
     bindE (t2_getTransfers tx) (\<lambda>xfers.
     bindE (all_transfers (\<lambda>t. bindE (xfer_getDelay t) (\<lambda>d. Inr (delay_ok d))) xfers) (\<lambda>ok.
     if ok then Inr (True, orc) else orc_fail msg orc)))"

definition transfer_isValid ::
  "(Oracle \<Rightarrow> error + (bool \<times> Oracle)) \<Rightarrow> (ChainState \<Rightarrow> Address \<Rightarrow> error + bool) \<Rightarrow> string
   \<Rightarrow> Blockchain \<Rightarrow> Oracle \<Rightarrow> error + (bool \<times> Oracle)" where
  "transfer_isValid sound sender_ok msg context orc =
     bindE (sound orc) (\<lambda>(b, orc).
     if \<not> b then Inr (False, orc)
     else
       bindE (oracle_tx orc) (\<lambda>tx.
       bindE (getHighestChainState context) (\<lambda>last_state.
       bindE (t2_getTransfers tx) (\<lambda>xfers.
       bindE (at_sender (sender_ok last_state) xfers) (\<lambda>ok.
       if ok then Inr (True, orc) else orc_fail msg orc)))))"

definition transfer_getTransactions ::
  "uint64 \<Rightarrow> (Blockchain \<Rightarrow> Oracle \<Rightarrow> error + (bool \<times> Oracle)) \<Rightarrow> Blockchain \<Rightarrow> Oracle
   \<Rightarrow> error + (oracle_actions \<times> Oracle)" where
  "transfer_getTransactions shard valid context orc =
     bindE (valid context orc) (\<lambda>(b, orc).
     if \<not> b then Inr ([], orc)
     else bindE (oracle_tx orc) (\<lambda>tx. Inr ([(shard, [tx])], orc)))"

definition transfer_Sign :: "Crypto \<Rightarrow> string \<Rightarrow> string \<Rightarrow> string \<Rightarrow> Oracle \<Rightarrow> error + (string \<times> Oracle)" where
  "transfer_Sign C address key aes_password orc =
     bindE (oracle_tx orc) (\<lambda>unsigned_tx.
     bindE (LoadEcKey C address key aes_password) (\<lambda>key_ptr.
     bindE (t2_getTransfers unsigned_tx) (\<lambda>txs.
     bindE (mapE (\<lambda>t. bindE (Transfer_read (InputBuffer_make (xfer_canonical t) 0)) (\<lambda>(u, _). Inr u)) txs) (\<lambda>xfers.
     bindE (t2_getOperation unsigned_tx) (\<lambda>oper.
     bindE (t2_getNonce unsigned_tx) (\<lambda>nonce.
     bindE (Tier2Transaction_sign_unchecked C oper xfers nonce key_ptr) (\<lambda>the_tx.
     Inr (Bin2Str (tx_canonical the_tx), orc))))))))"

definition transfer_getJSON :: "Oracle \<Rightarrow> error + string" where
  "transfer_getJSON orc = bindE (oracle_tx orc) t2_getJSON"

definition dcash_isSound :: "Oracle \<Rightarrow> error + (bool \<times> Oracle)" where
  "dcash_isSound = transfer_isSound (\<lambda>delay. delay = 0) ''Dcash transactions may not have a delay.''"

definition dcash_isValid :: "Blockchain \<Rightarrow> Oracle \<Rightarrow> error + (bool \<times> Oracle)" where
  "dcash_isValid =
     transfer_isValid dcash_isSound
       (\<lambda>last_state addr. bindE (getAmount (getCoinIndex dnerowallet_oracle) addr last_state) (\<lambda>n. Inr (\<not> sint n > 0)))
       ''Error: Dnerowallets may not send dcash.''"

definition dcash_oracle :: oracle_class where
  "dcash_oracle =
     \<lparr>getOracleName = ''io.devv.dcash'', getShardIndex = 0, getCoinIndex = 0, isSound = dcash_isSound,
      isValid = dcash_isValid, getErrorMessage = error_msg,
      getTransactions = transfer_getTransactions 0 dcash_isValid, getJSON = transfer_getJSON, Sign = transfer_Sign\<rparr>"

definition dnero_isSound :: "Oracle \<Rightarrow> error + (bool \<times> Oracle)" where
  "dnero_isSound = transfer_isSound (\<lambda>delay. \<not> delay < 1) ''Dnero transactions must have a delay.''"

definition dnero_isValid :: "Blockchain \<Rightarrow> Oracle \<Rightarrow> error + (bool \<times> Oracle)" where
  "dnero_isValid =
     transfer_isValid dnero_isSound
       (\<lambda>last_state addr.
          bindE (getAmount (getCoinIndex dnerowallet_oracle) addr last_state) (\<lambda>n.
          if sint n < 1 then
            bindE (getAmount (getCoinIndex dneroavailable_oracle) addr last_state) (\<lambda>n. Inr (\<not> sint n < 1))
          else Inr True))
       ''Error: Dnerowallets or dneroavailable required.''"

definition dnero_oracle :: oracle_class where
  "dnero_oracle =
     \<lparr>getOracleName = ''io.devv.dnero'', getShardIndex = 0, getCoinIndex = 0, isSound = dnero_isSound,
      isValid = dnero_isValid, getErrorMessage = error_msg,
      getTransactions = transfer_getTransactions 0 dnero_isValid, getJSON = transfer_getJSON, Sign = transfer_Sign\<rparr>"

section \<open>Storage of data: \<^verbatim>\<open>data\<close>\<close>

abbreviation (input) kBYTES_PER_COIN :: size_t where
  "kBYTES_PER_COIN \<equiv> 10240"

definition getDataSinkAddress :: Address where
  "getDataSinkAddress = Address_vec (replicate 49 0)"

text \<open>The sizes of address, signature and data of \<^verbatim>\<open>addr|signature|data\<close>; the last one wraps around in
  64 bits. The type bytes are read with \<^verbatim>\<open>at\<close>.\<close>

definition data_addr_size :: "string \<Rightarrow> error + size_t" where
  "data_addr_size raw = bindE (vec_at raw 0) (\<lambda>c. Inr (addr_getSizeByType (of_char c)))"

definition data_sig_size :: "string \<Rightarrow> size_t \<Rightarrow> error + size_t" where
  "data_sig_size raw addr_n = bindE (vec_at raw (addr_n + 1)) (\<lambda>c. Inr (sig_getSizeByType (of_char c)))"

definition data_size :: "string \<Rightarrow> size_t \<Rightarrow> size_t \<Rightarrow> size_t" where
  "data_size raw addr_n sig_n = vec_size raw - addr_n - sig_n - 2"

text \<open>\<^verbatim>\<open>ceil(data_size/kBYTES_PER_COIN)\<close>: the division is one of integers.\<close>

definition coins_needed :: "size_t \<Rightarrow> int64" where
  "coins_needed n = n div kBYTES_PER_COIN"

definition data_isSound :: "Oracle \<Rightarrow> error + (bool \<times> Oracle)" where
  "data_isSound orc =
     bindE (data_addr_size (raw_data orc)) (\<lambda>addr_n.
     if addr_n < 1 then orc_fail ''Bad address size.'' orc
     else
       bindE (data_sig_size (raw_data orc) addr_n) (\<lambda>sig_n.
       if sig_n < 1 then orc_fail ''Bad signature size.'' orc
       else if data_size (raw_data orc) addr_n sig_n \<le> 0 then orc_fail ''Bad data size.'' orc
       else Inr (True, orc)))"

definition data_isValid :: "Blockchain \<Rightarrow> Oracle \<Rightarrow> error + (bool \<times> Oracle)" where
  "data_isValid context orc =
     bindE (data_isSound orc) (\<lambda>(b, orc).
     if \<not> b then Inr (False, orc)
     else
       bindE (data_addr_size (raw_data orc)) (\<lambda>addr_n.
       bindE (substr (raw_data orc) 0 (addr_n + 1)) (\<lambda>s.
       let client = Address_vec (Str2Bin s) in
       bindE (data_sig_size (raw_data orc) addr_n) (\<lambda>sig_n.
       let needed = coins_needed (data_size (raw_data orc) addr_n sig_n) in
       bindE (getHighestChainState context) (\<lambda>last_state.
       bindE (getAmount 6 client last_state) (\<lambda>available.
       if sint available < sint needed then orc_fail ''Data too large for coins provided'' orc
       else Inr (True, orc)))))))"

definition data_transfers :: "Address \<Rightarrow> int64 \<Rightarrow> Transfer list" where
  "data_transfers client needed =
     [Transfer_make client 6 (- 1 * needed) 0, Transfer_make getDataSinkAddress 6 needed 0]"

definition data_getTransactions :: "Blockchain \<Rightarrow> Oracle \<Rightarrow> error + (oracle_actions \<times> Oracle)" where
  "data_getTransactions context orc =
     bindE (data_isValid context orc) (\<lambda>(b, orc).
     if \<not> b then Inr ([], orc)
     else
       let raw = raw_data orc in
       bindE (data_addr_size raw) (\<lambda>addr_n.
       bindE (substr raw 0 (addr_n + 1)) (\<lambda>s.
       let client = Address_vec (Str2Bin s) in
       bindE (data_sig_size raw addr_n) (\<lambda>sig_n.
       bindE (substr raw (addr_n + 1) (sig_n + 1)) (\<lambda>s.
       bindE (Signature_vec (Str2Bin s)) (\<lambda>sig.
       let n = data_size raw addr_n sig_n in
       bindE (substr raw (vec_size raw - n) (- 1)) (\<lambda>s.
       bindE (Tier2Transaction_signed_unchecked eExchange (data_transfers client (coins_needed n)) (Str2Bin s) sig)
         (\<lambda>the_tx. Inr ([(6, [the_tx])], orc)))))))))"

definition data_Sign :: "Crypto \<Rightarrow> string \<Rightarrow> string \<Rightarrow> string \<Rightarrow> Oracle \<Rightarrow> error + (string \<times> Oracle)" where
  "data_Sign C address key aes_password orc =
     bindE (LoadEcKey C address key aes_password) (\<lambda>key_ptr.
     let client = Address_vec (Str2Bin address) in
     bindE (Tier2Transaction_sign_unchecked C eExchange
              (data_transfers client (coins_needed (vec_size (raw_data orc)))) (Str2Bin (raw_data orc)) key_ptr)
       (\<lambda>the_tx.
     bindE (t2_getSignature the_tx) (\<lambda>sig.
     let raw = Bin2Str (addr_canonical client) @ Bin2Str (sig_canonical sig) @ raw_data orc in
     Inr (raw, orc\<lparr>raw_data := raw\<rparr>))))"

definition data_getJSON :: "Oracle \<Rightarrow> error + string" where
  "data_getJSON orc =
     (let raw = raw_data orc in
      bindE (data_addr_size raw) (\<lambda>addr_n.
      if addr_n < 1 then Inr (''{'' @ json_tag ''data'' @ dq @ ''ADDR_ERROR'' @ dq @ ''}'')
      else
        bindE (substr raw 0 (addr_n + 1)) (\<lambda>s.
        let client = Address_vec (Str2Bin s) in
        bindE (data_sig_size raw addr_n) (\<lambda>sig_n.
        if sig_n < 1 then Inr (''{'' @ json_tag ''data'' @ dq @ ''SIG_ERROR'' @ dq @ ''}'')
        else
          bindE (substr raw (addr_n + 1) (sig_n + 1)) (\<lambda>s.
          bindE (Signature_vec (Str2Bin s)) (\<lambda>sig.
          let n = data_size raw addr_n sig_n in
          bindE (getHexString client) (\<lambda>hex.
          bindE (substr raw (vec_size raw - n) (- 1)) (\<lambda>s.
          Inr (''{'' @ json_tag ''addr'' @ dq @ hex @ dq @ '','' @ json_tag ''sig'' @ dq @ sig_getJSON sig @ dq
            @ '','' @ json_tag ''data'' @ dq @ ToHexAll (Str2Bin s) @ dq @ ''}'')))))))))"

definition data_oracle :: oracle_class where
  "data_oracle =
     \<lparr>getOracleName = ''io.devv.data'', getShardIndex = 6, getCoinIndex = 6, isSound = data_isSound,
      isValid = data_isValid, getErrorMessage = error_msg, getTransactions = data_getTransactions,
      getJSON = data_getJSON, Sign = data_Sign\<rparr>"

section \<open>Use of an oracle\<close>

definition validateOracle :: "oracle_class \<Rightarrow> Oracle \<Rightarrow> Blockchain \<Rightarrow> error + TransactionPtr list" where
  "validateOracle cls orc chain =
     bindE (isValid cls chain orc) (\<lambda>(b, orc).
     if b then
       bindE (getTransactions cls chain orc) (\<lambda>(oracle_actions, _).
       Inr (concat (map (\<lambda>(_, txs). map Tier2 txs) oracle_actions)))
     else Inr [])"

section \<open>The contract\<close>

text \<open>What \<^verbatim>\<open>oracleInterface.h\<close> promises. A proposal that is not sound is invalid for every chain, a
  valid one is sound, the checks do not change the data, an invalid proposal has no transactions, and
  the transactions of a valid one belong to the shard of the oracle.\<close>

locale oracle_contract =
  fixes cls :: oracle_class
  assumes sound_keeps: "isSound cls orc = Inr (b, orc') \<Longrightarrow> raw_data orc' = raw_data orc"
    and valid_keeps: "isValid cls chain orc = Inr (b, orc') \<Longrightarrow> raw_data orc' = raw_data orc"
    and unsound: "isSound cls orc = Inr (False, orc') \<Longrightarrow> isValid cls chain orc = Inr (False, orc')"
    and valid_sound: "isValid cls chain orc = Inr (True, orc') \<Longrightarrow> \<exists>orc''. isSound cls orc = Inr (True, orc'')"
    and invalid: "isValid cls chain orc = Inr (False, orc') \<Longrightarrow> \<exists>orc''. getTransactions cls chain orc = Inr ([], orc'')"
    and own_shard: "getTransactions cls chain orc = Inr (m, orc') \<Longrightarrow>
      m = [] \<or> (\<exists>tx. m = [(getShardIndex cls, [tx])])"
begin

lemma unsound_nothing: "isSound cls orc = Inr (False, orc') \<Longrightarrow> validateOracle cls orc chain = Inr []"
  using unsound [of orc orc' chain] by (simp add: validateOracle_def)

lemma validate_one:
  assumes "validateOracle cls orc chain = Inr txs" and "txs \<noteq> []"
  shows "\<exists>tx orc' orc''. txs = [Tier2 tx] \<and> isValid cls chain orc = Inr (True, orc') \<and>
    isSound cls orc = Inr (True, orc'') \<and> raw_data orc' = raw_data orc"
proof -
  from assms obtain orc' m o2 where v: "isValid cls chain orc = Inr (True, orc')"
    and m: "getTransactions cls chain orc' = Inr (m, o2)" "txs = concat (map (\<lambda>(_, txs). map Tier2 txs) m)"
    by (auto simp: validateOracle_def split: if_splits)
  with own_shard [OF m(1)] assms(2) obtain tx where "txs = [Tier2 tx]" by auto
  with v valid_sound [OF v] valid_keeps [OF v] show ?thesis by blast
qed

end

lemma never_simps [simp]: "never orc = Inr (False, orc)" "no_actions chain orc = Inr ([], orc)"
  by (simp_all add: never_def no_actions_def)

interpretation api: oracle_contract api_oracle
  by unfold_locales (auto simp: api_oracle_def)

interpretation id_check: oracle_contract id_oracle
  by unfold_locales (auto simp: id_oracle_def)

interpretation vote: oracle_contract vote_oracle
  by unfold_locales (auto simp: vote_oracle_def)

interpretation dneroavailable: oracle_contract dneroavailable_oracle
  by unfold_locales (auto simp: dneroavailable_oracle_def)

interpretation dnerowallet: oracle_contract dnerowallet_oracle
  by unfold_locales (auto simp: dnerowallet_oracle_def)

lemma transfer_isSound_keeps:
  "transfer_isSound p msg orc = Inr (b, orc') \<Longrightarrow> raw_data orc' = raw_data orc \<and> (b \<longrightarrow> orc' = orc)"
  by (auto simp: transfer_isSound_def orc_fail_def split: if_splits)

lemma transfer_isValid_cases:
  assumes "transfer_isValid sound p msg chain orc = Inr (b, orc')"
  obtains "sound orc = Inr (False, orc')" "\<not> b"
    | o1 where "sound orc = Inr (True, o1)" "raw_data orc' = raw_data o1"
  using assms by (auto simp: transfer_isValid_def orc_fail_def split: if_splits prod.splits)

lemma transfer_oracle:
  assumes "isSound cls = transfer_isSound p msg"
    and "isValid cls = transfer_isValid (isSound cls) q msg'"
    and "getTransactions cls = transfer_getTransactions (getShardIndex cls) (isValid cls)"
  shows "oracle_contract cls"
proof
  fix orc orc' :: Oracle and chain :: Blockchain and b :: bool and m :: oracle_actions
  show "raw_data orc' = raw_data orc" if "isSound cls orc = Inr (b, orc')"
    using that transfer_isSound_keeps by (simp add: assms(1))
  show "raw_data orc' = raw_data orc" if "isValid cls chain orc = Inr (b, orc')"
    using that transfer_isSound_keeps unfolding assms(1,2) by (elim transfer_isValid_cases) metis+
  show "isValid cls chain orc = Inr (False, orc')" if "isSound cls orc = Inr (False, orc')"
    using that by (simp add: assms(2) transfer_isValid_def)
  show "\<exists>orc''. isSound cls orc = Inr (True, orc'')" if "isValid cls chain orc = Inr (True, orc')"
    using that unfolding assms(2) by (elim transfer_isValid_cases) auto
  show "\<exists>orc''. getTransactions cls chain orc = Inr ([], orc'')" if "isValid cls chain orc = Inr (False, orc')"
    using that by (simp add: assms(3) transfer_getTransactions_def)
  show "m = [] \<or> (\<exists>tx. m = [(getShardIndex cls, [tx])])" if "getTransactions cls chain orc = Inr (m, orc')"
    using that by (auto simp: assms(3) transfer_getTransactions_def split: if_splits)
qed

interpretation dcash: oracle_contract dcash_oracle
  by (rule transfer_oracle)
    (simp_all add: dcash_oracle_def dcash_isSound_def dcash_isValid_def)

interpretation dnero: oracle_contract dnero_oracle
  by (rule transfer_oracle)
    (simp_all add: dnero_oracle_def dnero_isSound_def dnero_isValid_def)

lemma data_isSound_keeps: "data_isSound orc = Inr (b, orc') \<Longrightarrow> raw_data orc' = raw_data orc"
  by (auto simp: data_isSound_def orc_fail_def split: if_splits)

lemma data_isValid_cases:
  assumes "data_isValid chain orc = Inr (b, orc')"
  obtains "data_isSound orc = Inr (False, orc')" "\<not> b"
    | o1 where "data_isSound orc = Inr (True, o1)" "raw_data orc' = raw_data o1"
proof -
  from assms obtain c o1 where 1: "data_isSound orc = Inr (c, o1)"
    by (auto simp: data_isValid_def)
  show thesis
  proof (cases c)
    case False
    then show ?thesis using assms 1 that(1) by (simp add: data_isValid_def)
  next
    case True
    with assms 1 have "raw_data orc' = raw_data o1"
      unfolding data_isValid_def orc_fail_def Let_def by (clarsimp split: if_splits) auto
    with 1 True show ?thesis using that(2) by simp
  qed
qed

lemma data_getTransactions_shard:
  "data_getTransactions chain orc = Inr (m, orc') \<Longrightarrow> m = [] \<or> (\<exists>tx. m = [(6, [tx])])"
  unfolding data_getTransactions_def Let_def by (clarsimp split: if_splits) blast

lemmas data_class = data_oracle_def oracle_class.simps

interpretation data_store: oracle_contract data_oracle
proof
  fix orc orc' :: Oracle and chain :: Blockchain and b :: bool and m :: oracle_actions
  show "raw_data orc' = raw_data orc" if "isSound data_oracle orc = Inr (b, orc')"
    using that data_isSound_keeps by (simp only: data_class)
  show "raw_data orc' = raw_data orc" if "isValid data_oracle chain orc = Inr (b, orc')"
    using that data_isSound_keeps by (simp only: data_class) (elim data_isValid_cases, metis+)
  show "isValid data_oracle chain orc = Inr (False, orc')" if "isSound data_oracle orc = Inr (False, orc')"
    using that by (simp add: data_class data_isValid_def)
  show "\<exists>orc''. isSound data_oracle orc = Inr (True, orc'')" if "isValid data_oracle chain orc = Inr (True, orc')"
    using that by (simp only: data_class) (elim data_isValid_cases, auto)
  show "\<exists>orc''. getTransactions data_oracle chain orc = Inr ([], orc'')"
    if "isValid data_oracle chain orc = Inr (False, orc')"
    using that by (simp add: data_class data_getTransactions_def)
  show "m = [] \<or> (\<exists>tx. m = [(getShardIndex data_oracle, [tx])])"
    if "getTransactions data_oracle chain orc = Inr (m, orc')"
    using that data_getTransactions_shard by (simp add: data_class)
qed

section \<open>Data proposals\<close>

lemma of_char_byte: "of_char (char_of (unat b)) = (b :: byte)"
  using Str2Bin_Bin2Str [of "[b]"] by (simp add: Str2Bin_def Bin2Str_def)

lemma length_Bin2Str [simp]: "length (Bin2Str bs) = length bs"
  by (simp add: Bin2Str_def)

lemma Bin2Str_append: "Bin2Str (xs @ ys) = Bin2Str xs @ Bin2Str ys"
  by (simp add: Bin2Str_def)

lemma substr_Inr: "unat pos \<le> length s \<Longrightarrow> substr s pos n = Inr (take (unat n) (drop (unat pos) s))"
  by (simp add: substr_def)

lemma addr_tag:
  assumes "addr_wf a"
  obtains n ra where "addr_canonical a = of_nat n # ra" "length ra = n" "n = 33 \<or> n = 49"
    "addr_getSizeByType (of_nat n) = of_nat n"
  using assms unfolding addr_wf_def by (elim tag_okE) (auto simp: addr_getSizeByType_def)

lemma sig_tag:
  assumes "sig_wf s"
  obtains n ra where "sig_canonical s = of_nat n # ra" "length ra = n" "n = 73 \<or> n = 105"
    "sig_getSizeByType (of_nat n) = of_nat n"
  using assms unfolding sig_wf_def by (elim tag_okE) (auto simp: sig_getSizeByType_def)

definition data_raw :: "Address \<Rightarrow> Signature \<Rightarrow> bytes \<Rightarrow> string" where
  "data_raw a s d = Bin2Str (addr_canonical a @ sig_canonical s @ d)"

lemma data_raw_parts:
  assumes "addr_wf a" and "sig_wf s" and "length d < 2 ^ 60"
  obtains m n :: size_t where "\<not> m < 1" "\<not> n < 1"
    "data_addr_size (data_raw a s d) = Inr m" "data_sig_size (data_raw a s d) m = Inr n"
    "data_size (data_raw a s d) m n = of_nat (length d)"
    "substr (data_raw a s d) 0 (m + 1) = Inr (Bin2Str (addr_canonical a))"
    "substr (data_raw a s d) (m + 1) (n + 1) = Inr (Bin2Str (sig_canonical s))"
    "substr (data_raw a s d) (vec_size (data_raw a s d) - of_nat (length d)) (- 1) = Inr (Bin2Str d)"
proof -
  obtain m ra where a: "addr_canonical a = of_nat m # ra" "length ra = m" "m = 33 \<or> m = 49"
    "addr_getSizeByType (of_nat m) = of_nat m" using assms(1) by (rule addr_tag)
  obtain n rs where s: "sig_canonical s = of_nat n # rs" "length rs = n" "n = 73 \<or> n = 105"
    "sig_getSizeByType (of_nat n) = of_nat n" using assms(2) by (rule sig_tag)
  let ?raw = "data_raw a s d" and ?m = "of_nat m :: size_t" and ?n = "of_nat n :: size_t"
  have raw: "?raw = Bin2Str (of_nat m # ra) @ Bin2Str (of_nat n # rs) @ Bin2Str d"
    by (simp add: data_raw_def a(1) s(1) Bin2Str_def)
  have m1: "unat (?m + 1) = m + 1" and n1: "unat (?n + 1) = n + 1"
    using a(3) s(3) by auto
  have len: "length ?raw = m + n + 2 + length d" using a(2) s(2) by (simp add: raw)
  have sz: "vec_size ?raw = ?m + ?n + 2 + of_nat (length d)" by (simp add: vec_size_def len)
  show thesis
  proof (rule that [of ?m ?n])
    show "\<not> ?m < 1" "\<not> ?n < 1" using a(3) s(3) by auto
    show "data_addr_size ?raw = Inr ?m"
      by (simp add: data_addr_size_def vec_at_def raw of_char_byte a(4) Bin2Str_def)
    show "data_sig_size ?raw ?m = Inr ?n"
      using m1 a(2) by (simp add: data_sig_size_def vec_at_def raw nth_append Bin2Str_def of_char_byte s(4))
    show "data_size ?raw ?m ?n = of_nat (length d)" by (simp add: data_size_def sz)
    show "substr ?raw 0 (?m + 1) = Inr (Bin2Str (addr_canonical a))"
      using m1 a by (simp add: substr_Inr raw)
    show "substr ?raw (?m + 1) (?n + 1) = Inr (Bin2Str (sig_canonical s))"
      using m1 n1 a(1,2) s(1,2) by (simp add: substr_def raw)
    have "unat (vec_size ?raw - of_nat (length d)) = m + n + 2" using a(3) s(3) by (auto simp: sz)
    moreover have "length d \<le> unat (- 1 :: size_t)" using assms(3) by (simp add: unsigned_minus_1_eq_mask mask_eq_exp_minus_1)
    ultimately show "substr ?raw (vec_size ?raw - of_nat (length d)) (- 1) = Inr (Bin2Str d)"
      using a(2) s(2) by (simp add: substr_def len) (simp add: raw)
  qed
qed

lemma unat_div_of_nat: "n < 2 ^ 64 \<Longrightarrow> (of_nat n :: size_t) div 10240 = of_nat (n div 10240)"
  by (simp add: word_unat_eq_iff unat_div less_imp_diff_less)

lemma data_isValid_raw:
  assumes "addr_wf a" and "sig_wf s" and "d \<noteq> []" and "length d < 2 ^ 60"
    and "getHighestChainState chain = Inr st" and "getAmount 6 a st = Inr bal"
  shows "data_isValid chain (Oracle_make (data_raw a s d)) =
    (if sint bal < int (length d div 10240)
     then orc_fail ''Data too large for coins provided'' (Oracle_make (data_raw a s d))
     else Inr (True, Oracle_make (data_raw a s d)))"
proof -
  obtain m n :: size_t where p: "\<not> m < 1" "\<not> n < 1"
    "data_addr_size (data_raw a s d) = Inr m" "data_sig_size (data_raw a s d) m = Inr n"
    "data_size (data_raw a s d) m n = of_nat (length d)"
    "substr (data_raw a s d) 0 (m + 1) = Inr (Bin2Str (addr_canonical a))"
    "substr (data_raw a s d) (m + 1) (n + 1) = Inr (Bin2Str (sig_canonical s))"
    "substr (data_raw a s d) (vec_size (data_raw a s d) - of_nat (length d)) (- 1) = Inr (Bin2Str d)"
    using assms(1,2,4) by (rule data_raw_parts)
  have "\<not> (of_nat (length d) :: size_t) \<le> 0" using assms(3,4) by (simp add: word_le_nat_alt)
  then have snd: "data_isSound (Oracle_make (data_raw a s d)) = Inr (True, Oracle_make (data_raw a s d))"
    using p by (simp add: data_isSound_def Oracle_make_def)
  have "length d div 10240 < 2 ^ 63" using assms(4) by simp
  then have c: "sint (coins_needed (of_nat (length d))) = int (length d div 10240)"
    using assms(4) by (simp add: coins_needed_def unat_div_of_nat signed_of_nat signed_take_bit_int_eq_self)
  have "Address_vec (addr_canonical a) = a"
    using addr.mk_canon [of a] assms(1) by (simp add: addr_wf_def)
  then show ?thesis
    using p snd assms(5,6) c by (simp add: data_isValid_def Oracle_make_def Let_def orc_fail_def)
qed

lemma data_getTransactions_raw:
  assumes "addr_wf a" and "sig_wf s" and "d \<noteq> []" and "length d < 2 ^ 60"
    and "getHighestChainState chain = Inr st" and "getAmount 6 a st = Inr bal"
    and "\<not> sint bal < int (length d div 10240)"
  shows "data_getTransactions chain (Oracle_make (data_raw a s d)) =
    Inr ([(6, [t2_parts 2 (data_transfers a (of_nat (length d div 10240))) d (sig_canonical s) False])],
         Oracle_make (data_raw a s d))"
proof -
  obtain m n :: size_t where p: "\<not> m < 1" "\<not> n < 1"
    "data_addr_size (data_raw a s d) = Inr m" "data_sig_size (data_raw a s d) m = Inr n"
    "data_size (data_raw a s d) m n = of_nat (length d)"
    "substr (data_raw a s d) 0 (m + 1) = Inr (Bin2Str (addr_canonical a))"
    "substr (data_raw a s d) (m + 1) (n + 1) = Inr (Bin2Str (sig_canonical s))"
    "substr (data_raw a s d) (vec_size (data_raw a s d) - of_nat (length d)) (- 1) = Inr (Bin2Str d)"
    using assms(1,2,4) by (rule data_raw_parts)
  have sa: "Address_vec (addr_canonical a) = a" "Signature_vec (sig_canonical s) = Inr s"
    using addr.mk_canon [of a] sig.mk_canon [of s] assms(1,2) by (simp_all add: addr_wf_def sig_wf_def)
  have c: "coins_needed (of_nat (length d)) = of_nat (length d div 10240)"
    using assms(4) by (simp add: coins_needed_def unat_div_of_nat)
  let ?x = "data_transfers a (of_nat (length d div 10240))"
  have "length (addr_canonical a) \<le> 50"
    by (rule addr_wf_cases [OF assms(1)]) auto
  moreover have "length (addr_canonical getDataSinkAddress) = 50"
    by (simp add: getDataSinkAddress_def Address_vec_def)
  ultimately have "t2_fits ?x d"
    using assms(4) by (simp add: t2_fits_def data_transfers_def Transfer_make_canonical)
  then have "Tier2Transaction_signed_unchecked 2 ?x d s = Inr (t2_parts 2 ?x d (sig_canonical s) False)"
    by (simp add: Tier2Transaction_signed_unchecked_def t2_unsigned_parts t2_attach_parts t2_getMessageDigest_parts)
  then show ?thesis
    using p sa c data_isValid_raw [OF assms(1-6)] assms(7)
    by (simp add: data_getTransactions_def Oracle_make_def Let_def)
qed

text \<open>What \<open>Sign\<close> returns is never sound: it is given the address in hexadecimal and puts that text where
  the binary address belongs, so the type byte is the first hexadecimal digit.\<close>

lemma data_Sign_unsound:
  assumes "data_Sign C address key pass orc = Inr (raw, orc')" and "take 1 address = ''0''"
    and "length address \<noteq> 33" "length address \<noteq> 49"
  shows "data_isSound orc' = orc_fail ''Bad address size.'' orc'"
proof -
  from assms(1) obtain sig where raw: "raw_data orc' =
      Bin2Str (addr_canonical (Address_vec (Str2Bin address))) @ Bin2Str (sig_canonical sig) @ raw_data orc"
    by (auto simp: data_Sign_def Let_def)
  obtain r where r: "address = CHR ''0'' # r" using assms(2) by (cases address) auto
  have "length (Str2Bin address) = length address" "Str2Bin address ! 0 = 48"
    by (simp_all add: r Str2Bin_def)
  then have "addr_canonical (Address_vec (Str2Bin address)) = Str2Bin address"
    using assms(3,4) by (simp add: Address_vec_def)
  then have "raw_data orc' = address @ Bin2Str (sig_canonical sig) @ raw_data orc" by (simp add: raw)
  then have "data_addr_size (raw_data orc') = Inr 0"
    by (simp add: data_addr_size_def vec_at_def r addr_getSizeByType_def)
  then show ?thesis by (simp add: data_isSound_def)
qed

section \<open>Transaction proposals\<close>

lemma oracle_tx_parts:
  assumes "t2_encodable oper xfers nonce sig"
  shows "oracle_tx (Oracle_make (Bin2Str (tx_canonical (t2_parts oper xfers nonce (sig_canonical sig) b)))) =
    Inr (t2_parts oper xfers nonce (butlast (sig_canonical sig)) False)"
proof -
  let ?bs = "tx_canonical (t2_parts oper xfers nonce (sig_canonical sig) b)"
  have "sig_wf sig" "t2_fits xfers nonce" using assms by (simp_all add: t2_encodable_def)
  then have "length ?bs < 2 ^ 63"
    using sig_wf_length [of sig] by (auto simp: t2_parts_length t2_fits_def)
  then have "ib_wf (InputBuffer_make ?bs 0)" by (rule ib_wf_make)
  moreover have "ib_rest (InputBuffer_make ?bs 0) = ?bs @ []"
    by (simp add: ib_rest_def InputBuffer_make_def)
  ultimately have "t2_QuickCreate (InputBuffer_make ?bs 0) =
      Inr (t2_parts oper xfers nonce (butlast (sig_canonical sig)) False, advance (length ?bs - 1) (InputBuffer_make ?bs 0))"
    using assms by (rule t2_QuickCreate_parts)
  then show ?thesis
    by (simp add: oracle_tx_def Oracle_make_def)
qed

lemma all_transfers_Inr:
  "(\<And>t. t \<in> set ts \<Longrightarrow> ok t = Inr (g t)) \<Longrightarrow> all_transfers ok ts = Inr (list_all g ts)"
  by (induction ts) auto

lemma at_sender_const:
  "(\<And>t. t \<in> set ts \<Longrightarrow> xfer_getAmount t = Inr (m t)) \<Longrightarrow> (\<And>t. t \<in> set ts \<Longrightarrow> xfer_getAddress t = Inr (a t)) \<Longrightarrow>
   (\<And>x. ok x = Inr c) \<Longrightarrow> at_sender ok ts = Inr (c \<or> list_all (\<lambda>t. \<not> sint (m t) < 0) ts)"
  by (induction ts) auto

text \<open>On a chain without blocks every balance is zero.\<close>

lemma empty_chain: "getHighestChainState (Blockchain_make name) = Inr ChainState_empty"
  by (simp add: getHighestChainState_def Blockchain_make_def)

lemma empty_amount: "getAmount coin a ChainState_empty = Inr 0"
  by (simp add: getAmount_def ChainState_empty_def)

section \<open>Properties\<close>

text \<open>C35. A data proposal, an address and a signature followed by data, is accepted exactly when the
  balance of the client in the coin of the oracle covers one coin for every 10240 bytes, rounded down,
  so that less than 10240 bytes cost nothing. It becomes one exchange of that amount from the client to
  the sink address with the data as the nonce and the signature of the proposal, and the two amounts sum
  to zero.\<close>

theorem data_oracle_effect:
  assumes "addr_wf client" and "sig_wf sig" and "data \<noteq> []" and "length data < 2 ^ 60"
    and "getHighestChainState chain = Inr st" and "getAmount 6 client st = Inr bal"
  shows "validateOracle data_oracle (Oracle_make (Bin2Str (addr_canonical client @ sig_canonical sig @ data))) chain =
      (if sint bal < int (length data div 10240) then Inr []
       else Inr [Tier2 (t2_parts 2
         [Transfer_make client 6 (- of_nat (length data div 10240)) 0,
          Transfer_make getDataSinkAddress 6 (of_nat (length data div 10240)) 0]
         data (sig_canonical sig) False)])"
  using data_isValid_raw [OF assms] data_getTransactions_raw [OF assms]
  by (simp add: validateOracle_def data_class data_raw_def [symmetric] orc_fail_def data_transfers_def)

theorem data_oracle_effect_witness:
  "validateOracle data_oracle
     (Oracle_make (Bin2Str (addr_canonical sample_wallet @ sig_canonical sample_wallet_sig @ replicate 10239 7)))
     (Blockchain_make ''s'') =
   Inr [Tier2 (t2_parts 2 [Transfer_make sample_wallet 6 0 0, Transfer_make getDataSinkAddress 6 0 0]
     (replicate 10239 7) (sig_canonical sample_wallet_sig) False)]"
  using data_oracle_effect [of sample_wallet sample_wallet_sig "replicate 10239 7" "Blockchain_make ''s''"
      ChainState_empty 0]
  by (simp add: empty_chain empty_amount)

end
