(* ===== verification/Pbuf.thy ===== *)
theory Pbuf
  imports Oracles
begin

text \<open>
  \<^verbatim>\<open>pbuf/devv_pbuf.h\<close>: conversion between the messages of \<^verbatim>\<open>pbuf/devv.proto\<close> and the transactions,
  proposals and blocks of the node. The messages are records with the fields of the \<^verbatim>\<open>.proto\<close> file;
  an enumeration of proto3 is open, so an operation is any 32-bit number. The code that protoc
  generates is not part of the sources: the function that parses the bytes of a message is an argument
  of the operations that call \<^verbatim>\<open>ParseFromString\<close>, whose result they do not test.
\<close>

section \<open>Messages\<close>

record proto_Transfer =
  px_address :: bytes
  px_coin :: uint64
  px_amount :: int64
  px_delay :: uint64

record proto_Transaction =
  pt_operation :: uint32
  pt_xfers :: "proto_Transfer list"
  pt_nonce :: bytes
  pt_sig :: bytes

record proto_Proposal =
  pp_oraclename :: string
  pp_data_size :: uint64
  pp_data :: bytes

record proto_Envelope =
  pe_txs :: "proto_Transaction list"
  pe_proposals :: "proto_Proposal list"

record proto_FinalBlock =
  pf_version :: uint32
  pf_num_bytes :: uint64
  pf_block_time :: uint64
  pf_prev_hash :: bytes
  pf_merkle_root :: bytes
  pf_tx_size :: uint64
  pf_sum_size :: uint64
  pf_val_count :: uint32
  pf_txs :: "proto_Transaction list"
  pf_summary :: bytes
  pf_vals :: bytes

record proto_PendingTransaction =
  pq_signature :: bytes
  pq_expect_block :: uint32
  pq_shard_index :: uint32

record proto_AnnouncerResponse =
  pa_return_code :: uint32
  pa_message :: string
  pa_txs :: "proto_PendingTransaction list"

record proto_RepeaterRequest =
  pr_timestamp :: int64
  pr_operation :: uint32
  pr_uri :: string

record proto_RepeaterResponse =
  ps_request_timestamp :: int64
  ps_operation :: uint32
  ps_return_code :: uint32
  ps_message :: string
  ps_raw_response :: bytes

text \<open>The structures that the node uses in their place.\<close>

record PendingTransaction =
  pend_sig :: Signature
  pend_expect_block :: uint32
  pend_shard_index :: uint32

record AnnouncerResponse =
  ar_return_code :: uint32
  ar_message :: string
  ar_pending :: "PendingTransaction list"

record RepeaterRequest =
  rr_timestamp :: int64
  rr_operation :: uint32
  rr_uri :: string

record RepeaterResponse =
  rs_request_timestamp :: int64
  rs_operation :: uint32
  rs_return_code :: uint32
  rs_message :: string
  rs_raw_response :: bytes

definition RepeaterResponse_default :: RepeaterResponse where
  "RepeaterResponse_default =
     \<lparr>rs_request_timestamp = 0, rs_operation = 0, rs_return_code = 0, rs_message = [], rs_raw_response = []\<rparr>"

section \<open>Transactions\<close>

definition px_transfer :: "proto_Transfer \<Rightarrow> Transfer" where
  "px_transfer x = Transfer_make (Address_vec (px_address x)) (px_coin x) (px_amount x) (px_delay x)"

text \<open>One round of the loop over the transfers; the null pointer is the key 0.\<close>

definition add_transfer ::
  "Crypto \<Rightarrow> KeyRing \<Rightarrow> proto_Transfer \<Rightarrow> Transfer list \<times> ec_key \<Rightarrow> error + (Transfer list \<times> ec_key)" where
  "add_transfer C keys xfer = (\<lambda>(transfers, key).
     let transfers = transfers @ [px_transfer xfer] in
     if sint (px_amount xfer) < 0 then
       if key \<noteq> 0 then Inl (RuntimeError ''More than one send transfer not supported.'')
       else bindE (getKey C keys (Address_vec (px_address xfer))) (\<lambda>key. Inr (transfers, key))
     else Inr (transfers, key))"

definition CreateTransaction :: "Crypto \<Rightarrow> KeyRing \<Rightarrow> bool \<Rightarrow> proto_Transaction \<Rightarrow> error + TransactionPtr" where
  "CreateTransaction C keys do_sign transaction =
     bindE (foldE (add_transfer C keys) (pt_xfers transaction) ([], 0)) (\<lambda>(transfers, key).
     if key = 0 then
       Inl (RuntimeError ''Exchange transactions must have one transfer with a negative amount.'')
     else if do_sign then
       bindE (Tier2Transaction_sign C (ucast (pt_operation transaction)) transfers (pt_nonce transaction) key keys)
         (\<lambda>tx. Inr (Tier2 tx))
     else
       bindE (Signature_vec (pt_sig transaction)) (\<lambda>signature.
       bindE (Tier2Transaction_signed C (ucast (pt_operation transaction)) transfers (pt_nonce transaction) keys signature)
         (\<lambda>tx. Inr (Tier2 tx))))"

definition add_transfer_pk ::
  "Crypto \<Rightarrow> string \<Rightarrow> string \<Rightarrow> proto_Transfer \<Rightarrow> Transfer list \<times> ec_key \<times> string
   \<Rightarrow> error + (Transfer list \<times> ec_key \<times> string)" where
  "add_transfer_pk C pk pk_pass xfer = (\<lambda>(transfers, key, pub_key).
     let transfers = transfers @ [px_transfer xfer] in
     if sint (px_amount xfer) < 0 then
       if pub_key \<noteq> [] then Inl (RuntimeError ''More than one send transfer not supported.'')
       else
         bindE (getHexString (Address_vec (px_address xfer))) (\<lambda>pub_key.
         bindE (LoadEcKey C pub_key pk pk_pass) (\<lambda>key. Inr (transfers, key, pub_key)))
     else Inr (transfers, key, pub_key))"

definition CreateTransaction_pk :: "Crypto \<Rightarrow> string \<Rightarrow> string \<Rightarrow> proto_Transaction \<Rightarrow> error + Tier2Transaction" where
  "CreateTransaction_pk C pk pk_pass transaction =
     bindE (foldE (add_transfer_pk C pk pk_pass) (pt_xfers transaction) ([], 0, [])) (\<lambda>(transfers, key, _).
     if key = 0 then
       Inl (RuntimeError ''Exchange transactions must have one transfer with a negative amount.'')
     else
       Tier2Transaction_sign_unchecked C (ucast (pt_operation transaction)) transfers (pt_nonce transaction) key)"

section \<open>Proposals\<close>

text \<open>The order of the comparisons in \<^verbatim>\<open>SignProposal\<close> and \<^verbatim>\<open>DecomposeProposal\<close>.\<close>

definition oracle_classes :: "oracle_class list" where
  "oracle_classes =
     [api_oracle, data_oracle, dcash_oracle, dnero_oracle, dneroavailable_oracle, dnerowallet_oracle,
      id_oracle, vote_oracle]"

definition oracle_named :: "string \<Rightarrow> oracle_class option" where
  "oracle_named name = List.find (\<lambda>cls. name = getOracleName cls) oracle_classes"

definition SignProposal :: "Crypto \<Rightarrow> proto_Proposal \<Rightarrow> string \<Rightarrow> string \<Rightarrow> string \<Rightarrow> error + string" where
  "SignProposal C proposal addr pk pk_pass =
     (case oracle_named (pp_oraclename proposal) of
        Some cls \<Rightarrow>
          bindE (Sign cls C addr pk pk_pass (Oracle_make (Bin2Str (pp_data proposal)))) (\<lambda>(signed, _). Inr signed)
      | None \<Rightarrow> Inr [])"

definition DecomposeProposal :: "proto_Proposal \<Rightarrow> Blockchain \<Rightarrow> error + TransactionPtr list" where
  "DecomposeProposal proposal chain =
     (case oracle_named (pp_oraclename proposal) of
        Some cls \<Rightarrow> validateOracle cls (Oracle_make (Bin2Str (pp_data proposal))) chain
      | None \<Rightarrow> Inr [])"

definition DeserializeEnvelopeProtobufString ::
  "(string \<Rightarrow> proto_Envelope) \<Rightarrow> Crypto \<Rightarrow> KeyRing \<Rightarrow> string \<Rightarrow> error + TransactionPtr list" where
  "DeserializeEnvelopeProtobufString parse_envelope C keys pb_envelope =
     (let envelope = parse_envelope pb_envelope in
      bindE (mapE (CreateTransaction C keys False) (pe_txs envelope)) (\<lambda>ptrs.
      let chain = Blockchain_make ''test-shard'' in
      foldE (\<lambda>proposal ptrs. bindE (DecomposeProposal proposal chain) (\<lambda>actions. Inr (ptrs @ actions)))
        (pe_proposals envelope) ptrs))"

definition DeserializeTxProtobufString ::
  "(string \<Rightarrow> proto_Transaction) \<Rightarrow> Crypto \<Rightarrow> KeyRing \<Rightarrow> bool \<Rightarrow> string \<Rightarrow> error + TransactionPtr" where
  "DeserializeTxProtobufString parse_tx C keys do_sign pb_tx = CreateTransaction C keys do_sign (parse_tx pb_tx)"

section \<open>Requests and responses\<close>

definition SerializeAnnouncerResponse :: "AnnouncerResponse \<Rightarrow> proto_AnnouncerResponse" where
  "SerializeAnnouncerResponse response_ptr =
     \<lparr>pa_return_code = ar_return_code response_ptr, pa_message = ar_message response_ptr,
      pa_txs = map (\<lambda>p. \<lparr>pq_signature = sig_canonical (pend_sig p), pq_expect_block = pend_expect_block p,
                         pq_shard_index = pend_shard_index p\<rparr>) (ar_pending response_ptr)\<rparr>"

definition DeserializeRepeaterRequest :: "(string \<Rightarrow> proto_RepeaterRequest) \<Rightarrow> string \<Rightarrow> RepeaterRequest" where
  "DeserializeRepeaterRequest parse_request pb_request =
     (let incoming_request = parse_request pb_request in
      \<lparr>rr_timestamp = pr_timestamp incoming_request, rr_operation = pr_operation incoming_request,
       rr_uri = pr_uri incoming_request\<rparr>)"

definition SerializeRepeaterResponse :: "RepeaterResponse \<Rightarrow> proto_RepeaterResponse" where
  "SerializeRepeaterResponse response_ptr =
     \<lparr>ps_request_timestamp = rs_request_timestamp response_ptr, ps_operation = rs_operation response_ptr,
      ps_return_code = rs_return_code response_ptr, ps_message = rs_message response_ptr,
      ps_raw_response = rs_raw_response response_ptr\<rparr>"

section \<open>Blocks\<close>

text \<open>\<^verbatim>\<open>getAddress\<close> returns a new object for each call, and the string with the address is built from the
  \<^verbatim>\<open>begin\<close> of one and the \<^verbatim>\<open>end\<close> of another. A range whose ends belong to different vectors is
  undefined.\<close>

definition px_of_transfer :: "Transfer \<Rightarrow> error + proto_Transfer" where
  "px_of_transfer xfer =
     bindE (xfer_getAddress xfer) (\<lambda>_. Inl (Undefined ''iterators of different vectors''))"

definition SerializeTransaction :: "Tier2Transaction \<Rightarrow> error + proto_Transaction" where
  "SerializeTransaction one_tx =
     bindE (t2_getOperation one_tx) (\<lambda>oper.
     bindE (t2_getNonce one_tx) (\<lambda>nonce.
     bindE (t2_getTransfers one_tx) (\<lambda>xfers.
     bindE (mapE px_of_transfer xfers) (\<lambda>xs.
     bindE (t2_getSignature one_tx) (\<lambda>sig.
     Inr \<lparr>pt_operation = ucast oper, pt_xfers = xs, pt_nonce = nonce, pt_sig = sig_canonical sig\<rparr>)))))"

definition SerializeBinaryTransaction :: "bytes \<Rightarrow> error + proto_Transaction" where
  "SerializeBinaryTransaction one_tx =
     bindE (t2_QuickCreate (InputBuffer_make one_tx 0)) (\<lambda>(tx, _). SerializeTransaction tx)"

definition SerializeFinalBlock :: "FinalBlock \<Rightarrow> error + proto_FinalBlock" where
  "SerializeFinalBlock block =
     bindE (mapE SerializeBinaryTransaction (fb_raw_transactions block)) (\<lambda>txs.
     Inr \<lparr>pf_version = ucast (fb_version block), pf_num_bytes = fb_num_bytes block,
          pf_block_time = fb_block_time block, pf_prev_hash = fb_prev_hash block,
          pf_merkle_root = fb_merkle_root block, pf_tx_size = fb_tx_size block,
          pf_sum_size = fb_sum_size block, pf_val_count = fb_val_count block, pf_txs = txs,
          pf_summary = sum_getCanonical (fb_summary block), pf_vals = val_getCanonical (fb_vals block)\<rparr>)"

definition SerializeEnvelopeFromBinaryTransactions :: "bytes list \<Rightarrow> error + proto_Envelope" where
  "SerializeEnvelopeFromBinaryTransactions txs =
     bindE (mapE SerializeBinaryTransaction txs) (\<lambda>txs. Inr \<lparr>pe_txs = txs, pe_proposals = []\<rparr>)"

section \<open>Senders\<close>

abbreviation is_send :: "proto_Transfer \<Rightarrow> bool" where
  "is_send x \<equiv> sint (px_amount x) < 0"

text \<open>The key ring has no null keys: \<^verbatim>\<open>LoadPublicKey\<close> throws instead of returning a null pointer, and only
  keys that were loaded are inserted.\<close>

definition no_null_keys :: "Crypto \<Rightarrow> KeyRing \<Rightarrow> bool" where
  "no_null_keys C keys = (\<forall>a. getKey C keys a \<noteq> Inr 0)"

lemma add_transfer_first:
  "is_send x \<Longrightarrow> add_transfer C keys x (ts, 0) =
     bindE (getKey C keys (Address_vec (px_address x))) (\<lambda>key. Inr (ts @ [px_transfer x], key))"
  "\<not> is_send x \<Longrightarrow> add_transfer C keys x (ts, k) = Inr (ts @ [px_transfer x], k)"
  by (simp_all add: add_transfer_def)

lemma add_transfer_none:
  "filter is_send xs = [] \<Longrightarrow> foldE (add_transfer C keys) xs (ts, k) = Inr (ts @ map px_transfer xs, k)"
  by (induction xs arbitrary: ts) (auto simp: add_transfer_def Let_def split: if_splits)

lemma add_transfer_later:
  "k \<noteq> 0 \<Longrightarrow> foldE (add_transfer C keys) xs (ts, k) = Inr r \<Longrightarrow> filter is_send xs = []"
  by (induction xs arbitrary: ts) (auto simp: add_transfer_def Let_def split: if_splits)

lemma add_transfer_fold:
  assumes "no_null_keys C keys" and "foldE (add_transfer C keys) xs (ts, 0) = Inr (ts', k)" and "k \<noteq> 0"
  shows "ts' = ts @ map px_transfer xs \<and>
    (\<exists>x. filter is_send xs = [x] \<and> getKey C keys (Address_vec (px_address x)) = Inr k)"
  using assms(2)
proof (induction xs arbitrary: ts)
  case Nil
  then show ?case using assms(3) by simp
next
  case (Cons x xs)
  show ?case
  proof (cases "is_send x")
    case True
    then obtain k1 where k1: "getKey C keys (Address_vec (px_address x)) = Inr k1"
      and f: "foldE (add_transfer C keys) xs (ts @ [px_transfer x], k1) = Inr (ts', k)"
      using Cons.prems by (auto simp: add_transfer_first)
    have "k1 \<noteq> 0" using assms(1) k1 unfolding no_null_keys_def by metis
    then have "filter is_send xs = []" using f by (rule add_transfer_later)
    moreover from this have "ts' = (ts @ [px_transfer x]) @ map px_transfer xs" "k = k1"
      using f add_transfer_none by auto
    ultimately show ?thesis using True k1 by simp
  next
    case False
    then have "foldE (add_transfer C keys) xs (ts @ [px_transfer x], 0) = Inr (ts', k)"
      using Cons.prems by (simp add: add_transfer_first)
    from Cons.IH [OF this] False show ?thesis by simp
  qed
qed

lemma CreateTransaction_Inr:
  assumes "no_null_keys C keys" and "CreateTransaction C keys do_sign t = Inr ptr"
  shows "\<exists>x sig tx. filter is_send (pt_xfers t) = [x] \<and> ptr = Tier2 tx \<and>
    tx = t2_parts (ucast (pt_operation t)) (map px_transfer (pt_xfers t)) (pt_nonce t) (sig_canonical sig) True \<and>
    sig_wf sig \<and> (\<not> do_sign \<longrightarrow> Signature_vec (pt_sig t) = Inr sig) \<and> t2_sound_spec C keys tx"
proof -
  from assms(2) obtain ts k where f: "foldE (add_transfer C keys) (pt_xfers t) ([], 0) = Inr (ts, k)" "k \<noteq> 0"
    by (auto simp: CreateTransaction_def split: if_splits)
  from add_transfer_fold [OF assms(1) f] obtain x where ts: "ts = map px_transfer (pt_xfers t)"
    and x: "filter is_send (pt_xfers t) = [x]" by auto
  show ?thesis
  proof (cases do_sign)
    case True
    then obtain tx where tx: "Tier2Transaction_sign C (ucast (pt_operation t)) ts (pt_nonce t) k keys = Inr tx"
      and "ptr = Tier2 tx"
      using assms(2) f by (auto simp: CreateTransaction_def)
    with Tier2Transaction_sign_Inr [OF tx] x True ts show ?thesis by blast
  next
    case False
    then obtain sig tx where sig: "Signature_vec (pt_sig t) = Inr sig"
      and tx: "Tier2Transaction_signed C (ucast (pt_operation t)) ts (pt_nonce t) keys sig = Inr tx"
      and "ptr = Tier2 tx"
      using assms(2) f by (auto simp: CreateTransaction_def)
    then have "t2_checked C keys (t2_attach sig (t2_unsigned (ucast (pt_operation t)) ts (pt_nonce t))) = Inr tx"
      by (auto simp: Tier2Transaction_signed_def Let_def)
    from t2_checked_parts [OF this] Signature_vec_wf [OF sig] sig x ts False \<open>ptr = Tier2 tx\<close>
    show ?thesis by blast
  qed
qed

section \<open>Dispatch\<close>

lemma oracle_named_cases:
  assumes "oracle_named name = Some cls"
  shows "oracle_contract cls \<and> cls \<in> set oracle_classes \<and> name = getOracleName cls"
proof -
  have "cls \<in> set oracle_classes" "name = getOracleName cls"
    using assms by (auto simp: oracle_named_def find_Some_iff)
  moreover from this(1) have "oracle_contract cls"
    using api.oracle_contract_axioms id_check.oracle_contract_axioms vote.oracle_contract_axioms
      dneroavailable.oracle_contract_axioms dnerowallet.oracle_contract_axioms dcash.oracle_contract_axioms
      dnero.oracle_contract_axioms data_store.oracle_contract_axioms
    by (auto simp: oracle_classes_def)
  ultimately show ?thesis by blast
qed

lemma oracle_named_simps:
  "oracle_named ''io.devv.dcash'' = Some dcash_oracle" "oracle_named ''io.devv.dnero'' = Some dnero_oracle"
  "oracle_named ''io.devv.data'' = Some data_oracle"
  by (simp_all add: oracle_named_def oracle_classes_def api_oracle_def data_oracle_def dcash_oracle_def dnero_oracle_def)

lemma xfer_wf_getters:
  "xfer_wf t \<Longrightarrow> \<exists>a m d. xfer_getAddress t = Inr a \<and> xfer_getAmount t = Inr m \<and> xfer_getDelay t = Inr d"
  by (elim xfer_wfE) auto

text \<open>The proposals for a transaction: its bytes.\<close>

definition tx_proposal :: "Tier2Transaction \<Rightarrow> Oracle" where
  "tx_proposal tx = Oracle_make (Bin2Str (tx_canonical tx))"

lemma transfer_proposal:
  assumes "t2_encodable oper xfers nonce sig" and "\<forall>t \<in> set xfers. xfer_wf t"
  obtains a m d where
    "oracle_tx (tx_proposal (t2_parts oper xfers nonce (sig_canonical sig) b)) =
      Inr (t2_parts oper xfers nonce (butlast (sig_canonical sig)) False)"
    "t2_getTransfers (t2_parts oper xfers nonce (butlast (sig_canonical sig)) False) = Inr xfers"
    "\<forall>t \<in> set xfers. xfer_getAddress t = Inr (a t)" "\<forall>t \<in> set xfers. xfer_getAmount t = Inr (m t)"
    "\<forall>t \<in> set xfers. xfer_getDelay t = Inr (d t)"
proof -
  have f: "t2_fits xfers nonce" "sig_wf sig" using assms(1) by (simp_all add: t2_encodable_def)
  then have "length (butlast (sig_canonical sig)) < 2 ^ 60" using sig_wf_length [of sig] by auto
  then have x: "t2_getTransfers (t2_parts oper xfers nonce (butlast (sig_canonical sig)) False) = Inr xfers"
    using f(1) assms(2) by (intro t2_getTransfers_parts)
  have "\<exists>a m d. \<forall>t \<in> set xfers. xfer_getAddress t = Inr (a t) \<and> xfer_getAmount t = Inr (m t) \<and> xfer_getDelay t = Inr (d t)"
    using assms(2) xfer_wf_getters by metis
  then obtain a m d where "\<forall>t \<in> set xfers. xfer_getAddress t = Inr (a t) \<and> xfer_getAmount t = Inr (m t) \<and> xfer_getDelay t = Inr (d t)"
    by blast
  then show thesis
    using that [of a m d] x oracle_tx_parts [OF assms(1)] by (simp add: tx_proposal_def)
qed

lemma dnero_empty_chain:
  assumes "t2_encodable oper xfers nonce sig" and "\<forall>t \<in> set xfers. xfer_wf t"
    and "\<exists>t \<in> set xfers. \<exists>m. xfer_getAmount t = Inr m \<and> sint m < 0"
  shows "validateOracle dnero_oracle (tx_proposal (t2_parts oper xfers nonce (sig_canonical sig) b))
    (Blockchain_make name) = Inr []"
proof -
  obtain a m d where g: "oracle_tx (tx_proposal (t2_parts oper xfers nonce (sig_canonical sig) b)) =
      Inr (t2_parts oper xfers nonce (butlast (sig_canonical sig)) False)"
    "t2_getTransfers (t2_parts oper xfers nonce (butlast (sig_canonical sig)) False) = Inr xfers"
    "\<forall>t \<in> set xfers. xfer_getAddress t = Inr (a t)" "\<forall>t \<in> set xfers. xfer_getAmount t = Inr (m t)"
    "\<forall>t \<in> set xfers. xfer_getDelay t = Inr (d t)"
    using assms(1,2) by (rule transfer_proposal [where b = b])
  have "\<not> list_all (\<lambda>t. \<not> sint (m t) < 0) xfers"
    using assms(3) g(4) by (fastforce simp: list_all_iff)
  then have "at_sender (\<lambda>addr. Inr False) xfers = Inr False"
    using at_sender_const [of xfers m a "\<lambda>_. Inr False" False] g(3,4) by simp
  moreover have "all_transfers (\<lambda>t. bindE (xfer_getDelay t) (\<lambda>d. Inr (\<not> d < 1))) xfers =
      Inr (list_all (\<lambda>t. \<not> d t < 1) xfers)"
    by (rule all_transfers_Inr) (simp add: g(5))
  ultimately have "\<exists>orc'. isValid dnero_oracle (Blockchain_make name)
      (tx_proposal (t2_parts oper xfers nonce (sig_canonical sig) b)) = Inr (False, orc')"
    using g(1,2)
    by (simp add: dnero_oracle_def dnero_isValid_def transfer_isValid_def dnero_isSound_def transfer_isSound_def
        orc_fail_def empty_chain empty_amount) blast
  then show ?thesis by (auto simp: validateOracle_def)
qed

lemma dcash_empty_chain:
  assumes "t2_encodable oper xfers nonce sig" and "\<forall>t \<in> set xfers. xfer_wf t"
    and "\<forall>t \<in> set xfers. xfer_getDelay t = Inr 0"
  shows "validateOracle dcash_oracle (tx_proposal (t2_parts oper xfers nonce (sig_canonical sig) b))
    (Blockchain_make name) = Inr [Tier2 (t2_parts oper xfers nonce (butlast (sig_canonical sig)) False)]"
proof -
  obtain a m d where g: "oracle_tx (tx_proposal (t2_parts oper xfers nonce (sig_canonical sig) b)) =
      Inr (t2_parts oper xfers nonce (butlast (sig_canonical sig)) False)"
    "t2_getTransfers (t2_parts oper xfers nonce (butlast (sig_canonical sig)) False) = Inr xfers"
    "\<forall>t \<in> set xfers. xfer_getAddress t = Inr (a t)" "\<forall>t \<in> set xfers. xfer_getAmount t = Inr (m t)"
    "\<forall>t \<in> set xfers. xfer_getDelay t = Inr (d t)"
    using assms(1,2) by (rule transfer_proposal [where b = b])
  have "at_sender (\<lambda>addr. Inr True) xfers = Inr True"
    using at_sender_const [of xfers m a "\<lambda>_. Inr True" True] g(3,4) by simp
  moreover have "all_transfers (\<lambda>t. bindE (xfer_getDelay t) (\<lambda>d. Inr (d = 0))) xfers = Inr (list_all (\<lambda>t. True) xfers)"
    by (rule all_transfers_Inr) (simp add: assms(3))
  ultimately show ?thesis
    using g(1,2)
    by (simp add: validateOracle_def dcash_oracle_def dcash_isValid_def transfer_isValid_def dcash_isSound_def
        transfer_isSound_def transfer_getTransactions_def empty_chain empty_amount list_all_iff)
qed

lemma SerializeTransaction_undefined:
  assumes "t2_getTransfers tx = Inr (t # ts)" and "xfer_wf t"
  shows "\<exists>what. SerializeTransaction tx = Inl (Undefined what) \<or> (\<exists>e. t2_getOperation tx = Inl e \<or> t2_getNonce tx = Inl e)"
proof -
  obtain a where "xfer_getAddress t = Inr a" using xfer_wf_getters [OF assms(2)] by blast
  then show ?thesis
    using assms(1)
    by (cases "t2_getOperation tx"; cases "t2_getNonce tx") (auto simp: SerializeTransaction_def px_of_transfer_def)
qed

section \<open>Properties\<close>

text \<open>C33. A transaction that \<open>CreateTransaction\<close> returns for a message has exactly one transfer with a
  negative amount, keeps the operation (as a byte), the transfers and the nonce of the message, and is
  sound: its amounts sum to zero and its signature, the one of the message unless the caller asked for
  a new one, verifies with the key of the sender. A message without a negative amount is refused with a
  runtime error.\<close>

theorem message_transaction_sound:
  assumes "no_null_keys C keys" and "list_all (\<lambda>x. addr_wf (Address_vec (px_address x))) (pt_xfers t)"
    and "t2_fits (map px_transfer (pt_xfers t)) (pt_nonce t)"
  shows "(CreateTransaction C keys do_sign t = Inr ptr \<longrightarrow>
      (\<exists>x tx sig key.
         filter is_send (pt_xfers t) = [x] \<and> ptr = Tier2 tx \<and> tx_is_sound tx \<and>
         t2_getOperation tx = Inr (ucast (pt_operation t)) \<and>
         t2_getTransfers tx = Inr (map px_transfer (pt_xfers t)) \<and> t2_getNonce tx = Inr (pt_nonce t) \<and>
         sum_list (map px_amount (pt_xfers t)) = 0 \<and>
         getKey C keys (Address_vec (px_address x)) = Inr key \<and> t2_getSignature tx = Inr sig \<and>
         VerifyByteSig C key (DevcashHash C (tx_canonical (t2_unsigned (ucast (pt_operation t))
           (map px_transfer (pt_xfers t)) (pt_nonce t)))) sig)) \<and>
    (filter is_send (pt_xfers t) = [] \<longrightarrow>
      CreateTransaction C keys do_sign t =
        Inl (RuntimeError ''Exchange transactions must have one transfer with a negative amount.''))"
proof (intro conjI impI)
  show "CreateTransaction C keys do_sign t =
      Inl (RuntimeError ''Exchange transactions must have one transfer with a negative amount.'')"
    if "filter is_send (pt_xfers t) = []"
    using add_transfer_none [OF that, of C keys "[]" 0] by (simp add: CreateTransaction_def)
next
  assume "CreateTransaction C keys do_sign t = Inr ptr"
  from CreateTransaction_Inr [OF assms(1) this] obtain x s tx where x: "filter is_send (pt_xfers t) = [x]"
    and ptr: "ptr = Tier2 tx" and s: "sig_wf s" and spec: "t2_sound_spec C keys tx"
    and tx: "tx = t2_parts (ucast (pt_operation t)) (map px_transfer (pt_xfers t)) (pt_nonce t) (sig_canonical s) True"
    by blast
  let ?ts = "map px_transfer (pt_xfers t)"
  have wf: "\<forall>u \<in> set ?ts. xfer_wf u" using assms(2) by (auto simp: px_transfer_def list_all_iff)
  have len: "length (sig_canonical s) < 2 ^ 60" using sig_wf_length [OF s] by auto
  have get: "t2_getOperation tx = Inr (ucast (pt_operation t))" "t2_getTransfers tx = Inr ?ts"
    "t2_getNonce tx = Inr (pt_nonce t)"
    "t2_getMessageDigest tx = Inr (tx_canonical (t2_unsigned (ucast (pt_operation t)) ?ts (pt_nonce t)))"
    using assms(3) wf len
    by (simp_all add: tx t2_getOperation_parts t2_getTransfers_parts t2_getNonce_parts t2_getMessageDigest_parts
        t2_unsigned_parts) (simp add: t2_parts_def)
  have am: "xfer_getAmount (px_transfer y) = Inr (px_amount y)"
    "xfer_getAddress (px_transfer y) = Inr (Address_vec (px_address y))" if "y \<in> set (pt_xfers t)" for y
    using that assms(2) by (auto simp: px_transfer_def list_all_iff)
  then have ms: "mapE xfer_getAmount ?ts = Inr (map px_amount (pt_xfers t))" by (intro mapE_map) simp
  have "x \<in> set (pt_xfers t)" "is_send x" using x by (auto simp: filter_eq_Cons_iff)
  with spec get ms am obtain key sig where "sum_list (map px_amount (pt_xfers t)) = 0"
    "getKey C keys (Address_vec (px_address x)) = Inr key" "t2_getSignature tx = Inr sig"
    "VerifyByteSig C key (DevcashHash C (tx_canonical (t2_unsigned (ucast (pt_operation t)) ?ts (pt_nonce t)))) sig"
    unfolding t2_sound_spec_def by fastforce
  moreover have "tx_is_sound tx" by (simp add: tx t2_parts_def)
  ultimately show "\<exists>x tx sig key. filter is_send (pt_xfers t) = [x] \<and> ptr = Tier2 tx \<and> tx_is_sound tx \<and>
         t2_getOperation tx = Inr (ucast (pt_operation t)) \<and>
         t2_getTransfers tx = Inr ?ts \<and> t2_getNonce tx = Inr (pt_nonce t) \<and>
         sum_list (map px_amount (pt_xfers t)) = 0 \<and>
         getKey C keys (Address_vec (px_address x)) = Inr key \<and> t2_getSignature tx = Inr sig \<and>
         VerifyByteSig C key (DevcashHash C (tx_canonical (t2_unsigned (ucast (pt_operation t)) ?ts (pt_nonce t)))) sig"
    using x ptr get by blast
qed

definition sample_message_tx :: proto_Transaction where
  "sample_message_tx =
     \<lparr>pt_operation = 2,
      pt_xfers = [\<lparr>px_address = addr_canonical sample_wallet, px_coin = 1, px_amount = - 10, px_delay = 0\<rparr>,
                  \<lparr>px_address = addr_canonical sample_wallet2, px_coin = 1, px_amount = 10, px_delay = 0\<rparr>],
      pt_nonce = sample_nonce, pt_sig = sig_canonical (sample_sig 4)\<rparr>"

lemma sample_keys_not_null: "no_null_keys sample_crypto KeyRing_empty"
  by (auto simp: no_null_keys_def getKey_def KeyRing_empty_def LoadPublicKey_def sample_crypto_def split: if_splits)

theorem message_transaction_sound_witness:
  "no_null_keys sample_crypto KeyRing_empty \<and>
   CreateTransaction sample_crypto KeyRing_empty False sample_message_tx = Inr (Tier2 sample_t2) \<and>
   (\<exists>x tx sig key.
      filter is_send (pt_xfers sample_message_tx) = [x] \<and> Tier2 sample_t2 = Tier2 tx \<and> tx_is_sound tx \<and>
      getKey sample_crypto KeyRing_empty (Address_vec (px_address x)) = Inr key \<and> t2_getSignature tx = Inr sig \<and>
      VerifyByteSig sample_crypto key (DevcashHash sample_crypto (tx_canonical (t2_unsigned 2
        (map px_transfer (pt_xfers sample_message_tx)) sample_nonce))) sig)"
proof -
  have a: "Address_vec (addr_canonical sample_wallet) = sample_wallet"
    "Address_vec (addr_canonical sample_wallet2) = sample_wallet2"
    using addr.mk_canon [of sample_wallet] addr.mk_canon [of sample_wallet2] by (simp_all add: addr_wf_def [symmetric])
  have x: "map px_transfer (pt_xfers sample_message_tx) = sample_xfers"
    by (simp add: sample_message_tx_def px_transfer_def a sample_xfers_def sample_xfer_def sample_xfer2_def)
  have key: "getKey sample_crypto KeyRing_empty sample_wallet = Inr 4"
    by (simp add: getKey_def KeyRing_empty_def sample_crypto_public)
  have sig: "Signature_vec (sig_canonical (sample_sig 4)) = Inr (sample_sig 4)"
    using sig.mk_canon [of "sample_sig 4"] sample_t2_ok(4) by (simp add: t2_encodable_def sig_wf_def)
  have "foldE (add_transfer sample_crypto KeyRing_empty) (pt_xfers sample_message_tx) ([], 0) = Inr (sample_xfers, 4)"
    using x by (simp add: sample_message_tx_def add_transfer_def a key)
  then have c: "CreateTransaction sample_crypto KeyRing_empty False sample_message_tx = Inr (Tier2 sample_t2)"
    using sig sample_t2_sign(2) by (simp add: CreateTransaction_def) (simp add: sample_message_tx_def)
  have "list_all (\<lambda>x. addr_wf (Address_vec (px_address x))) (pt_xfers sample_message_tx)"
    by (simp add: sample_message_tx_def a)
  moreover have "t2_fits (map px_transfer (pt_xfers sample_message_tx)) (pt_nonce sample_message_tx)"
    by (simp add: x) (simp add: sample_message_tx_def)
  moreover have "pt_operation sample_message_tx = 2" "pt_nonce sample_message_tx = sample_nonce"
    by (simp_all add: sample_message_tx_def)
  ultimately show ?thesis
    using message_transaction_sound [OF sample_keys_not_null, of sample_message_tx False "Tier2 sample_t2"] c
      sample_keys_not_null by auto
qed

text \<open>C34. What becomes of a proposal. It gives at most one transaction, and only when its oracle is known
  and finds it valid and sound; the stub oracles give none. The announcer checks proposals against a
  chain without blocks: there every dnero transaction with a sender is refused, whatever the sender
  owns, and a dcash transaction without delays is accepted, whatever the sender owns. The transaction
  that comes out lacks the last byte of its signature, and reading the signature is undefined.\<close>

theorem proposals_decomposed:
  assumes "t2_encodable oper xfers nonce sig" and "\<forall>t \<in> set xfers. xfer_wf t" and "sig_fits oper sig"
  shows "(DecomposeProposal p chain = Inr txs \<and> txs \<noteq> [] \<longrightarrow>
      (\<exists>cls tx orc orc'. oracle_named (pp_oraclename p) = Some cls \<and> txs = [Tier2 tx] \<and>
         cls \<in> {data_oracle, dcash_oracle, dnero_oracle} \<and>
         isValid cls chain (Oracle_make (Bin2Str (pp_data p))) = Inr (True, orc) \<and>
         isSound cls (Oracle_make (Bin2Str (pp_data p))) = Inr (True, orc'))) \<and>
    (pp_data p = tx_canonical (t2_parts oper xfers nonce (sig_canonical sig) b) \<longrightarrow>
      (pp_oraclename p = ''io.devv.dnero'' \<and> (\<exists>t \<in> set xfers. \<exists>m. xfer_getAmount t = Inr m \<and> sint m < 0) \<longrightarrow>
         DecomposeProposal p (Blockchain_make name) = Inr []) \<and>
      (pp_oraclename p = ''io.devv.dcash'' \<and> (\<forall>t \<in> set xfers. xfer_getDelay t = Inr 0) \<longrightarrow>
         (\<exists>tx. DecomposeProposal p (Blockchain_make name) = Inr [Tier2 tx] \<and>
            tx_canonical tx = butlast (pp_data p) \<and> t2_getSignature tx = Inl (Undefined ''read past end''))))"
proof (intro conjI impI)
  assume d: "DecomposeProposal p chain = Inr txs \<and> txs \<noteq> []"
  then obtain cls where cls: "oracle_named (pp_oraclename p) = Some cls"
    and v: "validateOracle cls (Oracle_make (Bin2Str (pp_data p))) chain = Inr txs"
    by (auto simp: DecomposeProposal_def split: option.splits)
  note c = oracle_named_cases [OF cls]
  from oracle_contract.validate_one [OF c [THEN conjunct1] v] d obtain tx orc orc' where
    r: "txs = [Tier2 tx]" "isValid cls chain (Oracle_make (Bin2Str (pp_data p))) = Inr (True, orc)"
    "isSound cls (Oracle_make (Bin2Str (pp_data p))) = Inr (True, orc')" by blast
  have "cls \<in> {data_oracle, dcash_oracle, dnero_oracle}"
    using c r(3) by (auto simp: oracle_classes_def api_oracle_def id_oracle_def vote_oracle_def
        dneroavailable_oracle_def dnerowallet_oracle_def)
  with cls r show "\<exists>cls tx orc orc'. oracle_named (pp_oraclename p) = Some cls \<and> txs = [Tier2 tx] \<and>
         cls \<in> {data_oracle, dcash_oracle, dnero_oracle} \<and>
         isValid cls chain (Oracle_make (Bin2Str (pp_data p))) = Inr (True, orc) \<and>
         isSound cls (Oracle_make (Bin2Str (pp_data p))) = Inr (True, orc')" by blast
next
  assume "pp_data p = tx_canonical (t2_parts oper xfers nonce (sig_canonical sig) b)"
  then have o: "Oracle_make (Bin2Str (pp_data p)) = tx_proposal (t2_parts oper xfers nonce (sig_canonical sig) b)"
    by (simp add: tx_proposal_def)
  show "DecomposeProposal p (Blockchain_make name) = Inr []"
    if "pp_oraclename p = ''io.devv.dnero'' \<and> (\<exists>t \<in> set xfers. \<exists>m. xfer_getAmount t = Inr m \<and> sint m < 0)"
    using that dnero_empty_chain [OF assms(1,2)] by (simp add: DecomposeProposal_def o oracle_named_simps)
next
  assume pd: "pp_data p = tx_canonical (t2_parts oper xfers nonce (sig_canonical sig) b)"
  then have o: "Oracle_make (Bin2Str (pp_data p)) = tx_proposal (t2_parts oper xfers nonce (sig_canonical sig) b)"
    by (simp add: tx_proposal_def)
  have f: "t2_fits xfers nonce" "sig_canonical sig \<noteq> []"
    using assms(1) sig_wf_length [of sig] by (auto simp: t2_encodable_def)
  show "\<exists>tx. DecomposeProposal p (Blockchain_make name) = Inr [Tier2 tx] \<and>
      tx_canonical tx = butlast (pp_data p) \<and> t2_getSignature tx = Inl (Undefined ''read past end'')"
    if "pp_oraclename p = ''io.devv.dcash'' \<and> (\<forall>t \<in> set xfers. xfer_getDelay t = Inr 0)"
    using that dcash_empty_chain [OF assms(1,2)] t2_getSignature_short [OF f(1) assms(3)] f(2)
    by (simp add: DecomposeProposal_def o oracle_named_simps) (simp add: pd t2_parts_def butlast_append)
qed

definition sample_proposal :: "string \<Rightarrow> proto_Proposal" where
  "sample_proposal name = \<lparr>pp_oraclename = name, pp_data_size = 0, pp_data = tx_canonical sample_t2\<rparr>"

theorem proposals_decomposed_witness:
  "t2_encodable 2 sample_xfers sample_nonce (sample_sig 4) \<and> list_all xfer_wf sample_xfers \<and> sig_fits 2 (sample_sig 4) \<and>
   DecomposeProposal (sample_proposal ''io.devv.dnero'') (Blockchain_make ''test-shard'') = Inr [] \<and>
   (\<exists>tx. DecomposeProposal (sample_proposal ''io.devv.dcash'') (Blockchain_make ''test-shard'') = Inr [Tier2 tx] \<and>
      tx_canonical tx = butlast (tx_canonical sample_t2) \<and> t2_getSignature tx = Inl (Undefined ''read past end''))"
proof -
  have "\<exists>t \<in> set sample_xfers. \<exists>m. xfer_getAmount t = Inr m \<and> sint m < 0"
    "\<forall>t \<in> set sample_xfers. xfer_getDelay t = Inr 0" "list_all xfer_wf sample_xfers"
    by (simp_all add: sample_xfers_def sample_xfer_def sample_xfer2_def)
  then show ?thesis
    using proposals_decomposed [OF sample_t2_ok(4,2,3), of "sample_proposal ''io.devv.dnero''" _ _ True "''test-shard''"]
      proposals_decomposed [OF sample_t2_ok(4,2,3), of "sample_proposal ''io.devv.dcash''" _ _ True "''test-shard''"]
    by (simp add: sample_proposal_def sample_t2_def)
qed

end
