(* ===== verification/Devv_Uri.thy ===== *)
theory Devv_Uri
  imports Addresses
begin

text \<open>
  \<^verbatim>\<open>common/devv_uri.h\<close>: identifiers of shards, blocks, transactions and addresses of the form
  \<^verbatim>\<open>devv://shard/height/signature/address\<close>, with the trimming functions of \<^verbatim>\<open>common/util.h\<close> and
  the decimal reader \<^verbatim>\<open>std::stoul\<close> they use. The path is cut at its slashes by
  \<^verbatim>\<open>boost::split\<close>, which is an argument of the parser; \<open>splits_at_slashes\<close> states what it is
  documented to do. The last section shows that the parser inverts the printer.
\<close>

section \<open>Text\<close>

definition kWHITESPACE :: string where
  "kWHITESPACE = map char_of [32, 9, 10, 13, 12, 11 :: nat]"

definition ltrim :: "string \<Rightarrow> string \<Rightarrow> string" where
  "ltrim t s = dropWhile (\<lambda>c. c \<in> set t) s"

definition rtrim :: "string \<Rightarrow> string \<Rightarrow> string" where
  "rtrim t s = rev (dropWhile (\<lambda>c. c \<in> set t) (rev s))"

definition trim :: "string \<Rightarrow> string" where
  "trim s = rtrim kWHITESPACE (ltrim kWHITESPACE s)"

text \<open>\<^verbatim>\<open>std::stoul(str, nullptr, 10)\<close>: white space, an optional sign and the longest run of digits. No
  digit is \<^verbatim>\<open>std::invalid_argument\<close>, a value beyond 64 bits \<^verbatim>\<open>std::out_of_range\<close>; a minus sign
  negates in 64 bits.\<close>

definition is_digit :: "char \<Rightarrow> bool" where
  "is_digit c = (48 \<le> (of_char c :: nat) \<and> (of_char c :: nat) \<le> 57)"

definition dec_value :: "string \<Rightarrow> nat" where
  "dec_value s = foldl (\<lambda>n c. n * 10 + (of_char c - 48)) 0 s"

definition stoul_sign :: "string \<Rightarrow> bool \<times> string" where
  "stoul_sign s =
     (case s of
        [] \<Rightarrow> (False, [])
      | c # r \<Rightarrow> if c = CHR ''-'' then (True, r) else if c = CHR ''+'' then (False, r) else (False, s))"

definition stoul :: "string \<Rightarrow> error + uint64" where
  "stoul str =
     (let (neg, s) = stoul_sign (dropWhile (\<lambda>c. c \<in> set kWHITESPACE) str);
          ds = takeWhile is_digit s; n = dec_value ds in
      if ds = [] then Inl InvalidArgument
      else if n \<ge> 2 ^ 64 then Inl OutOfRange
      else Inr (if neg then - of_nat n else of_nat n))"

section \<open>Identifiers\<close>

definition kDEVV_PROTOCOL :: string where
  "kDEVV_PROTOCOL = ''devv://''"

abbreviation (input) UINT32_MAX :: uint32 where
  "UINT32_MAX \<equiv> 0xFFFFFFFF"

record DevvUri =
  uri_valid :: bool
  uri_shard :: string
  uri_block_height :: uint32
  uri_sig :: Signature
  uri_addr :: Address

definition DevvUri_default :: DevvUri where
  "DevvUri_default =
     \<lparr>uri_valid = False, uri_shard = [], uri_block_height = UINT32_MAX, uri_sig = Signature_default,
      uri_addr = Address_default\<rparr>"

definition MakeDevvUri_shard :: "string \<Rightarrow> string" where
  "MakeDevvUri_shard shard_name = kDEVV_PROTOCOL @ shard_name"

definition MakeDevvUri_block :: "string \<Rightarrow> uint32 \<Rightarrow> string" where
  "MakeDevvUri_block shard_name block_height = kDEVV_PROTOCOL @ shard_name @ ''/'' @ to_string_u block_height"

definition MakeDevvUri_sig :: "string \<Rightarrow> uint32 \<Rightarrow> Signature \<Rightarrow> string" where
  "MakeDevvUri_sig shard_name block_height sig =
     (let uri = kDEVV_PROTOCOL @ shard_name @ ''/'' @ to_string_u block_height
      in uri @ ''/'' @ sig_getJSON sig)"

definition MakeDevvUri_addr :: "string \<Rightarrow> uint32 \<Rightarrow> Signature \<Rightarrow> Address \<Rightarrow> string" where
  "MakeDevvUri_addr shard_name block_height sig addr =
     (let uri = kDEVV_PROTOCOL @ shard_name @ ''/'' @ to_string_u block_height;
          uri = uri @ ''/'' @ sig_getJSON sig
      in uri @ ''/'' @ addr_getJSON addr)"

definition MakeDevvUri :: "DevvUri \<Rightarrow> string" where
  "MakeDevvUri u =
     (if \<not> uri_valid u then []
      else if uri_shard u = [] then []
      else
        let uri = kDEVV_PROTOCOL @ uri_shard u in
        if uri_block_height u = UINT32_MAX then uri
        else
          let uri = uri @ ''/'' @ to_string_u (uri_block_height u) in
          if sig_isNull (uri_sig u) then uri
          else
            let uri = uri @ ''/'' @ sig_getJSON (uri_sig u) in
            if addr_isNull (uri_addr u) then uri
            else uri @ ''/'' @ addr_getJSON (uri_addr u))"

text \<open>Part \<open>i\<close> of the path, when it is there and not empty.\<close>

definition path_part :: "nat \<Rightarrow> string list \<Rightarrow> string option" where
  "path_part i parts = (if i < length parts \<and> parts ! i \<noteq> [] then Some (parts ! i) else None)"

definition ParseDevvUri :: "(string \<Rightarrow> string list) \<Rightarrow> string \<Rightarrow> error + DevvUri" where
  "ParseDevvUri split_path uri =
     (let devv_uri = DevvUri_default in
      if take (length kDEVV_PROTOCOL) uri \<noteq> kDEVV_PROTOCOL then Inr devv_uri
      else
        let parts = split_path (drop (length kDEVV_PROTOCOL) uri);
            devv_uri = (case path_part 0 parts of None \<Rightarrow> devv_uri | Some p \<Rightarrow> devv_uri\<lparr>uri_shard := trim p\<rparr>)
        in
        bindE (case path_part 1 parts of
                 None \<Rightarrow> Inr devv_uri
               | Some p \<Rightarrow> bindE (stoul (trim p)) (\<lambda>n. Inr (devv_uri\<lparr>uri_block_height := ucast n\<rparr>))) (\<lambda>devv_uri.
        bindE (case path_part 2 parts of
                 None \<Rightarrow> Inr devv_uri
               | Some p \<Rightarrow>
                   bindE (Hex2Bin (trim p)) (\<lambda>b.
                   bindE (Signature_vec b) (\<lambda>sig. Inr (devv_uri\<lparr>uri_sig := sig\<rparr>)))) (\<lambda>devv_uri.
        bindE (case path_part 3 parts of
                 None \<Rightarrow> Inr devv_uri
               | Some p \<Rightarrow> bindE (Hex2Bin (trim p)) (\<lambda>b. Inr (devv_uri\<lparr>uri_addr := Address_vec b\<rparr>))) (\<lambda>devv_uri.
        Inr (devv_uri\<lparr>uri_valid := True\<rparr>)))))"

section \<open>Splitting\<close>

fun join_slash :: "string list \<Rightarrow> string" where
  "join_slash [] = []"
| "join_slash [p] = p"
| "join_slash (p # q # ps) = p @ ''/'' @ join_slash (q # ps)"

text \<open>\<^verbatim>\<open>boost::split(parts, path, boost::is_any_of("/"))\<close> without token compression: at least one part,
  no slash in any part, and the parts joined by slashes are the path.\<close>

definition slash_free :: "string list \<Rightarrow> bool" where
  "slash_free ps = (ps \<noteq> [] \<and> list_all (\<lambda>p. CHR ''/'' \<notin> set p) ps)"

definition splits_at_slashes :: "(string \<Rightarrow> string list) \<Rightarrow> bool" where
  "splits_at_slashes split_path = (\<forall>s. slash_free (split_path s) \<and> join_slash (split_path s) = s)"

lemma append_sep_cancel:
  assumes "x \<notin> set a" "x \<notin> set b" "a @ x # as = b @ x # bs"
  shows "a = b \<and> as = bs"
  using assms
proof (induction a arbitrary: b)
  case Nil
  then show ?case by (cases b) auto
next
  case (Cons y a)
  then show ?case by (cases b) auto
qed

lemma join_slash_Cons: "ps \<noteq> [] \<Longrightarrow> join_slash (p # ps) = p @ CHR ''/'' # join_slash ps"
  by (cases ps) auto

lemma join_slash_inj:
  "slash_free ps \<Longrightarrow> slash_free qs \<Longrightarrow> join_slash ps = join_slash qs \<Longrightarrow> ps = qs"
proof (induction ps arbitrary: qs)
  case (Cons p ps)
  from Cons.prems obtain q qs' where q: "qs = q # qs'" by (cases qs) (auto simp: slash_free_def)
  have free: "CHR ''/'' \<notin> set p" "CHR ''/'' \<notin> set q"
    using Cons.prems q by (auto simp: slash_free_def)
  show ?case
  proof (cases "ps = []"; cases "qs' = []")
    assume "ps \<noteq> []" "qs' \<noteq> []"
    then have "p @ CHR ''/'' # join_slash ps = q @ CHR ''/'' # join_slash qs'"
      using Cons.prems(3) q by (simp add: join_slash_Cons)
    from append_sep_cancel [OF free this] have "p = q" "join_slash ps = join_slash qs'" by auto
    with Cons.IH [of qs'] Cons.prems q \<open>ps \<noteq> []\<close> \<open>qs' \<noteq> []\<close> show ?thesis by (simp add: slash_free_def)
  next
    assume "ps \<noteq> []" "qs' = []"
    then have "q = p @ CHR ''/'' # join_slash ps" using Cons.prems(3) q by (simp add: join_slash_Cons)
    with free show ?thesis by auto
  next
    assume "ps = []" "qs' \<noteq> []"
    then have "p = q @ CHR ''/'' # join_slash qs'" using Cons.prems(3) q by (simp add: join_slash_Cons)
    with free show ?thesis by auto
  qed (use Cons.prems q in auto)
qed (simp add: slash_free_def)

lemma split_join:
  "splits_at_slashes split_path \<Longrightarrow> slash_free ps \<Longrightarrow> split_path (join_slash ps) = ps"
  by (rule join_slash_inj) (auto simp: splits_at_slashes_def)

text \<open>Cutting a string at its slashes, one character at a time.\<close>

fun split_slash :: "string \<Rightarrow> string list" where
  "split_slash [] = [[]]"
| "split_slash (c # s) =
     (if c = CHR ''/'' then [] # split_slash s
      else case split_slash s of [] \<Rightarrow> [[c]] | p # ps \<Rightarrow> (c # p) # ps)"

lemma splits_split_slash: "splits_at_slashes split_slash"
proof -
  have "slash_free (split_slash s) \<and> join_slash (split_slash s) = s" for s
  proof (induction s)
    case (Cons c s)
    obtain p ps where p: "split_slash s = p # ps" using Cons by (cases "split_slash s") (auto simp: slash_free_def)
    then show ?case using Cons by (cases ps) (auto simp: slash_free_def)
  qed (simp add: slash_free_def)
  then show ?thesis by (simp add: splits_at_slashes_def)
qed

section \<open>Numbers and hexadecimal parts\<close>

lemma of_char_digit: "n < 10 \<Longrightarrow> of_char (char_of (48 + n)) = (48 + n :: nat)"
  by simp

lemma set_nat_to_string: "c \<in> set (nat_to_string n) \<Longrightarrow> is_digit c"
proof (induction n rule: nat_to_string.induct)
  case (1 n)
  have d: "is_digit (char_of (48 + m))" if "m < 10" for m :: nat
    using that by (simp add: is_digit_def)
  from 1 show ?case
    by (subst (asm) (2) nat_to_string.simps) (auto simp: d split: if_splits)
qed

lemma nat_to_string_not_Nil [simp]: "nat_to_string n \<noteq> []"
  by (subst nat_to_string.simps) auto

lemma dec_value_append: "dec_value (s @ [c]) = dec_value s * 10 + (of_char c - 48)"
  by (simp add: dec_value_def)

lemma dec_value_to_string [simp]: "dec_value (nat_to_string n) = n"
proof (induction n rule: nat_to_string.induct)
  case (1 n)
  show ?case
  proof (cases "n < 10")
    case True
    then show ?thesis by (subst nat_to_string.simps) (simp add: dec_value_def)
  next
    case False
    then have "dec_value (nat_to_string n) = n div 10 * 10 + n mod 10"
      using 1 by (subst nat_to_string.simps) (simp add: dec_value_append)
    then show ?thesis by simp
  qed
qed

definition clean :: "string \<Rightarrow> bool" where
  "clean s = (s \<noteq> [] \<and> hd s \<notin> set kWHITESPACE \<and> last s \<notin> set kWHITESPACE \<and> CHR ''/'' \<notin> set s)"

lemma trim_clean: "clean s \<Longrightarrow> trim s = s"
proof -
  assume s: "clean s"
  then have "ltrim kWHITESPACE s = s" by (cases s) (auto simp: clean_def ltrim_def)
  moreover have "dropWhile (\<lambda>c. c \<in> set kWHITESPACE) (rev s) = rev s"
    using s by (cases s rule: rev_cases) (auto simp: clean_def)
  ultimately show ?thesis by (simp add: trim_def rtrim_def)
qed

lemma whitespace_codes: "c \<in> set kWHITESPACE \<Longrightarrow> (of_char c :: nat) \<le> 32"
  by (auto simp: kWHITESPACE_def)

lemma plain_clean:
  assumes "s \<noteq> []" and "\<And>c. c \<in> set s \<Longrightarrow> 48 \<le> (of_char c :: nat)"
  shows "clean s"
proof -
  have "c \<notin> set kWHITESPACE \<and> c \<noteq> CHR ''/''" if "c \<in> set s" for c
    using assms(2) [OF that] whitespace_codes [of c] by auto
  then show ?thesis using assms(1) by (auto simp: clean_def)
qed

lemma clean_to_string: "clean (nat_to_string n)"
  by (rule plain_clean) (auto dest: set_nat_to_string simp: is_digit_def)

lemma alpha_code: "n < 16 \<Longrightarrow> 48 \<le> (of_char (alpha ! n) :: nat)"
  by (simp add: less_Suc_eq numeral_eq_Suc) (elim disjE; simp add: alpha_def)

lemma clean_hex: "bs \<noteq> [] \<Longrightarrow> clean (concat (map hex_digits bs))"
proof (rule plain_clean)
  fix c assume "c \<in> set (concat (map hex_digits bs))"
  then obtain b where "c \<in> set (hex_digits b)" by auto
  then obtain d where "c = alpha ! (unat (d :: byte) mod 16)"
    unfolding hex_digits_def nibbles(2) by auto
  moreover have "unat d mod 16 < 16" by simp
  ultimately obtain n where "n < 16" "c = alpha ! n" by blast
  then show "48 \<le> (of_char c :: nat)" using alpha_code by simp
qed (auto simp: hex_digits_def neq_Nil_conv)

lemma stoul_decimal: "stoul (nat_to_string n) = (if n < 2 ^ 64 then Inr (of_nat n) else Inl OutOfRange)"
proof -
  have d: "is_digit c" if "c \<in> set (nat_to_string n)" for c using that by (rule set_nat_to_string)
  obtain c r where cr: "nat_to_string n = c # r" by (cases "nat_to_string n") auto
  have "c \<notin> set kWHITESPACE" "c \<noteq> CHR ''-''" "c \<noteq> CHR ''+''"
    using d [of c] cr whitespace_codes [of c] by (auto simp: is_digit_def)
  then have "stoul_sign (dropWhile (\<lambda>c. c \<in> set kWHITESPACE) (nat_to_string n)) = (False, nat_to_string n)"
    by (simp add: cr stoul_sign_def)
  moreover have "takeWhile is_digit (nat_to_string n) = nat_to_string n"
    using d by (simp add: takeWhile_eq_all_conv)
  ultimately show ?thesis by (simp add: stoul_def Let_def del: takeWhile_eq_all_conv)
qed

lemma Hex2Bin_hex: "2 * length bs < 2 ^ 31 \<Longrightarrow> Hex2Bin (concat (map hex_digits bs)) = Inr bs"
  using Hex2Bin_ToHex [of bs] ToHexAll_eq [of bs] by simp

section \<open>Properties\<close>

text \<open>Identifiers that a URI can express: a name without slashes and outer white space, and nothing
  behind a part that is missing.\<close>

definition uri_wf :: "DevvUri \<Rightarrow> bool" where
  "uri_wf u =
     (uri_valid u \<and> clean (uri_shard u) \<and>
      (uri_sig u = Signature_default \<or> tag_ok 73 105 (sig_canonical (uri_sig u)) \<and> uri_block_height u \<noteq> UINT32_MAX) \<and>
      (uri_addr u = Address_default \<or>
       tag_ok 33 49 (addr_canonical (uri_addr u)) \<and> uri_sig u \<noteq> Signature_default))"

lemma tag_ok_sig: "tag_ok 73 105 (sig_canonical s) \<Longrightarrow> \<not> sig_isNull s \<and> sig_canonical s \<noteq> [] \<and> length (sig_canonical s) \<le> 106"
  by (elim tag_okE) (auto simp: sig_isNull_def)

lemma tag_ok_addr: "tag_ok 33 49 (addr_canonical a) \<Longrightarrow> \<not> addr_isNull a \<and> addr_canonical a \<noteq> [] \<and> length (addr_canonical a) \<le> 50"
  by (elim tag_okE) (auto simp: addr_isNull_def)

lemma default_null: "sig_isNull Signature_default" "addr_isNull Address_default"
  by (simp_all add: sig_isNull_def Signature_default_def addr_isNull_def Address_default_def)

definition uri_parts :: "DevvUri \<Rightarrow> string list" where
  "uri_parts u =
     uri_shard u #
     (if uri_block_height u = UINT32_MAX then []
      else to_string_u (uri_block_height u) #
        (if uri_sig u = Signature_default then []
         else concat (map hex_digits (sig_canonical (uri_sig u))) #
           (if uri_addr u = Address_default then [] else [concat (map hex_digits (addr_canonical (uri_addr u)))])))"

lemma clean_parts: "uri_wf u \<Longrightarrow> list_all clean (uri_parts u)"
  using tag_ok_sig [of "uri_sig u"] tag_ok_addr [of "uri_addr u"]
  by (auto simp: uri_wf_def uri_parts_def to_string_u_def clean_to_string clean_hex)

lemma clean_slash_free: "list_all clean ps \<Longrightarrow> ps \<noteq> [] \<Longrightarrow> slash_free ps"
  by (auto simp: slash_free_def list_all_iff clean_def)

lemma MakeDevvUri_parts: "uri_wf u \<Longrightarrow> MakeDevvUri u = kDEVV_PROTOCOL @ join_slash (uri_parts u)"
  using tag_ok_sig [of "uri_sig u"] tag_ok_addr [of "uri_addr u"]
  by (auto simp: uri_wf_def uri_parts_def MakeDevvUri_def Let_def default_null sig_getJSON_def addr_getJSON_def clean_def)

lemma path_part_clean: "list_all clean ps \<Longrightarrow> path_part i ps = (if i < length ps then Some (ps ! i) else None)"
  by (auto simp: path_part_def list_all_length clean_def)

lemma stoul_height: "stoul (to_string_u (h :: uint32)) = Inr (ucast h)"
  using unat_bound [of h] by (simp add: to_string_u_def stoul_decimal)

text \<open>The four printers for given parts agree with the one for the record.\<close>

lemma MakeDevvUri_overloads:
  assumes "uri_valid u" and "uri_shard u \<noteq> []"
  shows "uri_block_height u = UINT32_MAX \<Longrightarrow> MakeDevvUri u = MakeDevvUri_shard (uri_shard u)"
    and "uri_block_height u \<noteq> UINT32_MAX \<Longrightarrow> sig_isNull (uri_sig u) \<Longrightarrow>
      MakeDevvUri u = MakeDevvUri_block (uri_shard u) (uri_block_height u)"
    and "uri_block_height u \<noteq> UINT32_MAX \<Longrightarrow> \<not> sig_isNull (uri_sig u) \<Longrightarrow> addr_isNull (uri_addr u) \<Longrightarrow>
      MakeDevvUri u = MakeDevvUri_sig (uri_shard u) (uri_block_height u) (uri_sig u)"
    and "uri_block_height u \<noteq> UINT32_MAX \<Longrightarrow> \<not> sig_isNull (uri_sig u) \<Longrightarrow> \<not> addr_isNull (uri_addr u) \<Longrightarrow>
      MakeDevvUri u = MakeDevvUri_addr (uri_shard u) (uri_block_height u) (uri_sig u) (uri_addr u)"
  using assms
  by (simp_all add: MakeDevvUri_def MakeDevvUri_shard_def MakeDevvUri_block_def MakeDevvUri_sig_def
      MakeDevvUri_addr_def)

lemma ParseDevvUri_parts:
  assumes "splits_at_slashes split_path" and "uri_wf u"
  shows "ParseDevvUri split_path (kDEVV_PROTOCOL @ join_slash (uri_parts u)) = Inr u"
proof -
  have c: "list_all clean (uri_parts u)" using assms(2) by (rule clean_parts)
  then have sp: "split_path (join_slash (uri_parts u)) = uri_parts u"
    using assms(1) by (intro split_join clean_slash_free) (auto simp: uri_parts_def)
  note pp = path_part_clean [OF c]
  have s: "Signature_vec (sig_canonical (uri_sig u)) = Inr (uri_sig u)"
    "2 * length (sig_canonical (uri_sig u)) < 2 ^ 31" if "uri_sig u \<noteq> Signature_default"
    using that assms(2) tag_ok_sig [of "uri_sig u"] sig.mk_canon [of "uri_sig u"] by (auto simp: uri_wf_def)
  have a: "Address_vec (addr_canonical (uri_addr u)) = uri_addr u"
    "2 * length (addr_canonical (uri_addr u)) < 2 ^ 31" if "uri_addr u \<noteq> Address_default"
    using that assms(2) tag_ok_addr [of "uri_addr u"] addr.mk_canon [of "uri_addr u"] by (auto simp: uri_wf_def)
  have h: "(ucast (ucast w :: uint64) :: uint32) = w" for w :: uint32
    by (rule bit_word_eqI) (simp add: bit_simps)
  have w: "uri_valid u" "uri_block_height u = UINT32_MAX \<Longrightarrow> uri_sig u = Signature_default"
    "uri_sig u = Signature_default \<Longrightarrow> uri_addr u = Address_default"
    using assms(2) by (auto simp: uri_wf_def)
  define ps where "ps = uri_parts u"
  have p: "path_part 0 ps = Some (uri_shard u)"
    "path_part 1 ps = (if uri_block_height u = UINT32_MAX then None else Some (to_string_u (uri_block_height u)))"
    "path_part 2 ps = (if uri_sig u = Signature_default then None
      else Some (concat (map hex_digits (sig_canonical (uri_sig u)))))"
    "path_part 3 ps = (if uri_addr u = Address_default then None
      else Some (concat (map hex_digits (addr_canonical (uri_addr u)))))"
    unfolding ps_def pp using w(2,3) by (auto simp: uri_parts_def)
  have t: "trim q = q" if "path_part i ps = Some q" for i q
    using that c unfolding ps_def pp by (auto simp: list_all_length intro: trim_clean split: if_splits)
  have "take (length kDEVV_PROTOCOL) (kDEVV_PROTOCOL @ join_slash (uri_parts u)) = kDEVV_PROTOCOL"
    "split_path (drop (length kDEVV_PROTOCOL) (kDEVV_PROTOCOL @ join_slash (uri_parts u))) = ps"
    using sp by (simp_all add: ps_def)
  moreover have "trim (uri_shard u) = uri_shard u" using t [OF p(1)] .
  moreover have "trim (to_string_u (uri_block_height u)) = to_string_u (uri_block_height u)"
    by (simp add: to_string_u_def trim_clean clean_to_string)
  moreover have "trim (concat (map hex_digits (sig_canonical (uri_sig u)))) = concat (map hex_digits (sig_canonical (uri_sig u)))"
    if "uri_sig u \<noteq> Signature_default" using t [of 2] p(3) that by simp
  moreover have "trim (concat (map hex_digits (addr_canonical (uri_addr u)))) = concat (map hex_digits (addr_canonical (uri_addr u)))"
    if "uri_addr u \<noteq> Address_default" using t [of 3] p(4) that by simp
  ultimately show ?thesis
    using w(1) s a
    by (cases u) (simp add: ParseDevvUri_def Let_def DevvUri_default_def stoul_height h Hex2Bin_hex p p(2) [simplified])
qed

lemma length_protocol: "length kDEVV_PROTOCOL = 7"
  by (simp add: kDEVV_PROTOCOL_def)

lemma ParseDevvUri_height:
  assumes "splits_at_slashes split_path" and "clean shard"
  shows "ParseDevvUri split_path (kDEVV_PROTOCOL @ shard @ ''/'' @ nat_to_string n) =
    (if n < 2 ^ 64
     then Inr (DevvUri_default\<lparr>uri_valid := True, uri_shard := shard, uri_block_height := of_nat n\<rparr>)
     else Inl OutOfRange)"
proof -
  let ?ps = "[shard, nat_to_string n]"
  have c: "list_all clean ?ps" using assms(2) by (simp add: clean_to_string)
  then have "split_path (join_slash ?ps) = ?ps"
    using assms(1) by (intro split_join clean_slash_free) auto
  then have sp: "split_path (shard @ ''/'' @ nat_to_string n) = ?ps" by simp
  have p: "path_part 0 ?ps = Some shard" "path_part (Suc 0) ?ps = Some (nat_to_string n)"
    "path_part 2 ?ps = None" "path_part 3 ?ps = None"
    by (simp_all add: path_part_clean [OF c])
  have "(ucast (of_nat n :: uint64) :: uint32) = of_nat n"
    by (simp add: word_unat_eq_iff unsigned_ucast_eq unsigned_of_nat take_bit_take_bit)
  then show ?thesis
    using sp trim_clean [OF assms(2)] trim_clean [OF clean_to_string [of n]]
    by (simp add: ParseDevvUri_def Let_def p stoul_decimal)
qed

text \<open>Printing an identifier and parsing the text gives the identifier back, for every well-formed
  combination of shard, block, transaction and address. A text without the protocol prefix is an
  invalid identifier, not an error. The height is read as a 64-bit number and reduced modulo \<open>2 ^ 32\<close>,
  so a larger height names another block; from \<open>2 ^ 64\<close> on the parser throws.\<close>

theorem devv_uri_round_trip:
  assumes "splits_at_slashes split_path" and "uri_wf u"
  shows "ParseDevvUri split_path (MakeDevvUri u) = Inr u \<and>
    (take 7 text \<noteq> kDEVV_PROTOCOL \<longrightarrow> ParseDevvUri split_path text = Inr DevvUri_default) \<and>
    ParseDevvUri split_path (kDEVV_PROTOCOL @ uri_shard u @ ''/'' @ nat_to_string n) =
      (if n < 2 ^ 64
       then Inr (DevvUri_default\<lparr>uri_valid := True, uri_shard := uri_shard u, uri_block_height := of_nat n\<rparr>)
       else Inl OutOfRange)"
proof (intro conjI impI)
  show "ParseDevvUri split_path (MakeDevvUri u) = Inr u"
    using ParseDevvUri_parts [OF assms] by (simp add: MakeDevvUri_parts [OF assms(2)])
  show "ParseDevvUri split_path text = Inr DevvUri_default" if "take 7 text \<noteq> kDEVV_PROTOCOL"
    using that by (simp add: ParseDevvUri_def length_protocol)
  show "ParseDevvUri split_path (kDEVV_PROTOCOL @ uri_shard u @ ''/'' @ nat_to_string n) =
      (if n < 2 ^ 64
       then Inr (DevvUri_default\<lparr>uri_valid := True, uri_shard := uri_shard u, uri_block_height := of_nat n\<rparr>)
       else Inl OutOfRange)"
    using assms by (intro ParseDevvUri_height) (auto simp: uri_wf_def)
qed

definition sample_uri :: DevvUri where
  "sample_uri =
     \<lparr>uri_valid = True, uri_shard = ''Shard-1'', uri_block_height = 7,
      uri_sig = Signature_of (73 # replicate 73 6), uri_addr = Address_of (33 # replicate 33 2)\<rparr>"

theorem devv_uri_round_trip_witness:
  "splits_at_slashes split_slash \<and> uri_wf sample_uri \<and>
   ParseDevvUri split_slash (MakeDevvUri sample_uri) = Inr sample_uri \<and>
   take 7 ''http://a'' \<noteq> kDEVV_PROTOCOL \<and> ParseDevvUri split_slash ''http://a'' = Inr DevvUri_default \<and>
   ParseDevvUri split_slash (kDEVV_PROTOCOL @ ''Shard-1'' @ ''/'' @ nat_to_string 4294967299) =
     Inr (DevvUri_default\<lparr>uri_valid := True, uri_shard := ''Shard-1'', uri_block_height := 3\<rparr>)"
proof -
  have "CHR ''S'' \<notin> set kWHITESPACE" "CHR ''1'' \<notin> set kWHITESPACE"
    using whitespace_codes [of "CHR ''S''"] whitespace_codes [of "CHR ''1''"] by auto
  then have u: "uri_wf sample_uri"
    by (simp add: uri_wf_def sample_uri_def clean_def Signature_default_def Address_default_def)
  show ?thesis
    using devv_uri_round_trip [OF splits_split_slash u, of "''http://a''" 4294967299] u
    by (simp add: splits_split_slash sample_uri_def kDEVV_PROTOCOL_def)
qed

end
