(* ===== verification/Repeater.thy ===== *)
theory Repeater
  imports Pbuf Devv_Uri Effects Messages
begin

text \<open>
  \<^verbatim>\<open>repeater.cpp\<close>: a program that writes the final blocks of a shard to files and answers requests for
  blocks and transactions from these files.

  The file system is outside the sources. It is a record of operations over a state \<open>'fs\<close> that every
  definition takes as an argument, and \<open>file_laws\<close> states what the program relies on. The encoders of the
  messages are generated code and an argument as well, as is \<open>what\<close>, the text of an exception.

  A request is answered by a program (see \<open>Effects\<close>) over the response, since a response that was partly
  filled is what the handler of an exception returns. The loops run over 32-bit heights up to the highest
  one inclusively; \<open>None\<close> means that such a loop never ends.
\<close>

section \<open>Files\<close>

record 'fs file_ops =
  f_is_directory :: "'fs \<Rightarrow> string \<Rightarrow> bool"
  f_exists :: "'fs \<Rightarrow> string \<Rightarrow> bool"
  f_entries :: "'fs \<Rightarrow> string \<Rightarrow> string list option"
  f_stem :: "string \<Rightarrow> string"
  f_read :: "'fs \<Rightarrow> string \<Rightarrow> bytes option"
  f_write :: "'fs \<Rightarrow> string \<Rightarrow> bytes \<Rightarrow> 'fs option"

definition block_path :: "string \<Rightarrow> string \<Rightarrow> uint32 \<Rightarrow> string" where
  "block_path working_dir shard block = working_dir @ ''/'' @ shard @ ''/'' @ to_string_u block @ ''.blk''"

definition hasShard :: "'fs file_ops \<Rightarrow> 'fs \<Rightarrow> string \<Rightarrow> string \<Rightarrow> bool" where
  "hasShard F fs shard working_dir = f_is_directory F fs (working_dir @ ''/'' @ shard)"

definition hasBlock :: "'fs file_ops \<Rightarrow> 'fs \<Rightarrow> string \<Rightarrow> uint32 \<Rightarrow> string \<Rightarrow> bool" where
  "hasBlock F fs shard block working_dir = f_exists F fs (block_path working_dir shard block)"

text \<open>The iterator over a directory that cannot be opened throws.\<close>

definition getHighestBlock :: "'fs file_ops \<Rightarrow> 'fs \<Rightarrow> string \<Rightarrow> string \<Rightarrow> error + uint32" where
  "getHighestBlock F fs shard working_dir =
     (case f_entries F fs (working_dir @ ''/'' @ shard) of
        None \<Rightarrow> Inl StdException
      | Some entries \<Rightarrow>
          foldE (\<lambda>i highest.
             bindE (stoul (f_stem F i)) (\<lambda>n.
             let some_block = ucast n in Inr (if some_block > highest then some_block else highest)))
            entries 0)"

text \<open>A file that could not be opened has the position -1, and reserving that many bytes throws.\<close>

definition ReadBlock :: "'fs file_ops \<Rightarrow> 'fs \<Rightarrow> string \<Rightarrow> uint32 \<Rightarrow> string \<Rightarrow> error + bytes" where
  "ReadBlock F fs shard block working_dir =
     (case f_read F fs (block_path working_dir shard block) of None \<Rightarrow> Inl LengthError | Some out \<Rightarrow> Inr out)"

section \<open>Searching\<close>

text \<open>\<^verbatim>\<open>for (uint32_t i = start; i <= highest; ++i)\<close>; a body that returns a value leaves the loop.\<close>

partial_function (option) for_upto ::
  "(uint32 \<Rightarrow> 's \<Rightarrow> ('r option outcome \<times> 's) option) \<Rightarrow> uint32 \<Rightarrow> uint32 \<Rightarrow> 's \<Rightarrow> ('r option outcome \<times> 's) option" where
  "for_upto body i highest s =
     (if i \<le> highest then
        Option.bind (body i s) (\<lambda>r. case r of
            (Returned None, s') \<Rightarrow> for_upto body (i + 1) highest s'
          | (Returned (Some x), s') \<Rightarrow> Some (Returned (Some x), s')
          | (Thrown e, s') \<Rightarrow> Some (Thrown e, s')
          | (Blocked n, s') \<Rightarrow> Some (Blocked n, s'))
      else Some (Returned None, s))"

definition block_at :: "'fs file_ops \<Rightarrow> 'fs \<Rightarrow> string \<Rightarrow> uint32 \<Rightarrow> string \<Rightarrow> ('s, FinalBlock) prog" where
  "block_at F fs shard i working_dir =
     bindM (liftM (ReadBlock F fs shard i working_dir)) (\<lambda>block.
     bindM (liftP (fb_Create ChainState_empty (InputBuffer_make block 0))) (\<lambda>(one_block, _).
     returnM one_block))"

fun find_tx :: "Signature \<Rightarrow> TransactionPtr list \<Rightarrow> error + TransactionPtr option" where
  "find_tx tx_id [] = Inr None"
| "find_tx tx_id (tx # txs) =
     bindE (tx_getSignature tx) (\<lambda>s. if s = tx_id then Inr (Some tx) else find_tx tx_id txs)"

definition SearchForTransaction ::
  "'fs file_ops \<Rightarrow> 'fs \<Rightarrow> string \<Rightarrow> uint32 \<Rightarrow> Signature \<Rightarrow> string \<Rightarrow> ('s, uint32) prog" where
  "SearchForTransaction F fs shard start_block tx_id working_dir =
     bindM (liftM (getHighestBlock F fs shard working_dir)) (\<lambda>highest.
     if highest < start_block then returnM UINT32_MAX
     else
       bindM (liftM (getRawSignature tx_id)) (\<lambda>target.
       bindM (for_upto (\<lambda>i.
                bindM (block_at F fs shard i working_dir) (\<lambda>one_block.
                bindM (liftM (find_tx tx_id (fb_transactions one_block))) (\<lambda>found.
                returnM (if found \<noteq> None then Some i else None)))) start_block highest) (\<lambda>found.
       returnM (case found of Some i \<Rightarrow> i | None \<Rightarrow> UINT32_MAX))))"

definition address_hits :: "Address \<Rightarrow> bytes \<Rightarrow> error + bytes list" where
  "address_hits addr tx =
     bindE (t2_QuickCreate (InputBuffer_make tx 0)) (\<lambda>(t2tx, _).
     bindE (t2_getTransfers t2tx) (\<lambda>xfers.
     bindE (mapE xfer_getAddress xfers) (\<lambda>addrs.
     Inr (map (\<lambda>_. tx) (filter (\<lambda>a. a = addr) addrs)))))"

text \<open>A program on a local variable.\<close>

definition localM :: "'t \<Rightarrow> ('t, 'a) prog \<Rightarrow> ('s, 't) prog" where
  "localM init m = (\<lambda>s. case m init of
     None \<Rightarrow> None
   | Some (Returned _, t) \<Rightarrow> Some (Returned t, s)
   | Some (Thrown e, _) \<Rightarrow> Some (Thrown e, s)
   | Some (Blocked n, _) \<Rightarrow> Some (Blocked n, s))"

definition SearchForAddress ::
  "'fs file_ops \<Rightarrow> 'fs \<Rightarrow> string \<Rightarrow> uint32 \<Rightarrow> Address \<Rightarrow> string \<Rightarrow> ('s, bytes list) prog" where
  "SearchForAddress F fs shard start_block addr working_dir =
     bindM (liftM (getHighestBlock F fs shard working_dir)) (\<lambda>highest.
     if highest < start_block then returnM []
     else
       bindM (liftM (getAddressRaw addr)) (\<lambda>target.
       localM [] (for_upto (\<lambda>i.
         bindM (block_at F fs shard i working_dir) (\<lambda>one_block.
         bindM (liftM (mapE (address_hits addr) (fb_raw_transactions one_block))) (\<lambda>hits.
         bindM (updM (\<lambda>txs. txs @ concat hits)) (\<lambda>_.
         returnM (None :: unit option))))) start_block highest)))"

section \<open>Requests\<close>

text \<open>The encoders that are generated from \<^verbatim>\<open>devv.proto\<close>.\<close>

record proto_codec =
  encode_FinalBlock :: "proto_FinalBlock \<Rightarrow> bytes"
  encode_Transaction :: "proto_Transaction \<Rightarrow> bytes"
  encode_Envelope :: "proto_Envelope \<Rightarrow> bytes"

type_synonym 'a answer = "(RepeaterResponse, 'a) prog"

definition GenerateBadSyntaxResponse :: "string \<Rightarrow> RepeaterResponse" where
  "GenerateBadSyntaxResponse message = RepeaterResponse_default\<lparr>rs_return_code := 1010, rs_message := message\<rparr>"

definition refuse :: "uint32 \<Rightarrow> string \<Rightarrow> unit answer" where
  "refuse code message = updM (\<lambda>response. response\<lparr>rs_return_code := code, rs_message := message\<rparr>)"

definition set_raw :: "bytes \<Rightarrow> unit answer" where
  "set_raw raw = updM (\<lambda>response. response\<lparr>rs_raw_response := raw\<rparr>)"

definition append_raw :: "bytes \<Rightarrow> unit answer" where
  "append_raw raw = updM (\<lambda>response. response\<lparr>rs_raw_response := rs_raw_response response @ raw\<rparr>)"

definition need_height :: "DevvUri \<Rightarrow> unit answer \<Rightarrow> unit answer" where
  "need_height ident m =
     (if uri_block_height ident = UINT32_MAX then refuse 1051 ''Block height is missing from the URI.'' else m)"

definition need_sig :: "DevvUri \<Rightarrow> unit answer \<Rightarrow> unit answer" where
  "need_sig ident m =
     (if sig_isNull (uri_sig ident) then refuse 1051 ''Transaction signature is missing from the URI.'' else m)"

definition need_addr :: "DevvUri \<Rightarrow> unit answer \<Rightarrow> unit answer" where
  "need_addr ident m =
     (if addr_isNull (uri_addr ident) then refuse 1051 ''Transaction address is missing from the URI.'' else m)"

definition binary_block :: "'fs file_ops \<Rightarrow> 'fs \<Rightarrow> DevvUri \<Rightarrow> string \<Rightarrow> unit answer" where
  "binary_block F fs ident working_dir =
     need_height ident (
     bindM (liftM (ReadBlock F fs (uri_shard ident) (uri_block_height ident) working_dir)) set_raw)"

definition binary_loop :: "'fs file_ops \<Rightarrow> 'fs \<Rightarrow> string \<Rightarrow> string \<Rightarrow> uint32 \<Rightarrow> uint32 \<Rightarrow> unit answer" where
  "binary_loop F fs shard working_dir from highest_block =
     bindM (for_upto (\<lambda>i.
       bindM (liftM (ReadBlock F fs shard i working_dir)) (\<lambda>one_block.
       bindM (append_raw one_block) (\<lambda>_. returnM (None :: unit option)))) from highest_block) (\<lambda>_. returnM ())"

definition binary_blocks_since :: "'fs file_ops \<Rightarrow> 'fs \<Rightarrow> DevvUri \<Rightarrow> string \<Rightarrow> unit answer" where
  "binary_blocks_since F fs ident working_dir =
     bindM (liftM (getHighestBlock F fs (uri_shard ident) working_dir)) (\<lambda>highest_block.
     whenM (uri_block_height ident \<le> highest_block)
       (binary_loop F fs (uri_shard ident) working_dir (uri_block_height ident) highest_block))"

definition binary_chain :: "'fs file_ops \<Rightarrow> 'fs \<Rightarrow> DevvUri \<Rightarrow> string \<Rightarrow> unit answer" where
  "binary_chain F fs ident working_dir =
     bindM (liftM (getHighestBlock F fs (uri_shard ident) working_dir)) (\<lambda>highest_block.
     binary_loop F fs (uri_shard ident) working_dir 0 highest_block)"

definition binary_transaction :: "'fs file_ops \<Rightarrow> 'fs \<Rightarrow> DevvUri \<Rightarrow> string \<Rightarrow> unit answer" where
  "binary_transaction F fs ident working_dir =
     need_height ident (need_sig ident (
     bindM (SearchForTransaction F fs (uri_shard ident) (uri_block_height ident) (uri_sig ident) working_dir) (\<lambda>height.
     bindM (block_at F fs (uri_shard ident) height working_dir) (\<lambda>one_block.
     bindM (liftM (find_tx (uri_sig ident) (fb_transactions one_block))) (\<lambda>found.
     case found of Some tx \<Rightarrow> set_raw (tx_getCanonical tx) | None \<Rightarrow> returnM ())))))"

definition protobuf_bytes :: "proto_codec \<Rightarrow> FinalBlock \<Rightarrow> ('s, bytes) prog" where
  "protobuf_bytes enc one_block =
     bindM (liftM (SerializeFinalBlock one_block)) (\<lambda>proto_block. returnM (encode_FinalBlock enc proto_block))"

definition protobuf_block :: "'fs file_ops \<Rightarrow> proto_codec \<Rightarrow> 'fs \<Rightarrow> DevvUri \<Rightarrow> string \<Rightarrow> unit answer" where
  "protobuf_block F enc fs ident working_dir =
     bindM (block_at F fs (uri_shard ident) (uri_block_height ident) working_dir) (\<lambda>one_block.
     bindM (protobuf_bytes enc one_block) set_raw)"

definition protobuf_loop ::
  "'fs file_ops \<Rightarrow> proto_codec \<Rightarrow> 'fs \<Rightarrow> string \<Rightarrow> string \<Rightarrow> uint32 \<Rightarrow> uint32 \<Rightarrow> unit answer" where
  "protobuf_loop F enc fs shard working_dir from highest_block =
     bindM (for_upto (\<lambda>i.
       bindM (block_at F fs shard i working_dir) (\<lambda>one_block.
       bindM (protobuf_bytes enc one_block) (\<lambda>pbuf_block.
       bindM (append_raw pbuf_block) (\<lambda>_. returnM (None :: unit option))))) from highest_block) (\<lambda>_. returnM ())"

definition protobuf_blocks_since :: "'fs file_ops \<Rightarrow> proto_codec \<Rightarrow> 'fs \<Rightarrow> DevvUri \<Rightarrow> string \<Rightarrow> unit answer" where
  "protobuf_blocks_since F enc fs ident working_dir =
     bindM (liftM (getHighestBlock F fs (uri_shard ident) working_dir)) (\<lambda>highest_block.
     whenM (uri_block_height ident \<le> highest_block)
       (protobuf_loop F enc fs (uri_shard ident) working_dir (uri_block_height ident) highest_block))"

definition protobuf_chain :: "'fs file_ops \<Rightarrow> proto_codec \<Rightarrow> 'fs \<Rightarrow> DevvUri \<Rightarrow> string \<Rightarrow> unit answer" where
  "protobuf_chain F enc fs ident working_dir =
     bindM (liftM (getHighestBlock F fs (uri_shard ident) working_dir)) (\<lambda>highest_block.
     protobuf_loop F enc fs (uri_shard ident) working_dir 0 highest_block)"

definition protobuf_transaction :: "'fs file_ops \<Rightarrow> proto_codec \<Rightarrow> 'fs \<Rightarrow> DevvUri \<Rightarrow> string \<Rightarrow> unit answer" where
  "protobuf_transaction F enc fs ident working_dir =
     need_height ident (need_sig ident (
     bindM (SearchForTransaction F fs (uri_shard ident) (uri_block_height ident) (uri_sig ident) working_dir) (\<lambda>height.
     bindM (block_at F fs (uri_shard ident) height working_dir) (\<lambda>one_block.
     bindM (liftM (find_tx (uri_sig ident) (fb_transactions one_block))) (\<lambda>found.
     case found of
       Some tx \<Rightarrow>
         bindM (liftM (SerializeBinaryTransaction (tx_getCanonical tx))) (\<lambda>pbuf_tx.
         set_raw (encode_Transaction enc pbuf_tx))
     | None \<Rightarrow> returnM ())))))"

definition check_transaction :: "'fs file_ops \<Rightarrow> 'fs \<Rightarrow> DevvUri \<Rightarrow> string \<Rightarrow> unit answer" where
  "check_transaction F fs ident working_dir =
     need_height ident (need_sig ident (
     bindM (SearchForTransaction F fs (uri_shard ident) (uri_block_height ident) (uri_sig ident) working_dir) (\<lambda>block_height.
     if block_height \<noteq> UINT32_MAX then append_raw (Uint32ToBin block_height [])
     else
       refuse 3020 (''Transaction not found since block '' @ to_string_u (uri_block_height ident) @ ''.''))))"

definition address_transactions :: "'fs file_ops \<Rightarrow> proto_codec \<Rightarrow> 'fs \<Rightarrow> DevvUri \<Rightarrow> string \<Rightarrow> unit answer" where
  "address_transactions F enc fs ident working_dir =
     need_height ident (need_addr ident (
     bindM (SearchForAddress F fs (uri_shard ident) (uri_block_height ident) (uri_addr ident) working_dir) (\<lambda>txs.
     bindM (liftM (SerializeEnvelopeFromBinaryTransactions txs)) (\<lambda>envelope.
     set_raw (encode_Envelope enc envelope)))))"

definition repeater_switch ::
  "'fs file_ops \<Rightarrow> proto_codec \<Rightarrow> 'fs \<Rightarrow> uint32 \<Rightarrow> DevvUri \<Rightarrow> string \<Rightarrow> unit answer" where
  "repeater_switch F enc fs operation ident working_dir =
     (if operation = 1 then binary_block F fs ident working_dir
      else if operation = 2 then binary_blocks_since F fs ident working_dir
      else if operation = 3 then binary_chain F fs ident working_dir
      else if operation = 4 then binary_transaction F fs ident working_dir
      else if operation = 5 then protobuf_block F enc fs ident working_dir
      else if operation = 6 then protobuf_blocks_since F enc fs ident working_dir
      else if operation = 7 then protobuf_chain F enc fs ident working_dir
      else if operation = 8 then protobuf_transaction F enc fs ident working_dir
      else if operation = 9 then check_transaction F fs ident working_dir
      else if operation = 10 then address_transactions F enc fs ident working_dir
      else refuse 1020 (''Unknown operation: '' @ to_string_u operation))"

definition repeater_checked ::
  "'fs file_ops \<Rightarrow> proto_codec \<Rightarrow> 'fs \<Rightarrow> RepeaterRequest \<Rightarrow> string \<Rightarrow> DevvUri \<Rightarrow> unit answer" where
  "repeater_checked F enc fs request working_dir ident =
     (if \<not> uri_valid ident then refuse 1052 ''URI is not valid.''
     else if \<not> hasShard F fs (uri_shard ident) working_dir then
       refuse 1050 (''Shard '' @ uri_shard ident @ '' is not available.'')
     else if uri_block_height ident \<noteq> UINT32_MAX \<and> \<not> hasBlock F fs (uri_shard ident) (uri_block_height ident) working_dir then
       refuse 1050 (''Block '' @ to_string_u (uri_block_height ident) @ '' is not available.'')
     else repeater_switch F enc fs (rr_operation request) ident working_dir)"

definition repeater_body ::
  "'fs file_ops \<Rightarrow> proto_codec \<Rightarrow> (string \<Rightarrow> string list) \<Rightarrow> 'fs \<Rightarrow> RepeaterRequest \<Rightarrow> string \<Rightarrow> unit answer" where
  "repeater_body F enc split_path fs request working_dir =
     bindM (updM (\<lambda>response. response\<lparr>rs_request_timestamp := rr_timestamp request,
                                      rs_operation := rr_operation request\<rparr>)) (\<lambda>_.
     bindM (liftM (ParseDevvUri split_path (rr_uri request))) (repeater_checked F enc fs request working_dir))"

definition HandleRepeaterRequest ::
  "'fs file_ops \<Rightarrow> proto_codec \<Rightarrow> (string \<Rightarrow> string list) \<Rightarrow> (error \<Rightarrow> string) \<Rightarrow> 'fs \<Rightarrow> RepeaterRequest \<Rightarrow> string
   \<Rightarrow> (error + RepeaterResponse) option" where
  "HandleRepeaterRequest F enc split_path what fs request working_dir =
     (case catchM (repeater_body F enc split_path fs request working_dir)
        (\<lambda>e. if is_std_exception e then Some (refuse 1010 (''Repeater Error: '' @ what e)) else None)
        RepeaterResponse_default of
        None \<Rightarrow> None
      | Some (Thrown e, _) \<Rightarrow> Some (Inl e)
      | Some (Blocked _, _) \<Rightarrow> None
      | Some (Returned _, response) \<Rightarrow> Some (Inr response))"

section \<open>The program\<close>

text \<open>What the listener does with a message; the state is the file system and the height of the chain.\<close>

definition repeater_callback ::
  "'fs file_ops \<Rightarrow> DevcashContext \<Rightarrow> string \<Rightarrow> DevcashMessage \<Rightarrow> 'fs \<times> uint32 \<Rightarrow> error + ('fs \<times> uint32)" where
  "repeater_callback F this_context working_dir p = (\<lambda>(fs, chain_height).
     if msg_type p = FINAL_BLOCK then
       bindE (if f_is_directory F fs (working_dir @ ''/'' @ get_shard_uri this_context)
              then if msg_data p = [] then Inl (Undefined ''first element of an empty vector'')
                else Inr (case f_write F fs (block_path working_dir (get_shard_uri this_context) chain_height) (msg_data p) of
                            Some fs' \<Rightarrow> fs' | None \<Rightarrow> fs)
              else Inr fs) (\<lambda>fs.
       Inr (fs, chain_height + 1))
     else Inr (fs, chain_height))"

text \<open>One request of a client: the bytes that came from the socket and the message that is sent back.\<close>

definition repeater_reply ::
  "'fs file_ops \<Rightarrow> proto_codec \<Rightarrow> (string \<Rightarrow> string list) \<Rightarrow> (error \<Rightarrow> string) \<Rightarrow> (string \<Rightarrow> proto_RepeaterRequest)
   \<Rightarrow> 'fs \<Rightarrow> string \<Rightarrow> string \<Rightarrow> (error + proto_RepeaterResponse) option" where
  "repeater_reply F enc split_path what parse_request fs working_dir msg_string =
     (case HandleRepeaterRequest F enc split_path what fs (DeserializeRepeaterRequest parse_request msg_string) working_dir of
        None \<Rightarrow> None
      | Some r \<Rightarrow> Some (bindE r (\<lambda>response. Inr (SerializeRepeaterResponse response))))"

section \<open>Loops\<close>

lemma for_upto_stop: "\<not> i \<le> h \<Longrightarrow> for_upto body i h s = Some (Returned None, s)"
  by (subst for_upto.simps) simp

lemma for_upto_next:
  "i \<le> h \<Longrightarrow> body i s = Some (Returned None, s') \<Longrightarrow> for_upto body i h s = for_upto body (i + 1) h s'"
  by (subst for_upto.simps) simp

lemma for_upto_thrown: "i \<le> h \<Longrightarrow> body i s = Some (Thrown e, s') \<Longrightarrow> for_upto body i h s = Some (Thrown e, s')"
  by (subst for_upto.simps) simp

text \<open>Below the largest height the loop is a fold over the heights.\<close>

lemma for_upto_fold:
  assumes "b < 2 ^ 32 - 1" and "a \<le> Suc b"
    and "\<forall>k \<in> {a..b}. \<forall>s. body (of_nat k) s = Some (Returned None, f k s)"
  shows "for_upto body (of_nat a) (of_nat b) s = Some (Returned None, fold f [a..<Suc b] s)"
  using assms(2,3)
proof (induction "Suc b - a" arbitrary: a s)
  case 0
  then have "\<not> (of_nat a :: uint32) \<le> of_nat b"
    using assms(1) by (simp add: word_le_nat_alt unsigned_of_nat take_bit_nat_eq_self)
  then show ?case using 0 by (simp add: for_upto_stop)
next
  case (Suc n)
  then have ab: "a \<le> b" by simp
  then have "(of_nat a :: uint32) \<le> of_nat b"
    using assms(1) by (simp add: word_le_nat_alt unsigned_of_nat take_bit_nat_eq_self)
  moreover have "body (of_nat a) s = Some (Returned None, f a s)" using Suc.prems ab by simp
  ultimately have "for_upto body (of_nat a) (of_nat b) s = for_upto body (of_nat (Suc a)) (of_nat b) (f a s)"
    by (simp add: for_upto_next add.commute)
  also have "\<dots> = Some (Returned None, fold f [Suc a..<Suc b] (f a s))"
    using Suc.hyps(2) Suc.prems ab by (intro Suc.hyps(1)) auto
  also have "fold f [Suc a..<Suc b] (f a s) = fold f [a..<Suc b] s"
    using ab by (simp add: upt_rec [of a] del: upt_Suc)
  finally show ?case .
qed

text \<open>What every round preserves the loop preserves, and what holds of every value that a round returns
  holds of the value of the loop.\<close>

lemma for_upto_inv:
  assumes "\<And>i s r s'. P s \<Longrightarrow> body i s = Some (r, s') \<Longrightarrow> P s' \<and> (\<forall>x. r = Returned (Some x) \<longrightarrow> Q x)"
    and "for_upto body i h s = Some (r, s')" and "P s"
  shows "P s' \<and> (\<forall>x. r = Returned (Some x) \<longrightarrow> Q x)"
proof -
  let ?inv = "\<lambda>body. \<forall>i s r s'. P s \<longrightarrow> body i s = Some (r, s') \<longrightarrow> P s' \<and> (\<forall>x. r = Returned (Some x) \<longrightarrow> Q x)"
  have "?inv body \<longrightarrow> P s \<longrightarrow> P (snd (r, s')) \<and> (\<forall>x. fst (r, s') = Returned (Some x) \<longrightarrow> Q x)"
  proof (rule for_upto.raw_induct [where P = "\<lambda>body i h s y. ?inv body \<longrightarrow> P s \<longrightarrow>
      P (snd y) \<and> (\<forall>x. fst y = Returned (Some x) \<longrightarrow> Q x)", OF _ assms(2)], intro impI)
    fix loop :: "(uint32 \<Rightarrow> 'a \<Rightarrow> ('b option outcome \<times> 'a) option) \<Rightarrow> uint32 \<Rightarrow> uint32 \<Rightarrow> 'a \<Rightarrow> ('b option outcome \<times> 'a) option"
      and body i h s y
    assume IH: "\<And>body i h s y. loop body i h s = Some y \<Longrightarrow>
        ?inv body \<longrightarrow> P s \<longrightarrow> P (snd y) \<and> (\<forall>x. fst y = Returned (Some x) \<longrightarrow> Q x)"
      and inv: "?inv body" and "P s"
      and eq: "(if i \<le> h then Option.bind (body i s) (\<lambda>r. case r of
            (Returned None, s') \<Rightarrow> loop body (i + 1) h s'
          | (Returned (Some x), s') \<Rightarrow> Some (Returned (Some x), s')
          | (Thrown e, s') \<Rightarrow> Some (Thrown e, s')
          | (Blocked n, s') \<Rightarrow> Some (Blocked n, s'))
        else Some (Returned None, s)) = Some y"
    show "P (snd y) \<and> (\<forall>x. fst y = Returned (Some x) \<longrightarrow> Q x)"
    proof (cases "i \<le> h")
      case True
      then obtain q t where b: "body i s = Some (q, t)" using eq by (cases "body i s") auto
      then have t: "P t" "\<forall>x. q = Returned (Some x) \<longrightarrow> Q x" using inv \<open>P s\<close> by blast+
      show ?thesis
      proof (cases "q = Returned None")
        case True
        then have "loop body (i + 1) h t = Some y" using eq b \<open>i \<le> h\<close> by simp
        then show ?thesis using IH inv t(1) by blast
      next
        case False
        then have "y = (q, t)" using eq b \<open>i \<le> h\<close> by (auto split: outcome.splits option.splits)
        then show ?thesis using t by simp
      qed
    qed (use eq \<open>P s\<close> in auto)
  qed
  then show ?thesis using assms(1,3) by simp
qed

lemma keeps_for_upto [keeps_intros]: "(\<And>i. keeps P (body i)) \<Longrightarrow> keeps P (for_upto body i h)"
  unfolding keeps_def by (metis for_upto_inv [where Q = "\<lambda>_. True"])

lemma keeps_local [keeps_intros]: "keeps P (localM init m)"
  by (auto simp: keeps_def localM_def split: option.splits outcome.splits prod.splits)

section \<open>Preservation\<close>

lemma fb_Create_no_transactions: "fb_Create prior ib = Some (Inr (b, ib')) \<Longrightarrow> fb_transactions b = []"
proof -
  have head: "fb_read_fields x i = Inr (b1, i') \<Longrightarrow> fb_transactions b1 = fb_transactions x" for x i b1 i'
    by (auto simp: fb_read_fields_def reader_simps)
  show "fb_Create prior ib = Some (Inr (b, ib')) \<Longrightarrow> fb_transactions b = []"
    by (auto simp: fb_Create_def fb_read_head_def Let_def bindP_eq_Some FinalBlock_prior_def reader_simps
        split: if_splits dest!: head)
qed

lemma block_at_keeps [keeps_intros]: "keeps P (block_at F fs shard i dir)"
  unfolding block_at_def by (intro keeps_intros)

lemma block_at_Returned:
  "block_at F fs shard i dir s = Some (Returned b, s') \<Longrightarrow> fb_transactions b = [] \<and> s' = s"
  by (auto simp: block_at_def bindM_Returned effect_simps liftP_def split: option.splits dest: fb_Create_no_transactions)

lemma SearchForTransaction_keeps [keeps_intros]: "keeps P (SearchForTransaction F fs shard start tx_id dir)"
  unfolding SearchForTransaction_def by (intro keeps_intros)

lemma SearchForAddress_keeps [keeps_intros]: "keeps P (SearchForAddress F fs shard start addr dir)"
  unfolding SearchForAddress_def by (intro keeps_intros)

text \<open>No block that is read from a file has entries in the vector that the search looks at.\<close>

lemma SearchForTransaction_max:
  fixes s s' :: 's
  assumes eq: "SearchForTransaction F fs shard start tx_id dir s = Some (Returned height, s')"
  shows "height = UINT32_MAX"
proof -
  let ?body = "\<lambda>i. bindM (block_at F fs shard i dir) (\<lambda>one_block.
                bindM (liftM (find_tx tx_id (fb_transactions one_block))) (\<lambda>found.
                returnM (if found \<noteq> None then Some i else None)))"
  have body: "True \<and> (\<forall>x. r = Returned (Some x) \<longrightarrow> False)" if "?body i t = Some (r, t')" for i r and t t' :: 's
    using that by (auto simp: bindM_Some effect_simps dest!: block_at_Returned)
  have "for_upto ?body start h t \<noteq> Some (Returned (Some x), t')" for h x and t t' :: 's
  proof
    assume l: "for_upto ?body start h t = Some (Returned (Some x), t')"
    have "True \<and> (\<forall>y. Returned (Some x) = Returned (Some y) \<longrightarrow> False)"
      by (rule for_upto_inv [where P = "\<lambda>_. True" and Q = "\<lambda>_. False", OF _ l]) (erule body, simp)
    then show False by simp
  qed
  then show ?thesis
    using eq by (auto simp: SearchForTransaction_def bindM_Returned effect_simps split: if_splits option.splits)
qed

lemmas answer_defs = refuse_def set_raw_def append_raw_def need_height_def need_sig_def need_addr_def

lemma keeps_case_option [keeps_intros]:
  "(x = None \<Longrightarrow> keeps P m) \<Longrightarrow> (\<And>y. x = Some y \<Longrightarrow> keeps P (f y)) \<Longrightarrow> keeps P (case x of None \<Rightarrow> m | Some y \<Rightarrow> f y)"
  by (cases x) simp_all

text \<open>The timestamp and the operation of the request, a return code of the interface, and a message exactly
  when the return code is not zero.\<close>

definition response_ok :: "RepeaterRequest \<Rightarrow> RepeaterResponse \<Rightarrow> bool" where
  "response_ok request response =
     (rs_request_timestamp response = rr_timestamp request \<and> rs_operation response = rr_operation request \<and>
      rs_return_code response \<in> {0, 1010, 1020, 1050, 1051, 1052, 3020} \<and>
      (rs_message response = [] \<longleftrightarrow> rs_return_code response = 0))"

lemma answers_keep_response_ok [keeps_intros]:
  "code \<in> {1010, 1020, 1050, 1051, 1052, 3020} \<Longrightarrow> message \<noteq> [] \<Longrightarrow> keeps (response_ok request) (refuse code message)"
  "keeps (response_ok request) (set_raw raw)" "keeps (response_ok request) (append_raw raw)"
  by (auto simp: answer_defs response_ok_def keeps_def effect_simps)

lemma needs_keep [keeps_intros]:
  "keeps (response_ok request) m \<Longrightarrow> keeps (response_ok request) (need_height ident m)"
  "keeps (response_ok request) m \<Longrightarrow> keeps (response_ok request) (need_sig ident m)"
  "keeps (response_ok request) m \<Longrightarrow> keeps (response_ok request) (need_addr ident m)"
  unfolding need_height_def need_sig_def need_addr_def by (auto intro!: keeps_intros)

lemma switch_keeps_response_ok: "keeps (response_ok request) (repeater_switch F enc fs operation ident dir)"
  unfolding repeater_switch_def binary_block_def binary_blocks_since_def binary_chain_def binary_transaction_def
    protobuf_block_def protobuf_blocks_since_def protobuf_chain_def protobuf_transaction_def check_transaction_def
    address_transactions_def binary_loop_def protobuf_loop_def protobuf_bytes_def
  by (intro keeps_intros) simp_all

definition response_start :: "RepeaterRequest \<Rightarrow> RepeaterResponse" where
  "response_start request =
     RepeaterResponse_default\<lparr>rs_request_timestamp := rr_timestamp request, rs_operation := rr_operation request\<rparr>"

lemma repeater_body_start:
  "repeater_body F enc split_path fs request dir RepeaterResponse_default =
     bindM (liftM (ParseDevvUri split_path (rr_uri request))) (repeater_checked F enc fs request dir) (response_start request)"
  by (simp add: repeater_body_def bindM_def updM_def response_start_def)

text \<open>A property of the empty response that the body and the handler of exceptions preserve.\<close>

lemma HandleRepeaterRequest_keeps:
  assumes "HandleRepeaterRequest F enc split_path what fs request dir = Some (Inr response)"
    and "P (response_start request)" and "\<And>ident. keeps P (repeater_checked F enc fs request dir ident)"
    and "\<And>e. keeps P (refuse 1010 (''Repeater Error: '' @ what e))"
  shows "P response"
proof -
  let ?b = "bindM (liftM (ParseDevvUri split_path (rr_uri request))) (repeater_checked F enc fs request dir)"
  let ?h = "\<lambda>e. if is_std_exception e then Some (refuse 1010 (''Repeater Error: '' @ what e)) else None"
  have k: "keeps P (catchM ?b ?h)"
    using assms(3,4) by (intro keeps_intros) (auto split: if_splits)
  have "catchM (repeater_body F enc split_path fs request dir) ?h RepeaterResponse_default = catchM ?b ?h (response_start request)"
    by (simp add: catchM_def repeater_body_start)
  then obtain r where "catchM ?b ?h (response_start request) = Some (r, response)"
    using assms(1) by (auto simp: HandleRepeaterRequest_def split: option.splits outcome.splits)
  then show ?thesis using keepsD [OF k assms(2)] by blast
qed

lemma keeps_checked:
  "(\<And>code message. message \<noteq> [] \<Longrightarrow> code \<in> {1050, 1052} \<Longrightarrow> keeps P (refuse code message)) \<Longrightarrow>
   keeps P (repeater_switch F enc fs (rr_operation request) ident dir) \<Longrightarrow>
   keeps P (repeater_checked F enc fs request dir ident)"
  unfolding repeater_checked_def by simp

lemma response_start_raw [simp]: "rs_raw_response (response_start request) = []"
  by (simp add: response_start_def RepeaterResponse_default_def)

lemma HandleRepeaterRequest_Returned:
  assumes "ParseDevvUri split_path (rr_uri request) = Inr ident"
    and "repeater_checked F enc fs request dir ident (response_start request) = Some (Returned u, response)"
  shows "HandleRepeaterRequest F enc split_path what fs request dir = Some (Inr response)"
  using assms by (simp add: HandleRepeaterRequest_def catchM_def repeater_body_start effect_simps)

lemma repeater_checked_ok:
  "uri_valid ident \<Longrightarrow> hasShard F fs (uri_shard ident) dir \<Longrightarrow>
   uri_block_height ident = UINT32_MAX \<or> hasBlock F fs (uri_shard ident) (uri_block_height ident) dir \<Longrightarrow>
   repeater_checked F enc fs request dir ident = repeater_switch F enc fs (rr_operation request) ident dir"
  by (auto simp: repeater_checked_def)

lemma default_height: "uri_block_height DevvUri_default = UINT32_MAX"
  by (simp add: DevvUri_default_def)

section \<open>Properties\<close>

definition ask :: "int64 \<Rightarrow> uint32 \<Rightarrow> string \<Rightarrow> RepeaterRequest" where
  "ask timestamp operation uri = \<lparr>rr_timestamp = timestamp, rr_operation = operation, rr_uri = uri\<rparr>"

lemma ask_simps [simp]:
  "rr_timestamp (ask t op uri) = t" "rr_operation (ask t op uri) = op" "rr_uri (ask t op uri) = uri"
  by (simp_all add: ask_def)

text \<open>Every response that the repeater returns carries the timestamp and the operation of its request and
  one of the seven return codes, and has a message exactly when the code is not zero, whatever the
  request, the files and the exceptions on the way.\<close>

theorem repeater_response_typed:
  assumes "HandleRepeaterRequest F enc split_path what fs request working_dir = Some (Inr response)"
  shows "response_ok request response"
proof (rule HandleRepeaterRequest_keeps [OF assms])
  show "response_ok request (response_start request)"
    by (simp add: response_ok_def response_start_def RepeaterResponse_default_def)
  show "keeps (response_ok request) (repeater_checked F enc fs request working_dir ident)" for ident
    by (intro keeps_checked switch_keeps_response_ok keeps_intros) auto
  show "keeps (response_ok request) (refuse 1010 (''Repeater Error: '' @ what e))" for e
    by (intro keeps_intros) simp_all
qed

lemma keeps_no_transaction:
  assumes "\<And>code message. keeps P (refuse code message)"
  shows "keeps P (binary_transaction F fs ident dir)" "keeps P (protobuf_transaction F enc fs ident dir)"
    "keeps P (check_transaction F fs ident dir)"
proof -
  have block: "keeps P (bindM (block_at F fs shard height dir) f)"
    if "\<And>b. fb_transactions b = [] \<Longrightarrow> keeps P (f b)" for shard height and f :: "FinalBlock \<Rightarrow> unit answer"
    using that by (rule keeps_bind_value [where Q = "\<lambda>b. fb_transactions b = []", rotated 2])
      (auto intro: keeps_intros dest: block_at_Returned)
  have none: "keeps P (bindM (liftM (Inr None)) g) \<longleftrightarrow> keeps P (g None)" for g :: "TransactionPtr option \<Rightarrow> unit answer"
    by (simp add: liftM_def bindM_def)
  show "keeps P (binary_transaction F fs ident dir)" "keeps P (protobuf_transaction F enc fs ident dir)"
    unfolding binary_transaction_def protobuf_transaction_def need_height_def need_sig_def
    by (intro keeps_if assms keeps_bind [OF SearchForTransaction_keeps] block; simp add: none keeps_pure)+
  show "keeps P (check_transaction F fs ident dir)"
    unfolding check_transaction_def need_height_def need_sig_def
    by (intro keeps_intros assms keeps_bind_value [where Q = "\<lambda>h. h = UINT32_MAX"]) (auto dest: SearchForTransaction_max intro: assms)
qed

lemma check_transaction_refuses:
  assumes "check_transaction F fs ident dir s = Some (Returned u, s')"
  shows "rs_return_code s' \<noteq> 0"
proof (cases "uri_block_height ident = UINT32_MAX \<or> sig_isNull (uri_sig ident)")
  case False
  then obtain h t where "SearchForTransaction F fs (uri_shard ident) (uri_block_height ident) (uri_sig ident) dir s =
      Some (Returned h, t)"
    and r: "(if h \<noteq> UINT32_MAX then append_raw (Uint32ToBin h [])
       else refuse 3020 (''Transaction not found since block '' @ to_string_u (uri_block_height ident) @ ''.'')) t =
      Some (Returned u, s')"
    using assms unfolding check_transaction_def need_height_def need_sig_def by (auto simp: bindM_Returned)
  then have "h = UINT32_MAX" by (blast dest: SearchForTransaction_max)
  then show ?thesis using r by (auto simp: refuse_def effect_simps)
qed (use assms in \<open>auto simp: check_transaction_def answer_defs effect_simps split: if_splits\<close>)

text \<open>C32. The operations that look for a transaction by its signature never find one: the search goes over
  the deserialised transactions of the blocks, and reading a block only fills its raw transactions. No
  response to the operations 4, 8 and 9 carries data, and none to operation 9 reports success, whatever
  the files hold.\<close>

theorem repeater_finds_no_transaction:
  assumes "HandleRepeaterRequest F enc split_path what fs request working_dir = Some (Inr response)"
    and "rr_operation request \<in> {4, 8, 9}"
  shows "rs_raw_response response = [] \<and> (rr_operation request = 9 \<longrightarrow> rs_return_code response \<noteq> 0)"
proof (intro conjI impI)
  let ?P = "\<lambda>response. rs_raw_response response = []"
  have r: "keeps ?P (refuse code message)" for code message
    by (auto simp: answer_defs keeps_def effect_simps)
  show "?P response"
  proof (rule HandleRepeaterRequest_keeps [OF assms(1)])
    show "keeps ?P (repeater_checked F enc fs request working_dir ident)" for ident
      using assms(2) keeps_no_transaction [OF r] by (intro keeps_checked r) (auto simp: repeater_switch_def)
  qed (use r in \<open>auto simp: response_start_def RepeaterResponse_default_def\<close>)
  assume nine: "rr_operation request = 9"
  have "rs_return_code s' \<noteq> 0" if "repeater_checked F enc fs request working_dir ident s = Some (Returned u, s')" for ident s s' u
    using that nine check_transaction_refuses [of F fs ident working_dir s u s']
    by (auto simp: repeater_checked_def repeater_switch_def refuse_def effect_simps split: if_splits)
  then have "rs_return_code s' \<noteq> 0"
    if "repeater_body F enc split_path fs request working_dir RepeaterResponse_default = Some (Returned u, s')" for s' u
    using that unfolding repeater_body_start bindM_Returned by blast
  then show "rs_return_code response \<noteq> 0"
    using assms(1)
    by (auto simp: HandleRepeaterRequest_def catchM_def refuse_def effect_simps split: option.splits outcome.splits if_splits prod.splits)
qed

text \<open>A file with the block that holds \<open>sample_t2\<close>, under every name.\<close>

definition one_block_files :: "unit file_ops" where
  "one_block_files =
     \<lparr>f_is_directory = (\<lambda>_ _. True), f_exists = (\<lambda>_ _. True), f_entries = (\<lambda>_ dir. Some [dir @ ''/0.blk'']),
      f_stem = (\<lambda>_. nat_to_string 0), f_read = (\<lambda>_ _. Some (fb_getCanonical sample_final)), f_write = (\<lambda>_ _ _. None)\<rparr>"

definition no_codec :: proto_codec where
  "no_codec = \<lparr>encode_FinalBlock = (\<lambda>_. []), encode_Transaction = (\<lambda>_. []), encode_Envelope = (\<lambda>_. [])\<rparr>"

definition sample_search :: DevvUri where
  "sample_search =
     \<lparr>uri_valid = True, uri_shard = ''1'', uri_block_height = 0, uri_sig = sample_sig 4, uri_addr = Address_default\<rparr>"

lemma sample_search_answer:
  "HandleRepeaterRequest one_block_files no_codec split_slash (\<lambda>_. []) () (ask 5 9 (MakeDevvUri sample_search)) ''d'' =
   Some (Inr ((response_start (ask 5 9 (MakeDevvUri sample_search)))
     \<lparr>rs_return_code := 3020, rs_message := ''Transaction not found since block '' @ nat_to_string 0 @ ''.''\<rparr>))"
proof -
  have w: "uri_wf sample_search"
    using plain_clean [of "''1''"]
    by (simp add: uri_wf_def sample_search_def sample_sig_def sample_der_def)
  have p: "ParseDevvUri split_slash (MakeDevvUri sample_search) = Inr sample_search"
    using ParseDevvUri_parts [OF splits_split_slash w] by (simp add: MakeDevvUri_parts [OF w])
  have n: "\<not> sig_isNull (sample_sig 4)" "\<exists>raw. getRawSignature (sample_sig 4) = Inr raw"
    by (simp_all add: getRawSignature_def sig_isNull_def sample_sig_def sample_der_def)
  have h: "getHighestBlock one_block_files () shard dir = Inr 0" for shard dir
    using stoul_decimal [of 0] by (simp add: getHighestBlock_def one_block_files_def)
  have "ib_wf (InputBuffer_make (fb_getCanonical sample_final) 0)" by (intro ib_wf_make) (simp add: sample_final_length)
  then obtain b ib where c: "fb_Create ChainState_empty (InputBuffer_make (fb_getCanonical sample_final) 0) = Some (Inr (b, ib))"
    using fb_Create_rest [OF sample_final_wf sample_final_raw, of _ "[]" ChainState_empty] by fastforce
  then have b: "block_at one_block_files () shard i dir s = Some (Returned b, s)" "fb_transactions b = []" for shard i dir and s :: RepeaterResponse
    using fb_Create_no_transactions [OF c]
    by (simp_all add: block_at_def ReadBlock_def one_block_files_def effect_simps)
  let ?body = "\<lambda>i. bindM (block_at one_block_files () ''1'' i ''d'') (\<lambda>one_block.
      bindM (liftM (find_tx (sample_sig 4) (fb_transactions one_block))) (\<lambda>found.
      returnM (if found \<noteq> None then Some i else None)))"
  have "for_upto ?body (of_nat 0) (of_nat 0) s = Some (Returned None, fold (\<lambda>_ s. s) [0..<Suc 0] s)" for s :: RepeaterResponse
    by (rule for_upto_fold) (simp_all add: effect_simps b)
  then have s: "SearchForTransaction one_block_files () ''1'' 0 (sample_sig 4) ''d'' s = Some (Returned UINT32_MAX, s)" for s :: RepeaterResponse
    using n(2) by (auto simp: SearchForTransaction_def effect_simps h)
  have u: "uri_shard sample_search = ''1''" "uri_block_height sample_search = 0" "uri_sig sample_search = sample_sig 4"
    "uri_valid sample_search"
    by (simp_all add: sample_search_def)
  have "hasShard one_block_files () shard dir" "hasBlock one_block_files () shard i dir" for shard i dir
    by (simp_all add: hasShard_def hasBlock_def one_block_files_def)
  then show ?thesis
    using n(1) p
    by (intro HandleRepeaterRequest_Returned [where ident = sample_search and u = "()"])
      (simp_all add: repeater_checked_ok repeater_switch_def check_transaction_def need_height_def need_sig_def
        u s effect_simps refuse_def to_string_u_def)
qed

theorem repeater_response_typed_witness:
  "\<exists>response. HandleRepeaterRequest one_block_files no_codec split_slash (\<lambda>_. []) ()
      (ask 5 9 (MakeDevvUri sample_search)) ''d'' = Some (Inr response) \<and>
    response_ok (ask 5 9 (MakeDevvUri sample_search)) response"
  using repeater_response_typed [OF sample_search_answer] sample_search_answer by blast

theorem repeater_finds_no_transaction_witness:
  "fb_raw_transactions sample_final = [tx_canonical sample_t2] \<and> t2_getSignature sample_t2 = Inr (sample_sig 4) \<and>
   (\<exists>response. HandleRepeaterRequest one_block_files no_codec split_slash (\<lambda>_. []) ()
       (ask 5 9 (MakeDevvUri sample_search)) ''d'' = Some (Inr response) \<and>
     rs_raw_response response = [] \<and> rs_return_code response \<noteq> 0)"
  using repeater_finds_no_transaction [OF sample_search_answer] sample_search_answer
    t2_getSignature_parts [OF sample_t2_ok(1,3)]
  by (simp add: sample_final_def pb_getRawTransactions_def sample_t2_block_fields sample_t2_def)

end
