(* ===== verification/Repeater_Store.thy ===== *)
theory Repeater_Store
  imports Repeater
begin

text \<open>
  The two halves of the repeater together: what the listener writes is what the requests read. The
  hypotheses on the file system are \<open>file_laws\<close>, which an association list of paths satisfies.
\<close>

section \<open>What the program relies on\<close>

definition simple_name :: "string \<Rightarrow> bool" where
  "simple_name n = (n \<noteq> [] \<and> CHR ''/'' \<notin> set n)"

text \<open>Writing a file keeps the directories, changes the contents under its own name only and adds the name to
  the entries of its directory; a name exists in a directory when it is one of the entries; the stem of
  a name is the part before the extension.\<close>

definition write_law :: "'fs file_ops \<Rightarrow> 'fs \<Rightarrow> string \<Rightarrow> string \<Rightarrow> bytes \<Rightarrow> 'fs \<Rightarrow> bool" where
  "write_law F fs dir n d fs' =
     (f_is_directory F fs' dir = f_is_directory F fs dir \<and>
      (\<forall>n'. simple_name n' \<longrightarrow>
         f_read F fs' (dir @ ''/'' @ n') = (if n' = n then Some d else f_read F fs (dir @ ''/'' @ n'))) \<and>
      (\<forall>es. f_entries F fs dir = Some es \<longrightarrow>
         (\<exists>es'. f_entries F fs' dir = Some es' \<and> set es' = insert (dir @ ''/'' @ n) (set es))))"

definition file_laws :: "'fs file_ops \<Rightarrow> bool" where
  "file_laws F =
     ((\<forall>fs dir n d fs'. simple_name n \<longrightarrow> f_write F fs (dir @ ''/'' @ n) d = Some fs' \<longrightarrow> write_law F fs dir n d fs') \<and>
      (\<forall>fs dir es n. simple_name n \<longrightarrow> f_entries F fs dir = Some es \<longrightarrow>
         f_exists F fs (dir @ ''/'' @ n) = (dir @ ''/'' @ n \<in> set es)) \<and>
      (\<forall>dir n. simple_name n \<longrightarrow> CHR ''.'' \<notin> set n \<longrightarrow> f_stem F (dir @ ''/'' @ n @ ''.blk'') = n))"

section \<open>The directory of a shard\<close>

abbreviation shard_dir :: "string \<Rightarrow> string \<Rightarrow> string" where
  "shard_dir working_dir shard \<equiv> working_dir @ ''/'' @ shard"

abbreviation block_file :: "nat \<Rightarrow> string" where
  "block_file i \<equiv> nat_to_string i @ ''.blk''"

text \<open>The files of the blocks \<open>ds\<close> and nothing else.\<close>

definition stored :: "'fs file_ops \<Rightarrow> 'fs \<Rightarrow> string \<Rightarrow> bytes list \<Rightarrow> bool" where
  "stored F fs dir ds =
     (f_is_directory F fs dir \<and>
      (\<exists>es. f_entries F fs dir = Some es \<and> set es = (\<lambda>i. dir @ ''/'' @ block_file i) ` {..<length ds}) \<and>
      (\<forall>i < length ds. f_read F fs (dir @ ''/'' @ block_file i) = Some (ds ! i)))"

lemma nat_to_string_inj [simp]: "nat_to_string i = nat_to_string j \<longleftrightarrow> i = j"
  by (metis dec_value_to_string)

lemma digits_plain: "simple_name (block_file i)" "simple_name (nat_to_string i)" "CHR ''.'' \<notin> set (nat_to_string i)"
  using clean_to_string [of i] set_nat_to_string [of "CHR ''.''" i]
  by (auto simp: simple_name_def clean_def is_digit_def)

lemma block_path_file:
  "i < 2 ^ 32 \<Longrightarrow> block_path dir shard (of_nat i) = shard_dir dir shard @ ''/'' @ block_file i"
  by (simp add: block_path_def to_string_u_def unsigned_of_nat take_bit_nat_eq_self)

lemma stored_empty: "f_is_directory F fs dir \<Longrightarrow> f_entries F fs dir = Some [] \<Longrightarrow> stored F fs dir []"
  by (simp add: stored_def)

lemma stored_write:
  assumes "file_laws F" and "stored F fs dir ds"
    and "f_write F fs (dir @ ''/'' @ block_file (length ds)) d = Some fs'"
  shows "stored F fs' dir (ds @ [d])"
proof -
  have w: "write_law F fs dir (block_file (length ds)) d fs'"
    using assms(1,3) digits_plain(1) by (auto simp: file_laws_def)
  obtain es where es: "f_entries F fs dir = Some es" "set es = (\<lambda>i. dir @ ''/'' @ block_file i) ` {..<length ds}"
    using assms(2) by (auto simp: stored_def)
  obtain es' where "f_entries F fs' dir = Some es'" "set es' = insert (dir @ ''/'' @ block_file (length ds)) (set es)"
    using w es(1) by (auto simp: write_law_def)
  moreover have "f_read F fs' (dir @ ''/'' @ block_file i) = Some ((ds @ [d]) ! i)" if "i < Suc (length ds)" for i
    using w that assms(2) digits_plain(1) by (auto simp: write_law_def stored_def nth_append less_Suc_eq)
  ultimately show ?thesis
    using assms(2) w es(2) by (auto simp: stored_def write_law_def lessThan_Suc)
qed

lemma stored_read: "stored F fs (shard_dir dir shard) ds \<Longrightarrow> i < length ds \<Longrightarrow> i < 2 ^ 32 \<Longrightarrow>
   ReadBlock F fs shard (of_nat i) dir = Inr (ds ! i)"
  unfolding ReadBlock_def by (subst block_path_file) (auto simp: stored_def)

lemma stored_hasBlock:
  assumes "file_laws F" "stored F fs (shard_dir dir shard) ds" "i < 2 ^ 32"
  shows "hasBlock F fs shard (of_nat i) dir \<longleftrightarrow> i < length ds"
proof -
  obtain es where es: "f_entries F fs (shard_dir dir shard) = Some es"
    "set es = (\<lambda>i. shard_dir dir shard @ ''/'' @ block_file i) ` {..<length ds}"
    using assms(2) by (auto simp: stored_def)
  then have "f_exists F fs (shard_dir dir shard @ ''/'' @ block_file i) \<longleftrightarrow>
      shard_dir dir shard @ ''/'' @ block_file i \<in> set es"
    using assms(1) digits_plain(1) unfolding file_laws_def by blast
  then show ?thesis by (auto simp: hasBlock_def block_path_file [OF assms(3)] es(2))
qed

lemma highest_fold:
  assumes "\<forall>p \<in> set es. \<exists>i < 2 ^ 32. stem p = nat_to_string i"
  obtains r where "foldE (\<lambda>p highest. bindE (stoul (stem p)) (\<lambda>n. let some_block = ucast n in
      Inr (if some_block > highest then some_block else highest))) es (acc :: uint32) = Inr r"
    "acc \<le> r" "r = acc \<or> (\<exists>p \<in> set es. stem p = nat_to_string (unat r))"
    "\<forall>p \<in> set es. \<forall>i < 2 ^ 32. stem p = nat_to_string i \<longrightarrow> i \<le> unat r"
  using assms
proof (induction es arbitrary: acc thesis)
  case (Cons p es)
  obtain i where i: "i < 2 ^ 32" "stem p = nat_to_string i" using Cons.prems(2) by auto
  define m where "m = (if (of_nat i :: uint32) > acc then of_nat i else acc)"
  have u: "unat (of_nat i :: uint32) = i" using i(1) by (simp add: unsigned_of_nat take_bit_nat_eq_self)
  have n: "stoul (stem p) = Inr (of_nat i)" "ucast (of_nat i :: uint64) = (of_nat i :: uint32)"
    using i by (simp_all add: stoul_decimal word_unat_eq_iff unsigned_ucast_eq unsigned_of_nat take_bit_take_bit)
  obtain r where r: "foldE (\<lambda>p highest. bindE (stoul (stem p)) (\<lambda>n. let some_block = ucast n in
      Inr (if some_block > highest then some_block else highest))) es m = Inr r"
    "m \<le> r" "r = m \<or> (\<exists>p \<in> set es. stem p = nat_to_string (unat r))"
    "\<forall>p \<in> set es. \<forall>i < 2 ^ 32. stem p = nat_to_string i \<longrightarrow> i \<le> unat r"
    using Cons.IH [of m] Cons.prems(2) by auto
  have "acc \<le> m" "(of_nat i :: uint32) \<le> m" by (auto simp: m_def)
  then have "acc \<le> r" "i \<le> unat r" using r(2) u by (auto simp: word_le_nat_alt)
  moreover have "r = acc \<or> (\<exists>q \<in> set (p # es). stem q = nat_to_string (unat r))"
    using r(3) i(2) u by (auto simp: m_def split: if_splits)
  moreover have "foldE (\<lambda>p highest. bindE (stoul (stem p)) (\<lambda>n. let some_block = ucast n in
      Inr (if some_block > highest then some_block else highest))) (p # es) acc = Inr r"
    using r(1) by (simp only: foldE.simps n Let_def bindE_simps m_def [symmetric])
  moreover have "\<forall>q \<in> set (p # es). \<forall>i < 2 ^ 32. stem q = nat_to_string i \<longrightarrow> i \<le> unat r"
    using r(4) i(2) \<open>i \<le> unat r\<close> by auto
  ultimately show ?case by (intro Cons.prems(1) [of r])
qed auto

lemma stored_highest:
  assumes "file_laws F" "stored F fs (shard_dir dir shard) ds" "ds \<noteq> []" "length ds \<le> 2 ^ 32"
  shows "getHighestBlock F fs shard dir = Inr (of_nat (length ds - 1))"
proof -
  obtain es where es: "f_entries F fs (shard_dir dir shard) = Some es"
    "set es = (\<lambda>i. shard_dir dir shard @ ''/'' @ block_file i) ` {..<length ds}"
    using assms(2) by (auto simp: stored_def)
  have stem: "f_stem F (shard_dir dir shard @ ''/'' @ block_file i) = nat_to_string i" for i
    using assms(1) digits_plain(2,3) unfolding file_laws_def by blast
  have "\<forall>p \<in> set es. \<exists>i < 2 ^ 32. f_stem F p = nat_to_string i"
    using assms(4) stem by (force simp: es(2))
  then obtain r where r: "foldE (\<lambda>p highest. bindE (stoul (f_stem F p)) (\<lambda>n. let some_block = ucast n in
      Inr (if some_block > highest then some_block else highest))) es (0 :: uint32) = Inr r"
    "r = 0 \<or> (\<exists>p \<in> set es. f_stem F p = nat_to_string (unat r))"
    "\<forall>p \<in> set es. \<forall>i < 2 ^ 32. f_stem F p = nat_to_string i \<longrightarrow> i \<le> unat r"
    by (rule highest_fold [where stem = "f_stem F" and es = es and acc = 0]) blast+
  have "unat r < length ds" using r(2) assms(3) stem by (auto simp: es(2))
  moreover have "length ds - 1 \<le> unat r"
  proof -
    have "shard_dir dir shard @ ''/'' @ block_file (length ds - 1) \<in> set es"
      unfolding es(2) using assms(3) by (intro imageI) simp
    moreover have "length ds - 1 < 2 ^ 32" using assms(3,4) by (cases ds) auto
    ultimately show ?thesis using r(3) stem by blast
  qed
  ultimately have "length ds - 1 = unat r" by simp
  then have "r = of_nat (length ds - 1)" by simp
  then show ?thesis using es(1) r(1) by (simp add: getHighestBlock_def)
qed

section \<open>The listener\<close>

abbreviation final_data :: "DevcashMessage list \<Rightarrow> bytes list" where
  "final_data msgs \<equiv> map msg_data (filter (\<lambda>m. msg_type m = FINAL_BLOCK) msgs)"

text \<open>The file of the next block can always be written.\<close>

definition writable :: "'fs file_ops \<Rightarrow> string \<Rightarrow> bool" where
  "writable F dir =
     (\<forall>fs ds d. stored F fs dir ds \<longrightarrow> f_write F fs (dir @ ''/'' @ block_file (length ds)) d \<noteq> None)"

lemma callback_stores:
  assumes "file_laws F" "writable F (shard_dir dir (get_shard_uri ctx))"
    and "stored F fs (shard_dir dir (get_shard_uri ctx)) ds" "length ds + length (final_data msgs) < 2 ^ 32"
    and "[] \<notin> set (final_data msgs)"
  shows "\<exists>fs'. foldE (repeater_callback F ctx dir) msgs (fs, of_nat (length ds)) =
      Inr (fs', of_nat (length (ds @ final_data msgs))) \<and>
    stored F fs' (shard_dir dir (get_shard_uri ctx)) (ds @ final_data msgs)"
  using assms(3-5)
proof (induction msgs arbitrary: fs ds)
  case (Cons m msgs)
  let ?base = "shard_dir dir (get_shard_uri ctx)"
  show ?case
  proof (cases "msg_type m = FINAL_BLOCK")
    case True
    let ?d = "msg_data m"
    have len: "length ds < 2 ^ 32" using Cons.prems(2) True by simp
    obtain fs1 where w: "f_write F fs (?base @ ''/'' @ block_file (length ds)) ?d = Some fs1"
      using assms(2) Cons.prems(1) unfolding writable_def by blast
    have st: "stored F fs1 ?base (ds @ [?d])" using stored_write [OF assms(1) Cons.prems(1) w] .
    have "repeater_callback F ctx dir m (fs, of_nat (length ds)) = Inr (fs1, of_nat (length (ds @ [?d])))"
      using True w Cons.prems(1,3)
      by (auto simp: repeater_callback_def block_path_file [OF len] stored_def add.commute)
    then show ?thesis
      using Cons.IH [OF st] Cons.prems(2,3) True by simp
  next
    case False
    then have "repeater_callback F ctx dir m (fs, of_nat (length ds)) = Inr (fs, of_nat (length ds))"
      by (simp add: repeater_callback_def)
    then show ?thesis using Cons.IH [OF Cons.prems(1)] Cons.prems(2,3) False by simp
  qed
qed (simp add: assms(3))

section \<open>The requests\<close>

definition serves :: "(error + RepeaterResponse) option \<Rightarrow> RepeaterRequest \<Rightarrow> bytes \<Rightarrow> bool" where
  "serves r request raw = (r = Some (Inr ((response_start request)\<lparr>rs_raw_response := raw\<rparr>)))"

lemma append_raw_fold:
  "fold (\<lambda>k response. response\<lparr>rs_raw_response := rs_raw_response response @ f k\<rparr>) ks response =
   response\<lparr>rs_raw_response := rs_raw_response response @ concat (map f ks)\<rparr>"
  by (induction ks arbitrary: response) simp_all

lemma binary_loop_stored:
  assumes "stored F fs (shard_dir dir shard) ds" "a < length ds" "length ds < 2 ^ 32"
  shows "binary_loop F fs shard dir (of_nat a) (of_nat (length ds - 1)) response =
    Some (Returned (), response\<lparr>rs_raw_response := rs_raw_response response @ concat (drop a ds)\<rparr>)"
proof -
  let ?body = "\<lambda>i. bindM (liftM (ReadBlock F fs shard i dir)) (\<lambda>one_block.
      bindM (append_raw one_block) (\<lambda>_. returnM (None :: unit option)))"
  let ?f = "\<lambda>k response. response\<lparr>rs_raw_response := rs_raw_response response @ ds ! k\<rparr>"
  have "\<forall>k \<in> {a..length ds - 1}. \<forall>s. ?body (of_nat k) s = Some (Returned None, ?f k s)"
  proof (intro ballI allI)
    fix k s assume "k \<in> {a..length ds - 1}"
    then have "k < length ds" using assms(2) by auto
    then have "ReadBlock F fs shard (of_nat k) dir = Inr (ds ! k)" using stored_read [OF assms(1)] assms(3) by simp
    then show "?body (of_nat k) s = Some (Returned None, ?f k s)" by (simp add: effect_simps append_raw_def)
  qed
  then have "for_upto ?body (of_nat a) (of_nat (length ds - 1)) response =
      Some (Returned None, fold ?f [a..<Suc (length ds - 1)] response)"
    using assms(2,3) by (intro for_upto_fold) auto
  moreover have "Suc (length ds - 1) = length ds" using assms(2) by simp
  moreover have "map ((!) ds) [a..<length ds] = drop a ds"
    by (rule nth_equalityI) simp_all
  ultimately show ?thesis
    by (simp add: binary_loop_def effect_simps append_raw_fold del: upt_Suc)
qed

lemma clean_shard_uri: "clean (get_shard_uri ctx)"
proof -
  have "CHR ''s'' \<notin> set kWHITESPACE" using whitespace_codes [of "CHR ''s''"] by auto
  then show ?thesis
    using clean_to_string [of "unat (ctx_current_shard ctx)"] by (simp add: get_shard_uri_def clean_def to_string_u_def)
qed

lemma ParseDevvUri_shard:
  assumes "splits_at_slashes split_path" "clean shard"
  shows "ParseDevvUri split_path (MakeDevvUri_shard shard) = Inr (DevvUri_default\<lparr>uri_valid := True, uri_shard := shard\<rparr>)"
  using ParseDevvUri_parts [OF assms(1), of "DevvUri_default\<lparr>uri_valid := True, uri_shard := shard\<rparr>"] assms(2)
  by (simp add: uri_wf_def uri_parts_def DevvUri_default_def MakeDevvUri_shard_def)

lemma ParseDevvUri_block:
  assumes "splits_at_slashes split_path" "clean shard" "i < 2 ^ 32"
  shows "ParseDevvUri split_path (MakeDevvUri_block shard (of_nat i)) =
    Inr (DevvUri_default\<lparr>uri_valid := True, uri_shard := shard, uri_block_height := of_nat i\<rparr>)"
  using ParseDevvUri_height [OF assms(1,2), of i] assms(3)
  by (simp add: MakeDevvUri_block_def to_string_u_def unsigned_of_nat take_bit_nat_eq_self)

section \<open>Properties\<close>

text \<open>What a repeater that has stored the blocks \<open>ds\<close> of a shard answers.\<close>

definition answers_blocks ::
  "(RepeaterRequest \<Rightarrow> (error + RepeaterResponse) option) \<Rightarrow> string \<Rightarrow> bytes list \<Rightarrow> bool" where
  "answers_blocks handle shard ds =
     (\<forall>t. serves (handle (ask t 3 (MakeDevvUri_shard shard))) (ask t 3 (MakeDevvUri_shard shard)) (concat ds) \<and>
      (\<forall>i < 2 ^ 32 - 1.
         let uri = MakeDevvUri_block shard (of_nat i) in
         if i < length ds
         then serves (handle (ask t 1 uri)) (ask t 1 uri) (ds ! i) \<and>
              serves (handle (ask t 2 uri)) (ask t 2 uri) (concat (drop i ds))
         else \<forall>op. handle (ask t op uri) =
           Some (Inr ((response_start (ask t op uri))
             \<lparr>rs_return_code := 1050, rs_message := ''Block '' @ nat_to_string i @ '' is not available.''\<rparr>))))"

lemma stored_answers:
  assumes "file_laws F" "splits_at_slashes split_path" "clean shard"
    and "stored F fs (shard_dir dir shard) ds" "ds \<noteq> []" "length ds < 2 ^ 32 - 1"
  shows "answers_blocks (\<lambda>request. HandleRepeaterRequest F enc split_path what fs request dir) shard ds"
  unfolding answers_blocks_def serves_def Let_def
proof (intro allI conjI impI)
  fix t
  have hs: "hasShard F fs shard dir" using assms(4) by (simp add: hasShard_def stored_def)
  have high: "getHighestBlock F fs shard dir = Inr (of_nat (length ds - 1))"
    using stored_highest [OF assms(1,4,5)] assms(6) by simp
  note parse = ParseDevvUri_shard [OF assms(2,3)] ParseDevvUri_block [OF assms(2,3)]
  note checked = repeater_checked_ok hs repeater_switch_def whenM_def default_height
  show "HandleRepeaterRequest F enc split_path what fs (ask t 3 (MakeDevvUri_shard shard)) dir =
      Some (Inr (response_start (ask t 3 (MakeDevvUri_shard shard))\<lparr>rs_raw_response := concat ds\<rparr>))"
    using binary_loop_stored [OF assms(4), of 0 "response_start (ask t 3 (MakeDevvUri_shard shard))"] assms(5,6)
    by (intro HandleRepeaterRequest_Returned [where ident = "DevvUri_default\<lparr>uri_valid := True, uri_shard := shard\<rparr>"])
      (simp_all add: parse checked binary_chain_def effect_simps high)
  fix i :: nat assume i: "i < 2 ^ 32 - 1"
  have h: "(of_nat i :: uint32) \<noteq> UINT32_MAX"
    using i by (simp add: word_unat_eq_iff unsigned_of_nat take_bit_nat_eq_self)
  have hb: "hasBlock F fs shard (of_nat i) dir \<longleftrightarrow> i < length ds" using stored_hasBlock [OF assms(1,4)] i by simp
  let ?uri = "MakeDevvUri_block shard (of_nat i)"
  let ?id = "DevvUri_default\<lparr>uri_valid := True, uri_shard := shard, uri_block_height := of_nat i\<rparr>"
  show "if i < length ds
    then HandleRepeaterRequest F enc split_path what fs (ask t 1 ?uri) dir =
           Some (Inr (response_start (ask t 1 ?uri)\<lparr>rs_raw_response := ds ! i\<rparr>)) \<and>
         HandleRepeaterRequest F enc split_path what fs (ask t 2 ?uri) dir =
           Some (Inr (response_start (ask t 2 ?uri)\<lparr>rs_raw_response := concat (drop i ds)\<rparr>))
    else \<forall>op. HandleRepeaterRequest F enc split_path what fs (ask t op ?uri) dir =
      Some (Inr (response_start (ask t op ?uri)
        \<lparr>rs_return_code := 1050, rs_message := ''Block '' @ nat_to_string i @ '' is not available.''\<rparr>))"
  proof (cases "i < length ds")
    case True
    then have le: "(of_nat i :: uint32) \<le> of_nat (length ds - 1)"
      using assms(6) by (simp only: word_le_nat_alt unsigned_of_nat) (simp add: take_bit_nat_eq_self)
    have rd: "ReadBlock F fs shard (of_nat i) dir = Inr (ds ! i)" using stored_read [OF assms(4) True] i by simp
    have 1: "HandleRepeaterRequest F enc split_path what fs (ask t 1 ?uri) dir =
           Some (Inr (response_start (ask t 1 ?uri)\<lparr>rs_raw_response := ds ! i\<rparr>))"
      using True i h rd hb
      by (intro HandleRepeaterRequest_Returned [where ident = ?id])
        (simp_all add: parse checked binary_block_def need_height_def set_raw_def effect_simps)
    have 2: "HandleRepeaterRequest F enc split_path what fs (ask t 2 ?uri) dir =
           Some (Inr (response_start (ask t 2 ?uri)\<lparr>rs_raw_response := concat (drop i ds)\<rparr>))"
      using True i h hb le binary_loop_stored [OF assms(4) True, of "response_start (ask t 2 ?uri)"] assms(6)
      by (intro HandleRepeaterRequest_Returned [where ident = ?id])
        (simp_all add: parse checked binary_blocks_since_def effect_simps high)
    show ?thesis using True 1 2 by simp
  next
    case False
    have "HandleRepeaterRequest F enc split_path what fs (ask t op ?uri) dir =
      Some (Inr (response_start (ask t op ?uri)
        \<lparr>rs_return_code := 1050, rs_message := ''Block '' @ nat_to_string i @ '' is not available.''\<rparr>))" for op
      using False i h hb
      by (intro HandleRepeaterRequest_Returned [where ident = ?id])
        (simp_all add: parse repeater_checked_def hs refuse_def effect_simps to_string_u_def unsigned_of_nat take_bit_nat_eq_self)
    then show ?thesis using False by simp
  qed
qed

text \<open>C29. The blocks that the listener wrote are the blocks that the requests return. Starting with an empty
  directory of the shard and as long as the files can be written, after any sequence of messages the
  request for the chain returns the data of all final blocks in the order they came, the requests for a
  block or the blocks since a height return that block or the blocks from it on, and a height that is
  not there yet is refused.\<close>

theorem repeater_serves_stored_blocks:
  assumes "file_laws F" and "splits_at_slashes split_path"
    and "writable F (shard_dir working_dir (get_shard_uri ctx))"
    and "f_is_directory F fs (shard_dir working_dir (get_shard_uri ctx))"
    and "f_entries F fs (shard_dir working_dir (get_shard_uri ctx)) = Some []"
    and "final_data msgs \<noteq> []" and "[] \<notin> set (final_data msgs)" and "length (final_data msgs) < 2 ^ 32 - 1"
  shows "\<exists>fs'. foldE (repeater_callback F ctx working_dir) msgs (fs, 0) = Inr (fs', of_nat (length (final_data msgs))) \<and>
    answers_blocks (\<lambda>request. HandleRepeaterRequest F enc split_path what fs' request working_dir)
      (get_shard_uri ctx) (final_data msgs)"
proof -
  obtain fs' where "foldE (repeater_callback F ctx working_dir) msgs (fs, 0) = Inr (fs', of_nat (length (final_data msgs)))"
    "stored F fs' (shard_dir working_dir (get_shard_uri ctx)) (final_data msgs)"
    using callback_stores [OF assms(1,3) stored_empty [OF assms(4,5)], of msgs] assms(7,8) by auto
  then show ?thesis
    using stored_answers [OF assms(1,2) clean_shard_uri _ assms(6,8)] by blast
qed

text \<open>Files as an association list of paths: \<open>None\<close> is a directory.\<close>

type_synonym path_list = "(string \<times> bytes option) list"

definition file_name :: "string \<Rightarrow> string" where
  "file_name p = rev (takeWhile (\<lambda>c. c \<noteq> CHR ''/'') (rev p))"

definition path_files :: "path_list file_ops" where
  "path_files =
     \<lparr>f_is_directory = (\<lambda>fs p. map_of fs p = Some None),
      f_exists = (\<lambda>fs p. map_of fs p \<noteq> None),
      f_entries = (\<lambda>fs dir. if map_of fs dir = Some None
         then Some (filter (\<lambda>p. p = dir @ ''/'' @ file_name p \<and> file_name p \<noteq> []) (map fst fs)) else None),
      f_stem = (\<lambda>p. rev (tl (dropWhile (\<lambda>c. c \<noteq> CHR ''.'') (rev (file_name p))))),
      f_read = (\<lambda>fs p. case map_of fs p of Some (Some d) \<Rightarrow> Some d | _ \<Rightarrow> None),
      f_write = (\<lambda>fs p d. if map_of fs p = Some None then None else Some ((p, Some d) # fs))\<rparr>"

lemma file_name_append: "simple_name n \<Longrightarrow> file_name (dir @ ''/'' @ n) = n"
  by (simp add: file_name_def simple_name_def takeWhile_append)

lemma path_files_simps:
  "f_is_directory path_files fs p \<longleftrightarrow> map_of fs p = Some None" "f_exists path_files fs p \<longleftrightarrow> map_of fs p \<noteq> None"
  "f_write path_files fs p d = (if map_of fs p = Some None then None else Some ((p, Some d) # fs))"
  "f_read path_files fs p = (case map_of fs p of Some (Some d) \<Rightarrow> Some d | _ \<Rightarrow> None)"
  by (simp_all add: path_files_def)

lemma path_files_entries:
  "f_entries path_files fs dir = (if map_of fs dir = Some None
     then Some (filter (\<lambda>p. p = dir @ ''/'' @ file_name p \<and> file_name p \<noteq> []) (map fst fs)) else None)"
  by (simp add: path_files_def)

lemma file_laws_path_files: "file_laws path_files"
  unfolding file_laws_def
proof (intro conjI allI impI)
  fix fs dir n d fs'
  assume n: "simple_name n" and "f_write path_files fs (dir @ ''/'' @ n) d = Some fs'"
  then have fs': "fs' = (dir @ ''/'' @ n, Some d) # fs"
    by (simp add: path_files_simps split: if_splits)
  have "map_of fs' dir = map_of fs dir" by (simp add: fs')
  then show "write_law path_files fs dir n d fs'"
    using n by (auto simp: write_law_def path_files_simps path_files_entries fs' file_name_append [simplified] simple_name_def
        split: if_splits)
next
  fix fs dir es n assume "simple_name n" and "f_entries path_files fs dir = Some es"
  then show "f_exists path_files fs (dir @ ''/'' @ n) = (dir @ ''/'' @ n \<in> set es)"
    by (auto simp: path_files_simps path_files_entries file_name_append [simplified] simple_name_def map_of_eq_None_iff
        split: if_splits) force
next
  fix dir n assume "simple_name n" and "CHR ''.'' \<notin> set n"
  then show "f_stem path_files (dir @ ''/'' @ n @ ''.blk'') = n"
    using file_name_append [of "n @ ''.blk''" dir] by (simp add: path_files_def simple_name_def)
qed

lemma writable_path_files: "writable path_files dir"
  unfolding writable_def
proof (intro allI impI)
  fix fs ds d assume st: "stored path_files fs dir ds"
  then obtain es where "f_entries path_files fs dir = Some es"
    "set es = (\<lambda>i. dir @ ''/'' @ block_file i) ` {..<length ds}" by (auto simp: stored_def)
  then have "\<not> f_exists path_files fs (dir @ ''/'' @ block_file (length ds))"
    using file_laws_path_files digits_plain(1) unfolding file_laws_def by fastforce
  then show "f_write path_files fs (dir @ ''/'' @ block_file (length ds)) d \<noteq> None"
    by (simp add: path_files_simps)
qed

definition sample_blocks :: "DevcashMessage list" where
  "sample_blocks =
     [DevcashMessage_make ''shard-0'' FINAL_BLOCK [1, 2] 0, DevcashMessage_make ''shard-0'' VALID [3] 1,
      DevcashMessage_make ''shard-0'' FINAL_BLOCK [4] 2]"

definition sample_files :: path_list where
  "sample_files = [(''d/shard-0'', None)]"

theorem repeater_serves_stored_blocks_witness:
  "file_laws path_files \<and> splits_at_slashes split_slash \<and> writable path_files ''d/shard-0'' \<and>
   (\<exists>fs'. foldE (repeater_callback path_files sample_context ''d'') sample_blocks (sample_files, 0) = Inr (fs', 2) \<and>
     answers_blocks (\<lambda>request. HandleRepeaterRequest path_files no_codec split_slash (\<lambda>_. []) fs' request ''d'')
       ''shard-0'' [[1, 2], [4]])"
proof -
  have u: "get_shard_uri sample_context = ''shard-0''" 
    by (simp add: get_shard_uri_def to_string_u_def sample_context_def DevcashContext_make_def Let_def nat_to_string.simps) code_simp
  have d: "final_data sample_blocks = [[1, 2], [4]]" by (simp add: sample_blocks_def DevcashMessage_make_def)
  show ?thesis
    using repeater_serves_stored_blocks [OF file_laws_path_files splits_split_slash, of "''d''" sample_context sample_files
        sample_blocks no_codec "\<lambda>_. []"] writable_path_files [of "''d/shard-0''"]
    by (simp add: u d file_laws_path_files splits_split_slash path_files_simps path_files_entries sample_files_def)
qed

end
