(* ===== verification/Options.thy ===== *)
theory Options
  imports Tx_Creation "HOL-Library.List_Lexorder" "HOL-Library.Char_ord"
begin

text \<open>
  The command lines of the programs: \<^verbatim>\<open>common/argument_parser.h\<close> for the node and the \<^verbatim>\<open>Parse...Options\<close>
  functions of the other programs. The parsers of \<^verbatim>\<open>boost::program_options\<close> are arguments: \<open>cmd\<close> stores
  the command line in a map of variables, \<open>cfg\<close> the file of a given name, where \<open>None\<close> means that the
  file cannot be opened. Reading a variable with another type than it has throws \<^verbatim>\<open>bad_any_cast\<close>, which is
  a \<^verbatim>\<open>std::exception\<close>. A parser that gives up returns a null pointer, the value \<open>None\<close>.
\<close>

section \<open>Variables\<close>

datatype opt_value =
  OptString string | OptUInt uint32 | OptUInt64 uint64 | OptBool bool | OptStrings "string list" | OptFlag

type_synonym variables_map = "string \<rightharpoonup> opt_value"

fun as_string :: "opt_value \<Rightarrow> error + string" where
  "as_string (OptString s) = Inr s"
| "as_string v = Inl StdException"

fun as_uint :: "opt_value \<Rightarrow> error + uint32" where
  "as_uint (OptUInt n) = Inr n"
| "as_uint v = Inl StdException"

fun as_uint64 :: "opt_value \<Rightarrow> error + uint64" where
  "as_uint64 (OptUInt64 n) = Inr n"
| "as_uint64 v = Inl StdException"

fun as_bool :: "opt_value \<Rightarrow> error + bool" where
  "as_bool (OptBool b) = Inr b"
| "as_bool v = Inl StdException"

fun as_strings :: "opt_value \<Rightarrow> error + string list" where
  "as_strings (OptStrings xs) = Inr xs"
| "as_strings v = Inl StdException"

text \<open>\<^verbatim>\<open>if (vm.count(name)) x = vm[name].as<T>(); else x = d;\<close>\<close>

definition opt :: "(opt_value \<Rightarrow> error + 'a) \<Rightarrow> variables_map \<Rightarrow> string \<Rightarrow> 'a \<Rightarrow> error + 'a" where
  "opt get vm name d = (case vm name of None \<Rightarrow> Inr d | Some v \<Rightarrow> get v)"

datatype eDebugMode = dbg_off | dbg_on | dbg_toy | dbg_perf

definition opt_mode :: "variables_map \<Rightarrow> eAppMode \<Rightarrow> error + eAppMode" where
  "opt_mode vm d =
     (case vm ''mode'' of
        None \<Rightarrow> Inr d
      | Some v \<Rightarrow>
          bindE (as_string v) (\<lambda>mode.
          if mode = ''SCAN'' then Inr mode_scan
          else if mode = ''T1'' then Inr mode_T1
          else if mode = ''T2'' then Inr mode_T2
          else Inr d))"

text \<open>The offline programs know the mode \<^verbatim>\<open>perf\<close>, the servers do not.\<close>

definition opt_debug :: "bool \<Rightarrow> variables_map \<Rightarrow> error + eDebugMode" where
  "opt_debug with_perf vm =
     (case vm ''debug-mode'' of
        None \<Rightarrow> Inr dbg_off
      | Some v \<Rightarrow>
          bindE (as_string v) (\<lambda>debug_mode.
          if debug_mode = ''on'' then Inr dbg_on
          else if debug_mode = ''toy'' then Inr dbg_toy
          else if with_perf \<and> debug_mode = ''perf'' then Inr dbg_perf
          else Inr dbg_off))"

section \<open>Storing\<close>

text \<open>The \<^verbatim>\<open>catch\<close> clause of the parsers.\<close>

definition null_on_exception :: "error + 'a option \<Rightarrow> error + 'a option" where
  "null_on_exception r = (case r of Inl e \<Rightarrow> if is_std_exception e then Inr None else Inl e | Inr x \<Rightarrow> Inr x)"

definition store_once :: "(variables_map \<Rightarrow> error + variables_map) \<Rightarrow> error + variables_map option" where
  "store_once cmd = bindE (cmd Map.empty) (\<lambda>vm. Inr (if vm ''help'' \<noteq> None then None else Some vm))"

fun store_files ::
  "(string \<Rightarrow> (variables_map \<Rightarrow> error + variables_map) option) \<Rightarrow> string list \<Rightarrow> variables_map
   \<Rightarrow> error + variables_map option" where
  "store_files cfg [] vm = Inr (Some vm)"
| "store_files cfg (name # names) vm =
     (case cfg name of None \<Rightarrow> Inr None | Some store \<Rightarrow> bindE (store vm) (\<lambda>vm. store_files cfg names vm))"

text \<open>Command line, configuration files, command line.\<close>

definition store_options ::
  "(variables_map \<Rightarrow> error + variables_map) \<Rightarrow> (string \<Rightarrow> (variables_map \<Rightarrow> error + variables_map) option)
   \<Rightarrow> error + variables_map option" where
  "store_options cmd cfg =
     bindE (cmd Map.empty) (\<lambda>vm.
     if vm ''help'' \<noteq> None then Inr None
     else
       bindE (case vm ''config'' of
                None \<Rightarrow> Inr (Some vm)
              | Some v \<Rightarrow> bindE (as_strings v) (\<lambda>config_filenames. store_files cfg config_filenames vm)) (\<lambda>r.
       case r of
         None \<Rightarrow> Inr None
       | Some vm \<Rightarrow> bindE (cmd vm) (\<lambda>vm. Inr (Some vm))))"

definition parse_options ::
  "error + variables_map option \<Rightarrow> (variables_map \<Rightarrow> error + 'a) \<Rightarrow> error + 'a option" where
  "parse_options stored fill =
     null_on_exception (bindE stored (\<lambda>r. case r of None \<Rightarrow> Inr None | Some vm \<Rightarrow> bindE (fill vm) (\<lambda>x. Inr (Some x))))"

section \<open>The node\<close>

text \<open>\<^verbatim>\<open>std::sort\<close> and \<^verbatim>\<open>std::unique\<close>.\<close>

definition RemoveDuplicates :: "'a::linorder list \<Rightarrow> 'a list" where
  "RemoveDuplicates vec = remdups_adj (sort vec)"

record devcash_options =
  dvo_bind_endpoint :: string
  dvo_host_vector :: "string list"
  dvo_mode :: eAppMode
  dvo_node_index :: uint32
  dvo_shard_index :: uint32
  dvo_num_consensus_threads :: uint32
  dvo_num_validator_threads :: uint32
  dvo_batch_size :: uint32
  dvo_max_wait :: uint32
  dvo_syslog_port :: uint32
  dvo_working_dir :: string
  dvo_trace_file :: string
  dvo_inn_keys :: string
  dvo_node_keys :: string
  dvo_key_pass :: string
  dvo_stop_file :: string
  dvo_syslog_host :: string
  dvo_debug_mode :: eDebugMode

definition fill_devcash :: "variables_map \<Rightarrow> error + devcash_options" where
  "fill_devcash vm =
     bindE (opt_mode vm mode_T1) (\<lambda>mode.
     bindE (opt_debug False vm) (\<lambda>debug_mode.
     bindE (opt as_uint vm ''node-index'' 0) (\<lambda>node_index.
     bindE (opt as_uint vm ''shard-index'' 0) (\<lambda>shard_index.
     bindE (opt as_uint vm ''num-consensus-threads'' 10) (\<lambda>num_consensus_threads.
     bindE (opt as_uint vm ''num-validator-threads'' 10) (\<lambda>num_validator_threads.
     bindE (opt as_uint vm ''tx-batch-size'' 10000) (\<lambda>batch_size.
     bindE (opt as_uint vm ''max-wait'' 0) (\<lambda>max_wait.
     bindE (opt as_string vm ''bind-endpoint'' []) (\<lambda>bind_endpoint.
     bindE (opt as_strings vm ''host-list'' []) (\<lambda>hosts.
     bindE (opt as_string vm ''working-dir'' []) (\<lambda>working_dir.
     bindE (opt as_string vm ''trace-output'' []) (\<lambda>trace_file.
     bindE (opt as_string vm ''inn-keys'' []) (\<lambda>inn_keys.
     bindE (opt as_string vm ''node-keys'' []) (\<lambda>node_keys.
     bindE (opt as_string vm ''key-pass'' []) (\<lambda>key_pass.
     bindE (opt as_string vm ''stop-file'' []) (\<lambda>stop_file.
     bindE (opt as_string vm ''syslog-host'' []) (\<lambda>syslog_host.
     bindE (opt as_uint vm ''syslog-port'' 514) (\<lambda>syslog_port.
     Inr \<lparr>dvo_bind_endpoint = bind_endpoint, dvo_host_vector = RemoveDuplicates hosts, dvo_mode = mode,
          dvo_node_index = node_index, dvo_shard_index = shard_index,
          dvo_num_consensus_threads = num_consensus_threads, dvo_num_validator_threads = num_validator_threads,
          dvo_batch_size = batch_size, dvo_max_wait = max_wait, dvo_syslog_port = syslog_port,
          dvo_working_dir = working_dir, dvo_trace_file = trace_file, dvo_inn_keys = inn_keys,
          dvo_node_keys = node_keys, dvo_key_pass = key_pass, dvo_stop_file = stop_file,
          dvo_syslog_host = syslog_host, dvo_debug_mode = debug_mode\<rparr>))))))))))))))))))"

definition ParseDevcashOptions ::
  "(variables_map \<Rightarrow> error + variables_map) \<Rightarrow> (string \<Rightarrow> (variables_map \<Rightarrow> error + variables_map) option)
   \<Rightarrow> error + devcash_options option" where
  "ParseDevcashOptions cmd cfg = parse_options (store_options cmd cfg) fill_devcash"

section \<open>The generators of transactions\<close>

record generator_options =
  gno_mode :: eAppMode
  gno_node_index :: uint32
  gno_shard_index :: uint32
  gno_write_file :: string
  gno_inn_keys :: string
  gno_node_keys :: string
  gno_wallet_keys :: string
  gno_key_pass :: string
  gno_generate_count :: uint32
  gno_tx_amount :: uint64
  gno_debug_mode :: eDebugMode

record circuit_options = generator_options +
  cio_clear_state :: bool

text \<open>What the three parsers have in common.\<close>

definition fill_generator :: "variables_map \<Rightarrow> error + generator_options" where
  "fill_generator vm =
     bindE (opt_mode vm mode_T1) (\<lambda>mode.
     bindE (opt_debug True vm) (\<lambda>debug_mode.
     bindE (opt as_uint vm ''node-index'' 0) (\<lambda>node_index.
     bindE (opt as_uint vm ''shard-index'' 0) (\<lambda>shard_index.
     bindE (opt as_string vm ''output'' []) (\<lambda>write_file.
     bindE (opt as_string vm ''inn-keys'' []) (\<lambda>inn_keys.
     bindE (opt as_string vm ''node-keys'' []) (\<lambda>node_keys.
     bindE (opt as_string vm ''wallet-keys'' []) (\<lambda>wallet_keys.
     bindE (opt as_string vm ''key-pass'' []) (\<lambda>key_pass.
     bindE (opt as_uint vm ''generate-tx'' 0) (\<lambda>generate_count.
     bindE (opt as_uint64 vm ''tx-amount'' 3210123) (\<lambda>tx_amount.
     Inr \<lparr>gno_mode = mode, gno_node_index = node_index, gno_shard_index = shard_index,
          gno_write_file = write_file, gno_inn_keys = inn_keys, gno_node_keys = node_keys,
          gno_wallet_keys = wallet_keys, gno_key_pass = key_pass, gno_generate_count = generate_count,
          gno_tx_amount = tx_amount, gno_debug_mode = debug_mode\<rparr>)))))))))))"

definition ParseLaminarOptions :: "(variables_map \<Rightarrow> error + variables_map) \<Rightarrow> error + generator_options option" where
  "ParseLaminarOptions cmd = parse_options (store_once cmd) fill_generator"

definition ParseTurbulentOptions :: "(variables_map \<Rightarrow> error + variables_map) \<Rightarrow> error + generator_options option" where
  "ParseTurbulentOptions cmd = parse_options (store_once cmd) fill_generator"

definition ParseCircuitOptions :: "(variables_map \<Rightarrow> error + variables_map) \<Rightarrow> error + circuit_options option" where
  "ParseCircuitOptions cmd =
     parse_options (store_once cmd) (\<lambda>vm.
       bindE (fill_generator vm) (\<lambda>options.
       bindE (opt as_bool vm ''clear-state'' True) (\<lambda>clear_state.
       Inr (generator_options.extend options (circuit_options.fields clear_state)))))"

section \<open>The readers of files\<close>

record scanner_options =
  sco_mode :: eAppMode
  sco_working_dir :: string
  sco_write_file :: string
  sco_address_filter :: string
  sco_debug_mode :: eDebugMode
  sco_version :: uint32

text \<open>The option \<^verbatim>\<open>expect-version\<close> is declared without a value.\<close>

definition fill_scanner :: "variables_map \<Rightarrow> error + scanner_options" where
  "fill_scanner vm =
     bindE (opt_mode vm mode_T1) (\<lambda>mode.
     bindE (opt_debug True vm) (\<lambda>debug_mode.
     bindE (opt as_string vm ''working-dir'' []) (\<lambda>working_dir.
     bindE (opt as_string vm ''filter-by-address'' []) (\<lambda>address_filter.
     bindE (opt as_string vm ''output'' []) (\<lambda>write_file.
     bindE (opt as_uint vm ''expect-version'' 0) (\<lambda>version.
     Inr \<lparr>sco_mode = mode, sco_working_dir = working_dir, sco_write_file = write_file,
          sco_address_filter = address_filter, sco_debug_mode = debug_mode, sco_version = version\<rparr>))))))"

definition ParseScannerOptions :: "(variables_map \<Rightarrow> error + variables_map) \<Rightarrow> error + scanner_options option" where
  "ParseScannerOptions cmd = parse_options (store_once cmd) fill_scanner"

text \<open>The identity of a node, which the remaining programs share.\<close>

record node_identity =
  nid_mode :: eAppMode
  nid_node_index :: uint32
  nid_shard_index :: uint32
  nid_inn_keys :: string
  nid_node_keys :: string
  nid_key_pass :: string
  nid_debug_mode :: eDebugMode

definition fill_identity :: "bool \<Rightarrow> variables_map \<Rightarrow> error + node_identity" where
  "fill_identity with_perf vm =
     bindE (opt_mode vm mode_T1) (\<lambda>mode.
     bindE (opt_debug with_perf vm) (\<lambda>debug_mode.
     bindE (opt as_uint vm ''node-index'' 0) (\<lambda>node_index.
     bindE (opt as_uint vm ''shard-index'' 0) (\<lambda>shard_index.
     bindE (opt as_string vm ''inn-keys'' []) (\<lambda>inn_keys.
     bindE (opt as_string vm ''node-keys'' []) (\<lambda>node_keys.
     bindE (opt as_string vm ''key-pass'' []) (\<lambda>key_pass.
     Inr \<lparr>nid_mode = mode, nid_node_index = node_index, nid_shard_index = shard_index, nid_inn_keys = inn_keys,
          nid_node_keys = node_keys, nid_key_pass = key_pass, nid_debug_mode = debug_mode\<rparr>)))))))"

record verifier_options = node_identity +
  veo_working_dir :: string

definition ParseVerifierOptions :: "(variables_map \<Rightarrow> error + variables_map) \<Rightarrow> error + verifier_options option" where
  "ParseVerifierOptions cmd =
     parse_options (store_once cmd) (\<lambda>vm.
       bindE (fill_identity True vm) (\<lambda>options.
       bindE (opt as_string vm ''working-dir'' []) (\<lambda>working_dir.
       Inr (node_identity.extend options (verifier_options.fields working_dir)))))"

section \<open>The announcers\<close>

record announcer_options = node_identity +
  ano_bind_endpoint :: string
  ano_working_dir :: string
  ano_stop_file :: string
  ano_batch_size :: uint32
  ano_start_delay :: uint32
  ano_sleep_ms :: uint32
  ano_distinct_ops :: bool

definition ParseAnnouncerOptions ::
  "(variables_map \<Rightarrow> error + variables_map) \<Rightarrow> (string \<Rightarrow> (variables_map \<Rightarrow> error + variables_map) option)
   \<Rightarrow> error + announcer_options option" where
  "ParseAnnouncerOptions cmd cfg =
     parse_options (store_options cmd cfg) (\<lambda>vm.
       bindE (fill_identity False vm) (\<lambda>options.
       bindE (opt as_string vm ''bind-endpoint'' []) (\<lambda>bind_endpoint.
       bindE (opt as_string vm ''working-dir'' []) (\<lambda>working_dir.
       bindE (opt as_string vm ''stop-file'' []) (\<lambda>stop_file.
       bindE (opt as_uint vm ''tx-batch-size'' 0) (\<lambda>batch_size.
       bindE (opt as_uint vm ''start-delay'' 0) (\<lambda>start_delay.
       bindE (opt as_uint vm ''sleep-ms'' 0) (\<lambda>sleep_ms.
       bindE (opt as_bool vm ''separate-ops'' False) (\<lambda>distinct_ops.
       Inr (node_identity.extend options
         (announcer_options.fields bind_endpoint working_dir stop_file batch_size start_delay sleep_ms distinct_ops)))))))))))"

record pb_announcer_options = node_identity +
  pao_bind_endpoint :: string
  pao_protobuf_endpoint :: string
  pao_stop_file :: string
  pao_start_delay :: uint32
  pao_distinct_ops :: bool

definition ParsePbAnnouncerOptions ::
  "(variables_map \<Rightarrow> error + variables_map) \<Rightarrow> (string \<Rightarrow> (variables_map \<Rightarrow> error + variables_map) option)
   \<Rightarrow> error + pb_announcer_options option" where
  "ParsePbAnnouncerOptions cmd cfg =
     parse_options (store_options cmd cfg) (\<lambda>vm.
       bindE (fill_identity False vm) (\<lambda>options.
       bindE (opt as_string vm ''bind-endpoint'' []) (\<lambda>bind_endpoint.
       bindE (opt as_string vm ''protobuf-endpoint'' []) (\<lambda>protobuf_endpoint.
       bindE (opt as_string vm ''stop-file'' []) (\<lambda>stop_file.
       bindE (opt as_uint vm ''start-delay'' 0) (\<lambda>start_delay.
       bindE (opt as_bool vm ''separate-ops'' False) (\<lambda>distinct_ops.
       Inr (node_identity.extend options
         (pb_announcer_options.fields bind_endpoint protobuf_endpoint stop_file start_delay distinct_ops)))))))))"

section \<open>The repeaters\<close>

record repeater_options = node_identity +
  rpo_host_vector :: "string list"
  rpo_protobuf_endpoint :: string
  rpo_working_dir :: string
  rpo_stop_file :: string

definition ParseRepeaterOptions ::
  "(variables_map \<Rightarrow> error + variables_map) \<Rightarrow> (string \<Rightarrow> (variables_map \<Rightarrow> error + variables_map) option)
   \<Rightarrow> error + repeater_options option" where
  "ParseRepeaterOptions cmd cfg =
     parse_options (store_options cmd cfg) (\<lambda>vm.
       bindE (fill_identity False vm) (\<lambda>options.
       bindE (opt as_strings vm ''host-list'' []) (\<lambda>host_vector.
       bindE (opt as_string vm ''protobuf-endpoint'' []) (\<lambda>protobuf_endpoint.
       bindE (opt as_string vm ''working-dir'' []) (\<lambda>working_dir.
       bindE (opt as_string vm ''stop-file'' []) (\<lambda>stop_file.
       Inr (node_identity.extend options
         (repeater_options.fields host_vector protobuf_endpoint working_dir stop_file))))))))"

record db_repeater_options = node_identity +
  dbo_host_vector :: "string list"
  dbo_stop_file :: string
  dbo_db_user :: string
  dbo_db_pass :: string
  dbo_db_host :: string
  dbo_db_name :: string
  dbo_db_port :: uint32

definition ParseDbRepeaterOptions ::
  "(variables_map \<Rightarrow> error + variables_map) \<Rightarrow> (string \<Rightarrow> (variables_map \<Rightarrow> error + variables_map) option)
   \<Rightarrow> error + db_repeater_options option" where
  "ParseDbRepeaterOptions cmd cfg =
     parse_options (store_options cmd cfg) (\<lambda>vm.
       bindE (fill_identity False vm) (\<lambda>options.
       bindE (opt as_strings vm ''host-list'' []) (\<lambda>host_vector.
       bindE (opt as_string vm ''stop-file'' []) (\<lambda>stop_file.
       bindE (opt as_string vm ''update-host'' []) (\<lambda>db_host.
       bindE (opt as_string vm ''update-db'' []) (\<lambda>db_name.
       bindE (opt as_string vm ''update-user'' []) (\<lambda>db_user.
       bindE (opt as_string vm ''update-pass'' []) (\<lambda>db_pass.
       bindE (opt as_uint vm ''update-port'' 5432) (\<lambda>db_port.
       Inr (node_identity.extend options
         (db_repeater_options.fields host_vector stop_file db_user db_pass db_host db_name db_port)))))))))))"

section \<open>The signer\<close>

record devvsign_options =
  dso_envelope_file :: string
  dso_key_file :: string
  dso_key_pass :: string
  dso_quiet_mode :: bool

definition need_option :: "variables_map \<Rightarrow> string \<Rightarrow> string \<Rightarrow> error + string" where
  "need_option vm name message = (case vm name of None \<Rightarrow> Inl (RuntimeError message) | Some v \<Rightarrow> as_string v)"

text \<open>This parser has no \<^verbatim>\<open>catch\<close> clause; its caller has one.\<close>

definition ParseDevvsignOptions :: "(variables_map \<Rightarrow> error + variables_map) \<Rightarrow> error + devvsign_options option" where
  "ParseDevvsignOptions cmd =
     bindE (store_once cmd) (\<lambda>r. case r of
       None \<Rightarrow> Inr None
     | Some vm \<Rightarrow>
         bindE (need_option vm ''envelope-file'' ''An Envelope file must be specified.'') (\<lambda>envelope_file.
         bindE (need_option vm ''private-key'' ''Private key file was not set'') (\<lambda>key_file.
         bindE (need_option vm ''key-pass'' ''Key pass was not set.'') (\<lambda>key_pass.
         Inr (Some \<lparr>dso_envelope_file = envelope_file, dso_key_file = key_file, dso_key_pass = key_pass,
                    dso_quiet_mode = (vm ''quiet-mode'' \<noteq> None)\<rparr>)))))"

section \<open>Lemmas\<close>

lemma distinct_remdups_adj_sorted: "sorted xs \<Longrightarrow> distinct (remdups_adj xs)"
  by (induction xs rule: remdups_adj.induct) auto

lemma RemoveDuplicates_spec:
  "sorted (RemoveDuplicates xs) \<and> distinct (RemoveDuplicates xs) \<and> set (RemoveDuplicates xs) = set xs"
  by (simp add: RemoveDuplicates_def sorted_remdups_adj distinct_remdups_adj_sorted)

lemma bindE_eq_Inl: "bindE m f = Inl e \<longleftrightarrow> m = Inl e \<or> (\<exists>x. m = Inr x \<and> f x = Inl e)"
  by (cases m) auto

lemma as_errors:
  "as_string v = Inl e \<Longrightarrow> e = StdException" "as_uint v = Inl e \<Longrightarrow> e = StdException"
  "as_uint64 v = Inl e \<Longrightarrow> e = StdException" "as_bool v = Inl e \<Longrightarrow> e = StdException"
  "as_strings v = Inl e \<Longrightarrow> e = StdException"
  by (cases v; simp)+

lemma opt_errors:
  "opt as_string vm n s = Inl e \<Longrightarrow> e = StdException" "opt as_uint vm n u = Inl e \<Longrightarrow> e = StdException"
  "opt as_uint64 vm n w = Inl e \<Longrightarrow> e = StdException" "opt as_bool vm n b = Inl e \<Longrightarrow> e = StdException"
  "opt as_strings vm n xs = Inl e \<Longrightarrow> e = StdException" "opt_mode vm m = Inl e \<Longrightarrow> e = StdException"
  "opt_debug p vm = Inl e \<Longrightarrow> e = StdException"
  by (auto simp: opt_def opt_mode_def opt_debug_def bindE_eq_Inl dest: as_errors split: option.splits if_splits)

text \<open>The option that names the expected version of the blocks cannot be used: its value is a flag, and reading
  it as a number throws.\<close>

lemma scanner_version_unusable:
  assumes "cmd Map.empty = Inr vm" and "vm ''help'' = None" and "vm ''expect-version'' = Some OptFlag"
  shows "ParseScannerOptions cmd = Inr None"
proof -
  have "opt as_uint vm ''expect-version'' 0 = Inl StdException" using assms(3) by (simp add: opt_def)
  then have "fill_scanner vm = Inl StdException"
    by (cases "opt_mode vm mode_T1"; cases "opt_debug True vm"; cases "opt as_string vm ''working-dir'' []";
        cases "opt as_string vm ''filter-by-address'' []"; cases "opt as_string vm ''output'' []")
      (auto simp: fill_scanner_def dest: opt_errors)
  then show ?thesis
    using assms(1,2) by (simp add: ParseScannerOptions_def parse_options_def store_once_def null_on_exception_def)
qed

section \<open>Properties\<close>

definition throws_std :: "error + 'a \<Rightarrow> bool" where
  "throws_std r = (\<forall>e. r = Inl e \<longrightarrow> is_std_exception e)"

lemma throws_std_intros [intro]:
  "throws_std (Inr x)" "throws_std m \<Longrightarrow> (\<And>x. throws_std (f x)) \<Longrightarrow> throws_std (bindE m f)"
  "throws_std (opt as_string vm n s)" "throws_std (opt as_uint vm n u)" "throws_std (opt as_uint64 vm n w)"
  "throws_std (opt as_bool vm n b)" "throws_std (opt as_strings vm n xs)" "throws_std (opt_mode vm d)"
  "throws_std (opt_debug p vm)"
  by (auto simp: throws_std_def bindE_eq_Inl dest: opt_errors)

lemma throws_std_files:
  "\<forall>name store vm. cfg name = Some store \<longrightarrow> throws_std (store vm) \<Longrightarrow> throws_std (store_files cfg names vm)"
  by (induction names arbitrary: vm) (auto split: option.splits)

lemma throws_std_store:
  assumes "\<forall>vm. throws_std (cmd vm)" and "\<forall>name store vm. cfg name = Some store \<longrightarrow> throws_std (store vm)"
  shows "throws_std (store_once cmd)" "throws_std (store_options cmd cfg)"
proof -
  show "throws_std (store_once cmd)" unfolding store_once_def using assms(1) by (intro throws_std_intros) auto
  have "throws_std (as_strings v)" for v by (auto simp: throws_std_def dest: as_errors)
  then show "throws_std (store_options cmd cfg)"
    unfolding store_options_def using assms throws_std_files [OF assms(2)]
    by (auto split: option.splits intro!: throws_std_intros)
qed

lemma parse_options_total:
  assumes "throws_std stored" and "\<And>vm. throws_std (fill vm)"
  shows "\<exists>r. parse_options stored fill = Inr r"
  using assms
  by (cases stored) (auto simp: parse_options_def null_on_exception_def throws_std_def bindE_eq_Inl split: sum.splits option.splits)

lemma fill_std: "throws_std (fill_devcash vm)" "throws_std (fill_generator vm)" "throws_std (fill_scanner vm)" "throws_std (fill_identity p vm)"
  unfolding fill_devcash_def fill_generator_def fill_scanner_def fill_identity_def by (intro throws_std_intros)+

text \<open>As long as the library throws only standard exceptions, the parsers of the programs return, with the
  options or a null pointer, for every command line and every configuration file; the one of the signer lets
  the exceptions pass. A scanner that is told which version to expect always gets the null pointer. A
  mode that is not one of the three upper case names keeps the default, also the name that the help
  text gives.\<close>

theorem option_parsers_total:
  assumes "\<forall>vm. throws_std (cmd vm)" and "\<forall>name store vm. cfg name = Some store \<longrightarrow> throws_std (store vm)"
  shows "(\<exists>r. ParseDevcashOptions cmd cfg = Inr r) \<and> (\<exists>r. ParseAnnouncerOptions cmd cfg = Inr r) \<and>
    (\<exists>r. ParsePbAnnouncerOptions cmd cfg = Inr r) \<and> (\<exists>r. ParseRepeaterOptions cmd cfg = Inr r) \<and>
    (\<exists>r. ParseDbRepeaterOptions cmd cfg = Inr r) \<and> (\<exists>r. ParseLaminarOptions cmd = Inr r) \<and>
    (\<exists>r. ParseCircuitOptions cmd = Inr r) \<and> (\<exists>r. ParseTurbulentOptions cmd = Inr r) \<and>
    (\<exists>r. ParseVerifierOptions cmd = Inr r) \<and>
    (\<exists>r. ParseScannerOptions cmd = Inr r \<and>
       (\<forall>vm. cmd Map.empty = Inr vm \<longrightarrow> vm ''expect-version'' = Some OptFlag \<longrightarrow> r = None)) \<and>
    (cmd Map.empty = Inr Map.empty \<longrightarrow>
       ParseDevvsignOptions cmd = Inl (RuntimeError ''An Envelope file must be specified.'')) \<and>
    opt_mode [''mode'' \<mapsto> OptString ''scan''] mode_T1 = Inr mode_T1"
proof -
  note st = throws_std_store [OF assms]
  have scan: "ParseScannerOptions cmd = Inr None" if "cmd Map.empty = Inr vm" "vm ''expect-version'' = Some OptFlag" for vm
    using that scanner_version_unusable [of cmd vm]
    by (cases "vm ''help''") (auto simp: ParseScannerOptions_def parse_options_def store_once_def null_on_exception_def)
  obtain r where r: "ParseScannerOptions cmd = Inr r"
    using parse_options_total [of "store_once cmd" fill_scanner] st(1) fill_std(3) by (auto simp: ParseScannerOptions_def)
  have "\<exists>r. ParseDevcashOptions cmd cfg = Inr r" "\<exists>r. ParseAnnouncerOptions cmd cfg = Inr r"
    "\<exists>r. ParsePbAnnouncerOptions cmd cfg = Inr r" "\<exists>r. ParseRepeaterOptions cmd cfg = Inr r"
    "\<exists>r. ParseDbRepeaterOptions cmd cfg = Inr r" "\<exists>r. ParseLaminarOptions cmd = Inr r"
    "\<exists>r. ParseCircuitOptions cmd = Inr r" "\<exists>r. ParseTurbulentOptions cmd = Inr r"
    "\<exists>r. ParseVerifierOptions cmd = Inr r"
    unfolding ParseDevcashOptions_def ParseAnnouncerOptions_def ParsePbAnnouncerOptions_def ParseRepeaterOptions_def
      ParseDbRepeaterOptions_def ParseLaminarOptions_def ParseCircuitOptions_def ParseTurbulentOptions_def
      ParseVerifierOptions_def
    by (intro parse_options_total st throws_std_intros fill_std)+
  moreover have "ParseDevvsignOptions cmd = Inl (RuntimeError ''An Envelope file must be specified.'')"
    if "cmd Map.empty = Inr Map.empty"
    using that by (simp add: ParseDevvsignOptions_def store_once_def need_option_def)
  moreover have "opt_mode [''mode'' \<mapsto> OptString ''scan''] mode_T1 = Inr mode_T1" by (simp add: opt_mode_def)
  ultimately show ?thesis using r scan by auto
qed

theorem option_parsers_total_witness:
  "\<exists>cmd cfg. throws_std (cmd Map.empty) \<and> (\<exists>r. ParseDevcashOptions cmd cfg = Inr r) \<and> ParseScannerOptions cmd = Inr None"
proof (intro exI)
  let ?cmd = "\<lambda>vm. Inr (vm(''expect-version'' \<mapsto> OptFlag)) :: error + variables_map" and ?cfg = "\<lambda>_ :: string. None"
  have "\<forall>vm. throws_std (?cmd vm)" "\<forall>name store vm. ?cfg name = Some store \<longrightarrow> throws_std (store vm)" by auto
  from option_parsers_total [OF this]
  show "throws_std (?cmd Map.empty) \<and> (\<exists>r. ParseDevcashOptions ?cmd ?cfg = Inr r) \<and> ParseScannerOptions ?cmd = Inr None"
    by auto
qed

end
