(* ===== verification/Generators.thy ===== *)
theory Generators
  imports Options Repeater
begin

text \<open>
  \<^verbatim>\<open>circuit.cpp\<close>, \<^verbatim>\<open>laminar.cpp\<close> and \<^verbatim>\<open>turbulent.cpp\<close>: three programs that write files of signed
  transactions. Each makes one transaction of the INN that gives coins to the wallets and then payments
  between the wallets until there are as many transactions as were asked for. The clock is a function
  from the number of transactions made so far, the random numbers are a sequence, and the \<^verbatim>\<open>while\<close> loop is a
  \<open>partial_function\<close>, since its condition is only on the number of transactions.

  Products of \<^verbatim>\<open>-1l\<close> with unsigned factors are unsigned products modulo \<open>2 ^ 64\<close>. The product of the
  constant and the index of the node is a 32-bit product.
\<close>

section \<open>State\<close>

record gen_state =
  gs_out :: bytes
  gs_counter :: size_t
  gs_nonce_bin :: bytes
  gs_draws :: nat

definition gen_nonce :: "uint64 \<Rightarrow> uint32 \<Rightarrow> uint64 \<Rightarrow> uint64" where
  "gen_nonce now node_index n = now + ucast ((1000000 :: uint32) * (node_index + 1)) * n"

definition emit :: "Tier2Transaction \<Rightarrow> gen_state \<Rightarrow> gen_state" where
  "emit tx s = s\<lparr>gs_out := gs_out s @ tx_canonical tx, gs_counter := gs_counter s + 1\<rparr>"

section \<open>The transaction of the INN\<close>

definition inn_transfers :: "KeyRing \<Rightarrow> Address \<Rightarrow> size_t \<Rightarrow> uint64 \<Rightarrow> error + Transfer list" where
  "inn_transfers keys inn addr_count tx_amount =
     bindE (mapE (\<lambda>i. bindE (getWalletAddr keys (of_nat i)) (\<lambda>addr.
              Inr (Transfer_make addr 0 ((addr_count - 1) * tx_amount) 0))) [0..<unat addr_count]) (\<lambda>xfers.
     Inr (Transfer_make inn 0 (- 1 * addr_count * (addr_count - 1) * tx_amount) 0 # xfers))"

definition inn_tx ::
  "Crypto \<Rightarrow> KeyRing \<Rightarrow> (nat \<Rightarrow> uint64) \<Rightarrow> ('a generator_options_scheme) \<Rightarrow> Address \<Rightarrow> size_t \<Rightarrow> error + gen_state" where
  "inn_tx C keys clock options inn addr_count =
     bindE (inn_transfers keys inn addr_count (gno_tx_amount options)) (\<lambda>xfers.
     let nonce_bin = Uint64ToBin (gen_nonce (clock 0) (gno_node_index options) (gno_tx_amount options + 1)) [] in
     bindE (getKey C keys inn) (\<lambda>key.
     bindE (Tier2Transaction_sign C eCreate xfers nonce_bin key keys) (\<lambda>inn_tx.
     Inr (emit inn_tx \<lparr>gs_out = [], gs_counter = 0, gs_nonce_bin = nonce_bin, gs_draws = 0\<rparr>))))"

section \<open>The payments\<close>

definition payment ::
  "Crypto \<Rightarrow> KeyRing \<Rightarrow> size_t \<Rightarrow> error + Address \<Rightarrow> uint64 \<Rightarrow> bytes \<Rightarrow> error + Tier2Transaction" where
  "payment C keys i receiver amount nonce_bin =
     bindE (getWalletAddr keys (ucast i)) (\<lambda>from.
     bindE receiver (\<lambda>to.
     bindE (getWalletKey keys (ucast i)) (\<lambda>key.
     Tier2Transaction_sign C eExchange [Transfer_make from 0 (- 1 * amount) 0, Transfer_make to 0 amount 0] nonce_bin key keys)))"

definition peer_payment ::
  "Crypto \<Rightarrow> KeyRing \<Rightarrow> (nat \<Rightarrow> uint64) \<Rightarrow> uint32 \<Rightarrow> size_t \<Rightarrow> size_t \<Rightarrow> uint64 \<Rightarrow> gen_state
   \<Rightarrow> error + (Tier2Transaction \<times> gen_state)" where
  "peer_payment C keys clock node_index i j amount s =
     (let nonce_bin = Uint64ToBin (gen_nonce (clock (unat (gs_counter s))) node_index ((i + 1) * (j + 1))) [] in
      bindE (payment C keys i (getWalletAddr keys (ucast j)) amount nonce_bin) (\<lambda>tx.
      Inr (tx, emit tx (s\<lparr>gs_nonce_bin := nonce_bin\<rparr>))))"

definition laminar_step ::
  "Crypto \<Rightarrow> KeyRing \<Rightarrow> (nat \<Rightarrow> uint64) \<Rightarrow> generator_options \<Rightarrow> size_t \<times> size_t \<Rightarrow> gen_state \<Rightarrow> error + gen_state" where
  "laminar_step C keys clock options = (\<lambda>(i, j) s.
     bindE (peer_payment C keys clock (gno_node_index options) i j (gno_tx_amount options) s) (\<lambda>(tx, s').
     bindE (t2_isSound C keys tx) (\<lambda>sound.
     if \<not> sound then Inl (RuntimeError ''Transaction is not sound!'') else Inr s')))"

datatype circuit_job = Pay size_t size_t | Return size_t

text \<open>The coins go back to the INN; here the nonce is appended to the previous one.\<close>

definition circuit_return ::
  "Crypto \<Rightarrow> KeyRing \<Rightarrow> (nat \<Rightarrow> uint64) \<Rightarrow> 'a generator_options_scheme \<Rightarrow> Address \<Rightarrow> size_t \<Rightarrow> size_t \<Rightarrow> gen_state
   \<Rightarrow> error + gen_state" where
  "circuit_return C keys clock options inn addr_count i s =
     (let nonce = gen_nonce (clock (unat (gs_counter s))) (gno_node_index options) ((i + 1) * (addr_count + 2));
          nonce_bin = Uint64ToBin nonce (gs_nonce_bin s) in
      bindE (payment C keys i (Inr inn) ((addr_count - 1) * gno_tx_amount options) nonce_bin) (\<lambda>tx.
      Inr (emit tx (s\<lparr>gs_nonce_bin := nonce_bin\<rparr>))))"

definition circuit_step ::
  "Crypto \<Rightarrow> KeyRing \<Rightarrow> (nat \<Rightarrow> uint64) \<Rightarrow> circuit_options \<Rightarrow> Address \<Rightarrow> size_t \<Rightarrow> circuit_job \<Rightarrow> gen_state \<Rightarrow> error + gen_state" where
  "circuit_step C keys clock options inn addr_count jb s =
     (case jb of
        Pay i j \<Rightarrow>
          bindE (peer_payment C keys clock (gno_node_index options) i j (gno_tx_amount options) s) (\<lambda>(tx, s'). Inr s')
      | Return i \<Rightarrow> circuit_return C keys clock options inn addr_count i s)"

text \<open>Both random numbers are drawn before the receiver is compared with the sender.\<close>

definition turbulent_step ::
  "Crypto \<Rightarrow> KeyRing \<Rightarrow> (nat \<Rightarrow> uint64) \<Rightarrow> (nat \<Rightarrow> uint64) \<Rightarrow> generator_options \<Rightarrow> size_t \<Rightarrow> size_t \<Rightarrow> gen_state \<Rightarrow> error + gen_state" where
  "turbulent_step C keys clock rnd options addr_count i s =
     (if gno_tx_amount options = 0 then Inl (Undefined ''division by zero'')
      else
        let j = rnd (gs_draws s) mod addr_count;
            amount = rnd (gs_draws s + 1) mod gno_tx_amount options;
            s = s\<lparr>gs_draws := gs_draws s + 2\<rparr> in
        if i = j then Inr s
        else bindE (peer_payment C keys clock (gno_node_index options) i j amount s) (\<lambda>(tx, s'). Inr s'))"

section \<open>The loops\<close>

text \<open>The \<^verbatim>\<open>for\<close> loops of one round: they end early when there are enough transactions.\<close>

fun run_jobs :: "('j \<Rightarrow> gen_state \<Rightarrow> error + gen_state) \<Rightarrow> size_t \<Rightarrow> 'j list \<Rightarrow> gen_state \<Rightarrow> error + gen_state" where
  "run_jobs step n [] s = Inr s"
| "run_jobs step n (jb # jobs) s =
     bindE (step jb s) (\<lambda>s'. if gs_counter s' \<ge> n then Inr s' else run_jobs step n jobs s')"

partial_function (option) gen_while ::
  "(gen_state \<Rightarrow> error + gen_state) \<Rightarrow> size_t \<Rightarrow> gen_state \<Rightarrow> (error + gen_state) option" where
  "gen_while pass n s =
     (if gs_counter s < n then
        (case pass s of Inl e \<Rightarrow> Some (Inl e) | Inr s' \<Rightarrow> gen_while pass n s')
      else Some (Inr s))"

definition laminar_jobs :: "size_t \<Rightarrow> (size_t \<times> size_t) list" where
  "laminar_jobs n =
     concat (map (\<lambda>i. map (\<lambda>j. (of_nat i, of_nat j)) (filter (\<lambda>j. i \<noteq> j) [i..<unat n])) [0..<unat n])"

definition circuit_jobs :: "bool \<Rightarrow> size_t \<Rightarrow> circuit_job list" where
  "circuit_jobs clear_state n =
     concat (map (\<lambda>i. map (\<lambda>j. Pay (of_nat i) (of_nat j)) (filter (\<lambda>j. i \<noteq> j) [0..<unat n])) [0..<unat n])
     @ (if clear_state then map (\<lambda>i. Return (of_nat i)) [0..<unat n] else [])"

definition turbulent_jobs :: "size_t \<Rightarrow> size_t list" where
  "turbulent_jobs n = map of_nat [0..<unat n]"

text \<open>The integer part of the square root, exact for the 32-bit numbers of which it is taken.\<close>

primrec isqrt :: "nat \<Rightarrow> nat" where
  "isqrt 0 = 0"
| "isqrt (Suc n) = (let r = isqrt n in if (r + 1) * (r + 1) \<le> Suc n then r + 1 else r)"

definition gen_addr_count :: "KeyRing \<Rightarrow> uint32 \<Rightarrow> size_t" where
  "gen_addr_count keys generate_count = min (CountWallets keys) (of_nat (isqrt (unat (generate_count - 1))))"

definition laminar ::
  "Crypto \<Rightarrow> KeyRing \<Rightarrow> (nat \<Rightarrow> uint64) \<Rightarrow> generator_options \<Rightarrow> (error + gen_state) option" where
  "laminar C keys clock options =
     (if \<not> ctx_ok C then Some (Inl (ThrownString ''Could not create signature context!''))
      else
        bindP (Some (getInnAddr keys)) (\<lambda>inn.
        if gno_generate_count options < 2 then
          Some (Inl (ThrownString ''Invalid number of transactions to generate.''))
        else
          let addr_count = gen_addr_count keys (gno_generate_count options); n = ucast (gno_generate_count options) in
          bindP (Some (inn_tx C keys clock options inn addr_count)) (\<lambda>s.
          gen_while (run_jobs (laminar_step C keys clock options) n (laminar_jobs addr_count)) n s)))"

definition circuit ::
  "Crypto \<Rightarrow> KeyRing \<Rightarrow> (nat \<Rightarrow> uint64) \<Rightarrow> circuit_options \<Rightarrow> (error + gen_state) option" where
  "circuit C keys clock options =
     (if \<not> ctx_ok C then Some (Inl (RuntimeError ''Could not create signature context!''))
      else
        bindP (Some (getInnAddr keys)) (\<lambda>inn.
        if gno_generate_count options < 2 then
          Some (Inl (ThrownString ''Invalid number of transactions to generate.''))
        else
          let addr_count = gen_addr_count keys (gno_generate_count options); n = ucast (gno_generate_count options) in
          bindP (Some (inn_tx C keys clock options inn addr_count)) (\<lambda>s.
          gen_while (run_jobs (circuit_step C keys clock options inn addr_count) n
            (circuit_jobs (cio_clear_state options) addr_count)) n s)))"

definition turbulent ::
  "Crypto \<Rightarrow> KeyRing \<Rightarrow> (nat \<Rightarrow> uint64) \<Rightarrow> (nat \<Rightarrow> uint64) \<Rightarrow> generator_options \<Rightarrow> (error + gen_state) option" where
  "turbulent C keys clock rnd options =
     (if \<not> ctx_ok C then Some (Inl (ThrownString ''Could not create signature context!''))
      else
        bindP (Some (getInnAddr keys)) (\<lambda>inn.
        let addr_count = CountWallets keys; n = ucast (gno_generate_count options) in
        bindP (Some (inn_tx C keys clock options inn addr_count)) (\<lambda>s.
        gen_while (run_jobs (turbulent_step C keys clock rnd options addr_count) n (turbulent_jobs addr_count)) n s)))"

section \<open>The programs\<close>

text \<open>\<open>catch (...)\<close> catches every exception; undefined behaviour and an abort are not exceptions.\<close>

fun is_exception :: "error \<Rightarrow> bool" where
  "is_exception (Undefined s) = False"
| "is_exception (Aborted s) = False"
| "is_exception e = True"

definition load_keys :: "Crypto \<Rightarrow> (string \<Rightarrow> string) \<Rightarrow> 'a generator_options_scheme \<Rightarrow> error + KeyRing" where
  "load_keys C files options =
     bindE (KeyRing_make C (files (gno_inn_keys options)) (files (gno_node_keys options)) (gno_key_pass options)) (\<lambda>keys.
     bindE (LoadWallets C (files (gno_wallet_keys options)) (gno_key_pass options) keys) (\<lambda>(_, keys).
     Inr keys))"

text \<open>\<open>ok\<close> and \<open>failed\<close> are the values that \<open>main\<close> returns.\<close>

definition generator_main ::
  "'fs file_ops \<Rightarrow> int \<Rightarrow> int \<Rightarrow> Crypto \<Rightarrow> (string \<Rightarrow> string) \<Rightarrow> ('a generator_options_scheme) option
   \<Rightarrow> (KeyRing \<Rightarrow> 'a generator_options_scheme \<Rightarrow> (error + gen_state) option) \<Rightarrow> 'fs \<Rightarrow> (error + int \<times> 'fs) option" where
  "generator_main F ok failed C files parsed generate fs =
     (case parsed of
        None \<Rightarrow> Some (Inr (- 1, fs))
      | Some options \<Rightarrow>
          (case bindP (Some (load_keys C files options)) (\<lambda>keys. generate keys options) of
             None \<Rightarrow> None
           | Some (Inl e) \<Rightarrow> if is_exception e then Some (Inr (failed, fs)) else Some (Inl e)
           | Some (Inr s) \<Rightarrow>
               if gno_write_file options = [] then Some (Inr (ok, fs))
               else (case f_write F fs (gno_write_file options) (gs_out s) of
                       None \<Rightarrow> Some (Inr (failed, fs))
                     | Some fs' \<Rightarrow> Some (Inr (ok, fs')))))"

definition laminar_main where
  "laminar_main F C files clock parsed = generator_main F 0 (- 1) C files parsed (\<lambda>keys. laminar C keys clock)"

definition circuit_main where
  "circuit_main F C files clock parsed = generator_main F 1 0 C files parsed (\<lambda>keys. circuit C keys clock)"

definition turbulent_main where
  "turbulent_main F C files clock rnd parsed =
     generator_main F 1 0 C files parsed (\<lambda>keys. turbulent C keys clock rnd)"

section \<open>Rounds\<close>

text \<open>The output of a state is the concatenation of sound transactions, as many as the counter says.\<close>

definition made :: "gen_state \<Rightarrow> Tier2Transaction list \<Rightarrow> bool" where
  "made s txs =
     (gs_out s = concat (map tx_canonical txs) \<and> list_all tx_is_sound txs \<and> unat (gs_counter s) = length txs)"

lemma made_emit: "made s txs \<Longrightarrow> tx_is_sound tx \<Longrightarrow> length txs < 2 ^ 64 - 1 \<Longrightarrow> made (emit tx s) (txs @ [tx])"
  by (auto simp: made_def emit_def unat_word_ariths unat_of_nat)

lemma made_update [simp]: "made (s\<lparr>gs_nonce_bin := b\<rparr>) txs = made s txs"
  by (simp add: made_def)

text \<open>The contract of a step: a sound transaction more.\<close>

locale generator_step =
  fixes step :: "'j \<Rightarrow> gen_state \<Rightarrow> error + gen_state"
  assumes adds_one: "step jb s = Inr s' \<Longrightarrow> \<exists>tx b. tx_is_sound tx \<and> s' = emit tx (s\<lparr>gs_nonce_bin := b\<rparr>)"
begin

lemma step_made:
  assumes "step jb s = Inr s'" and "made s txs" and "length txs < 2 ^ 64 - 1"
  obtains tx where "made s' (txs @ [tx])"
  using adds_one [OF assms(1)] made_emit [of "s\<lparr>gs_nonce_bin := _\<rparr>" txs] assms(2,3) by (metis made_update)

lemma run_jobs_made:
  "run_jobs step n jobs s = Inr s' \<Longrightarrow> made s txs \<Longrightarrow> length txs < unat n \<Longrightarrow>
   \<exists>more. made s' (txs @ more) \<and> length (txs @ more) \<le> unat n \<and> (jobs \<noteq> [] \<longrightarrow> more \<noteq> [])"
proof (induction jobs arbitrary: s txs)
  case (Cons jb jobs)
  obtain s1 where s1: "step jb s = Inr s1"
    and r: "(if gs_counter s1 \<ge> n then Inr s1 else run_jobs step n jobs s1) = Inr s'"
    using Cons.prems(1) by auto
  have "length txs < 2 ^ 64 - 1" using Cons.prems(3) unat_bound [of n] by simp
  with s1 Cons.prems(2) obtain tx where m: "made s1 (txs @ [tx])" by (rule step_made)
  show ?case
  proof (cases "gs_counter s1 \<ge> n")
    case True
    then have "s1 = s'" using r by simp
    then have "made s' (txs @ [tx])" using m by simp
    then show ?thesis using Cons.prems(3) by (intro exI [of _ "[tx]"]) simp
  next
    case False
    then have "length (txs @ [tx]) < unat n" using m by (simp add: made_def word_le_nat_alt)
    then obtain more where "made s' ((txs @ [tx]) @ more)" "length ((txs @ [tx]) @ more) \<le> unat n"
      using Cons.IH [of s1 "txs @ [tx]"] r m False by auto
    then show ?thesis by (intro exI [of _ "tx # more"]) simp
  qed
qed (auto intro!: exI [of _ "[]"])

text \<open>When a round has at least one job, the loop ends, and with the right number of transactions.\<close>

lemma gen_while_made:
  assumes "jobs \<noteq> []" and "made s txs" and "length txs \<le> unat n"
  shows "\<exists>r. gen_while (run_jobs step n jobs) n s = Some r \<and>
    (\<forall>s'. r = Inr s' \<longrightarrow> (\<exists>txs'. made s' txs' \<and> length txs' = unat n))"
  using assms(2,3)
proof (induction "unat n - length txs" arbitrary: s txs rule: less_induct)
  case less
  show ?case
  proof (cases "gs_counter s < n")
    case False
    then have "length txs = unat n" using less.prems by (simp add: made_def word_less_nat_alt)
    then show ?thesis using False less.prems(1) by (subst gen_while.simps) auto
  next
    case True
    then have lt: "length txs < unat n" using less.prems by (simp add: made_def word_less_nat_alt)
    show ?thesis
    proof (cases "run_jobs step n jobs s")
      case (Inl e)
      then show ?thesis using True by (subst gen_while.simps) simp
    next
      case (Inr s1)
      obtain more where m: "made s1 (txs @ more)" "length (txs @ more) \<le> unat n" "more \<noteq> []"
        using run_jobs_made [OF Inr less.prems(1) lt] assms(1) by auto
      have "unat n - length (txs @ more) < unat n - length txs" using m(3) lt by (cases more) auto
      from less.hyps [OF this m(1,2)] show ?thesis using True Inr by (subst gen_while.simps) simp
    qed
  qed
qed

end

lemma sign_sound: "Tier2Transaction_sign C oper xfers nonce key keys = Inr tx \<Longrightarrow> tx_is_sound tx"
  using Tier2Transaction_sign_Inr by (fastforce simp: t2_parts_def)

lemma peer_payment_adds:
  "peer_payment C keys clock node_index i j amount s = Inr (tx, s') \<Longrightarrow>
   tx_is_sound tx \<and> (\<exists>b. s' = emit tx (s\<lparr>gs_nonce_bin := b\<rparr>))"
  by (auto simp: peer_payment_def payment_def Let_def dest: sign_sound)

interpretation laminar_gen: generator_step "laminar_step C keys clock options" for C keys clock options
  by unfold_locales (clarsimp simp: laminar_step_def split: if_splits dest!: peer_payment_adds, blast)

interpretation circuit_gen: generator_step "circuit_step C keys clock options inn addr_count"
  for C keys clock options inn addr_count
  by unfold_locales
    (auto simp: circuit_step_def circuit_return_def payment_def Let_def split: circuit_job.splits
      dest!: peer_payment_adds intro: sign_sound)

section \<open>The first transaction\<close>

lemma inn_tx_made:
  assumes "inn_tx C keys clock options inn addr_count = Inr s"
  obtains tx where "made s [tx]"
proof -
  obtain tx b where "tx_is_sound tx" "s = emit tx \<lparr>gs_out = [], gs_counter = 0, gs_nonce_bin = b, gs_draws = 0\<rparr>"
    using assms by (auto simp: inn_tx_def Let_def dest: sign_sound)
  then show thesis
    using that [of tx] made_emit [of "\<lparr>gs_out = [], gs_counter = 0, gs_nonce_bin = b, gs_draws = 0\<rparr>" "[]" tx]
    by (simp add: made_def)
qed

text \<open>A creation of coins without a negative amount has no sender, and the check of the constructor
  requires the sender to be a node.\<close>

lemma create_needs_sender:
  assumes "t2_fits xfers nonce" and "\<forall>t \<in> set xfers. xfer_wf t" and "\<forall>t \<in> set xfers. xfer_getAmount t = Inr 0"
  shows "Tier2Transaction_sign C eCreate xfers nonce key keys \<noteq> Inr tx"
proof
  assume "Tier2Transaction_sign C eCreate xfers nonce key keys = Inr tx"
  then obtain sig where sg: "t2_sign_digest C key (t2_unsigned eCreate xfers nonce) = Inr sig"
    and ch: "t2_checked C keys (t2_attach sig (t2_unsigned eCreate xfers nonce)) = Inr tx"
    by (auto simp: Tier2Transaction_sign_def Let_def split: if_splits)
  let ?tx = "t2_parts eCreate xfers nonce (sig_canonical sig) False"
  have "sig_wf sig" using sg SignBinary_wf by (auto simp: t2_sign_digest_def)
  then have x: "t2_getTransfers ?tx = Inr xfers"
    using assms(1,2) sig_wf_length [of sig] by (intro t2_getTransfers_parts) auto
  have "foldE t2_sender_step xfers (0, False, Address_default) = Inr (0, False, Address_default)"
    using assms(3) by (induction xfers) auto
  then have "\<exists>e. t2_isSound C keys ?tx = Inl e"
    by (simp add: t2_isSound_def t2_getOperation_parts x isINN_def isNodeAddress_def addr_isNull_def Address_default_def)
  then show False using ch by (auto simp: t2_checked_def t2_unsigned_parts t2_attach_parts)
qed

lemma vec_at_set: "vec_at xs i = Inr x \<Longrightarrow> x \<in> set xs"
  by (auto simp: vec_at_def split: if_splits)

lemma inn_tx_needs_two:
  assumes "kr_wf keys" and "addr_wf inn" and "addr_count < 2"
  shows "inn_tx C keys clock options inn addr_count \<noteq> Inr s"
proof
  assume "inn_tx C keys clock options inn addr_count = Inr s"
  then obtain xfers key tx nonce where x: "inn_transfers keys inn addr_count (gno_tx_amount options) = Inr xfers"
    and sign: "Tier2Transaction_sign C eCreate xfers (Uint64ToBin nonce []) key keys = Inr tx"
    by (auto simp: inn_tx_def Let_def)
  have "unat addr_count < 2" using assms(3) by (simp add: word_less_nat_alt)
  then consider "addr_count = 0" | "addr_count = 1" by (auto simp: word_unat_eq_iff less_2_cases_iff)
  then have ts: "\<forall>t \<in> set xfers. \<exists>a. addr_wf a \<and> t = Transfer_make a 0 0 0" "length xfers \<le> 2"
    using x assms(1,2) by (cases; auto simp: inn_transfers_def getWalletAddr_def kr_wf_def dest!: vec_at_set)+
  then have w: "\<forall>t \<in> set xfers. xfer_wf t \<and> xfer_getAmount t = Inr 0" by auto
  have "length (xfer_canonical t) \<le> 74" if "xfer_wf t" for t
    using that by (auto simp: xfer_wf_def split: list.splits)
  then have "length (xfers_bytes xfers) \<le> 74 * length xfers"
    using w by (induction xfers) force+
  then have "t2_fits xfers (Uint64ToBin nonce [])"
    using ts(2) by (simp add: t2_fits_def Uint64ToBin_le)
  with w sign create_needs_sender show False by blast
qed

lemma isqrt_le: "isqrt n * isqrt n \<le> n"
  by (induction n) (auto simp: Let_def)

lemma addr_count_bound:
  assumes "2 \<le> gen_addr_count keys n" "0 < n" shows "5 \<le> n"
proof -
  let ?m = "unat (n - 1)"
  have "isqrt ?m < 2 ^ 64" using isqrt_le [of ?m] unat_bound [of "n - 1"] mult_le_mono [of "2 ^ 32" "isqrt ?m" "2 ^ 32" "isqrt ?m"]
    by (cases "2 ^ 32 \<le> isqrt ?m") auto
  moreover have "(2 :: size_t) \<le> of_nat (isqrt ?m)" using assms(1) by (simp add: gen_addr_count_def)
  ultimately have "2 \<le> isqrt ?m" by (simp add: word_le_nat_alt unsigned_of_nat take_bit_nat_eq_self)
  then have "4 \<le> ?m" using isqrt_le [of ?m] mult_le_mono [of 2 "isqrt ?m" 2 "isqrt ?m"] by simp
  moreover have "?m = unat n - 1" using assms(2) by (simp add: unat_sub word_le_nat_alt word_less_nat_alt)
  ultimately show ?thesis by (simp add: word_le_nat_alt)
qed

lemma jobs_not_empty:
  assumes "2 \<le> n"
  shows "laminar_jobs n \<noteq> []" "circuit_jobs b n \<noteq> []"
proof -
  have "1 < unat n" using assms by (simp add: word_le_nat_alt)
  then have "(0, 1) \<in> set (laminar_jobs n)" "Pay 0 1 \<in> set (circuit_jobs b n)"
    unfolding laminar_jobs_def circuit_jobs_def by (force intro!: bexI [of _ 0])+
  then show "laminar_jobs n \<noteq> []" "circuit_jobs b n \<noteq> []" by auto
qed

lemma unat_ucast_count: "unat (ucast (n :: uint32) :: size_t) = unat n"
  using unat_bound [of n] by (simp add: unsigned_ucast_eq take_bit_nat_eq_self)

lemma generator_made:
  assumes "generator_step step" and "kr_wf keys" and "addr_wf inn" and "2 \<le> n"
    and "2 \<le> gen_addr_count keys n \<Longrightarrow> jobs \<noteq> []"
  shows "\<exists>r. bindP (Some (inn_tx C keys clock options inn (gen_addr_count keys n)))
      (gen_while (run_jobs step (ucast n) jobs) (ucast n)) = Some r \<and>
    (\<forall>s. r = Inr s \<longrightarrow> 5 \<le> n \<and> 2 \<le> CountWallets keys \<and> (\<exists>txs. made s txs \<and> length txs = unat n))"
proof (cases "inn_tx C keys clock options inn (gen_addr_count keys n)")
  case (Inr s)
  then have two: "2 \<le> gen_addr_count keys n" using inn_tx_needs_two [OF assms(2,3)] by (meson linorder_not_less)
  have "0 < n" using assms(4) by (simp add: word_le_nat_alt word_less_nat_alt)
  then have five: "5 \<le> n" "2 \<le> CountWallets keys" using addr_count_bound [OF two] two by (simp_all add: gen_addr_count_def)
  obtain tx where "made s [tx]" using inn_tx_made [OF Inr] by blast
  moreover have "length [tx] \<le> unat (ucast n :: size_t)" using assms(4) by (simp add: unat_ucast_count word_le_nat_alt)
  ultimately show ?thesis
    using generator_step.gen_while_made [OF assms(1,5), of s "[tx]" "ucast n"] two five Inr by (auto simp: unat_ucast_count)
qed simp

lemma getInnAddr_Inr: "getInnAddr keys = Inr a \<Longrightarrow> a = inn_addr keys"
  by (auto simp: getInnAddr_def split: if_splits)

section \<open>Properties\<close>

text \<open>C36. The generators \<open>laminar\<close> and \<open>circuit\<close> always come to an end. Either they throw, or they have made exactly
  as many transactions as were asked for, each with the mark of its constructor that it is sound, and
  there were at least two addresses. With
  fewer addresses, and so for fewer than five transactions although the message of the programs
  suggests two, the transaction that gives coins to the wallets has no negative amount, and its
  constructor throws; this is what keeps the loops from running for ever. The generator \<open>turbulent\<close>
  throws as well for fewer than two wallets.\<close>

theorem generators_return:
  assumes "kr_wf keys" and "addr_wf (inn_addr keys)"
  shows "(\<exists>r. laminar C keys clock options = Some r \<and>
      (\<forall>s. r = Inr s \<longrightarrow> 5 \<le> gno_generate_count options \<and> 2 \<le> CountWallets keys \<and>
        (\<exists>txs. made s txs \<and> length txs = unat (gno_generate_count options)))) \<and>
    (\<exists>r. circuit C keys clock coptions = Some r \<and>
      (\<forall>s. r = Inr s \<longrightarrow> 5 \<le> gno_generate_count coptions \<and> 2 \<le> CountWallets keys \<and>
        (\<exists>txs. made s txs \<and> length txs = unat (gno_generate_count coptions)))) \<and>
    (CountWallets keys < 2 \<longrightarrow> (\<exists>e. turbulent C keys clock rnd options = Some (Inl e)))"
proof (intro conjI impI)
  show "\<exists>r. laminar C keys clock options = Some r \<and>
      (\<forall>s. r = Inr s \<longrightarrow> 5 \<le> gno_generate_count options \<and> 2 \<le> CountWallets keys \<and>
        (\<exists>txs. made s txs \<and> length txs = unat (gno_generate_count options)))"
  proof (cases "ctx_ok C \<and> getInnAddr keys = Inr (inn_addr keys) \<and> 2 \<le> gno_generate_count options")
    case True
    then show ?thesis
      by (simp add: laminar_def Let_def linorder_not_less)
        (rule generator_made [OF laminar_gen.generator_step_axioms assms _ jobs_not_empty(1)]; simp)
  qed (cases "getInnAddr keys"; auto simp: laminar_def not_less dest: getInnAddr_Inr)
  show "\<exists>r. circuit C keys clock coptions = Some r \<and>
      (\<forall>s. r = Inr s \<longrightarrow> 5 \<le> gno_generate_count coptions \<and> 2 \<le> CountWallets keys \<and>
        (\<exists>txs. made s txs \<and> length txs = unat (gno_generate_count coptions)))"
  proof (cases "ctx_ok C \<and> getInnAddr keys = Inr (inn_addr keys) \<and> 2 \<le> gno_generate_count coptions")
    case True
    then show ?thesis
      by (simp add: circuit_def Let_def linorder_not_less)
        (rule generator_made [OF circuit_gen.generator_step_axioms assms _ jobs_not_empty(2)]; simp)
  qed (cases "getInnAddr keys"; auto simp: circuit_def not_less dest: getInnAddr_Inr)
  show "\<exists>e. turbulent C keys clock rnd options = Some (Inl e)" if "CountWallets keys < 2"
    using inn_tx_needs_two [OF assms that, of C clock options]
    by (cases "getInnAddr keys"; cases "inn_tx C keys clock options (inn_addr keys) (CountWallets keys)")
      (auto simp: turbulent_def Let_def dest!: getInnAddr_Inr)
qed

definition sample_generator :: generator_options where
  "sample_generator =
     \<lparr>gno_mode = mode_T2, gno_node_index = 0, gno_shard_index = 0, gno_write_file = [], gno_inn_keys = [],
      gno_node_keys = [], gno_wallet_keys = [], gno_key_pass = [], gno_generate_count = 5, gno_tx_amount = 1,
      gno_debug_mode = dbg_off\<rparr>"

theorem generators_return_witness:
  "let keys = KeyRing_empty\<lparr>inn_addr := sample_node\<rparr> in
   kr_wf keys \<and> addr_wf (inn_addr keys) \<and> CountWallets keys < 2 \<and>
   (\<exists>r. laminar sample_crypto keys (\<lambda>_. 7) sample_generator = Some r) \<and>
   (\<exists>e. turbulent sample_crypto keys (\<lambda>_. 7) (\<lambda>_. 0) sample_generator = Some (Inl e))"
proof -
  let ?keys = "KeyRing_empty\<lparr>inn_addr := sample_node\<rparr>"
  have k: "kr_wf ?keys" "addr_wf (inn_addr ?keys)" "CountWallets ?keys < 2"
    by (simp_all add: kr_wf_def KeyRing_empty_def CountWallets_def vec_size_def)
  from generators_return [OF k(1,2), of sample_crypto "\<lambda>_. 7" sample_generator undefined "\<lambda>_. 0"] k
  show ?thesis by (auto simp: Let_def)
qed

end
