(* ===== verification/Shard_Sync.thy ===== *)
theory Shard_Sync
  imports Node_Module
begin

text \<open>
  The exchange between the tiers: a Tier-1 node asks two Tier-2 nodes for their blocks, and each of them
  answers with one Tier-1 transaction for each block. The request is the message that
  \<^verbatim>\<open>InternetworkController::messageCallback\<close> sends, the answer the one of \<^verbatim>\<open>HandleBlocksSinceRequest\<close>.
\<close>

section \<open>Requests\<close>

lemma le64_halves: "le64 w = le32 (ucast w) @ le32 (ucast (drop_bit 32 w))"
  by (simp add: le64_def le32_def) (auto simp: bit_eq_iff bit_simps)

text \<open>The eight bytes of a height are read as four.\<close>

lemma request_fields:
  assumes "data = le64 h @ le64 n"
  shows "BinToUint32 data 0 = Inr (ucast h)" "BinToUint32 data 8 = Inr (ucast n)"
proof -
  show "BinToUint32 data 0 = Inr (ucast h)"
    by (rule BinToUint32_le32 [where r = "le32 (ucast (drop_bit 32 h)) @ le64 n"]) (simp_all add: assms le64_halves)
  have "drop 8 data = le64 n" using assms by simp
  then show "BinToUint32 data 8 = Inr (ucast n)"
    by (intro BinToUint32_le32 [where r = "le32 (ucast (drop_bit 32 n))"]) (simp_all add: assms, simp add: le64_halves)
qed

definition request_message :: "DevcashContext \<Rightarrow> uint64 \<Rightarrow> size_t \<Rightarrow> DevcashMessage" where
  "request_message context h index =
     DevcashMessage_make (get_uri_from_index context (ucast index)) GET_BLOCKS_SINCE
       (le64 h @ le64 (ucast (get_current_node context))) (ucast h)"

lemma request_blocks_T1:
  fixes "context" :: DevcashContext
  assumes "remote_blocks s = h"
  defines "peer \<equiv> ucast (get_current_node context) mod ctx_peer_count context :: size_t"
  shows "request_blocks context mode_T1 s = Some (Returned (),
    if h < bc_size (final_chain s)
    then s\<lparr>outgoing := outgoing s @ [request_message context h (ctx_peer_count context + peer),
                                     request_message context h (ctx_peer_count context * 2 + peer)]\<rparr>
    else s)"
  using assms
  by (simp add: request_blocks_def bindM_def effect_simps send_def request_message_def Uint64ToBin_le Let_def)

section \<open>Answers\<close>

lemma tier1_of_block_eq:
  "tier1_of_block C keys data ib =
     bindP (fb_Create ChainState_empty ib) (\<lambda>(b, ib).
     Some (bindE (CreateTier1Transaction C b keys) (\<lambda>tx. Inr (data @ tx_canonical tx, ib))))"
proof -
  have "Summary_Copy sm = sm" for sm by (cases sm) (simp add: Summary_Copy_def)
  then show ?thesis by (simp add: tier1_of_block_def CreateTier1Transaction_def bindE_assoc)
qed

lemma tier1_of_blocks:
  assumes blocks: "\<forall>b \<in> set bs. fb_wf b \<and> (\<forall>raw \<in> set (fb_raw_transactions b). raw_t2 raw) \<and>
      CreateTier1Transaction C b keys = Inr (tx_of b)"
    and len: "length (concat (map fb_getCanonical bs)) < 2 ^ 63"
  shows "\<exists>ib'. while_unread (tier1_of_block C keys) [] (InputBuffer_make (concat (map fb_getCanonical bs)) 0) =
    Some (Inr (concat (map (\<lambda>b. tx_canonical (tx_of b)) bs), ib'))"
proof -
  have one: "tier1_of_block C keys data ib = Some (Inr (data @ tx_canonical (tx_of b), advance (length (fb_getCanonical b)) ib))"
    if "b \<in> set bs" "ib_wf ib" "ib_rest ib = fb_getCanonical b @ r" for b data ib r
  proof -
    have "CreateTier1Transaction C (b\<lparr>fb_transactions := [], fb_state := ChainState_empty\<rparr>) keys = Inr (tx_of b)"
      using blocks that(1) by (simp add: CreateTier1Transaction_def)
    then show ?thesis
      using fb_Create_rest [of b ib r ChainState_empty] blocks that by (simp add: tier1_of_block_eq)
  qed
  have "while_unread (tier1_of_block C keys) [] (InputBuffer_make (concat (map fb_getCanonical bs)) 0) =
      Some (Inr (fold (\<lambda>b data. data @ tx_canonical (tx_of b)) bs [],
        advance (length (concat (map fb_getCanonical bs))) (InputBuffer_make (concat (map fb_getCanonical bs)) 0)))"
    using one fb_getCanonical_not_Nil by (intro while_unread_items ib_wf_make len) auto
  then show ?thesis by (simp add: fold_concat)
qed

lemma tier2_answers:
  assumes wf: "bc_wf (final_chain s)" and mode: "ctx_app_mode context = mode_T2"
    and blocks: "\<forall>b \<in> set (bc_chain (final_chain s)). fb_wf b \<and> (\<forall>raw \<in> set (fb_raw_transactions b). raw_t2 raw) \<and>
      CreateTier1Transaction C b keys = Inr (tx_of b)"
    and len: "length (BinaryDump (final_chain s)) < 2 ^ 63" and data: "msg_data msg = le64 h @ le64 n"
  shows "HandleBlocksSinceRequest C msg context keys s =
    Some (Returned True, s\<lparr>outgoing := outgoing s @ [DevcashMessage_make (get_uri_from_index context (ucast n))
      TRANSACTION_ANNOUNCEMENT
      (concat (map (\<lambda>b. tx_canonical (tx_of b)) (drop (unat (ucast h :: uint32)) (butlast (bc_chain (final_chain s))))))
      (msg_index msg)]\<rparr>)"
proof -
  let ?bs = "drop (unat (ucast h :: uint32)) (butlast (bc_chain (final_chain s)))"
  have sub: "set ?bs \<subseteq> set (bc_chain (final_chain s))" by (meson in_set_butlastD in_set_dropD subsetI)
  have "unat (ucast x :: size_t) = unat x" for x :: uint32
    using unat_bound [of x] by (simp add: unsigned_ucast_eq take_bit_nat_eq_self)
  then have dump: "PartialBinaryDump (ucast (ucast h :: uint32)) (final_chain s) = Inr (concat (map fb_getCanonical ?bs))"
    using PartialBinaryDump_eq [OF wf] by simp
  have "length (concat (map fb_getCanonical ?bs)) \<le> length (concat (map fb_getCanonical (butlast (bc_chain (final_chain s)))))"
    using append_take_drop_id [of "unat (ucast h :: uint32)" "butlast (bc_chain (final_chain s))"]
    by (metis concat_append le_add2 length_append map_append)
  also have "\<dots> \<le> length (BinaryDump (final_chain s))"
    by (cases "bc_chain (final_chain s)" rule: rev_cases) (simp_all add: BinaryDump_eq)
  finally have "\<exists>ib'. while_unread (tier1_of_block C keys) [] (InputBuffer_make (concat (map fb_getCanonical ?bs)) 0) =
      Some (Inr (concat (map (\<lambda>b. tx_canonical (tx_of b)) ?bs), ib'))"
    using blocks sub len by (intro tier1_of_blocks) (blast, linarith)
  then show ?thesis
    using request_fields [OF data] dump mode
    by (auto simp: HandleBlocksSinceRequest_def data vec_size_def bindM_def effect_simps chain_get_apply send_def)
qed

section \<open>Properties\<close>

text \<open>C8. The blocks of a Tier-2 shard reach Tier 1 as transactions. When its main loop notices that its chain has grown, a
  Tier-1 node asks two Tier-2 nodes for the blocks since the height it knows. A Tier-2 node whose blocks are well
  formed and validated answers the Tier-1 node with one Tier-1 transaction for each of its blocks from that height, cut to 32
  bits, to the penultimate one, in the order of the chain.\<close>

theorem tier2_blocks_become_tier1:
  assumes "\<not> utx_mutex s1" "remote_blocks s1 = h" "h < bc_size (final_chain s1)" "msg_type request = REQUEST_BLOCK"
    and "\<not> utx_mutex s2" "bc_wf (final_chain s2)" "ctx_app_mode context2 = mode_T2"
    and "length (BinaryDump (final_chain s2)) < 2 ^ 63"
    and "\<forall>b \<in> set (bc_chain (final_chain s2)). fb_wf b \<and> (\<forall>raw \<in> set (fb_raw_transactions b). raw_t2 raw) \<and>
      CreateTier1Transaction C b keys = Inr (tx_of b)"
  shows "\<exists>m1 m2. messageCallback C keys context1 mode_T1 now1 (Some request) s1 =
      Some (Returned (), s1\<lparr>outgoing := outgoing s1 @ [m1, m2]\<rparr>) \<and>
    messageCallback C keys context2 mode_T2 now2 (Some m1) s2 = Some (Returned (), s2\<lparr>outgoing := outgoing s2 @
      [DevcashMessage_make (get_uri_from_index context2 (get_current_node context1)) TRANSACTION_ANNOUNCEMENT
        (concat (map (\<lambda>b. tx_canonical (tx_of b))
           (drop (unat (ucast h :: uint32)) (butlast (bc_chain (final_chain s2)))))) (ucast h)]\<rparr>)"
proof -
  let ?peer = "ucast (get_current_node context1) mod ctx_peer_count context1 :: size_t"
  let ?m1 = "request_message context1 h (ctx_peer_count context1 + ?peer)"
    and ?m2 = "request_message context1 h (ctx_peer_count context1 * 2 + ?peer)"
  have m: "msg_type ?m1 = GET_BLOCKS_SINCE" "msg_data ?m1 = le64 h @ le64 (ucast (get_current_node context1))"
    "msg_index ?m1 = ucast h"
    by (simp_all add: request_message_def DevcashMessage_make_def)
  have "request_blocks context1 mode_T1 (s1\<lparr>utx_mutex := True\<rparr>) =
      Some (Returned (), s1\<lparr>utx_mutex := True, outgoing := outgoing s1 @ [?m1, ?m2]\<rparr>)"
    using request_blocks_T1 [of "s1\<lparr>utx_mutex := True\<rparr>" h context1] assms(2,3) by simp
  then have "messageCallback C keys context1 mode_T1 now1 (Some request) s1 =
      Some (Returned (), s1\<lparr>outgoing := outgoing s1 @ [?m1, ?m2]\<rparr>)"
    using assms(1,4) by (simp add: messageCallback_def with_lock_def catchM_def message_dispatch_def)
  moreover have "ucast (ucast (get_current_node context1) :: uint64) = get_current_node context1"
    by (rule bit_word_eqI) (auto simp: bit_simps)
  then have "messageCallback C keys context2 mode_T2 now2 (Some ?m1) s2 = Some (Returned (), s2\<lparr>outgoing := outgoing s2 @
      [DevcashMessage_make (get_uri_from_index context2 (get_current_node context1)) TRANSACTION_ANNOUNCEMENT
        (concat (map (\<lambda>b. tx_canonical (tx_of b))
           (drop (unat (ucast h :: uint32)) (butlast (bc_chain (final_chain s2)))))) (ucast h)]\<rparr>)"
    using tier2_answers [of "s2\<lparr>utx_mutex := True\<rparr>" context2 C keys tx_of ?m1 h "ucast (get_current_node context1)"] assms(5-9) m
    by (simp add: messageCallback_def with_lock_def catchM_def message_dispatch_def bindM_def effect_simps)
  ultimately show ?thesis by blast
qed

definition signed_final :: FinalBlock where
  "signed_final = FinalBlock_of sample_crypto 9 (ProposedBlock_make (replicate 32 7) [Tier2 sample_t2] sample_summary
     \<lparr>sigs = [(sample_node, sample_sig 5)]\<rparr> ChainState_empty)"

definition tier2_node :: NodeState where
  "tier2_node = (nd_state (start_node 0 ChainState_empty mode_T2 10))
     \<lparr>final_chain := bc_push_back signed_final (bc_push_back signed_final (Blockchain_make ''final_chain_''))\<rparr>"

lemma signed_final_facts:
  "fb_wf signed_final" "\<forall>raw \<in> set (fb_raw_transactions signed_final). raw_t2 raw"
  "CreateTier1Transaction sample_crypto signed_final KeyRing_empty = Inr sample_t1"
  "length (fb_getCanonical signed_final) < 1000"
proof -
  let ?p = "ProposedBlock_make (replicate 32 7) [Tier2 sample_t2] sample_summary \<lparr>sigs = [(sample_node, sample_sig 5)]\<rparr> ChainState_empty"
  have f: "pb_vals ?p = \<lparr>sigs = [(sample_node, sample_sig 5)]\<rparr>" "pb_summary ?p = sample_summary"
    "pb_transactions ?p = [Tier2 sample_t2]" "pb_prev_hash ?p = replicate 32 7"
    by (simp_all add: ProposedBlock_make_def Let_def)
  have "addr_size sample_node = 50" "sig_size (sample_sig 5) = 106"
    by (simp_all add: addr_size_def sig_size_def sample_node_def sample_sig_def sample_der_def)
  then have np: "val_wf (pb_vals ?p)" "node_pairs (pb_vals ?p)" by (simp_all add: f val_wf_def node_pairs_def)
  then have wf: "pb_wf ?p" unfolding f by (intro pb_wf_make) simp_all
  show "fb_wf signed_final"
    unfolding signed_final_def by (rule FinalBlock_of_wf [OF wf]) (simp_all add: f sample_crypto_def)
  show "\<forall>raw \<in> set (fb_raw_transactions signed_final). raw_t2 raw"
    using sample_final_raw
    by (simp add: signed_final_def sample_final_def sample_t2_block_def pb_getRawTransactions_def ProposedBlock_make_def Let_def)
  show "CreateTier1Transaction sample_crypto signed_final KeyRing_empty = Inr sample_t1"
    using sample_t1_make by (simp add: CreateTier1Transaction_def signed_final_def f getFirstValidation_def)
  show "length (fb_getCanonical signed_final) < 1000"
    using length_node_pairs [OF np(2)] sample_final_length
    by (simp add: signed_final_def fb_getCanonical_eq f FinalBlock_of_merkle DevcashHash_def sample_crypto_def
        pb_getRawTransactions_def sample_final_def sample_t2_block_def)
      (simp add: ProposedBlock_make_def Let_def)
qed

theorem tier2_blocks_become_tier1_witness:
  "let s1 = (nd_state (start_node 0 ChainState_empty mode_T1 10))
         \<lparr>final_chain := bc_push_back signed_final (Blockchain_make ''final_chain_'')\<rparr>;
       c2 = DevcashContext_make 0 1 mode_T2 [] [] [] 10000 0 in
   (\<exists>m1 m2. messageCallback sample_crypto KeyRing_empty sample_context mode_T1 3 (Some (short_message REQUEST_BLOCK)) s1 =
       Some (Returned (), s1\<lparr>outgoing := [m1, m2]\<rparr>) \<and>
     messageCallback sample_crypto KeyRing_empty c2 mode_T2 4 (Some m1) tier2_node =
       Some (Returned (), tier2_node\<lparr>outgoing := [DevcashMessage_make (get_uri_from_index c2 (get_current_node sample_context))
         TRANSACTION_ANNOUNCEMENT (tx_canonical sample_t1) 0]\<rparr>))"
proof -
  let ?s1 = "(nd_state (start_node 0 ChainState_empty mode_T1 10))
         \<lparr>final_chain := bc_push_back signed_final (Blockchain_make ''final_chain_'')\<rparr>"
  let ?c2 = "DevcashContext_make 0 1 mode_T2 [] [] [] 10000 0"
  have s1: "\<not> utx_mutex ?s1" "remote_blocks ?s1 = 0" "0 < bc_size (final_chain ?s1)" "outgoing ?s1 = []"
    by (simp_all add: start_node_def BlockchainModule_make_def Let_def bc_size_def bc_push_back_def Blockchain_make_def)
  have s2: "\<not> utx_mutex tier2_node" "outgoing tier2_node = []"
    "final_chain tier2_node = bc_push_back signed_final (bc_push_back signed_final (Blockchain_make ''final_chain_''))"
    by (simp_all add: tier2_node_def start_node_def BlockchainModule_make_def Let_def)
  have bs: "bc_chain (final_chain tier2_node) = [signed_final, signed_final]" by (simp add: s2(3) Blockchain_make_def)
  have wf: "bc_wf (final_chain tier2_node)"
    unfolding s2(3) by (intro bc_wf_push_back bc_wf_make) (simp_all add: Blockchain_make_def)
  have len: "length (BinaryDump (final_chain tier2_node)) < 2 ^ 63"
    using signed_final_facts(4) by (simp add: BinaryDump_eq bs)
  have all: "\<forall>b \<in> set (bc_chain (final_chain tier2_node)). fb_wf b \<and> (\<forall>raw \<in> set (fb_raw_transactions b). raw_t2 raw) \<and>
      CreateTier1Transaction sample_crypto b KeyRing_empty = Inr sample_t1"
    using signed_final_facts(1-3) by (simp add: bs)
  have "msg_type (short_message REQUEST_BLOCK) = REQUEST_BLOCK" "ctx_app_mode ?c2 = mode_T2"
    by (simp_all add: short_message_def DevcashMessage_make_def DevcashContext_make_def Let_def)
  from tier2_blocks_become_tier1 [OF s1(1-3) this(1) s2(1) wf this(2) len all, of sample_context 3 4] show ?thesis
    by (simp add: Let_def s1(4) s2(2) bs)
qed

end
