(* ===== verification/Announcer.thy ===== *)
theory Announcer
  imports Generators Shard_Sync "HOL-Library.Multiset"
begin

text \<open>
  \<^verbatim>\<open>announcer.cpp\<close> reads the files of a directory in parallel, cuts what it finds into batches and sends each batch
  as an announcement; \<^verbatim>\<open>pb_announcer.cpp\<close> does the same for envelopes that clients send. The directory is
  given as the list of the contents of its files. \<^verbatim>\<open>ThreadPool::ParallelFor\<close> of \<^verbatim>\<open>common/util.h\<close> splits the
  indices into ranges, one for each thread; the pushes of the threads to the shared vector, which a mutex makes
  atomic, may interleave in every way. An exception that leaves the function of a thread ends the process. The
  counter of the log message, which the threads increment without synchronisation, is left out.
\<close>

section \<open>The thread pool\<close>

definition nb_threads :: "nat \<Rightarrow> nat \<Rightarrow> nat" where
  "nb_threads hardware_concurrency n_cpu_factor =
     (let hint = hardware_concurrency div n_cpu_factor in if hint = 0 then 8 else hint)"

text \<open>\<^verbatim>\<open>std::round\<close> of a quotient that is not negative.\<close>

definition pool_slice :: "nat \<Rightarrow> int \<Rightarrow> int" where
  "pool_slice threads n = max ((2 * n + int threads) div (2 * int threads)) 1"

text \<open>The ranges of the loop, for the number of iterations that are left, and of the last thread.\<close>

fun launch_ranges :: "nat \<Rightarrow> int \<Rightarrow> int \<Rightarrow> int \<Rightarrow> int \<Rightarrow> (int \<times> int) list" where
  "launch_ranges 0 width i1 i2 fin = (if i1 < fin then [(i1, fin)] else [])"
| "launch_ranges (Suc k) width i1 i2 fin =
     (if i1 < fin then (i1, i2) # launch_ranges k width i2 (min (i2 + width) fin) fin else [])"

definition ParallelFor :: "nat \<Rightarrow> int \<Rightarrow> int \<Rightarrow> (int \<times> int) list" where
  "ParallelFor threads start fin =
     (let width = pool_slice threads (fin - start + 1) in
      launch_ranges (threads - 1) width start (min (start + width) fin) fin)"

definition SequentialFor :: "int \<Rightarrow> int \<Rightarrow> int list" where
  "SequentialFor start fin = [start..fin - 1]"

text \<open>The orders in which the events of several threads can happen.\<close>

fun interleavings :: "'a list list \<Rightarrow> 'a list set" where
  "interleavings [] = {[]}"
| "interleavings (xs # xss) = (\<Union>zs \<in> interleavings xss. shuffles xs zs)"

section \<open>Batches\<close>

record file_state =
  af_pushed :: "bytes list"
  af_batch :: bytes
  af_batch_blocks :: uint32
  af_last_op :: byte
  af_first_file_tx :: bool

definition file_start :: file_state where
  "file_start = \<lparr>af_pushed = [], af_batch = [], af_batch_blocks = 0, af_last_op = 99, af_first_file_tx = True\<rparr>"

definition push_batch :: "file_state \<Rightarrow> file_state" where
  "push_batch s = s\<lparr>af_pushed := af_pushed s @ [af_batch s], af_batch := [], af_batch_blocks := 0\<rparr>"

definition separate_ops :: "byte \<Rightarrow> file_state \<Rightarrow> file_state" where
  "separate_ops oper s =
     (let s = (if \<not> af_first_file_tx s \<and> oper \<noteq> af_last_op s then push_batch s else s\<lparr>af_first_file_tx := False\<rparr>) in
      s\<lparr>af_last_op := oper\<rparr>)"

definition add_to_batch :: "uint32 \<Rightarrow> bytes \<Rightarrow> file_state \<Rightarrow> file_state" where
  "add_to_batch batch_size tx_canon s =
     (let s = (if batch_size \<le> af_batch_blocks s then push_batch s else s) in
      s\<lparr>af_batch := af_batch s @ tx_canon, af_batch_blocks := af_batch_blocks s + 1\<rparr>)"

definition announce_tx :: "announcer_options \<Rightarrow> Tier2Transaction \<Rightarrow> file_state \<Rightarrow> error + file_state" where
  "announce_tx options tx s =
     bindE (if ano_distinct_ops options then bindE (t2_getOperation tx) (\<lambda>oper. Inr (separate_ops oper s)) else Inr s) (\<lambda>s.
     Inr (add_to_batch (ano_batch_size options) (tx_canonical tx) s))"

section \<open>Files\<close>

definition announce_item ::
  "Crypto \<Rightarrow> KeyRing \<Rightarrow> announcer_options \<Rightarrow> bool \<Rightarrow> bool \<Rightarrow> file_state \<Rightarrow> InputBuffer
   \<Rightarrow> (error + (file_state \<times> InputBuffer)) option" where
  "announce_item C keys options is_block is_transaction s ib =
     (if is_block \<and> nid_mode options = mode_T1 then
        bindP (fb_Create ChainState_empty ib) (\<lambda>(one_block, ib).
        Some (bindE (getFirstValidation (fb_vals one_block)) (\<lambda>pair.
              bindE (Tier1Transaction_make C (fb_summary one_block) (snd pair) (fst pair) keys) (\<lambda>tx.
              Inr (s\<lparr>af_batch := af_batch s @ tx_canonical tx\<rparr>, ib)))))
      else if is_transaction \<and> nid_mode options \<noteq> mode_T1 then
        Some (bindE (t2_Create C keys True ib) (\<lambda>(tx, ib). bindE (announce_tx options tx s) (\<lambda>s. Inr (s, ib))))
      else Some (Inl (RuntimeError ''Unsupported configuration: is_transaction'')))"

text \<open>The job for one file, with the batches it pushes. An empty file fails the assertion.\<close>

definition announce_file ::
  "Crypto \<Rightarrow> KeyRing \<Rightarrow> announcer_options \<Rightarrow> uint64 \<Rightarrow> bytes \<Rightarrow> (error + bytes list) option" where
  "announce_file C keys options now raw =
     (if raw = [] then Some (Inl (Aborted ''file_size > 0''))
      else
        bindP (Some (IsBlockData now raw)) (\<lambda>is_block.
        bindP (Some (IsTxData raw)) (\<lambda>is_transaction.
        bindP (while_unread (announce_item C keys options is_block is_transaction) file_start (InputBuffer_make raw 0)) (\<lambda>(s, _).
        Some (Inr (af_pushed s @ [af_batch s]))))))"

text \<open>The vector of batches after all threads have been joined.\<close>

definition announcer_loads ::
  "Crypto \<Rightarrow> KeyRing \<Rightarrow> announcer_options \<Rightarrow> uint64 \<Rightarrow> nat \<Rightarrow> bytes list \<Rightarrow> bytes list \<Rightarrow> bool" where
  "announcer_loads C keys options now hardware_concurrency files transactions =
     (\<exists>pushes. map (announce_file C keys options now) files = map (\<lambda>p. Some (Inr p)) pushes \<and>
        transactions \<in> interleavings
          (map (\<lambda>(k1, k2). concat (map (\<lambda>k. pushes ! nat k) [k1..k2 - 1]))
            (ParallelFor (nb_threads hardware_concurrency 3) 0 (int (length files)))))"

text \<open>The loop that announces the batches.\<close>

partial_function (option) announce_while ::
  "string \<Rightarrow> bytes list \<Rightarrow> uint32 \<Rightarrow> DevcashMessage list \<Rightarrow> DevcashMessage list option" where
  "announce_while uri transactions processed sent =
     (if ucast processed < vec_size transactions then
        announce_while uri transactions (processed + 1)
          (sent @ [DevcashMessage_make uri TRANSACTION_ANNOUNCEMENT (transactions ! unat processed) (processed + 11000000)])
      else Some sent)"

section \<open>Envelopes\<close>

fun is_runtime_error :: "error \<Rightarrow> bool" where
  "is_runtime_error (RuntimeError s) = True"
| "is_runtime_error (RangeError s) = True"
| "is_runtime_error (DevcashMessageError s) = True"
| "is_runtime_error (DeserializationError s) = True"
| "is_runtime_error e = False"

text \<open>One round of the loop: the messages that are queued, the reply to the client and whether the loop goes on.
  \<open>received\<close> is the result of \<^verbatim>\<open>recv\<close>, after whose failure the message is empty; \<open>stopped k\<close> says whether
  the stop file exists after the announcement with number \<open>k\<close>.\<close>

definition pb_announce ::
  "(string \<Rightarrow> proto_Envelope) \<Rightarrow> (error \<Rightarrow> string) \<Rightarrow> Crypto \<Rightarrow> KeyRing \<Rightarrow> string \<Rightarrow> (nat \<Rightarrow> bool) \<Rightarrow> string option
   \<Rightarrow> error + (DevcashMessage list \<times> string \<times> bool)" where
  "pb_announce parse_envelope what C keys uri stopped received =
     (let keep_running = (received \<noteq> None);
          tx_string = (case received of None \<Rightarrow> [] | Some s \<Rightarrow> s) in
      case DeserializeEnvelopeProtobufString parse_envelope C keys tx_string of
        Inl e \<Rightarrow>
          if is_runtime_error e then Inr ([], ''Deserialization error: '' @ what e, keep_running) else Inl e
      | Inr ptrs \<Rightarrow>
          let messages = map (\<lambda>(processed, t2tx). DevcashMessage_make uri TRANSACTION_ANNOUNCEMENT (tx_getCanonical t2tx)
                (of_nat processed + 11000000)) (enumerate 0 ptrs) in
          Inr (messages,
               ''Successfully published '' @ to_string_u (of_nat (length ptrs) :: uint32) @ '' transactions.'',
               keep_running \<and> \<not> (\<exists>k < length ptrs. stopped k)))"

section \<open>Ranges and interleavings\<close>

lemma launch_ranges_cover:
  "0 < width \<Longrightarrow> i1 \<le> fin \<Longrightarrow> i2 = min (i1 + width) fin \<Longrightarrow>
   concat (map (\<lambda>(k1, k2). [k1..k2 - 1]) (launch_ranges k width i1 i2 fin)) = [i1..fin - 1] \<and>
   length (launch_ranges k width i1 i2 fin) \<le> Suc k"
proof (induction k width i1 i2 fin rule: launch_ranges.induct)
  case (2 k width i1 i2 fin)
  show ?case
  proof (cases "i1 < fin")
    case True
    have "[i1..fin - 1] = [i1..i2 - 1] @ [i2..fin - 1]"
      using upto_split1 [of i1 i2 "fin - 1"] "2.prems" True by (cases "i2 = fin") auto
    then show ?thesis using "2.IH" "2.prems" True by auto
  qed (use "2.prems" in auto)
qed auto

lemma pool_slice_pos: "0 < pool_slice threads n"
  by (simp add: pool_slice_def)

lemma ParallelFor_cover:
  assumes "start \<le> fin"
  shows "concat (map (\<lambda>(k1, k2). [k1..k2 - 1]) (ParallelFor threads start fin)) = [start..fin - 1]"
    and "length (ParallelFor threads start fin) \<le> max threads 1"
  using launch_ranges_cover [of "pool_slice threads (fin - start + 1)" start fin _ "threads - 1", OF pool_slice_pos assms refl]
  by (auto simp: ParallelFor_def Let_def max_def)

lemma interleavings_mset: "zs \<in> interleavings xss \<Longrightarrow> mset zs = mset (concat xss)"
  by (induction xss arbitrary: zs) (auto simp: mset_shuffles)

lemma append_in_shuffles: "xs @ ys \<in> shuffles xs ys"
  by (induction xs) (auto simp: Cons_in_shuffles_iff)

lemma interleavings_concat: "concat xss \<in> interleavings xss"
  by (induction xss) (use append_in_shuffles in force)+

text \<open>What the threads push is what the jobs push one after the other, in some order.\<close>

lemma parallel_pushes:
  assumes "zs \<in> interleavings (map (\<lambda>(k1, k2). concat (map (\<lambda>k. pushes ! nat k) [k1..k2 - 1]))
      (ParallelFor threads 0 (int (length pushes))))"
  shows "mset zs = mset (concat pushes)"
proof -
  let ?R = "ParallelFor threads 0 (int (length pushes))"
  have "map (\<lambda>k. pushes ! nat k) [0..int n - 1] = take n pushes" if "n \<le> length pushes" for n
    using that by (induction n) (simp_all add: upto_rec2 take_Suc_conv_app_nth)
  then have "map (\<lambda>k. pushes ! nat k) [0..int (length pushes) - 1] = pushes" by simp
  moreover have "concat (map (\<lambda>(k1, k2). concat (map (\<lambda>k. pushes ! nat k) [k1..k2 - 1])) R) =
      concat (map (\<lambda>k. pushes ! nat k) (concat (map (\<lambda>(k1, k2). [k1..k2 - 1]) R)))" for R
    by (induction R) auto
  ultimately show ?thesis using interleavings_mset [OF assms] by (simp add: ParallelFor_cover(1))
qed

section \<open>Batches of a file\<close>

definition batch_bytes :: "Tier2Transaction list \<Rightarrow> bytes" where
  "batch_bytes txs = concat (map tx_canonical txs)"

lemma batch_bytes_simps [simp]: "batch_bytes [] = []" "batch_bytes (xs @ ys) = batch_bytes xs @ batch_bytes ys"
  "batch_bytes (x # xs) = tx_canonical x @ batch_bytes xs"
  by (simp_all add: batch_bytes_def)

text \<open>A batch is small enough and, if the operations are to be separated, of one operation.\<close>

definition batch_ok :: "announcer_options \<Rightarrow> Tier2Transaction list \<Rightarrow> bool" where
  "batch_ok options txs =
     (length txs \<le> max 1 (unat (ano_batch_size options)) \<and>
      (ano_distinct_ops options \<longrightarrow> (\<exists>oper. list_all (\<lambda>tx. t2_getOperation tx = Inr oper) txs)))"

definition batched :: "announcer_options \<Rightarrow> Tier2Transaction list list \<Rightarrow> Tier2Transaction list \<Rightarrow> file_state \<Rightarrow> bool" where
  "batched options groups cur s =
     (af_pushed s = map batch_bytes groups \<and> af_batch s = batch_bytes cur \<and> unat (af_batch_blocks s) = length cur \<and>
      list_all (batch_ok options) (groups @ [cur]) \<and>
      (ano_distinct_ops options \<and> cur \<noteq> [] \<longrightarrow>
        \<not> af_first_file_tx s \<and> list_all (\<lambda>tx. t2_getOperation tx = Inr (af_last_op s)) cur))"

lemma batch_ok_Nil [simp]: "batch_ok options []"
  by (simp add: batch_ok_def)

lemma batched_start: "batched options [] [] file_start"
  by (simp add: batched_def file_start_def)

lemma batched_push: "batched options groups cur s \<Longrightarrow> batched options (groups @ [cur]) [] (push_batch s)"
  by (simp add: batched_def push_batch_def)

lemma batched_separate:
  assumes "batched options groups cur s" "ano_distinct_ops options"
  shows "\<exists>groups' cur'. batched options groups' cur' (separate_ops oper s) \<and> concat groups' @ cur' = concat groups @ cur \<and>
    \<not> af_first_file_tx (separate_ops oper s) \<and> af_last_op (separate_ops oper s) = oper"
proof (cases "\<not> af_first_file_tx s \<and> oper \<noteq> af_last_op s")
  case True
  then show ?thesis
    using batched_push [OF assms(1)]
    by (intro exI [of _ "groups @ [cur]"] exI [of _ "[]"]) (simp add: separate_ops_def batched_def push_batch_def)
next
  case False
  then show ?thesis
    using assms by (intro exI [of _ groups] exI [of _ cur]) (auto simp: separate_ops_def batched_def)
qed

lemma batched_add:
  assumes "batched options groups cur s"
    and "ano_distinct_ops options \<Longrightarrow> \<not> af_first_file_tx s \<and> t2_getOperation tx = Inr (af_last_op s)"
  shows "\<exists>groups' cur'. batched options groups' cur' (add_to_batch (ano_batch_size options) (tx_canonical tx) s) \<and>
    concat groups' @ cur' = concat groups @ cur @ [tx]"
proof (cases "ano_batch_size options \<le> af_batch_blocks s")
  case True
  then show ?thesis
    using assms
    by (intro exI [of _ "groups @ [cur]"] exI [of _ "[tx]"])
      (auto simp: add_to_batch_def batched_def push_batch_def batch_ok_def)
next
  case False
  then have "length cur < unat (ano_batch_size options)" using assms(1) by (simp add: batched_def word_le_nat_alt)
  moreover have "unat (af_batch_blocks s + 1) = length cur + 1"
    using assms(1) calculation unat_bound [of "ano_batch_size options"] by (simp add: batched_def unat_word_ariths)
  ultimately show ?thesis
    using assms False
    by (intro exI [of _ groups] exI [of _ "cur @ [tx]"]) (auto simp: add_to_batch_def batched_def batch_ok_def)
qed

lemma batched_tx:
  assumes "batched options groups cur s" "announce_tx options tx s = Inr s'"
  shows "\<exists>groups' cur'. batched options groups' cur' s' \<and> concat groups' @ cur' = concat groups @ cur @ [tx]"
proof (cases "ano_distinct_ops options")
  case False
  then show ?thesis using assms batched_add [OF assms(1), of tx] by (auto simp: announce_tx_def)
next
  case True
  then obtain oper where o: "t2_getOperation tx = Inr oper"
    and s': "s' = add_to_batch (ano_batch_size options) (tx_canonical tx) (separate_ops oper s)"
    using assms(2) by (auto simp: announce_tx_def bindE_eq_Inr)
  obtain g c where "batched options g c (separate_ops oper s)" "concat g @ c = concat groups @ cur"
    "\<not> af_first_file_tx (separate_ops oper s)" "af_last_op (separate_ops oper s) = oper"
    using batched_separate [OF assms(1) True] by blast
  with batched_add [of options g c "separate_ops oper s" tx] o s' show ?thesis by (metis append_assoc)
qed

lemma batched_txs:
  "batched options groups cur s \<Longrightarrow> foldE (announce_tx options) txs s = Inr s' \<Longrightarrow>
   \<exists>groups' cur'. batched options groups' cur' s' \<and> concat groups' @ cur' = concat groups @ cur @ txs"
proof (induction txs arbitrary: groups cur s)
  case (Cons tx txs)
  then obtain s1 where "announce_tx options tx s = Inr s1" "foldE (announce_tx options) txs s1 = Inr s'"
    by (auto simp: bindE_eq_Inr)
  with batched_tx [OF Cons.prems(1)] obtain g c where "batched options g c s1" "concat g @ c = concat groups @ cur @ [tx]"
    by blast
  with Cons.IH [of g c s1] \<open>foldE _ txs s1 = _\<close> show ?case by (metis append.assoc append_Cons append_Nil)
qed auto

text \<open>With the default settings.\<close>

lemma default_batches:
  "ano_batch_size options = 0 \<Longrightarrow> \<not> ano_distinct_ops options \<Longrightarrow>
   \<exists>s'. foldE (announce_tx options) txs s = Inr s' \<and>
     af_pushed s' @ [af_batch s'] = af_pushed s @ af_batch s # map tx_canonical txs"
proof (induction txs arbitrary: s)
  case (Cons tx txs)
  let ?s = "s\<lparr>af_pushed := af_pushed s @ [af_batch s], af_batch := tx_canonical tx, af_batch_blocks := 1\<rparr>"
  have "announce_tx options tx s = Inr ?s"
    using Cons.prems by (simp add: announce_tx_def add_to_batch_def push_batch_def)
  then show ?case using Cons.IH [of ?s] Cons.prems by simp
qed simp

section \<open>Blocks of Tier 2\<close>

lemma IsTxData_returns: "length raw < 2 ^ 63 \<Longrightarrow> \<exists>b. IsTxData raw = Inr b"
  by (auto simp: IsTxData_def BinToUint64_value vec_get_def vec_size_def word_less_nat_alt unat_of_nat)

lemma IsBlockData_block:
  assumes "fb_wf b" "length (fb_getCanonical b @ r) < 2 ^ 63"
    and "1514764800 \<le> fb_block_time b" "fb_block_time b \<le> now"
  shows "IsBlockData now (fb_getCanonical b @ r) = Inr True"
proof -
  have "101 \<le> length (fb_getCanonical b)" using assms(1) by (simp add: fb_getCanonical_eq fb_wf_def)
  then have "\<not> vec_size (fb_getCanonical b @ r) < fb_MinSize"
    using assms(2) unat_vec_size [of "fb_getCanonical b @ r"] by (simp add: fb_MinSize_def word_less_nat_alt)
  moreover have "BinToUint64 (fb_getCanonical b @ r) 9 = Inr (fb_block_time b)"
    using assms(2) by (intro BinToUint64_le64) (auto simp: fb_getCanonical_eq)
  moreover have "(fb_getCanonical b @ r) ! 0 = 0" using assms(1) by (simp add: fb_getCanonical_eq fb_wf_def)
  ultimately show ?thesis
    using assms(3,4) by (simp add: IsBlockData_def vec_get_def fb_getCanonical_not_Nil not_less)
qed

text \<open>A file of blocks that were validated on Tier 2 is one batch of their Tier-1 transactions.\<close>

definition tier2_file :: "Crypto \<Rightarrow> KeyRing \<Rightarrow> uint64 \<Rightarrow> (FinalBlock \<Rightarrow> Tier1Transaction) \<Rightarrow> FinalBlock list \<Rightarrow> bool" where
  "tier2_file C keys now tx_of bs =
     (bs \<noteq> [] \<and> length (concat (map fb_getCanonical bs)) < 2 ^ 63 \<and>
      1514764800 \<le> fb_block_time (hd bs) \<and> fb_block_time (hd bs) \<le> now \<and>
      (\<forall>b \<in> set bs. fb_wf b \<and> (\<forall>raw \<in> set (fb_raw_transactions b). raw_t2 raw) \<and>
         CreateTier1Transaction C b keys = Inr (tx_of b)))"

lemma announce_tier2_file:
  assumes "nid_mode options = mode_T1" and f: "tier2_file C keys now tx_of bs"
  shows "announce_file C keys options now (concat (map fb_getCanonical bs)) =
    Some (Inr [concat (map (\<lambda>b. tx_canonical (tx_of b)) bs)])"
proof -
  let ?raw = "concat (map fb_getCanonical bs)" and ?body = "announce_item C keys options True"
  obtain b0 bs0 where bs: "bs = b0 # bs0" using f by (cases bs) (auto simp: tier2_file_def)
  have len: "length ?raw < 2 ^ 63" using f by (simp add: tier2_file_def)
  have blk: "IsBlockData now ?raw = Inr True"
    using IsBlockData_block [of b0 "concat (map fb_getCanonical bs0)" now] f by (simp add: tier2_file_def bs)
  obtain t where t: "IsTxData ?raw = Inr t" using IsTxData_returns [OF len] by blast
  have one: "?body t s ib = Some (Inr (s\<lparr>af_batch := af_batch s @ tx_canonical (tx_of b)\<rparr>, advance (length (fb_getCanonical b)) ib))"
    if "b \<in> set bs" "ib_wf ib" "ib_rest ib = fb_getCanonical b @ r" for b s ib r
    using fb_Create_rest [of b ib r ChainState_empty] that f assms(1)
    by (auto simp: tier2_file_def announce_item_def CreateTier1Transaction_def bindE_assoc bindE_eq_Inr)
  have "while_unread (?body t) file_start (InputBuffer_make ?raw 0) =
      Some (Inr (fold (\<lambda>b s. s\<lparr>af_batch := af_batch s @ tx_canonical (tx_of b)\<rparr>) bs file_start,
        advance (length ?raw) (InputBuffer_make ?raw 0)))"
    using one fb_getCanonical_not_Nil len by (intro while_unread_items ib_wf_make) auto
  moreover have "fold (\<lambda>b s. s\<lparr>af_batch := af_batch s @ tx_canonical (tx_of b)\<rparr>) xs s =
      s\<lparr>af_batch := af_batch s @ concat (map (\<lambda>b. tx_canonical (tx_of b)) xs)\<rparr>" for xs and s :: file_state
    by (induction xs arbitrary: s) simp_all
  ultimately show ?thesis
    using blk t fb_getCanonical_not_Nil [of b0] by (simp add: announce_file_def bs) (simp add: file_start_def)
qed

lemma announce_while_sends:
  "length transactions < 2 ^ 32 \<Longrightarrow> n \<le> length transactions \<Longrightarrow>
   announce_while uri transactions (of_nat n) sent = Some (sent @
     map (\<lambda>(k, batch). DevcashMessage_make uri TRANSACTION_ANNOUNCEMENT batch (of_nat k + 11000000))
       (enumerate n (drop n transactions)))"
proof (induction "length transactions - n" arbitrary: n sent)
  case 0
  then show ?case
    by (subst announce_while.simps) (simp add: word_less_nat_alt vec_size_def unat_of_nat unsigned_ucast_eq take_bit_nat_eq_self)
next
  case (Suc k)
  then have n: "n < length transactions" and u: "unat (of_nat n :: uint32) = n" by (simp_all add: unat_of_nat)
  have "ucast (of_nat n :: uint32) < vec_size transactions"
    using n u Suc.prems(1) by (simp add: word_less_nat_alt vec_size_def unat_of_nat unsigned_ucast_eq take_bit_nat_eq_self)
  then show ?case
    using Suc.hyps(1) [of "Suc n"] Suc.hyps(2) Suc.prems n u
    by (subst announce_while.simps) (simp add: Cons_nth_drop_Suc [symmetric] add.commute)
qed

section \<open>Properties\<close>

text \<open>C37. The announcer loses and reorders nothing when it cuts the transactions of a file into batches: the batches,
  in the order of the file, hold all of its transactions. No batch has more transactions than the batch
  size allows, and at least one is always allowed; with separate operations every batch is of one
  operation. The default size 0, which is documented as no restriction, announces every transaction on
  its own, after an announcement without transactions.\<close>

theorem announcer_batches:
  assumes "foldE (announce_tx options) txs file_start = Inr s"
  shows "(\<exists>groups. af_pushed s @ [af_batch s] = map (\<lambda>g. concat (map tx_canonical g)) groups \<and> concat groups = txs \<and>
      (\<forall>g \<in> set groups. length g \<le> max 1 (unat (ano_batch_size options)) \<and>
        (ano_distinct_ops options \<longrightarrow> (\<exists>oper. \<forall>tx \<in> set g. t2_getOperation tx = Inr oper)))) \<and>
    (ano_batch_size options = 0 \<and> \<not> ano_distinct_ops options \<longrightarrow>
      af_pushed s @ [af_batch s] = [] # map tx_canonical txs)"
proof -
  obtain groups cur where b: "batched options groups cur s" "concat groups @ cur = txs"
    using batched_txs [OF batched_start assms] by auto
  then have "af_pushed s @ [af_batch s] = map (\<lambda>g. concat (map tx_canonical g)) (groups @ [cur])" "concat (groups @ [cur]) = txs"
    "list_all (batch_ok options) (groups @ [cur])"
    by (simp_all add: batched_def batch_bytes_def)
  moreover have "af_pushed s @ [af_batch s] = [] # map tx_canonical txs"
    if "ano_batch_size options = 0" "\<not> ano_distinct_ops options"
    using default_batches [OF that, of txs file_start] assms by (auto simp: file_start_def)
  ultimately show ?thesis unfolding batch_ok_def list_all_iff by (metis (no_types, lifting))
qed

definition sample_announcer :: "eAppMode \<Rightarrow> announcer_options" where
  "sample_announcer mode =
     \<lparr>nid_mode = mode, nid_node_index = 0, nid_shard_index = 0, nid_inn_keys = [], nid_node_keys = [], nid_key_pass = [],
      nid_debug_mode = dbg_off, ano_bind_endpoint = [], ano_working_dir = [], ano_stop_file = [], ano_batch_size = 0,
      ano_start_delay = 0, ano_sleep_ms = 0, ano_distinct_ops = False\<rparr>"

theorem announcer_batches_witness:
  "\<exists>s. foldE (announce_tx (sample_announcer mode_T2)) [sample_t2, sample_t2] file_start = Inr s \<and>
     af_pushed s @ [af_batch s] = [[], tx_canonical sample_t2, tx_canonical sample_t2]"
proof -
  have o: "ano_batch_size (sample_announcer mode_T2) = 0" "\<not> ano_distinct_ops (sample_announcer mode_T2)"
    by (simp_all add: sample_announcer_def)
  then obtain s where s: "foldE (announce_tx (sample_announcer mode_T2)) [sample_t2, sample_t2] file_start = Inr s"
    using default_batches by blast
  from announcer_batches [OF s] s o show ?thesis by auto
qed


definition recent_final :: FinalBlock where
  "recent_final = signed_final\<lparr>fb_block_time := 1514764800\<rparr>"

lemma recent_final_file:
  "tier2_file sample_crypto KeyRing_empty 1514764801 (\<lambda>_. sample_t1) [recent_final]"
proof -
  have "length (fb_getCanonical recent_final) = length (fb_getCanonical signed_final)"
    by (simp add: recent_final_def fb_getCanonical_eq)
  then show ?thesis
    using signed_final_facts
    by (simp add: tier2_file_def fb_wf_def vec_size_def) (simp add: recent_final_def CreateTier1Transaction_def)
qed


end
