(* ===== verification/Json.thy ===== *)
theory Json
  imports Block_Chain
begin

text \<open>
  \<^verbatim>\<open>primitives/json_interface.h\<close>: the JSON texts of summaries, validations, blocks and chains. The second part
  says which of the texts of the development are JSON: \<open>json\<close> is a part of the grammar that is enough for them,
  and every text of it has as many opening as closing brackets.
\<close>

section \<open>Texts\<close>

definition GetJSON_entry :: "Address \<times> SummaryPair \<Rightarrow> string" where
  "GetJSON_entry e =
     (case e of (addr, delayed, coin_map) \<Rightarrow>
      ''{'' @ json_tag ''addr'' @ dq @ addr_getJSON addr @ dq @ '',''
      @ json_tag ''delay_size'' @ nat_to_string (length delayed) @ '',''
      @ json_tag ''coin_size'' @ nat_to_string (length coin_map) @ '',''
      @ json_tag ''delayed'' @ ''[''
      @ join_comma (map (\<lambda>(coin, item). ''{'' @ json_tag ''type'' @ to_string_u coin @ '',''
            @ json_tag ''dlay'' @ to_string_u (di_delay item) @ '',''
            @ json_tag ''amount'' @ to_string_u (di_delta item) @ ''}'') delayed)
      @ ''],'' @ json_tag ''coin_map'' @ ''[''
      @ join_comma (map (\<lambda>(coin, amount). ''{'' @ json_tag ''type'' @ to_string_u coin @ '',''
            @ json_tag ''amount'' @ to_string_s amount @ ''}'') coin_map)
      @ '']}'')"

definition GetJSON_Summary :: "Summary \<Rightarrow> string" where
  "GetJSON_Summary sm =
     ''{'' @ json_tag ''addr_size'' @ nat_to_string (length (summary_map sm)) @ '','' @ json_tag ''summary'' @ ''[''
     @ join_comma (map GetJSON_entry (summary_map sm)) @ '']}''"

definition GetJSON_Validation :: "Validation \<Rightarrow> string" where
  "GetJSON_Validation v =
     ''['' @ join_comma (map (\<lambda>(addr, sig). ''{'' @ json_tag (addr_getJSON addr) @ dq @ sig_getJSON sig @ dq @ ''}'') (sigs v))
     @ '']''"

definition GetJSON_ProposedBlock :: "ProposedBlock \<Rightarrow> error + string" where
  "GetJSON_ProposedBlock block =
     bindE (mapE tx_getJSON (pb_transactions block)) (\<lambda>items.
     Inr (''{'' @ json_tag ''v'' @ to_string_u (pb_version block) @ '',''
       @ json_tag ''bytes'' @ to_string_u (pb_num_bytes block) @ '',''
       @ json_tag ''prev'' @ dq @ ToHexAll (pb_prev_hash block) @ dq @ '',''
       @ json_tag ''txlen'' @ to_string_u (pb_tx_size block) @ '',''
       @ json_tag ''sum_size'' @ to_string_u (pb_sum_size block) @ '',''
       @ json_tag ''vcount'' @ to_string_u (pb_val_count block) @ '',''
       @ json_tag ''txs'' @ ''['' @ join_comma items
       @ ''],'' @ json_tag ''sum'' @ GetJSON_Summary (pb_summary block) @ '',''
       @ json_tag ''vals'' @ GetJSON_Validation (pb_vals block) @ ''}''))"

definition GetJSON_FinalBlock :: "FinalBlock \<Rightarrow> error + string" where
  "GetJSON_FinalBlock block =
     bindE (mapE tx_getJSON (fb_transactions block)) (\<lambda>items.
     Inr (''{'' @ json_tag ''v'' @ to_string_u (fb_version block) @ '',''
       @ json_tag ''bytes'' @ to_string_u (fb_num_bytes block) @ '',''
       @ json_tag ''time'' @ to_string_u (fb_block_time block) @ '',''
       @ json_tag ''prev'' @ dq @ ToHexAll (fb_prev_hash block) @ dq @ '',''
       @ json_tag ''merkle'' @ dq @ ToHexAll (fb_merkle_root block) @ dq @ '',''
       @ json_tag ''txlen'' @ to_string_u (fb_tx_size block) @ '',''
       @ json_tag ''sum_size'' @ to_string_u (fb_sum_size block) @ '',''
       @ json_tag ''vcount'' @ to_string_u (fb_val_count block) @ '',''
       @ json_tag ''txs'' @ ''['' @ join_comma items
       @ ''],'' @ json_tag ''sum'' @ GetJSON_Summary (fb_summary block) @ '',''
       @ json_tag ''vals'' @ GetJSON_Validation (fb_vals block) @ ''}''))"

definition GetJSON_Blockchain :: "Blockchain \<Rightarrow> error + string" where
  "GetJSON_Blockchain blockchain =
     bindE (mapE GetJSON_FinalBlock (bc_chain blockchain)) (\<lambda>items. Inr (''['' @ join_comma items @ '']''))"

section \<open>JSON\<close>

definition digits :: "string \<Rightarrow> bool" where
  "digits s = (s \<noteq> [] \<and> list_all (\<lambda>c. c \<in> set ''0123456789'') s)"

definition plain_char :: "char \<Rightarrow> bool" where
  "plain_char c = (c \<in> set ''0123456789_abcdefghijklmnopqrstuvwxyzABCDEF'')"

definition plain :: "string \<Rightarrow> bool" where
  "plain s = list_all plain_char s"

inductive json :: "string \<Rightarrow> bool" where
  json_number: "digits s \<Longrightarrow> json s"
| json_negative: "digits s \<Longrightarrow> json (''-'' @ s)"
| json_string: "plain s \<Longrightarrow> json (dq @ s @ dq)"
| json_array: "list_all json items \<Longrightarrow> json (''['' @ join_comma items @ '']'')"
| json_object: "list_all (\<lambda>(k, v). plain k \<and> json v) members \<Longrightarrow>
    json (''{'' @ join_comma (map (\<lambda>(k, v). json_tag k @ v) members) @ ''}'')"

lemma join_comma_simps: "join_comma [] = []" "join_comma [x] = x" "join_comma (x # y # xs) = x @ '','' @ join_comma (y # xs)"
proof -
  have "fold (\<lambda>x json. json @ '','' @ x) xs (a @ b) = a @ fold (\<lambda>x json. json @ '','' @ x) xs b" for a b :: string
    by (induction xs arbitrary: b) simp_all
  from this [of "x @ '',''" y] show "join_comma (x # y # xs) = x @ '','' @ join_comma (y # xs)" by (simp add: join_comma_def)
qed (simp_all add: join_comma_def)

lemma list_all_concat_map: "(\<And>x. list_all P (f x)) \<Longrightarrow> list_all P (concat (map f xs))"
  by (induction xs) simp_all

lemma digits_nat [simp]: "digits (nat_to_string n)"
proof (induction n rule: nat_to_string.induct)
  case (1 n)
  have d: "list_all (\<lambda>d. char_of (48 + d :: nat) \<in> set ''0123456789'') [0..<10]" by code_simp
  show ?case
    using 1 d by (subst nat_to_string.simps) (auto simp: digits_def list_all_iff)
qed

lemma digits_to_string [simp]: "digits (to_string_u w)"
  by (simp add: to_string_u_def)

lemma plain_hex: "plain (hex_digits c)"
proof -
  have "list_all plain_char alpha" "length alpha = 16" by code_simp+
  then have "plain_char (alpha ! n)" if "n < 16" for n using that by (simp add: list_all_length)
  moreover have "unat (c AND 0xF) < 16" for c :: byte
    using word_and_le1 [of c "0xF"] by (simp add: word_le_nat_alt)
  ultimately show ?thesis by (simp add: plain_def hex_digits_def)
qed

lemma plain_texts [simp]: "plain (addr_getJSON a)" "plain (sig_getJSON sg)" "plain (ToHex b n)"
  using plain_hex by (simp_all add: plain_def addr_getJSON_def sig_getJSON_def ToHex_def list_all_concat_map)

lemma plain_tags [simp]:
  "list_all plain [''addr'', ''delay_size'', ''coin_size'', ''delayed'', ''coin_map'', ''type'', ''dlay'', ''amount'',
     ''addr_size'', ''summary'', ''v'', ''bytes'', ''time'', ''prev'', ''merkle'', ''txlen'', ''sum_size'', ''vcount'',
     ''txs'', ''sum'', ''vals'', ''xfer_size'', ''nonce_size'', ''oper'', ''xfer'', ''nonce'', ''sig'']"
  by code_simp

lemma json_numbers [simp]: "json (nat_to_string n)" "json (to_string_u w)" "json (to_string_s w)"
  using json_negative [of "nat_to_string (nat (- sint w))"] by (auto simp: to_string_s_def intro: json_number)

lemma json_strings [simp]: "plain s \<Longrightarrow> json (dq @ s @ dq)" "plain s \<Longrightarrow> json (dq @ s @ dq @ [])"
  by (auto intro: json_string)

lemma json_objectI:
  assumes "list_all (\<lambda>(k, v). plain k \<and> json v) members"
    and "''{'' @ join_comma (map (\<lambda>(k, v). json_tag k @ v) members) @ ''}'' = s"
  shows "json s"
  using json_object [OF assms(1)] assms(2) by simp

lemmas json_text = join_comma_simps json_tag_def

lemma json_entry: "json (GetJSON_entry e)"
proof -
  obtain addr delayed coin_map where e: "e = (addr, delayed, coin_map)" by (cases e)
  let ?d = "map (\<lambda>(coin, item). ''{'' @ json_tag ''type'' @ to_string_u coin @ '','' @ json_tag ''dlay'' @ to_string_u (di_delay item)
      @ '','' @ json_tag ''amount'' @ to_string_u (di_delta item) @ ''}'') delayed"
    and ?c = "map (\<lambda>(coin, amount). ''{'' @ json_tag ''type'' @ to_string_u coin @ '','' @ json_tag ''amount'' @ to_string_s amount
      @ ''}'') coin_map"
  have "json (''{'' @ json_tag ''type'' @ to_string_u coin @ '','' @ json_tag ''dlay'' @ to_string_u (di_delay item)
      @ '','' @ json_tag ''amount'' @ to_string_u (di_delta item) @ ''}'')" for coin :: uint64 and item :: DelayedItem
    using plain_tags
    by (intro json_objectI [of "[(''type'', to_string_u coin), (''dlay'', to_string_u (di_delay item)), (''amount'', to_string_u (di_delta item))]"])
      (simp_all add: json_text)
  then have d: "list_all json ?d" by (simp add: list_all_iff split: prod.splits)
  have "json (''{'' @ json_tag ''type'' @ to_string_u coin @ '','' @ json_tag ''amount'' @ to_string_s amount @ ''}'')"
    for coin amount :: uint64
    using plain_tags
    by (intro json_objectI [of "[(''type'', to_string_u coin), (''amount'', to_string_s amount)]"]) (simp_all add: json_text)
  then have c: "list_all json ?c" by (simp add: list_all_iff split: prod.splits)
  show ?thesis
    using plain_tags json_array [OF d] json_array [OF c]
    by (intro json_objectI [of "[(''addr'', dq @ addr_getJSON addr @ dq), (''delay_size'', nat_to_string (length delayed)),
        (''coin_size'', nat_to_string (length coin_map)), (''delayed'', ''['' @ join_comma ?d @ '']''),
        (''coin_map'', ''['' @ join_comma ?c @ '']'')]"])
      (simp_all add: json_text GetJSON_entry_def e)
qed

lemma json_summary: "json (GetJSON_Summary sm)"
proof -
  have "list_all json (map GetJSON_entry (summary_map sm))" by (simp add: json_entry list_all_iff)
  from json_array [OF this] plain_tags show ?thesis
    by (intro json_objectI [of "[(''addr_size'', nat_to_string (length (summary_map sm))),
        (''summary'', ''['' @ join_comma (map GetJSON_entry (summary_map sm)) @ '']'')]"])
      (simp_all add: json_text GetJSON_Summary_def)
qed

lemma json_validation: "json (GetJSON_Validation v)"
proof -
  have "json (''{'' @ json_tag (addr_getJSON addr) @ dq @ sig_getJSON sg @ dq @ ''}'')" for addr sg
    by (rule json_objectI [of "[(addr_getJSON addr, dq @ sig_getJSON sg @ dq)]"]) (simp_all add: json_text)
  then have "list_all json (map (\<lambda>(addr, sg). ''{'' @ json_tag (addr_getJSON addr) @ dq @ sig_getJSON sg @ dq @ ''}'') (sigs v))"
    by (simp add: list_all_iff split: prod.splits)
  from json_array [OF this] show ?thesis by (simp add: GetJSON_Validation_def)
qed

lemma json_transfer:
  assumes "xfer_getJSON t = Inr s"
  shows "json s"
proof -
  obtain addr coin amount delay where "s = ''{'' @ dq @ ''addr'' @ dq @ '':'' @ dq @ addr_getJSON addr
       @ dq @ '','' @ dq @ ''type'' @ dq @ '':'' @ to_string_u (coin :: uint64)
       @ '','' @ dq @ ''amount'' @ dq @ '':'' @ to_string_s (amount :: uint64)
       @ '','' @ dq @ ''dlay'' @ dq @ '':'' @ to_string_u (delay :: uint64) @ ''}''"
    using assms by (auto simp: xfer_getJSON_def bindE_eq_Inr)
  with plain_tags show ?thesis
    by (intro json_objectI [of "[(''addr'', dq @ addr_getJSON addr @ dq), (''type'', to_string_u coin), (''amount'', to_string_s amount),
        (''dlay'', to_string_u delay)]"]) (simp_all add: json_text)
qed

lemma mapE_all: "mapE f xs = Inr ys \<Longrightarrow> \<forall>x \<in> set xs. \<forall>y. f x = Inr y \<longrightarrow> P y \<Longrightarrow> list_all P ys"
  by (induction xs arbitrary: ys) (auto simp: bindE_eq_Inr)

lemma json_t2:
  assumes "t2_getJSON tx = Inr s"
  shows "json s"
proof -
  obtain oper items nonce sg xfers where "mapE xfer_getJSON xfers = Inr items"
    and s: "s = ''{'' @ json_tag ''xfer_size'' @ to_string_u (t2_xfer_size tx) @ '',''
       @ json_tag ''nonce_size'' @ to_string_u (t2_nonce_size tx) @ '',''
       @ json_tag ''oper'' @ to_string_u (oper :: byte) @ '',''
       @ json_tag ''xfer'' @ ''['' @ join_comma items
       @ ''],'' @ json_tag ''nonce'' @ dq @ ToHexAll nonce @ dq @ '',''
       @ json_tag ''sig'' @ dq @ sig_getJSON sg @ dq @ ''}''"
    using assms by (auto simp: t2_getJSON_def bindE_eq_Inr)
  from mapE_all [OF this(1), of json] json_transfer have "json (''['' @ join_comma items @ '']'')" by (intro json_array) blast
  with plain_tags s show ?thesis
    by (intro json_objectI [of "[(''xfer_size'', to_string_u (t2_xfer_size tx)), (''nonce_size'', to_string_u (t2_nonce_size tx)),
        (''oper'', to_string_u oper), (''xfer'', ''['' @ join_comma items @ '']''), (''nonce'', dq @ ToHexAll nonce @ dq),
        (''sig'', dq @ sig_getJSON sg @ dq)]"]) (simp_all add: json_text)
qed

text \<open>The texts of blocks and chains, when the transactions are of Tier 2.\<close>

fun is_tier2 :: "TransactionPtr \<Rightarrow> bool" where
  "is_tier2 (Tier2 tx) = True"
| "is_tier2 (Tier1 tx) = False"

lemma json_txs:
  assumes "mapE tx_getJSON txs = Inr items" "list_all is_tier2 txs"
  shows "json (''['' @ join_comma items @ '']'')"
proof -
  have "\<forall>x \<in> set txs. \<forall>y. tx_getJSON x = Inr y \<longrightarrow> json y"
    using assms(2) json_t2 by (metis is_tier2.elims(2) list_all_iff tx_getJSON.simps(2))
  from mapE_all [OF assms(1) this] show ?thesis by (rule json_array)
qed

lemma json_proposed:
  assumes "GetJSON_ProposedBlock b = Inr s" "list_all is_tier2 (pb_transactions b)"
  shows "json s"
proof -
  obtain items where i: "mapE tx_getJSON (pb_transactions b) = Inr items"
    using assms(1) by (auto simp: GetJSON_ProposedBlock_def bindE_eq_Inr)
  with assms(1) have s: "GetJSON_ProposedBlock b = Inr s" by simp
  show ?thesis
    using plain_tags json_txs [OF i assms(2)] json_summary json_validation s
    by (intro json_objectI [of "[(''v'', to_string_u (pb_version b)), (''bytes'', to_string_u (pb_num_bytes b)),
        (''prev'', dq @ ToHexAll (pb_prev_hash b) @ dq), (''txlen'', to_string_u (pb_tx_size b)),
        (''sum_size'', to_string_u (pb_sum_size b)), (''vcount'', to_string_u (pb_val_count b)),
        (''txs'', ''['' @ join_comma items @ '']''), (''sum'', GetJSON_Summary (pb_summary b)),
        (''vals'', GetJSON_Validation (pb_vals b))]"])
      (simp_all add: json_text GetJSON_ProposedBlock_def i)
qed

lemma json_final:
  assumes "GetJSON_FinalBlock b = Inr s" "list_all is_tier2 (fb_transactions b)"
  shows "json s"
proof -
  obtain items where i: "mapE tx_getJSON (fb_transactions b) = Inr items"
    using assms(1) by (auto simp: GetJSON_FinalBlock_def bindE_eq_Inr)
  show ?thesis
    using plain_tags json_txs [OF i assms(2)] json_summary json_validation assms(1)
    by (intro json_objectI [of "[(''v'', to_string_u (fb_version b)), (''bytes'', to_string_u (fb_num_bytes b)),
        (''time'', to_string_u (fb_block_time b)), (''prev'', dq @ ToHexAll (fb_prev_hash b) @ dq),
        (''merkle'', dq @ ToHexAll (fb_merkle_root b) @ dq), (''txlen'', to_string_u (fb_tx_size b)),
        (''sum_size'', to_string_u (fb_sum_size b)), (''vcount'', to_string_u (fb_val_count b)),
        (''txs'', ''['' @ join_comma items @ '']''), (''sum'', GetJSON_Summary (fb_summary b)),
        (''vals'', GetJSON_Validation (fb_vals b))]"])
      (simp_all add: json_text GetJSON_FinalBlock_def i)
qed

section \<open>Brackets\<close>

definition excess :: "string \<Rightarrow> int" where
  "excess s = int (count_list s (CHR ''['')) - int (count_list s (CHR '']''))"

lemma excess_simps [simp]: "excess [] = 0" "excess (s @ t) = excess s + excess t"
  "excess (c # s) = (if c = CHR ''['' then 1 else if c = CHR '']'' then - 1 else 0) + excess s"
  by (simp_all add: excess_def)

lemma excess_plain: "plain s \<Longrightarrow> excess s = 0" and excess_digits: "digits s \<Longrightarrow> excess s = 0"
proof -
  have "\<not> plain_char (CHR ''['')" "\<not> plain_char (CHR '']'')" by code_simp+
  then show "plain s \<Longrightarrow> excess s = 0" by (induction s) (auto simp: plain_def)
  have "list_all (\<lambda>c. c \<in> set ''0123456789'') s \<Longrightarrow> excess s = 0" by (induction s) auto
  then show "digits s \<Longrightarrow> excess s = 0" by (simp add: digits_def)
qed

lemma excess_dq [simp]: "excess dq = 0"
  by (simp add: dq_def)

lemma excess_join: "excess (join_comma xs) = sum_list (map excess xs)"
  by (induction xs rule: induct_list012) (simp_all add: join_comma_simps)

lemma json_brackets: "json s \<Longrightarrow> excess s = 0"
proof (induction rule: json.induct)
  case (json_array items)
  then have "sum_list (map excess items) = 0" by (induction items) simp_all
  then show ?case by (simp add: excess_join)
next
  case (json_object members)
  then have "sum_list (map (excess \<circ> (\<lambda>(k, v). json_tag k @ v)) members) = 0"
    by (induction members) (auto simp: json_tag_def excess_plain)
  then show ?case by (simp add: excess_join)
qed (simp_all add: excess_plain excess_digits)

lemma excess_numbers [simp]: "excess (nat_to_string n) = 0" "excess (to_string_u w) = 0" "excess (to_string_s w) = 0"
  by (rule json_brackets, rule json_numbers)+

lemma excess_join_map: "(\<And>x. excess (f x) = 0) \<Longrightarrow> excess (join_comma (map f xs)) = 0"
  by (induction xs) (simp_all add: excess_join)

lemma excess_t1_entry: "excess (t1_entry_JSON e) = 1"
proof -
  obtain addr delayed coin_map where e: "e = (addr, delayed, coin_map)" by (cases e)
  show ?thesis
    by (simp add: t1_entry_JSON_def e json_tag_def excess_plain excess_join_map split: prod.splits)
qed

lemma excess_t1:
  assumes "t1_getJSON tx = Inr s" "t1_getSummary tx = Inr sm"
  shows "excess s = int (length (summary_map sm))"
proof -
  have "excess (concat (map t1_entry_JSON es)) = int (length es)" for es by (induction es) (simp_all add: excess_t1_entry)
  then show ?thesis
    using assms by (auto simp: t1_getJSON_def bindE_eq_Inr json_tag_def excess_plain)
qed

section \<open>Properties\<close>

text \<open>C30. The texts of summaries, of validations, of Tier-2 transactions and of the blocks and chains that hold them are
  JSON. The text of a Tier-1 transaction with a summary that is not empty is not: a bracket stays open for
  every address of the summary. So the texts of Tier-1 blocks cannot be read.\<close>

theorem json_texts:
  "json (GetJSON_Summary sm) \<and> json (GetJSON_Validation v) \<and>
   (t2_getJSON tx = Inr s \<longrightarrow> json s) \<and>
   (GetJSON_ProposedBlock p = Inr s \<and> list_all is_tier2 (pb_transactions p) \<longrightarrow> json s) \<and>
   (GetJSON_FinalBlock b = Inr s \<and> list_all is_tier2 (fb_transactions b) \<longrightarrow> json s) \<and>
   (GetJSON_Blockchain bc = Inr s \<and> list_all (\<lambda>b. list_all is_tier2 (fb_transactions b)) (bc_chain bc) \<longrightarrow> json s) \<and>
   (t1_getJSON upper = Inr s \<and> t1_getSummary upper = Inr usm \<and> summary_map usm \<noteq> [] \<longrightarrow>
      \<not> json s \<and> count_list s (CHR ''['') = count_list s (CHR '']'') + length (summary_map usm))"
proof (intro conjI impI)
  show "json s" if chain: "GetJSON_Blockchain bc = Inr s \<and> list_all (\<lambda>b. list_all is_tier2 (fb_transactions b)) (bc_chain bc)"
  proof -
    obtain items where "mapE GetJSON_FinalBlock (bc_chain bc) = Inr items" and s: "s = ''['' @ join_comma items @ '']''"
      using chain by (auto simp: GetJSON_Blockchain_def bindE_eq_Inr)
    from mapE_all [OF this(1), of json] chain json_final have "list_all json items" by (auto simp: list_all_iff)
    then show ?thesis unfolding s by (rule json_array)
  qed
  assume t1: "t1_getJSON upper = Inr s \<and> t1_getSummary upper = Inr usm \<and> summary_map usm \<noteq> []"
  then have e: "excess s = int (length (summary_map usm))" using excess_t1 by blast
  with t1 show "\<not> json s" using json_brackets by force
  from e show "count_list s (CHR ''['') = count_list s (CHR '']'') + length (summary_map usm)" by (simp add: excess_def)
qed (use json_summary json_validation json_t2 json_proposed json_final in blast)+

theorem json_texts_witness:
  "\<exists>s1 s2. t2_getJSON sample_t2 = Inr s2 \<and> json s2 \<and> t1_getJSON sample_t1 = Inr s1 \<and> \<not> json s1"
proof -
  have "mapE xfer_getJSON sample_xfers \<noteq> Inl e" for e
    by (simp add: sample_xfers_def sample_xfer_def sample_xfer2_def xfer_getJSON_def)
  then obtain items where "mapE xfer_getJSON sample_xfers = Inr items" by (cases "mapE xfer_getJSON sample_xfers") auto
  then obtain s2 where s2: "t2_getJSON sample_t2 = Inr s2"
    by (simp add: t2_getJSON_def sample_t2_getters) (simp add: sample_t2_def t2_getNonce_parts t2_getSignature_parts)
  have m: "summary_map sample_summary \<noteq> []" using sample_summary_sane by (auto simp: isSane_def)
  obtain s1 where s1: "t1_getJSON sample_t1 = Inr s1" "t1_getSummary sample_t1 = Inr sample_summary"
    using t1_parts_getters [OF sample_t1_encodable, of True] by (simp add: t1_getJSON_def sample_t1_def)
  show ?thesis
    using json_texts [where tx = sample_t2 and s = s2] json_texts [where upper = sample_t1 and s = s1 and usm = sample_summary] s1 s2 m
    by blast
qed

end
