(* ===== verification/Verifier.thy ===== *)
theory Verifier
  imports Announcer Json
begin

text \<open>
  \<^verbatim>\<open>verifier.cpp\<close> and \<^verbatim>\<open>scanner.cpp\<close>: two programs that read the files of a directory, which is given as
  the list of their contents. The warnings they write are collected in the state; the JSON texts of the warnings
  are built and may throw. The trees of \<^verbatim>\<open>boost::property_tree\<close> are an argument, the record \<open>ptree_ops\<close>. The rates and
  totals that are only printed for the user are those of the state.
\<close>

section \<open>The loop over a buffer\<close>

text \<open>An exception of \<open>body\<close> that is a \<^verbatim>\<open>std::exception\<close> leaves the loop after \<open>skip\<close>.\<close>

partial_function (option) scan_while ::
  "(InputBuffer \<Rightarrow> ('s, InputBuffer) prog) \<Rightarrow> ('s, unit) prog \<Rightarrow> InputBuffer \<Rightarrow> 's \<Rightarrow> (unit outcome \<times> 's) option" where
  "scan_while body skip ib s =
     (if ib_offset ib < ib_size ib then
        (case body ib s of
           None \<Rightarrow> None
         | Some (Returned ib', s') \<Rightarrow> scan_while body skip ib' s'
         | Some (Thrown e, s') \<Rightarrow> if is_std_exception e then skip s' else Some (Thrown e, s')
         | Some (Blocked n, s') \<Rightarrow> Some (Blocked n, s'))
      else Some (Returned (), s))"

datatype warning = InvalidTransaction | InvalidSummary | UnknownData | SkippedFile | StatesDiffer | UnexpectedVersion

section \<open>The verifier\<close>

record verify_state =
  vs_priori :: ChainState
  vs_posteri :: ChainState
  vs_summary :: Summary
  vs_block_summary :: Summary
  vs_warnings :: "warning list"

definition verify_start :: verify_state where
  "verify_start = \<lparr>vs_priori = ChainState_empty, vs_posteri = ChainState_empty, vs_summary = Summary_Create,
     vs_block_summary = Summary_Create, vs_warnings = []\<rparr>"

definition vs_warn :: "warning \<Rightarrow> ('a verify_state_scheme, unit) prog" where
  "vs_warn w = updM (\<lambda>s. s\<lparr>vs_warnings := vs_warnings s @ [w]\<rparr>)"

text \<open>One transaction of a block, against the state of the blocks.\<close>

definition verify_item :: "Crypto \<Rightarrow> KeyRing \<Rightarrow> TransactionPtr \<Rightarrow> ('a verify_state_scheme, unit) prog" where
  "verify_item C keys item =
     bindM (getM (\<lambda>s. (vs_posteri s, vs_block_summary s))) (\<lambda>p.
     bindM (liftM (tx_isValid C keys item p)) (\<lambda>(valid, state, summary).
     bindM (updM (\<lambda>s. s\<lparr>vs_posteri := state, vs_block_summary := summary\<rparr>)) (\<lambda>_.
     if valid then returnM ()
     else bindM (vs_warn InvalidTransaction) (\<lambda>_. bindM (liftM (tx_getJSON item)) (\<lambda>_. returnM ())))))"

text \<open>The transactions of a block and its summary, in both programs.\<close>

definition verify_contents :: "Crypto \<Rightarrow> KeyRing \<Rightarrow> FinalBlock \<Rightarrow> ('a verify_state_scheme, unit) prog" where
  "verify_contents C keys one_block =
     bindM (updM (\<lambda>s. s\<lparr>vs_block_summary := Summary_Create\<rparr>)) (\<lambda>_.
     let txs = fb_CopyTransactions one_block in
     bindM (foldM (\<lambda>item _. verify_item C keys item) txs ()) (\<lambda>_.
     bindM (getM vs_block_summary) (\<lambda>block_summary.
     if sum_getCanonical block_summary \<noteq> sum_getCanonical (fb_summary one_block) then
       bindM (vs_warn InvalidSummary) (\<lambda>_. bindM (liftM (mapE tx_getJSON txs)) (\<lambda>_. returnM ()))
     else returnM ())))"

definition verify_block :: "Crypto \<Rightarrow> KeyRing \<Rightarrow> eAppMode \<Rightarrow> InputBuffer \<Rightarrow> (verify_state, InputBuffer) prog" where
  "verify_block C keys mode ib =
     bindM (getM vs_posteri) (\<lambda>posteri.
     bindM (liftP (FinalBlock_mode C posteri keys mode ib)) (\<lambda>(one_block, ib).
     bindM (verify_contents C keys one_block) (\<lambda>_. returnM ib)))"

text \<open>One transaction of a file of transactions, against the other state.\<close>

definition verify_tx :: "Crypto \<Rightarrow> KeyRing \<Rightarrow> InputBuffer \<Rightarrow> (verify_state, InputBuffer) prog" where
  "verify_tx C keys ib =
     bindM (liftM (t2_Create C keys True ib)) (\<lambda>(tx, ib).
     bindM (getM (\<lambda>s. (vs_priori s, vs_summary s))) (\<lambda>p.
     bindM (liftM (t2_isValid C keys tx p)) (\<lambda>(valid, state, summary).
     bindM (updM (\<lambda>s. s\<lparr>vs_priori := state, vs_summary := summary\<rparr>)) (\<lambda>_.
     if valid then returnM ib
     else bindM (vs_warn InvalidTransaction) (\<lambda>_. bindM (liftM (t2_getJSON tx)) (\<lambda>_. returnM ib))))))"

definition verify_body :: "Crypto \<Rightarrow> KeyRing \<Rightarrow> eAppMode \<Rightarrow> bool \<Rightarrow> bool \<Rightarrow> InputBuffer \<Rightarrow> (verify_state, InputBuffer) prog" where
  "verify_body C keys mode is_block is_transaction ib =
     (if is_block then verify_block C keys mode ib
      else if is_transaction then verify_tx C keys ib
      else bindM (vs_warn UnknownData) (\<lambda>_. returnM ib))"

definition verify_file :: "Crypto \<Rightarrow> KeyRing \<Rightarrow> eAppMode \<Rightarrow> uint64 \<Rightarrow> bytes \<Rightarrow> (verify_state, unit) prog" where
  "verify_file C keys mode now raw =
     (if raw = [] then throwM (Aborted ''file_size > 0'')
      else
        bindM (liftM (IsBlockData now raw)) (\<lambda>is_block.
        bindM (liftM (IsTxData raw)) (\<lambda>is_transaction.
        bindM (whenM (\<not> is_block \<and> \<not> is_transaction) (vs_warn UnknownData)) (\<lambda>_.
        scan_while (verify_body C keys mode is_block is_transaction) (vs_warn SkippedFile) (InputBuffer_make raw 0)))))"

definition verify_files :: "Crypto \<Rightarrow> KeyRing \<Rightarrow> eAppMode \<Rightarrow> uint64 \<Rightarrow> bytes list \<Rightarrow> (verify_state, unit) prog" where
  "verify_files C keys mode now files =
     bindM (foldM (\<lambda>raw _. verify_file C keys mode now raw) files ()) (\<lambda>_.
     bindM (getM (\<lambda>s. CompareChainStateMaps (getStateMap (vs_priori s)) (getStateMap (vs_posteri s)))) (\<lambda>same.
     whenM (\<not> same) (vs_warn StatesDiffer)))"

text \<open>The value that \<open>main\<close> returns. \<open>directory\<close> is \<open>None\<close> when the working directory is not a directory.\<close>

definition verifier_main ::
  "Crypto \<Rightarrow> (string \<Rightarrow> string) \<Rightarrow> uint64 \<Rightarrow> verifier_options option \<Rightarrow> bytes list option
   \<Rightarrow> (error + (int \<times> warning list)) option" where
  "verifier_main C files now parsed directory =
     (case parsed of
        None \<Rightarrow> Some (Inr (- 1, []))
      | Some options \<Rightarrow>
          (case KeyRing_make C (files (nid_inn_keys options)) (files (nid_node_keys options)) (nid_key_pass options) of
             Inl e \<Rightarrow> if is_exception e then Some (Inr (0, [])) else Some (Inl e)
           | Inr keys \<Rightarrow>
               (case directory of
                  None \<Rightarrow> Some (Inr (0, []))
                | Some raws \<Rightarrow>
                    (case verify_files C keys (nid_mode options) now raws verify_start of
                       None \<Rightarrow> None
                     | Some (Returned _, s) \<Rightarrow> Some (Inr (1, vs_warnings s))
                     | Some (Thrown e, s) \<Rightarrow> if is_exception e then Some (Inr (0, vs_warnings s)) else Some (Inl e)
                     | Some (Blocked n, s) \<Rightarrow> None))))"

section \<open>The scanner\<close>

text \<open>A tree has a text and a sequence of children with names, of which those of an array are empty.\<close>

record 'tree ptree_ops =
  pt_read_json :: "string \<Rightarrow> error + 'tree"
  pt_children :: "'tree \<Rightarrow> 'tree list"
  pt_get_child :: "'tree \<Rightarrow> string \<Rightarrow> error + 'tree"
  pt_find :: "'tree \<Rightarrow> string \<Rightarrow> 'tree option"
  pt_data :: "'tree \<Rightarrow> string"
  pt_array :: "'tree list \<Rightarrow> 'tree"
  pt_object :: "string \<Rightarrow> 'tree \<Rightarrow> 'tree"
  pt_write_json :: "'tree \<Rightarrow> string"

record 'tree scan_state = verify_state +
  sc_array :: "'tree list"
  sc_block_counter :: size_t
  sc_tx_counter :: size_t
  sc_tfer_count :: size_t
  sc_total_volume :: size_t
  sc_file_blocks :: size_t
  sc_file_txs :: size_t
  sc_file_tfer :: size_t
  sc_start_time :: uint64
  sc_blocktime :: uint64
  sc_volume :: uint64
  sc_value :: uint64

definition add_to_tree :: "'tree ptree_ops \<Rightarrow> string \<Rightarrow> ('tree scan_state, unit) prog" where
  "add_to_tree T input_string =
     bindM (liftM (pt_read_json T input_string)) (\<lambda>pt2. updM (\<lambda>s. s\<lparr>sc_array := sc_array s @ [pt2]\<rparr>))"

text \<open>\<^verbatim>\<open>addr.find(filter_address)\<close>\<close>

definition string_contains :: "string \<Rightarrow> string \<Rightarrow> bool" where
  "string_contains pat s = list_ex (\<lambda>i. take (length pat) (drop i s) = pat) [0..<Suc (length s)]"

text \<open>A transfer without an address is an iterator past the end.\<close>

definition xfer_matches :: "'tree ptree_ops \<Rightarrow> string \<Rightarrow> 'tree \<Rightarrow> error + bool" where
  "xfer_matches T filter_address xfer =
     (case pt_find T xfer ''addr'' of
        None \<Rightarrow> Inl (Undefined ''past-the-end iterator'')
      | Some address \<Rightarrow> Inr (string_contains filter_address (pt_data T address)))"

definition block_matches :: "'tree ptree_ops \<Rightarrow> string \<Rightarrow> 'tree \<Rightarrow> error + 'tree list" where
  "block_matches T filter_address block =
     bindE (pt_get_child T block ''txs'') (\<lambda>txs.
     foldE (\<lambda>tx tx_children.
       bindE (pt_get_child T tx ''xfer'') (\<lambda>transfers.
       bindE (mapE (xfer_matches T filter_address) (pt_children T transfers)) (\<lambda>found.
       Inr (if True \<in> set found then tx_children @ [tx] else tx_children)))) (pt_children T txs) [])"

definition filter_by_address :: "'tree ptree_ops \<Rightarrow> 'tree list \<Rightarrow> string \<Rightarrow> error + 'tree" where
  "filter_by_address T tree filter_address =
     bindE (mapE (block_matches T filter_address) tree) (\<lambda>matches.
     Inr (pt_object T ''txs'' (pt_array T (concat matches))))"

definition scan_tx :: "Crypto \<Rightarrow> 'tree ptree_ops \<Rightarrow> InputBuffer \<Rightarrow> ('tree scan_state, InputBuffer) prog" where
  "scan_tx C T ib =
     bindM (liftM (t2_Create C KeyRing_empty True ib)) (\<lambda>(tx, ib).
     bindM (updM (\<lambda>s. s\<lparr>sc_file_txs := sc_file_txs s + 1\<rparr>)) (\<lambda>_.
     bindM (liftM (t2_getTransfers tx)) (\<lambda>xfers.
     bindM (updM (\<lambda>s. s\<lparr>sc_file_tfer := sc_file_tfer s + vec_size xfers\<rparr>)) (\<lambda>_.
     bindM (liftM (t2_getJSON tx)) (\<lambda>js.
     bindM (add_to_tree T js) (\<lambda>_. returnM ib))))))"

definition scan_block :: "Crypto \<Rightarrow> 'tree ptree_ops \<Rightarrow> scanner_options \<Rightarrow> InputBuffer \<Rightarrow> ('tree scan_state, InputBuffer) prog" where
  "scan_block C T options ib =
     bindM (getM vs_priori) (\<lambda>priori.
     bindM (liftP (FinalBlock_mode C priori KeyRing_empty (sco_mode options) ib)) (\<lambda>(one_block, ib).
     bindM (whenM (ucast (fb_version one_block) \<noteq> sco_version options) (vs_warn UnexpectedVersion)) (\<lambda>_.
     let txs_count = fb_getNumTransactions one_block in
     bindM (liftM (fb_getNumTransfers one_block)) (\<lambda>tfers.
     bindM (getM sc_blocktime) (\<lambda>previous_time.
     bindM (updM (\<lambda>s. s\<lparr>sc_blocktime := fb_block_time one_block, vs_priori := fb_state one_block\<rparr>)) (\<lambda>_.
     bindM (liftM (GetJSON_FinalBlock one_block)) (\<lambda>js.
     bindM (add_to_tree T js) (\<lambda>_.
     bindM (whenM (\<not> (fb_block_time one_block - previous_time \<noteq> 0 \<and> previous_time \<noteq> 0) \<and> previous_time = 0)
       (updM (\<lambda>s. s\<lparr>sc_start_time := fb_block_time one_block\<rparr>))) (\<lambda>_.
     bindM (liftM (fb_getVolume one_block)) (\<lambda>block_volume.
     bindM (updM (\<lambda>s. s\<lparr>sc_volume := sc_volume s + block_volume\<rparr>)) (\<lambda>_.
     bindM (liftM (fb_getValue one_block)) (\<lambda>block_value.
     bindM (updM (\<lambda>s. s\<lparr>sc_value := sc_value s + block_value\<rparr>)) (\<lambda>_.
     bindM (verify_contents C KeyRing_empty one_block) (\<lambda>_.
     bindM (updM (\<lambda>s. s\<lparr>sc_file_blocks := sc_file_blocks s + 1, sc_file_txs := sc_file_txs s + txs_count,
       sc_file_tfer := sc_file_tfer s + tfers\<rparr>)) (\<lambda>_.
     returnM ib)))))))))))))))"

definition scan_body ::
  "Crypto \<Rightarrow> 'tree ptree_ops \<Rightarrow> scanner_options \<Rightarrow> bool \<Rightarrow> bool \<Rightarrow> InputBuffer \<Rightarrow> ('tree scan_state, InputBuffer) prog" where
  "scan_body C T options is_block is_transaction ib =
     (if is_transaction then scan_tx C T ib
      else if is_block then scan_block C T options ib
      else bindM (vs_warn UnknownData) (\<lambda>_. returnM ib))"

definition scan_file :: "Crypto \<Rightarrow> 'tree ptree_ops \<Rightarrow> scanner_options \<Rightarrow> uint64 \<Rightarrow> bytes \<Rightarrow> ('tree scan_state, unit) prog" where
  "scan_file C T options now raw =
     bindM (liftM (IsBlockData now raw)) (\<lambda>is_block.
     bindM (liftM (IsTxData raw)) (\<lambda>is_transaction.
     bindM (whenM (\<not> is_block \<and> \<not> is_transaction) (vs_warn UnknownData)) (\<lambda>_.
     bindM (updM (\<lambda>s. s\<lparr>sc_file_blocks := 0, sc_file_txs := 0, sc_file_tfer := 0, sc_start_time := 0, sc_blocktime := 0,
       sc_volume := 0, sc_value := 0, vs_priori := ChainState_empty, vs_posteri := ChainState_empty\<rparr>)) (\<lambda>_.
     bindM (scan_while (scan_body C T options is_block is_transaction) (vs_warn SkippedFile) (InputBuffer_make raw 0)) (\<lambda>_.
     updM (\<lambda>s. s\<lparr>sc_block_counter := sc_block_counter s + sc_file_blocks s, sc_tx_counter := sc_tx_counter s + sc_file_txs s,
       sc_tfer_count := sc_tfer_count s + sc_file_tfer s, sc_total_volume := sc_total_volume s + sc_volume s\<rparr>))))))"

text \<open>The text of the output file.\<close>

definition scan_output :: "'tree ptree_ops \<Rightarrow> scanner_options \<Rightarrow> 'tree list \<Rightarrow> error + string" where
  "scan_output T options block_array =
     (if sco_address_filter options \<noteq> [] then
        bindE (filter_by_address T block_array (sco_address_filter options)) (\<lambda>txs_tree. Inr (pt_write_json T txs_tree))
      else Inr (pt_write_json T (pt_object T ''blocks'' (pt_array T block_array))))"

definition scan_files ::
  "Crypto \<Rightarrow> 'tree ptree_ops \<Rightarrow> scanner_options \<Rightarrow> uint64 \<Rightarrow> bytes list \<Rightarrow> ('tree scan_state, string option) prog" where
  "scan_files C T options now files =
     bindM (foldM (\<lambda>raw _. scan_file C T options now raw) files ()) (\<lambda>_.
     if sco_write_file options = [] then returnM None
     else
       bindM (getM sc_array) (\<lambda>block_array.
       bindM (liftM (scan_output T options block_array)) (\<lambda>json_tot.
       returnM (Some json_tot))))"

section \<open>Loops\<close>

lemma scan_while_done: "\<not> ib_offset ib < ib_size ib \<Longrightarrow> scan_while body skip ib s = Some (Returned (), s)"
  by (subst scan_while.simps) simp

lemma scan_while_next:
  "ib_offset ib < ib_size ib \<Longrightarrow> body ib s = Some (Returned ib', s') \<Longrightarrow>
   scan_while body skip ib s = scan_while body skip ib' s'"
  by (subst scan_while.simps) simp

lemma scan_while_thrown:
  "ib_offset ib < ib_size ib \<Longrightarrow> body ib s = Some (Thrown e, s') \<Longrightarrow>
   scan_while body skip ib s = (if is_std_exception e then skip s' else Some (Thrown e, s'))"
  by (subst scan_while.simps) simp

text \<open>A body that never moves on.\<close>

lemma scan_while_stuck:
  fixes body :: "InputBuffer \<Rightarrow> ('s, InputBuffer) prog"
  assumes "ib_offset ib < ib_size ib" and "\<forall>s. \<exists>s'. body ib s = Some (Returned ib, s')"
  shows "scan_while body skip ib s = None"
proof (rule ccontr)
  assume "scan_while body skip ib s \<noteq> None"
  then obtain r where "scan_while body skip ib s = Some r" by auto
  moreover have "\<not> (ib_offset i < ib_size i \<and> (\<forall>s. \<exists>s'. bd i s = Some (Returned i, s')))"
    if "scan_while bd sk i t = Some r" for bd and sk :: "('s, unit) prog" and i t r
    using _ that
  proof (rule scan_while.raw_induct)
    fix sw :: "(InputBuffer \<Rightarrow> ('s, InputBuffer) prog) \<Rightarrow> ('s, unit) prog \<Rightarrow> InputBuffer \<Rightarrow> 's \<Rightarrow> (unit outcome \<times> 's) option"
      and bd sk i t r
    assume IH: "\<And>bd sk i t r. sw bd sk i t = Some r \<Longrightarrow>
        \<not> (ib_offset i < ib_size i \<and> (\<forall>s. \<exists>s'. bd i s = Some (Returned i, s')))"
      and eq: "(if ib_offset i < ib_size i then
        (case bd i t of
           None \<Rightarrow> None
         | Some (Returned ib', s') \<Rightarrow> sw bd sk ib' s'
         | Some (Thrown e, s') \<Rightarrow> if is_std_exception e then sk s' else Some (Thrown e, s')
         | Some (Blocked n, s') \<Rightarrow> Some (Blocked n, s'))
      else Some (Returned (), t)) = Some r"
    show "\<not> (ib_offset i < ib_size i \<and> (\<forall>s. \<exists>s'. bd i s = Some (Returned i, s')))"
    proof
      assume h: "ib_offset i < ib_size i \<and> (\<forall>s. \<exists>s'. bd i s = Some (Returned i, s'))"
      then obtain s' where "bd i t = Some (Returned i, s')" by blast
      then have "sw bd sk i s' = Some r" using eq h by simp
      then show False using IH h by blast
    qed
  qed
  ultimately show False using assms by blast
qed

section \<open>Blocks of Tier 1\<close>

definition same_tx :: "TransactionPtr \<Rightarrow> TransactionPtr \<Rightarrow> bool" where
  "same_tx tx tx' = (tx' = tx \<or> tx' = unflag tx)"

lemma read_while_related:
  assumes "\<forall>x ib q. x \<in> set xs \<and> ib_wf ib \<and> ib_rest ib = enc x @ q \<longrightarrow>
      (\<exists>y. p ib = Inr (y, advance (length (enc x)) ib) \<and> R x y) \<and> enc x \<noteq> []"
    and "ib_wf ib" "ib_rest ib = concat (map enc xs) @ r"
    and "limit = ib_offset ib + of_nat (length (concat (map enc xs)))"
  shows "\<exists>ys. read_while p limit ib = Some (Inr (ys, advance (length (concat (map enc xs))) ib)) \<and> list_all2 R xs ys"
  using assms
proof (induction xs arbitrary: ib)
  case Nil
  then show ?case by (simp add: read_while.simps)
next
  case (Cons x xs)
  let ?n = "length (enc x)" and ?m = "length (concat (map enc xs))"
  have r: "ib_rest ib = enc x @ concat (map enc xs) @ r" using Cons.prems(3) by simp
  obtain y where 1: "p ib = Inr (y, advance ?n ib)" and y: "R x y" and ne: "enc x \<noteq> []"
    using Cons.prems(1,2) r by (metis list.set_intros(1))
  have le: "?n + ?m \<le> length (ib_rest ib)" using Cons.prems(3) by simp
  have 2: "ib_offset ib < limit"
    using offset_limit [OF Cons.prems(2) le] Cons.prems(4) ne by simp
  have a: "ib_wf (advance ?n ib)" "ib_rest (advance ?n ib) = concat (map enc xs) @ r"
    using advance_facts [OF Cons.prems(2), of ?n] le Cons.prems(3) by simp_all
  have "\<exists>ys. read_while p limit (advance ?n ib) = Some (Inr (ys, advance ?m (advance ?n ib))) \<and> list_all2 R xs ys"
  proof (rule Cons.IH [OF _ a])
    show "limit = ib_offset (advance ?n ib) + of_nat ?m" by (simp add: Cons.prems(4) advance_def)
  qed (use Cons.prems(1) in \<open>meson list.set_intros(2)\<close>)
  then obtain ys where "read_while p limit (advance ?n ib) = Some (Inr (ys, advance ?m (advance ?n ib)))" "list_all2 R xs ys"
    by blast
  then show ?case using 1 2 y by (simp add: read_while.simps [of p limit ib])
qed

text \<open>The reader of the Tier-1 transactions of a block checks the soundness of a transaction only when there are as many bytes
  behind it as it has itself, so that the mark of the last one may be missing.\<close>

lemma fb_read_one_T1:
  assumes "t1_block_tx C keys tx" "ib_wf ib" "ib_rest ib = tx_getCanonical tx @ r"
  shows "\<exists>tx'. fb_read_one C keys mode_T1 ib = Inr (tx', advance (length (tx_getCanonical tx)) ib) \<and> same_tx tx tx'"
proof -
  obtain sm a sg where tx: "tx = Tier1 (t1_parts sm a sg True)" and e: "t1_encodable sm a sg"
    and s: "t1_isSound C keys (t1_parts sm a sg False) = Inr True"
    using assms(1) by (auto simp: t1_block_tx_def)
  let ?bs = "tx_canonical (t1_parts sm a sg True)" and ?S = "sum_getByteSize sm"
  have n: "unat (?S + 106 + 8 + 50) = length ?bs"
    using t1_sizes(5) [OF e] e by (simp add: t1_parts_def t1_encodable_def addr_size_def sig_size_def)
  have r: "ib_rest ib = ?bs @ r" using assms(3) by (simp add: tx)
  have 1: "getNextUint64 False ib = Inr (?S, ib)"
    using getNextUint64_rest [OF assms(2), of ?S] r by (simp add: t1_parts_def)
  have 2: "ib_copy (?S + 106 + 8 + 50) True ib = Inr (?bs, advance (length ?bs) ib)"
    by (rule ib_copy_rest [OF assms(2) r n])
  have 3: "\<lparr>tx_canonical = ?bs, tx_is_sound = False, t1_sum_size = ?S\<rparr> = t1_parts sm a sg False"
    by (simp add: t1_parts_def)
  have 4: "t1_checked C keys (t1_parts sm a sg False) = Inr (t1_parts sm a sg True)"
    using s by (simp add: t1_checked_def t1_parts_unflag)
  show ?thesis
    using 1 2 4
    by (auto simp: fb_read_one_def Tier1Transaction_read_def reader_simps Let_def 3 same_tx_def tx t1_parts_unflag
        simp del: add_uminus_conv_diff)
qed

definition t1_block :: "Crypto \<Rightarrow> KeyRing \<Rightarrow> FinalBlock \<Rightarrow> bool" where
  "t1_block C keys b =
     (fb_wf b \<and> node_pairs (fb_vals b) \<and> (\<forall>tx \<in> set (fb_transactions b). t1_block_tx C keys tx) \<and>
      fb_raw_transactions b = map tx_getCanonical (fb_transactions b) \<and> length (fb_getCanonical b) < 2 ^ 62)"

lemma FinalBlock_mode_T1:
  assumes blk: "t1_block C keys b" and ib: "ib_wf ib" "ib_rest ib = fb_getCanonical b @ r"
  shows "\<exists>txs ib'. list_all2 same_tx (fb_transactions b) txs \<and> ib_wf ib' \<and> ib_rest ib' = val_getCanonical (fb_vals b) @ r \<and>
    advance (length (val_getCanonical (fb_vals b))) ib' = advance (length (fb_getCanonical b)) ib \<and>
    FinalBlock_mode C prior keys mode_T1 ib = Some (bindR Validation_read (\<lambda>vals. returnR
      (b\<lparr>fb_transactions := txs, fb_raw_transactions := map tx_getCanonical txs, fb_vals := vals, fb_state := prior\<rparr>)) ib')"
proof -
  let ?T = "concat (map tx_getCanonical (fb_transactions b))"
    and ?S = "sum_getCanonical (fb_summary b)" and ?V = "val_getCanonical (fb_vals b)"
  have h: "length (fb_prev_hash b) = 32" "length (fb_merkle_root b) = 32" "fb_version b = 0"
    "sum_encodable (fb_summary b)" "val_wf (fb_vals b)" "fb_tx_size b = vec_size ?T" "fb_num_bytes b = vec_size (fb_getCanonical b)"
    and raw: "fb_raw_transactions b = map tx_getCanonical (fb_transactions b)"
    using blk by (simp_all add: fb_wf_def t1_block_def)
  have rest: "ib_rest ib = [0] @ le64 (fb_num_bytes b) @ (le64 (fb_block_time b) @ fb_prev_hash b @ fb_merkle_root b
     @ le64 (fb_tx_size b) @ le64 (fb_sum_size b) @ le32 (fb_val_count b)) @ ?T @ ?S @ ?V @ r"
    using ib(2) by (simp add: fb_getCanonical_eq h(3) raw)
  have len: "length (fb_getCanonical b) = 101 + length ?T + length ?S + length ?V"
    using h by (simp add: fb_getCanonical_eq raw)
  have "length (fb_getCanonical b) \<le> length (ib_buffer ib)" "length (ib_buffer ib) < 2 ^ 63"
    using ib_rest_length [OF ib(1)] ib by (simp_all add: ib_wf_def)
  then have "fb_num_bytes b \<le> ib_size ib" using h(7) by (simp add: ib_size_def vec_size_def word_le_nat_alt)
  then have 1: "fb_read_head RuntimeError (FinalBlock_prior prior) ib = Inr ((FinalBlock_prior prior)\<lparr>fb_version := 0,
      fb_num_bytes := fb_num_bytes b, fb_block_time := fb_block_time b, fb_prev_hash := fb_prev_hash b,
      fb_merkle_root := fb_merkle_root b, fb_tx_size := fb_tx_size b, fb_sum_size := fb_sum_size b,
      fb_val_count := fb_val_count b\<rparr>, advance 101 ib)"
    by (intro fb_head_read [OF ib(1) rest h(1,2)]) (simp_all add: FinalBlock_prior_def)
  have a1: "ib_wf (advance 101 ib)" "ib_rest (advance 101 ib) = ?T @ ?S @ ?V @ r"
    using advance_facts [OF ib(1), of 101] rest h by simp_all
  have "\<forall>x ib q. x \<in> set (fb_transactions b) \<and> ib_wf ib \<and> ib_rest ib = tx_getCanonical x @ q \<longrightarrow>
      (\<exists>y. fb_read_one C keys mode_T1 ib = Inr (y, advance (length (tx_getCanonical x)) ib) \<and> same_tx x y) \<and> tx_getCanonical x \<noteq> []"
    using fb_read_one_T1 t1_block_tx_facts(2) blk unfolding t1_block_def by blast
  from read_while_related [OF this a1 refl] obtain txs where 2: "read_while (fb_read_one C keys mode_T1) (ib_offset (advance 101 ib) + fb_tx_size b) (advance 101 ib) =
      Some (Inr (txs, advance (101 + length ?T) ib))" and txs: "list_all2 same_tx (fb_transactions b) txs"
    using h(6) by (auto simp: vec_size_def)
  have a2: "ib_wf (advance (101 + length ?T) ib)" "ib_rest (advance (101 + length ?T) ib) = ?S @ ?V @ r"
    using advance_facts [OF a1(1), of "length ?T"] a1(2) by simp_all
  have 3: "Summary_read (advance (101 + length ?T) ib) = Inr (fb_summary b, advance (101 + length ?T + length ?S) ib)"
    using readsD [OF reads_Summary [OF h(4)] a2] by simp
  have a3: "ib_wf (advance (101 + length ?T + length ?S) ib)" "ib_rest (advance (101 + length ?T + length ?S) ib) = ?V @ r"
    using advance_facts [OF a2(1), of "length ?S"] a2(2) by simp_all
  have "FinalBlock_mode C prior keys mode_T1 ib = Some (bindR Validation_read (\<lambda>vals. returnR
      (b\<lparr>fb_transactions := txs, fb_raw_transactions := map tx_getCanonical txs, fb_vals := vals, fb_state := prior\<rparr>))
      (advance (101 + length ?T + length ?S) ib))"
    unfolding FinalBlock_mode_def using 1 2 3 h(3)
    by (cases b) (simp add: reader_simps FinalBlock_prior_def)
  with txs a3 len show ?thesis by (intro exI [of _ txs] exI) auto
qed

text \<open>A buffer that holds one block.\<close>

lemma read_single_T1:
  assumes "t1_block C keys b"
  shows "\<exists>txs. list_all2 same_tx (fb_transactions b) txs \<and>
    FinalBlock_mode C prior keys mode_T1 (InputBuffer_make (fb_getCanonical b) 0) = Some (Inr
      (b\<lparr>fb_transactions := txs, fb_raw_transactions := map tx_getCanonical txs, fb_state := prior\<rparr>,
       advance (length (fb_getCanonical b)) (InputBuffer_make (fb_getCanonical b) 0)))"
proof -
  let ?ib = "InputBuffer_make (fb_getCanonical b) 0" and ?n = "length (fb_getCanonical b)"
  have wf: "node_pairs (fb_vals b)" "val_wf (fb_vals b)" and ib: "ib_wf ?ib" "ib_rest ?ib = fb_getCanonical b @ []"
    using assms by (simp_all add: t1_block_def fb_wf_def ib_wf_make)
  obtain txs ib' where txs: "list_all2 same_tx (fb_transactions b) txs"
    and ib': "ib_wf ib'" "ib_rest ib' = val_getCanonical (fb_vals b) @ []"
      "advance (length (val_getCanonical (fb_vals b))) ib' = advance ?n ?ib"
    and fb: "FinalBlock_mode C prior keys mode_T1 ?ib = Some (bindR Validation_read (\<lambda>vals. returnR
      (b\<lparr>fb_transactions := txs, fb_raw_transactions := map tx_getCanonical txs, fb_vals := vals, fb_state := prior\<rparr>)) ib')"
    using FinalBlock_mode_T1 [OF assms ib] by blast
  have "Validation_read ib' = Inr (fb_vals b, advance ?n ?ib)"
    using Validation_read_rest [OF ib'(1,2) _ wf(2,1)] ib'(3) by simp
  with txs fb show ?thesis by (intro exI [of _ txs]) (simp add: reader_simps)
qed

section \<open>Verification of Tier-1 blocks\<close>

definition t1_postings :: "TransactionPtr \<Rightarrow> posting list" where
  "t1_postings tx = (case tx of Tier1 t \<Rightarrow> (case t1_getSummary t of Inr sm \<Rightarrow> sum_postings sm | Inl e \<Rightarrow> []) | Tier2 t \<Rightarrow> [])"

definition block_postings :: "FinalBlock \<Rightarrow> posting list" where
  "block_postings b = concat (map t1_postings (fb_transactions b))"

lemma same_tx_valid:
  assumes "t1_block_tx C keys tx" "same_tx tx tx'"
  shows "tx_isValid C keys tx' (st, s) = Inr (True, fold cs_post (t1_postings tx) st, fold sum_post (t1_postings tx) s)"
proof -
  obtain sm a sg where tx: "tx = Tier1 (t1_parts sm a sg True)" and e: "t1_encodable sm a sg"
    and s: "t1_isSound C keys (t1_parts sm a sg False) = Inr True"
    using assms(1) by (auto simp: t1_block_tx_def)
  have t: "t1_isSound C keys (t1_parts sm a sg True) = Inr True" by (simp add: t1_isSound_def t1_parts_def)
  have "t1_postings tx = sum_postings sm" using t1_parts_getters [OF e, of True] by (simp add: t1_postings_def tx)
  then show ?thesis
    using assms(2) t1_isValid_parts [OF e s] t1_isValid_parts [OF e t] by (auto simp: same_tx_def tx t1_parts_unflag)
qed

lemma verify_items:
  fixes s :: "'a verify_state_scheme"
  assumes "list_all2 same_tx txs txs'" "\<forall>tx \<in> set txs. t1_block_tx C keys tx"
  shows "foldM (\<lambda>item _. verify_item C keys item) txs' () s = Some (Returned (),
    s\<lparr>vs_posteri := fold cs_post (concat (map t1_postings txs)) (vs_posteri s),
      vs_block_summary := fold sum_post (concat (map t1_postings txs)) (vs_block_summary s)\<rparr>)"
  using assms
proof (induction txs txs' arbitrary: s rule: list_all2_induct)
  case (Cons tx txs tx' txs')
  have "tx_isValid C keys tx' (vs_posteri s, vs_block_summary s) =
      Inr (True, fold cs_post (t1_postings tx) (vs_posteri s), fold sum_post (t1_postings tx) (vs_block_summary s))"
    using Cons by (intro same_tx_valid) simp_all
  then show ?case using Cons by (simp add: bindM_def verify_item_def effect_simps)
qed (simp add: effect_simps)

lemma verify_contents_T1:
  fixes s :: "'a verify_state_scheme"
  assumes "t1_block C keys b" "list_all2 same_tx (fb_transactions b) txs"
    and "sum_getCanonical (fb_summary b) = sum_getCanonical (fold sum_post (block_postings b) Summary_Create)"
    and "fb_transactions b' = txs" "fb_summary b' = fb_summary b"
  shows "verify_contents C keys b' s =
    Some (Returned (), s\<lparr>vs_posteri := fold cs_post (block_postings b) (vs_posteri s),
      vs_block_summary := fold sum_post (block_postings b) Summary_Create\<rparr>)"
  using verify_items [OF assms(2), of C keys "s\<lparr>vs_block_summary := Summary_Create\<rparr>"] assms(1,3-)
  by (simp add: verify_contents_def fb_CopyTransactions_def t1_block_def block_postings_def bindM_def effect_simps)

definition recent :: "uint64 \<Rightarrow> FinalBlock \<Rightarrow> bool" where
  "recent now b = (1514764800 \<le> fb_block_time b \<and> fb_block_time b \<le> now)"

text \<open>A file with one block.\<close>

lemma verify_file_T1:
  assumes b: "t1_block C keys b" "recent now b"
    and "sum_getCanonical (fb_summary b) = sum_getCanonical (fold sum_post (block_postings b) Summary_Create)"
  shows "verify_file C keys mode_T1 now (fb_getCanonical b) s =
    Some (Returned (), s\<lparr>vs_posteri := fold cs_post (block_postings b) (vs_posteri s),
      vs_block_summary := fold sum_post (block_postings b) Summary_Create\<rparr>)"
proof -
  let ?ib = "InputBuffer_make (fb_getCanonical b) 0" and ?n = "length (fb_getCanonical b)"
  let ?s = "s\<lparr>vs_posteri := fold cs_post (block_postings b) (vs_posteri s),
      vs_block_summary := fold sum_post (block_postings b) Summary_Create\<rparr>"
  have n: "?n < 2 ^ 62" and wf: "fb_wf b" using b by (simp_all add: t1_block_def)
  obtain txs where txs: "list_all2 same_tx (fb_transactions b) txs"
    and fb: "FinalBlock_mode C (vs_posteri s) keys mode_T1 ?ib = Some (Inr
      (b\<lparr>fb_transactions := txs, fb_raw_transactions := map tx_getCanonical txs, fb_state := vs_posteri s\<rparr>, advance ?n ?ib))"
    using read_single_T1 [OF b(1)] by blast
  have body: "verify_body C keys mode_T1 True t ?ib s = Some (Returned (advance ?n ?ib), ?s)" for t
    using fb verify_contents_T1 [OF b(1) txs assms(3), where s = s]
    by (simp add: verify_body_def verify_block_def bindM_def effect_simps reader_simps)
  have blk: "IsBlockData now (fb_getCanonical b) = Inr True"
    using IsBlockData_block [OF wf, of "[]" now] n b(2) by (simp add: recent_def)
  obtain t where t: "IsTxData (fb_getCanonical b) = Inr t" using IsTxData_returns [of "fb_getCanonical b"] n by auto
  have "ib_offset ?ib < ib_size ?ib" "\<not> ib_offset (advance ?n ?ib) < ib_size (advance ?n ?ib)"
    using n fb_getCanonical_not_Nil [of b]
    by (simp_all add: InputBuffer_make_def ib_size_def vec_size_def advance_def word_less_nat_alt unat_of_nat)
  then have "scan_while (verify_body C keys mode_T1 True t) (vs_warn SkippedFile) ?ib s = Some (Returned (), ?s)"
    using scan_while_next [of ?ib "verify_body C keys mode_T1 True t", OF _ body] scan_while_done by metis
  then show ?thesis
    using blk t fb_getCanonical_not_Nil [of b] by (simp add: verify_file_def bindM_def effect_simps)
qed

text \<open>A file with a second block: the reader of the signatures goes on to the end of the file and takes the second block for
  signatures.\<close>

lemma read_pair_version:
  assumes "ib_wf ib" "ib_rest ib = 0 # k # r" "255 \<le> length r" "k \<notin> {73, 74, 105, 106}"
  shows "\<exists>m. read_pair v ib = Inl (RuntimeError m)"
proof -
  have a: "ib_wf (advance 1 ib)" "ib_rest (advance 1 ib) = k # r" "ib_wf (advance 2 ib)" "ib_rest (advance 2 ib) = r"
    using advance_facts [OF assms(1), of 1] advance_facts [OF assms(1), of 2] assms(2) by simp_all
  have k: "unat k \<le> length r" using unat_bound [of k] assms(3) by simp
  have ok: "vec_range (ib_buffer i) (unat (ib_offset i)) n = Inr (take n (ib_rest i))"
    if "ib_wf i" "n \<le> length (ib_rest i)" for i n
    using ib_rest_length [OF that(1)] that by (auto simp: ib_wf_def ib_rest_def vec_range_eq_Inr)
  have 1: "copyAddress True ib = Inr (Address_vec [], advance 1 ib)"
    using getNextByte_rest [OF assms(1,2), of True] ok [OF a(1), of 0] ib_increment_advance [of 0 "advance 1 ib"]
    by (simp add: copyAddress_def copy_tagged_def reader_simps vec_size_def)
  have "length (take (unat k) r) \<notin> {73, 74, 105, 106}"
    using k assms(4) by (auto simp: word_unat_eq_iff)
  then have "\<exists>m. Signature_vec (take (unat k) r) = Inl (RuntimeError m)" by (simp add: Signature_vec_def)
  then have "\<exists>m. copySignature True (advance 1 ib) = Inl (RuntimeError m)"
    using getNextByte_rest [OF a(1,2), of True] ok [OF a(3)] k a(4)
    by (auto simp: copySignature_def copy_tagged_def reader_simps numeral_2_eq_2)
  then show ?thesis using 1 by (auto simp: read_pair_def reader_simps)
qed

lemma Validation_read_swallows:
  assumes "ib_wf ib" "ib_rest ib = val_getCanonical v @ 0 # k # r" "val_wf v" "node_pairs v" "255 \<le> length r"
    and "k \<notin> {73, 74, 105, 106}"
  shows "\<exists>m. Validation_read ib = Inl (RuntimeError m)"
proof -
  have l: "length (ib_rest ib) = 156 * length (sigs v) + length (0 # k # r)"
    using assms(2) length_node_pairs [OF assms(4)] by simp
  have "unat (ib_size ib - ib_offset ib) = length (ib_rest ib)"
    using assms(1) by (simp add: ib_size_def ib_wf_def ib_rest_def vec_size_def unat_sub word_le_nat_alt)
  then have "unat (ib_size ib - ib_offset ib) div 156 = length (sigs v) + length (0 # k # r) div 156"
    using l by simp
  then obtain n where n: "unat (ib_size ib - ib_offset ib) div 156 = length (sigs v) + Suc n"
    using assms(5) by (cases "length (0 # k # r) div 156") auto
  have loop: "loopR (i + j) body acc = bindR (loopR i body acc) (loopR j body)" for i j and body :: "'a \<Rightarrow> 'a reader" and acc
    by (induction i arbitrary: acc) (simp_all add: fun_eq_iff reader_simps bindE_assoc case_prod_unfold)
  let ?ib = "advance (length (val_getCanonical v)) ib"
  have 1: "loopR (length (sigs v)) read_pair Validation_Create ib = Inr (v, ?ib)"
    using readsD [OF reads_pairs [OF assms(3)] assms(1,2)] .
  have a: "ib_wf ?ib" "ib_rest ?ib = 0 # k # r" using advance_facts [OF assms(1)] assms(2) by simp_all
  have "\<exists>m. read_pair v ?ib = Inl (RuntimeError m)" by (rule read_pair_version [OF a assms(5,6)])
  moreover have "Validation_read ib = bindR (loopR (length (sigs v)) read_pair Validation_Create) (loopR (Suc n) read_pair) ib"
    by (simp only: Validation_read_def val_loop_rounds n loop)
  ultimately show ?thesis using 1 by (auto simp: reader_simps)
qed

lemma verify_file_two_blocks:
  assumes b: "t1_block C keys b" "recent now b" and c: "fb_wf c" "257 \<le> length (fb_getCanonical c)"
    "length (fb_getCanonical c) < 2 ^ 62" "length (fb_getCanonical c) mod 256 \<notin> {73, 74, 105, 106}"
  shows "verify_file C keys mode_T1 now (fb_getCanonical b @ fb_getCanonical c) s =
    Some (Returned (), s\<lparr>vs_warnings := vs_warnings s @ [SkippedFile]\<rparr>)"
proof -
  let ?raw = "fb_getCanonical b @ fb_getCanonical c"
  let ?ib = "InputBuffer_make ?raw 0"
  have n: "length ?raw < 2 ^ 63" and wf: "fb_wf b" "node_pairs (fb_vals b)" "val_wf (fb_vals b)"
    using b(1) c(3) by (simp_all add: t1_block_def fb_wf_def)
  obtain k r where cr: "fb_getCanonical c = 0 # k # r" and k: "k = ucast (fb_num_bytes c)"
    using c(1) by (simp add: fb_getCanonical_eq fb_wf_def le64_def)
  have "fb_num_bytes c = of_nat (length (fb_getCanonical c))" using c(1) by (simp add: fb_wf_def vec_size_def)
  then have "unat k = length (fb_getCanonical c) mod 256"
    by (simp add: k unsigned_ucast_eq take_bit_eq_mod unsigned_of_nat mod_mod_cancel)
  then have k': "k \<notin> {73, 74, 105, 106}" using c(4) by auto
  obtain txs ib' where ib': "ib_wf ib'" "ib_rest ib' = val_getCanonical (fb_vals b) @ fb_getCanonical c"
    and fb: "FinalBlock_mode C (vs_posteri s) keys mode_T1 ?ib = Some (bindR Validation_read (\<lambda>vals. returnR
      (b\<lparr>fb_transactions := txs, fb_raw_transactions := map tx_getCanonical txs, fb_vals := vals, fb_state := vs_posteri s\<rparr>)) ib')"
    using FinalBlock_mode_T1 [OF b(1) ib_wf_make [OF n], of "fb_getCanonical c" "vs_posteri s"] by auto
  have "255 \<le> length r" using c(2) cr by simp
  then obtain m where "Validation_read ib' = Inl (RuntimeError m)"
    using Validation_read_swallows [of ib' "fb_vals b" k r] ib' cr wf k' by auto
  then have body: "verify_body C keys mode_T1 True t ?ib s = Some (Thrown (RuntimeError m), s)" for t
    using fb by (simp add: verify_body_def verify_block_def bindM_def effect_simps reader_simps)
  have blk: "IsBlockData now ?raw = Inr True" using IsBlockData_block [OF wf(1) n] b(2) by (simp add: recent_def)
  obtain t where t: "IsTxData ?raw = Inr t" using IsTxData_returns [OF n] by auto
  have "ib_offset ?ib < ib_size ?ib"
    using n cr unat_vec_size [of ?raw] by (simp add: InputBuffer_make_def ib_size_def word_less_nat_alt)
  from scan_while_thrown [of ?ib "verify_body C keys mode_T1 True t", OF this body]
  show ?thesis using blk t cr by (simp add: verify_file_def vs_warn_def bindM_def effect_simps)
qed

lemma verify_files_T1:
  assumes "\<forall>b \<in> set bs. t1_block C keys b \<and> recent now b \<and>
      sum_getCanonical (fb_summary b) = sum_getCanonical (fold sum_post (block_postings b) Summary_Create)"
  shows "\<exists>sm. foldM (\<lambda>raw _. verify_file C keys mode_T1 now raw) (map fb_getCanonical bs) () s =
    Some (Returned (), s\<lparr>vs_posteri := fold cs_post (concat (map block_postings bs)) (vs_posteri s), vs_block_summary := sm\<rparr>)"
  using assms
proof (induction bs arbitrary: s)
  case Nil
  show ?case by (intro exI [of _ "vs_block_summary s"]) (simp add: effect_simps)
next
  case (Cons b bs)
  let ?s = "s\<lparr>vs_posteri := fold cs_post (block_postings b) (vs_posteri s),
      vs_block_summary := fold sum_post (block_postings b) Summary_Create\<rparr>"
  have "verify_file C keys mode_T1 now (fb_getCanonical b) s = Some (Returned (), ?s)"
    using Cons.prems by (intro verify_file_T1) simp_all
  then show ?case using Cons.IH [of ?s] Cons.prems by (simp add: bindM_def)
qed

lemma compare_states: "CompareChainStateMaps x y \<longleftrightarrow> x = y"
  by (auto simp: CompareChainStateMaps_def compare_addrs_eq)

section \<open>Files of transactions\<close>

lemma signed_parts:
  assumes "Tier2Transaction_signed C oper xfers nonce keys sig = Inr tx"
  shows "tx = t2_parts oper xfers nonce (sig_canonical sig) True"
    and "t2_isSound C keys (t2_parts oper xfers nonce (sig_canonical sig) False) = Inr True"
proof -
  have chk: "t2_checked C keys (t2_attach sig (t2_unsigned oper xfers nonce)) = Inr tx"
    using assms(1) by (auto simp: Tier2Transaction_signed_def Let_def)
  show "tx = t2_parts oper xfers nonce (sig_canonical sig) True" using t2_checked_parts [OF chk] by blast
  show "t2_isSound C keys (t2_parts oper xfers nonce (sig_canonical sig) False) = Inr True"
    using chk by (auto simp: t2_checked_def t2_unsigned_parts t2_attach_parts split: if_splits)
qed

lemma IsTxData_tx:
  assumes "t2_encodable oper xfers nonce sig" "length (tx_canonical (t2_parts oper xfers nonce (sig_canonical sig) f) @ r) < 2 ^ 63"
  shows "IsTxData (tx_canonical (t2_parts oper xfers nonce (sig_canonical sig) f) @ r) = Inr True"
proof -
  let ?x = "xfers_bytes xfers"
  let ?raw = "tx_canonical (t2_parts oper xfers nonce (sig_canonical sig) f) @ r"
  have l: "length ?raw = 17 + length ?x + length nonce + length (sig_canonical sig) + length r" by (simp add: t2_parts_def)
  have e: "oper < 4" "8 \<le> length nonce" "length ?x + length nonce < 2 ^ 62" "74 \<le> length (sig_canonical sig)"
    using assms(1) sig_wf_length [of sig] by (auto simp: t2_encodable_def t2_fits_def)
  have "BinToUint64 ?raw 0 = Inr (vec_size ?x)" using assms(2) by (intro BinToUint64_le64) (auto simp: t2_parts_def)
  moreover have "unat (91 + vec_size ?x) = 91 + length ?x"
    using e(3) by (simp add: unat_word_ariths vec_size_def unat_of_nat)
  then have "\<not> vec_size ?raw < 91" "\<not> vec_size ?raw < 91 + vec_size ?x"
    using unat_vec_size [of ?raw] assms(2) l e by (simp_all add: word_less_nat_alt)
  moreover have "vec_get ?raw 16 = Inr oper" using l by (simp add: vec_get_def) (simp add: t2_parts_def nth_append)
  ultimately show ?thesis using e(1) by (simp add: IsTxData_def not_le)
qed

section \<open>Scanning of Tier-1 blocks\<close>

lemma same_tx_texts:
  assumes "t1_block_tx C keys tx" "same_tx tx tx'"
  shows "\<exists>js. tx_getJSON tx' = Inr js \<and> 0 \<le> excess js \<and> (t1_postings tx \<noteq> [] \<longrightarrow> 0 < excess js)"
    and "\<exists>xfers. tx_getTransfers tx' = Inr xfers"
proof -
  obtain sm a sg f where tx: "tx = Tier1 (t1_parts sm a sg True)" "tx' = Tier1 (t1_parts sm a sg f)" and e: "t1_encodable sm a sg"
    using assms by (auto simp: t1_block_tx_def same_tx_def t1_parts_unflag)
  note g = t1_parts_getters [OF e]
  obtain js where "t1_getJSON (t1_parts sm a sg f) = Inr js" using g [of f] by (simp add: t1_getJSON_def)
  moreover from excess_t1 [OF this g(4)] have "excess js = int (length (summary_map sm))" .
  moreover have "t1_postings tx = sum_postings sm" using g(4) [of True] by (simp add: t1_postings_def tx)
  then have "t1_postings tx \<noteq> [] \<Longrightarrow> summary_map sm \<noteq> []" by (auto simp: sum_postings_def)
  ultimately show "\<exists>js. tx_getJSON tx' = Inr js \<and> 0 \<le> excess js \<and> (t1_postings tx \<noteq> [] \<longrightarrow> 0 < excess js)"
    by (auto simp: tx)
  show "\<exists>xfers. tx_getTransfers tx' = Inr xfers" using g(4) [of f] by (simp add: tx t1_getTransfers_def)
qed

lemma block_texts:
  assumes "list_all2 same_tx txs txs'" "\<forall>tx \<in> set txs. t1_block_tx C keys tx"
  shows "\<exists>items. mapE tx_getJSON txs' = Inr items \<and> 0 \<le> sum_list (map excess items) \<and>
    (concat (map t1_postings txs) \<noteq> [] \<longrightarrow> 0 < sum_list (map excess items))"
  using assms
proof (induction txs txs' rule: list_all2_induct)
  case (Cons tx txs tx' txs')
  obtain js items where "tx_getJSON tx' = Inr js" "0 \<le> excess js" "t1_postings tx \<noteq> [] \<longrightarrow> 0 < excess js"
    "mapE tx_getJSON txs' = Inr items" "0 \<le> sum_list (map excess items)"
    "concat (map t1_postings txs) \<noteq> [] \<longrightarrow> 0 < sum_list (map excess items)"
    using same_tx_texts(1) [of C keys tx tx'] Cons by auto
  then show ?case by (cases "t1_postings tx = []") auto
qed simp

lemma block_transfers:
  assumes "list_all2 same_tx txs txs'" "\<forall>tx \<in> set txs. t1_block_tx C keys tx"
  shows "\<exists>n. foldE (\<lambda>item tfers. bindE (tx_getTransfers item) (\<lambda>xfers. Inr (tfers + vec_size xfers))) txs' (k :: size_t) = Inr n"
  using assms
proof (induction txs txs' arbitrary: k rule: list_all2_induct)
  case (Cons tx txs tx' txs')
  obtain xfers where "tx_getTransfers tx' = Inr xfers" using same_tx_texts(2) [of C keys tx tx'] Cons by auto
  then show ?case using Cons by simp
qed simp

lemma excess_final:
  assumes "mapE tx_getJSON (fb_transactions b) = Inr items"
  shows "\<exists>js. GetJSON_FinalBlock b = Inr js \<and> excess js = sum_list (map excess items)"
  using json_brackets [OF json_summary] json_brackets [OF json_validation]
  by (simp add: GetJSON_FinalBlock_def assms json_tag_def excess_join excess_plain)

text \<open>Execution of a program step by step, for the longer programs.\<close>

lemma step_rules:
  "bindM (getM f) g s = g (f s) s" "bindM (updM h) k s = k () (h s)" "bindM (liftM (Inr x)) g' s = g' x s"
  "bindM (liftM (Inl e)) g' s = Some (Thrown e, s)" "bindM (liftP (Some (Inr x'))) g'' s = g'' x' s"
  "bindM (whenM False m) k s = k () s" "bindM (whenM True m) k s = bindM m k s"
  by (simp_all add: bindM_def effect_simps whenM_def split: option.splits outcome.splits)

lemma scan_block_T1:
  assumes b: "t1_block C KeyRing_empty b" "block_postings b \<noteq> []" and mode: "sco_mode options = mode_T1"
    and refuses: "\<forall>b js. GetJSON_FinalBlock b = Inr js \<and> excess js \<noteq> 0 \<longrightarrow> pt_read_json T js = Inl StdException"
  shows "\<exists>s'. scan_block C T options (InputBuffer_make (fb_getCanonical b) 0) s = Some (Thrown StdException, s') \<and>
    sc_array s' = sc_array s \<and> sc_file_blocks s' = sc_file_blocks s \<and> sc_file_txs s' = sc_file_txs s \<and>
    sc_file_tfer s' = sc_file_tfer s \<and> sc_volume s' = sc_volume s \<and> sc_block_counter s' = sc_block_counter s \<and>
    sc_tx_counter s' = sc_tx_counter s \<and> sc_tfer_count s' = sc_tfer_count s \<and> sc_total_volume s' = sc_total_volume s"
proof -
  let ?ib = "InputBuffer_make (fb_getCanonical b) 0" and ?n = "length (fb_getCanonical b)"
  have t1: "\<forall>tx \<in> set (fb_transactions b). t1_block_tx C KeyRing_empty tx" using b by (simp add: t1_block_def)
  obtain txs where txs: "list_all2 same_tx (fb_transactions b) txs"
    and 1: "FinalBlock_mode C (vs_priori s) KeyRing_empty mode_T1 ?ib = Some (Inr
      (b\<lparr>fb_transactions := txs, fb_raw_transactions := map tx_getCanonical txs, fb_state := vs_priori s\<rparr>, advance ?n ?ib))"
    using read_single_T1 [OF b(1)] by blast
  let ?b = "b\<lparr>fb_transactions := txs, fb_raw_transactions := map tx_getCanonical txs, fb_state := vs_priori s\<rparr>"
  obtain items where items: "mapE tx_getJSON txs = Inr items" "0 < sum_list (map excess items)"
    using block_texts [OF txs t1] b(2) by (auto simp: block_postings_def)
  then obtain js where js: "GetJSON_FinalBlock ?b = Inr js" "excess js \<noteq> 0" using excess_final [of ?b items] by auto
  then have 2: "pt_read_json T js = Inl StdException" using refuses by blast
  obtain k where 3: "fb_getNumTransfers ?b = Inr k" using block_transfers [OF txs t1, of 0] by (auto simp: fb_getNumTransfers_def)
  show ?thesis
    by (cases "ucast (fb_version b) = sco_version options")
      (simp_all add: scan_block_def step_rules bindM_assoc bindM_return mode 1 2 3 js(1) Let_def add_to_tree_def vs_warn_def)
qed

lemma scan_file_T1:
  assumes b: "t1_block C KeyRing_empty b" "block_postings b \<noteq> []" "recent now b" and mode: "sco_mode options = mode_T1"
    and "IsTxData (fb_getCanonical b) = Inr False"
    and "\<forall>b js. GetJSON_FinalBlock b = Inr js \<and> excess js \<noteq> 0 \<longrightarrow> pt_read_json T js = Inl StdException"
  shows "\<exists>s'. scan_file C T options now (fb_getCanonical b) s = Some (Returned (), s') \<and> last (vs_warnings s') = SkippedFile \<and>
    sc_array s' = sc_array s \<and> sc_block_counter s' = sc_block_counter s \<and> sc_tx_counter s' = sc_tx_counter s \<and>
    sc_tfer_count s' = sc_tfer_count s \<and> sc_total_volume s' = sc_total_volume s"
proof -
  let ?ib = "InputBuffer_make (fb_getCanonical b) 0"
  let ?s = "s\<lparr>sc_file_blocks := 0, sc_file_txs := 0, sc_file_tfer := 0, sc_start_time := 0, sc_blocktime := 0,
       sc_volume := 0, sc_value := 0, vs_priori := ChainState_empty, vs_posteri := ChainState_empty\<rparr>"
  have n: "length (fb_getCanonical b) < 2 ^ 63" and wf: "fb_wf b" using b(1) by (simp_all add: t1_block_def)
  have blk: "IsBlockData now (fb_getCanonical b) = Inr True"
    using IsBlockData_block [OF wf, of "[]" now] n b(3) by (simp add: recent_def)
  have more: "ib_offset ?ib < ib_size ?ib"
    using n fb_getCanonical_not_Nil [of b] unat_vec_size [of "fb_getCanonical b"]
    by (simp add: InputBuffer_make_def ib_size_def word_less_nat_alt)
  obtain s1 where s1: "scan_block C T options ?ib ?s = Some (Thrown StdException, s1)" and same: "sc_array s1 = sc_array s"
    "sc_file_blocks s1 = 0" "sc_file_txs s1 = 0" "sc_file_tfer s1 = 0" "sc_volume s1 = 0" "sc_block_counter s1 = sc_block_counter s"
    "sc_tx_counter s1 = sc_tx_counter s" "sc_tfer_count s1 = sc_tfer_count s" "sc_total_volume s1 = sc_total_volume s"
    using scan_block_T1 [OF b(1,2) mode assms(6), of ?s] by auto
  have "scan_body C T options True False ?ib ?s = Some (Thrown StdException, s1)" using s1 by (simp add: scan_body_def)
  from scan_while_thrown [of ?ib "scan_body C T options True False", OF more this]
  show ?thesis
    using blk assms(5) same by (simp add: scan_file_def vs_warn_def bindM_def effect_simps)
qed

section \<open>Properties\<close>

text \<open>C10. The verifier accepts directories of Tier-1 blocks with one block in a file, as the repeater writes them: when every block
  is well formed, its transactions are sound and its summary is that of their postings, the verifier comes to an end without a
  warning about a block, and its state is that of all postings in the order of the files. The only warning is that the
  states differ, unless nothing was posted, since there was no file of transactions to compare with. A file with a second
  block is skipped and leaves the state as it was, unless the length of the second block looks like the type of a
  signature.\<close>

theorem verifier_tier1:
  assumes "\<forall>b \<in> set bs. t1_block C keys b \<and> recent now b \<and>
      sum_getCanonical (fb_summary b) = sum_getCanonical (fold sum_post (block_postings b) Summary_Create)"
  shows "(\<exists>s. verify_files C keys mode_T1 now (map fb_getCanonical bs) verify_start = Some (Returned (), s) \<and>
      vs_posteri s = fold cs_post (concat (map block_postings bs)) ChainState_empty \<and>
      vs_warnings s = (if getStateMap (vs_posteri s) = [] then [] else [StatesDiffer])) \<and>
    (\<forall>b \<in> set bs. \<forall>c \<in> set bs. 257 \<le> length (fb_getCanonical c) \<and> length (fb_getCanonical c) mod 256 \<notin> {73, 74, 105, 106} \<longrightarrow>
      verify_file C keys mode_T1 now (fb_getCanonical b @ fb_getCanonical c) verify_start =
        Some (Returned (), verify_start\<lparr>vs_warnings := [SkippedFile]\<rparr>))"
proof (intro conjI ballI impI)
  let ?st = "fold cs_post (concat (map block_postings bs)) ChainState_empty"
  have e: "getStateMap ChainState_empty = []" by (simp add: getStateMap_def ChainState_empty_def)
  obtain sm where "foldM (\<lambda>raw _. verify_file C keys mode_T1 now raw) (map fb_getCanonical bs) () verify_start =
      Some (Returned (), verify_start\<lparr>vs_posteri := ?st, vs_block_summary := sm\<rparr>)"
    using verify_files_T1 [OF assms, of verify_start] by (auto simp: verify_start_def)
  then show "\<exists>s. verify_files C keys mode_T1 now (map fb_getCanonical bs) verify_start = Some (Returned (), s) \<and>
      vs_posteri s = fold cs_post (concat (map block_postings bs)) ChainState_empty \<and>
      vs_warnings s = (if getStateMap (vs_posteri s) = [] then [] else [StatesDiffer])"
    using e
    by (intro exI [of _ "verify_start\<lparr>vs_posteri := ?st, vs_block_summary := sm,
        vs_warnings := (if getStateMap ?st = [] then [] else [StatesDiffer])\<rparr>"])
      (auto simp: verify_files_def verify_start_def vs_warn_def bindM_def effect_simps compare_states)
  fix b c
  assume "b \<in> set bs" "c \<in> set bs"
    and "257 \<le> length (fb_getCanonical c) \<and> length (fb_getCanonical c) mod 256 \<notin> {73, 74, 105, 106}"
  with assms show "verify_file C keys mode_T1 now (fb_getCanonical b @ fb_getCanonical c) verify_start =
      Some (Returned (), verify_start\<lparr>vs_warnings := [SkippedFile]\<rparr>)"
    using verify_file_two_blocks [of C keys b now c verify_start] by (auto simp: t1_block_def verify_start_def)
qed

definition tier1_final :: FinalBlock where
  "tier1_final = FinalBlock_of sample_crypto 1514764800 (ProposedBlock_make (replicate 32 7) [Tier1 sample_t1] sample_summary
     \<lparr>sigs = [(sample_node, sample_sig 5)]\<rparr> ChainState_empty)"

lemma tier1_final_facts:
  "t1_block sample_crypto KeyRing_empty tier1_final" "recent 1514764801 tier1_final"
  "fold sum_post (block_postings tier1_final) Summary_Create = sample_summary" "fb_summary tier1_final = sample_summary"
  "fb_transactions tier1_final = [Tier1 sample_t1]" "length (fb_getCanonical tier1_final) = 693"
  "t1_postings (Tier1 sample_t1) \<noteq> []"
proof -
  let ?p = "ProposedBlock_make (replicate 32 7) [Tier1 sample_t1] sample_summary \<lparr>sigs = [(sample_node, sample_sig 5)]\<rparr> ChainState_empty"
  have f: "pb_vals ?p = \<lparr>sigs = [(sample_node, sample_sig 5)]\<rparr>" "pb_summary ?p = sample_summary"
    "pb_transactions ?p = [Tier1 sample_t1]" "pb_prev_hash ?p = replicate 32 7"
    by (simp_all add: ProposedBlock_make_def Let_def)
  have "addr_size sample_node = 50" "sig_size (sample_sig 5) = 106"
    by (simp_all add: addr_size_def sig_size_def sample_node_def sample_sig_def sample_der_def)
  then have np: "val_wf (pb_vals ?p)" "node_pairs (pb_vals ?p)" by (simp_all add: f val_wf_def node_pairs_def)
  then have wf: "pb_wf ?p" unfolding f by (intro pb_wf_make) simp_all
  have fwf: "fb_wf tier1_final"
    unfolding tier1_final_def by (rule FinalBlock_of_wf [OF wf]) (simp_all add: f sample_crypto_def)
  show len: "length (fb_getCanonical tier1_final) = 693"
    using length_node_pairs [OF np(2)]
    by (simp add: tier1_final_def fb_getCanonical_eq f FinalBlock_of_merkle DevcashHash_def sample_crypto_def
        pb_getRawTransactions_def sample_t1_length sample_summary_length)
  have s: "t1_isSound sample_crypto KeyRing_empty (t1_parts sample_summary sample_node (sample_sig 5) False) = Inr True"
    by (simp add: t1_isSound_parts getKey_def KeyRing_empty_def sample_crypto_public sample_crypto_verify)
  then have tx: "t1_block_tx sample_crypto KeyRing_empty (Tier1 sample_t1)"
    unfolding t1_block_tx_def sample_t1_def using sample_t1_encodable by blast
  show "fb_summary tier1_final = sample_summary" "fb_transactions tier1_final = [Tier1 sample_t1]"
    by (simp_all add: tier1_final_def f)
  show "t1_block sample_crypto KeyRing_empty tier1_final"
    using fwf np(2) tx len by (simp add: t1_block_def) (simp add: tier1_final_def f pb_getRawTransactions_def)
  show "recent 1514764801 tier1_final" by (simp add: recent_def tier1_final_def)
  have p: "t1_postings (Tier1 sample_t1) = [(sample_wallet, 1, - 10, 0), (sample_wallet2, 1, 10, 0)]"
    using t1_parts_getters(4) [OF sample_t1_encodable, of True]
    by (simp add: t1_postings_def sample_t1_def sum_postings_def sample_summary_map)
  then show "t1_postings (Tier1 sample_t1) \<noteq> []" by simp
  show "fold sum_post (block_postings tier1_final) Summary_Create = sample_summary"
    by (simp add: block_postings_def tier1_final_def f p) (simp add: sample_summary_def)
qed

theorem verifier_tier1_witness:
  "length (fb_getCanonical tier1_final) = 693 \<and>
   (\<exists>s. verify_files sample_crypto KeyRing_empty mode_T1 1514764801 [fb_getCanonical tier1_final] verify_start = Some (Returned (), s) \<and>
      vs_posteri s = fold cs_post (block_postings tier1_final) ChainState_empty) \<and>
   verify_file sample_crypto KeyRing_empty mode_T1 1514764801 (fb_getCanonical tier1_final @ fb_getCanonical tier1_final) verify_start =
     Some (Returned (), verify_start\<lparr>vs_warnings := [SkippedFile]\<rparr>)"
  using verifier_tier1 [of "[tier1_final]" sample_crypto KeyRing_empty 1514764801] tier1_final_facts by auto

text \<open>C25. A file that holds neither blocks nor transactions makes the verifier and the scanner repeat their warning for ever,
  whatever the other files are; the announcer throws.\<close>

theorem unknown_file_hangs:
  assumes "raw \<noteq> []" "length raw < 2 ^ 63" "IsBlockData now raw = Inr False" "IsTxData raw = Inr False"
  shows "verify_file C keys mode now raw s = None \<and> scan_file C T options now raw t = None \<and>
    announce_file C keys aoptions now raw = Some (Inl (RuntimeError ''Unsupported configuration: is_transaction''))"
proof (intro conjI)
  let ?ib = "InputBuffer_make raw 0"
  have more: "ib_offset ?ib < ib_size ?ib"
    using assms(1,2) unat_vec_size [of raw] by (simp add: InputBuffer_make_def ib_size_def word_less_nat_alt)
  have "scan_while (verify_body C keys mode False False) skip ?ib s = None" for skip s
    using more by (rule scan_while_stuck) (auto simp: verify_body_def vs_warn_def bindM_def effect_simps)
  then show "verify_file C keys mode now raw s = None"
    using assms by (simp add: verify_file_def vs_warn_def bindM_def effect_simps)
  have "scan_while (scan_body C T options False False) skip ?ib s = None" for skip s
    using more by (rule scan_while_stuck) (auto simp: scan_body_def vs_warn_def bindM_def effect_simps)
  then show "scan_file C T options now raw t = None"
    using assms by (simp add: scan_file_def vs_warn_def bindM_def effect_simps)
  show "announce_file C keys aoptions now raw = Some (Inl (RuntimeError ''Unsupported configuration: is_transaction''))"
    using assms more by (simp add: announce_file_def) (subst while_unread.simps, simp add: announce_item_def)
qed

theorem unknown_file_hangs_witness:
  "IsBlockData 0 [7] = Inr False \<and> IsTxData [7] = Inr False \<and>
   verify_file sample_crypto KeyRing_empty mode_T2 0 [7] verify_start = None"
proof -
  have h: "IsBlockData 0 [7] = Inr False" "IsTxData [7] = Inr False"
    by (simp_all add: IsBlockData_def IsTxData_def vec_size_def fb_MinSize_def)
  have "verify_file sample_crypto KeyRing_empty mode_T2 0 [7] verify_start = None"
    by (rule unknown_file_hangs [OF _ _ h, THEN conjunct1]) simp_all
  with h show ?thesis by simp
qed

text \<open>The files that the generators write cannot be read by the announcer or the verifier. On every file that begins with a
  sound transaction the first read copies the signature from behind the end of a vector.\<close>

theorem transaction_files_undefined:
  assumes "Tier2Transaction_signed C oper xfers nonce keys sig = Inr tx"
    and "t2_encodable oper xfers nonce sig" "\<forall>t \<in> set xfers. xfer_wf t" "sig_fits oper sig"
    and "length (tx_canonical tx @ r) < 2 ^ 63" and "nid_mode options \<noteq> mode_T1"
    and "IsBlockData now (tx_canonical tx @ r) = Inr b"
  shows "announce_file C keys options now (tx_canonical tx @ r) = Some (Inl (Undefined ''read past end'')) \<and>
    (\<not> b \<longrightarrow> verify_file C keys mode now (tx_canonical tx @ r) s = Some (Thrown (Undefined ''read past end''), s))"
proof -
  note tx = signed_parts [OF assms(1)]
  let ?ib = "InputBuffer_make (tx_canonical tx @ r) 0"
  have ib: "ib_wf ?ib" using assms(5) by (rule ib_wf_make)
  have data: "IsTxData (tx_canonical tx @ r) = Inr True"
    using IsTxData_tx [OF assms(2), of True r] assms(5) by (simp add: tx(1))
  have rd: "t2_Create C keys True ?ib = Inl (Undefined ''read past end'')"
    using t2_Create_past_end [OF ib _ assms(2-4) tx(2), of True r] by (simp add: tx(1))
  have ne: "tx_canonical tx \<noteq> []" by (simp add: tx(1) t2_parts_def)
  then have more: "ib_offset ?ib < ib_size ?ib"
    using assms(5) unat_vec_size [of "tx_canonical tx @ r"] by (simp add: InputBuffer_make_def ib_size_def word_less_nat_alt)
  have "announce_item C keys options b True file_start ?ib = Some (Inl (Undefined ''read past end''))"
    using rd assms(6) by (simp add: announce_item_def)
  then have "announce_file C keys options now (tx_canonical tx @ r) = Some (Inl (Undefined ''read past end''))"
    using data assms(7) more ne by (simp add: announce_file_def) (subst while_unread.simps, simp)
  moreover have "verify_file C keys mode now (tx_canonical tx @ r) s = Some (Thrown (Undefined ''read past end''), s)" if "\<not> b"
  proof -
    have "verify_body C keys mode False True ?ib s = Some (Thrown (Undefined ''read past end''), s)"
      using rd by (simp add: verify_body_def verify_tx_def bindM_def effect_simps)
    from scan_while_thrown [of ?ib "verify_body C keys mode False True", OF more this] show ?thesis
      using data assms(7) that ne by (simp add: verify_file_def bindM_def effect_simps)
  qed
  ultimately show ?thesis by blast
qed

theorem transaction_files_undefined_witness:
  "Tier2Transaction_signed sample_crypto 2 sample_xfers sample_nonce KeyRing_empty (sample_sig 4) = Inr sample_t2 \<and>
   announce_file sample_crypto KeyRing_empty (sample_announcer mode_T2) 5 (tx_canonical sample_t2 @ tx_canonical sample_t2) =
     Some (Inl (Undefined ''read past end''))"
proof -
  have h: "length (tx_canonical sample_t2 @ tx_canonical sample_t2) < 2 ^ 63" "nid_mode (sample_announcer mode_T2) \<noteq> mode_T1"
    by (simp_all add: sample_t2_length sample_announcer_def)
  then have "\<exists>b. IsBlockData 5 (tx_canonical sample_t2 @ tx_canonical sample_t2) = Inr b"
    using sample_t2_length by (auto simp: IsBlockData_def BinToUint64_value vec_get_def)
  then show ?thesis
    using transaction_files_undefined [OF sample_t2_sign(2) sample_t2_ok(4,2,3) h, of 5] sample_t2_sign(2) by blast
qed

text \<open>The scanner cannot scan the blocks of Tier 1. Since the texts of their transactions leave brackets open, the
  JSON reader refuses the text of every block that posts anything; the file is skipped, and neither the output nor the totals
  hold anything of it.\<close>

theorem scanner_skips_tier1:
  assumes "t1_block C KeyRing_empty b" "block_postings b \<noteq> []" "recent now b" and "sco_mode options = mode_T1"
    and "IsTxData (fb_getCanonical b) = Inr False"
    and "\<forall>b js. GetJSON_FinalBlock b = Inr js \<and> count_list js (CHR ''['') \<noteq> count_list js (CHR '']'') \<longrightarrow>
      pt_read_json T js = Inl StdException"
  shows "\<exists>s'. scan_file C T options now (fb_getCanonical b) s = Some (Returned (), s') \<and> last (vs_warnings s') = SkippedFile \<and>
    sc_array s' = sc_array s \<and> sc_block_counter s' = sc_block_counter s \<and> sc_tx_counter s' = sc_tx_counter s \<and>
    sc_tfer_count s' = sc_tfer_count s \<and> sc_total_volume s' = sc_total_volume s"
  using scan_file_T1 [OF assms(1-5)] assms(6) by (simp add: excess_def)

definition strict_trees :: "string ptree_ops" where
  "strict_trees = \<lparr>pt_read_json = (\<lambda>js. if count_list js (CHR ''['') = count_list js (CHR '']'') then Inr js else Inl StdException),
     pt_children = (\<lambda>_. []), pt_get_child = (\<lambda>_ _. Inl StdException), pt_find = (\<lambda>_ _. None), pt_data = (\<lambda>t. t),
     pt_array = concat, pt_object = (\<lambda>_ t. t), pt_write_json = (\<lambda>t. t)\<rparr>"

definition sample_scanner :: scanner_options where
  "sample_scanner = \<lparr>sco_mode = mode_T1, sco_working_dir = [], sco_write_file = [], sco_address_filter = [],
     sco_debug_mode = dbg_off, sco_version = 0\<rparr>"

definition scan_start :: "string scan_state" where
  "scan_start = \<lparr>vs_priori = ChainState_empty, vs_posteri = ChainState_empty, vs_summary = Summary_Create,
     vs_block_summary = Summary_Create, vs_warnings = [], sc_array = [], sc_block_counter = 0, sc_tx_counter = 0,
     sc_tfer_count = 0, sc_total_volume = 0, sc_file_blocks = 0, sc_file_txs = 0, sc_file_tfer = 0, sc_start_time = 0,
     sc_blocktime = 0, sc_volume = 0, sc_value = 0\<rparr>"

theorem scanner_skips_tier1_witness:
  "\<exists>s. scan_file sample_crypto strict_trees sample_scanner 1514764801 (fb_getCanonical tier1_final) scan_start = Some (Returned (), s) \<and>
     last (vs_warnings s) = SkippedFile \<and> sc_array s = []"
proof -
  have "block_postings tier1_final \<noteq> []" using tier1_final_facts(5,7) by (simp add: block_postings_def)
  moreover have "IsTxData (fb_getCanonical tier1_final) = Inr False"
  proof -
    have "fb_num_bytes tier1_final = 693" "fb_version tier1_final = 0"
      using tier1_final_facts(1,6) by (simp_all add: t1_block_def fb_wf_def vec_size_def)
    then have "take 8 (fb_getCanonical tier1_final) = 0 # take 7 (le64 693)" by (simp add: fb_getCanonical_eq)
    moreover have "le_value (0 # take 7 (le64 693)) = 177408" by (simp add: le64_def)
    ultimately have "BinToUint64 (fb_getCanonical tier1_final) 0 = Inr 177408"
      using tier1_final_facts(6) by (simp add: BinToUint64_value)
    then show ?thesis using tier1_final_facts(6) by (simp add: IsTxData_def vec_size_def)
  qed
  moreover have "\<forall>b js. GetJSON_FinalBlock b = Inr js \<and> count_list js (CHR ''['') \<noteq> count_list js (CHR '']'') \<longrightarrow>
      pt_read_json strict_trees js = Inl StdException" by (simp add: strict_trees_def)
  moreover have "sco_mode sample_scanner = mode_T1" by (simp add: sample_scanner_def)
  ultimately obtain s where
    "scan_file sample_crypto strict_trees sample_scanner 1514764801 (fb_getCanonical tier1_final) scan_start = Some (Returned (), s)"
    "last (vs_warnings s) = SkippedFile" "sc_array s = sc_array scan_start"
    using scanner_skips_tier1 [OF tier1_final_facts(1) _ tier1_final_facts(2), of sample_scanner strict_trees scan_start] by blast
  then show ?thesis by (auto simp: scan_start_def)
qed

end
