(* ===== verification/Db_Repeater.thy ===== *)
theory Db_Repeater
  imports Verifier
begin

text \<open>
  \<^verbatim>\<open>db_repeater.cpp\<close> listens for final blocks and writes their transactions to a database. The library
  \<^verbatim>\<open>pqxx\<close> is an argument, the record \<open>pqxx_ops\<close>, whose operations act on the state of a connection. What
  \<^verbatim>\<open>std::string\<close> does with the begin of one vector and the end of another, which the language leaves undefined, is
  an argument as well: \<open>two_ranges xs ys\<close> for two temporary copies of the same bytes.
\<close>

section \<open>The connection\<close>

datatype db_argument = ArgText string | ArgUnsigned uint64 | ArgHeight uint32 | ArgSigned int64

record 'c pqxx_ops =
  px_connection :: "string \<Rightarrow> error + 'c"
  px_is_open :: "'c \<Rightarrow> bool"
  px_prepare :: "string \<Rightarrow> string \<Rightarrow> ('c, unit) prog"
  px_work :: "('c, unit) prog"
  px_exec :: "string \<Rightarrow> db_argument list \<Rightarrow> ('c, string list list) prog"
  px_commit :: "('c, unit) prog"
  px_end :: "'c \<Rightarrow> 'c"
  px_as_int64 :: "string \<Rightarrow> error + int64"

definition kNIL_UUID :: string where
  "kNIL_UUID = ''00000000-0000-0000-0000-000000000000''"

definition kNIL_UUID_PSQL :: string where
  "kNIL_UUID_PSQL = [CHR 0x27] @ kNIL_UUID @ [CHR 0x27] @ ''::uuid''"

definition kPREPARED :: "(string \<times> string) list" where
  "kPREPARED =
     [(''tx_insert'', ''INSERT INTO tx (tx_id, shard, block_height, wallet_id, coin_id, amount) VALUES ($1, $2, $3, $4, $5, $6)''),
      (''rx_insert'', ''INSERT INTO rx (shard, block_height, wallet_id, coin_id, amount, tx_id) VALUES ($1, $2, $3, $4, $5, $6)''),
      (''wallet_insert'', ''INSERT INTO wallet (wallet_id, account_id, wallet_name) VALUES ($1, '' @ [CHR 0x27] @ kNIL_UUID
         @ [CHR 0x27] @ '':uuid, '' @ [CHR 0x27] @ ''None'' @ [CHR 0x27] @ '')''),
      (''balance_select'', ''select balance from walletCoins where wallet_id = $1 and coin_id = $2''),
      (''balance_insert'', ''INSERT INTO walletCoins (wallet_coin_id, wallet_id, coin_id, account_id, balance) (select devv_uuid(), $1, $2, $3, $4)''),
      (''balance_update'', ''UPDATE walletCoins set balance = $1 where wallet_id = $2 and coin_id = $3'')]"

record 'c db_state =
  dr_connected :: bool
  dr_link :: "'c option"
  dr_chain_height :: uint32

definition on_link :: "('c, 'a) prog \<Rightarrow> ('c db_state, 'a) prog" where
  "on_link m = (\<lambda>s. case dr_link s of
     None \<Rightarrow> Some (Thrown (Undefined ''null pointer''), s)
   | Some c \<Rightarrow> (case m c of None \<Rightarrow> None | Some (r, c') \<Rightarrow> Some (r, s\<lparr>dr_link := Some c'\<rparr>)))"

definition db_connect :: "'c pqxx_ops \<Rightarrow> db_repeater_options \<Rightarrow> ('c db_state, unit) prog" where
  "db_connect P options =
     bindM (updM (\<lambda>s. s\<lparr>dr_connected := False, dr_link := None\<rparr>)) (\<lambda>_.
     if dbo_db_host options \<noteq> [] \<and> dbo_db_user options \<noteq> [] then
       bindM (liftM (px_connection P (''username='' @ dbo_db_user options @ '' host='' @ dbo_db_host options
         @ '' password='' @ dbo_db_pass options @ '' dbname='' @ dbo_db_name options
         @ '' port='' @ to_string_u (dbo_db_port options)))) (\<lambda>link.
       bindM (updM (\<lambda>s. s\<lparr>dr_link := Some link\<rparr>)) (\<lambda>_.
       if px_is_open P link then
         bindM (updM (\<lambda>s. s\<lparr>dr_connected := True\<rparr>)) (\<lambda>_.
         foldM (\<lambda>(name, statement) _. on_link (px_prepare P name statement)) kPREPARED ())
       else returnM ()))
     else returnM ())"

text \<open>A block with a \<^verbatim>\<open>pqxx::work\<close>, whose destructor ends the transaction when the block is left.\<close>

definition with_work :: "'c pqxx_ops \<Rightarrow> ('c db_state, 'a) prog \<Rightarrow> ('c db_state, 'a) prog" where
  "with_work P m =
     bindM (on_link (px_work P)) (\<lambda>_ s. case m s of
       None \<Rightarrow> None
     | Some (r, s') \<Rightarrow> Some (r, if blocked r then s' else s'\<lparr>dr_link := map_option (px_end P) (dr_link s')\<rparr>))"

section \<open>Transactions\<close>

text \<open>The first transfer with a negative amount.\<close>

fun find_sender :: "(bytes \<Rightarrow> bytes \<Rightarrow> error + string) \<Rightarrow> Transfer list \<Rightarrow> error + (string \<times> uint64 \<times> int64)" where
  "find_sender two_ranges [] = Inr ([], 0, 0)"
| "find_sender two_ranges (one_xfer # xfers) =
     bindE (xfer_getAmount one_xfer) (\<lambda>amount.
     if sint amount < 0 then
       bindE (xfer_getAddress one_xfer) (\<lambda>addr.
       bindE (two_ranges (addr_canonical addr) (addr_canonical addr)) (\<lambda>temp.
       bindE (xfer_getCoin one_xfer) (\<lambda>coin_id.
       Inr (temp, coin_id, amount))))
     else find_sender two_ranges xfers)"

text \<open>\<^verbatim>\<open>[0][0].as<int64_t>()\<close> of a result; the subscripts are not checked.\<close>

definition first_cell :: "'c pqxx_ops \<Rightarrow> string list list \<Rightarrow> error + int64" where
  "first_cell P rows =
     (case rows of
        (value # _) # _ \<Rightarrow> px_as_int64 P value
      | _ \<Rightarrow> Inl (Undefined ''cell of an empty result''))"

definition update_sender ::
  "'c pqxx_ops \<Rightarrow> string \<Rightarrow> uint64 \<Rightarrow> int64 \<Rightarrow> ('c db_state, string list list) prog" where
  "update_sender P sender_str coin_id send_amount =
     bindM (on_link (px_exec P ''balance_select'' [ArgText sender_str, ArgUnsigned coin_id])) (\<lambda>balance_result.
     bindM (if balance_result = [] then
         on_link (px_exec P ''balance_insert''
           [ArgText sender_str, ArgUnsigned coin_id, ArgText kNIL_UUID_PSQL, ArgSigned send_amount])
       else
         bindM (liftM (first_cell P balance_result)) (\<lambda>amount.
         on_link (px_exec P ''balance_update''
           [ArgSigned (amount - send_amount), ArgText sender_str, ArgUnsigned coin_id]))) (\<lambda>_.
     returnM balance_result))"

definition update_receiver ::
  "'c pqxx_ops \<Rightarrow> (bytes \<Rightarrow> bytes \<Rightarrow> error + string) \<Rightarrow> string \<Rightarrow> string \<Rightarrow> uint64 \<Rightarrow> int64 \<Rightarrow> string list list \<Rightarrow> Transfer
   \<Rightarrow> ('c db_state, unit) prog" where
  "update_receiver P two_ranges shard_name sig_str coin_id send_amount balance_result one_xfer =
     bindM (liftM (xfer_getAmount one_xfer)) (\<lambda>amount.
     if sint amount < 0 then returnM ()
     else
       bindM (liftM (xfer_getAddress one_xfer)) (\<lambda>addr.
       bindM (liftM (two_ranges (addr_canonical addr) (addr_canonical addr))) (\<lambda>receiver_str.
       with_work P (
         bindM (on_link (px_exec P ''balance_select'' [ArgText receiver_str, ArgUnsigned coin_id])) (\<lambda>rx_balance.
         bindM (if rx_balance = [] then
             on_link (px_exec P ''balance_insert''
               [ArgText receiver_str, ArgUnsigned coin_id, ArgText kNIL_UUID_PSQL, ArgSigned amount])
           else
             bindM (liftM (first_cell P balance_result)) (\<lambda>old.
             on_link (px_exec P ''balance_update''
               [ArgSigned (old + amount), ArgText receiver_str, ArgUnsigned coin_id]))) (\<lambda>_.
         bindM (getM dr_chain_height) (\<lambda>chain_height.
         bindM (on_link (px_exec P ''rx_insert'' [ArgText shard_name, ArgHeight chain_height, ArgText receiver_str,
           ArgUnsigned coin_id, ArgSigned send_amount, ArgText sig_str])) (\<lambda>_.
         returnM ()))))))))"

text \<open>The loop over the receivers and the commit.\<close>

definition record_receivers ::
  "'c pqxx_ops \<Rightarrow> (bytes \<Rightarrow> bytes \<Rightarrow> error + string) \<Rightarrow> string \<Rightarrow> string \<Rightarrow> uint64 \<Rightarrow> int64 \<Rightarrow> string list list \<Rightarrow> Transfer list
   \<Rightarrow> ('c db_state, unit) prog" where
  "record_receivers P two_ranges shard_name sig_str coin_id send_amount balance_result xfers =
     bindM (foldM (\<lambda>one_xfer _. update_receiver P two_ranges shard_name sig_str coin_id send_amount balance_result one_xfer)
       xfers ()) (\<lambda>_.
     on_link (px_commit P))"

definition record_transfers ::
  "'c pqxx_ops \<Rightarrow> (bytes \<Rightarrow> bytes \<Rightarrow> error + string) \<Rightarrow> string \<Rightarrow> TransactionPtr \<Rightarrow> ('c db_state, unit) prog" where
  "record_transfers P two_ranges shard_name one_tx =
     bindM (liftM (tx_getTransfers one_tx)) (\<lambda>xfers.
     bindM (liftM (tx_getSignature one_tx)) (\<lambda>sig.
     bindM (liftM (two_ranges (sig_canonical sig) (sig_canonical sig))) (\<lambda>sig_str.
     bindM (liftM (find_sender two_ranges xfers)) (\<lambda>(sender_str, coin_id, send_amount).
     bindM (update_sender P sender_str coin_id send_amount) (\<lambda>balance_result.
     bindM (getM dr_chain_height) (\<lambda>chain_height.
     bindM (on_link (px_exec P ''tx_insert'' [ArgText sig_str, ArgText shard_name, ArgHeight chain_height,
       ArgText sender_str, ArgUnsigned coin_id, ArgSigned send_amount])) (\<lambda>_.
     record_receivers P two_ranges shard_name sig_str coin_id send_amount balance_result xfers)))))))"

definition record_tx ::
  "'c pqxx_ops \<Rightarrow> (bytes \<Rightarrow> bytes \<Rightarrow> error + string) \<Rightarrow> string \<Rightarrow> TransactionPtr \<Rightarrow> ('c db_state, unit) prog" where
  "record_tx P two_ranges shard_name one_tx = with_work P (record_transfers P two_ranges shard_name one_tx)"

text \<open>The callback of the listener.\<close>

definition db_callback ::
  "Crypto \<Rightarrow> 'c pqxx_ops \<Rightarrow> (bytes \<Rightarrow> bytes \<Rightarrow> error + string) \<Rightarrow> db_repeater_options \<Rightarrow> DevcashMessage \<Rightarrow> ('c db_state, unit) prog" where
  "db_callback C P two_ranges options p =
     (let shard_name = ''Shard-'' @ to_string_u (nid_shard_index options) in
      if msg_type p = FINAL_BLOCK then
        bindM (getM dr_connected) (\<lambda>db_connected.
        bindM (if db_connected then
            bindM (liftP (FinalBlock_mode C ChainState_empty KeyRing_empty (nid_mode options)
              (InputBuffer_make (msg_data p) 0))) (\<lambda>(one_block, _).
            foldM (\<lambda>one_tx _. record_tx P two_ranges shard_name one_tx) (fb_CopyTransactions one_block) ())
          else throwM (RuntimeError ''Database is not connected!'')) (\<lambda>_.
        updM (\<lambda>s. s\<lparr>dr_chain_height := dr_chain_height s + 1\<rparr>)))
      else returnM ())"

section \<open>Documented behaviour of the library\<close>

text \<open>\<open>live\<close> says that a transaction object exists for the connection and \<open>content\<close> is what has been committed. There
  is at most one transaction at a time: the constructor of a second one throws. Statements change nothing before the
  commit and the destructor of a transaction that was not committed rolls back.\<close>

definition pqxx_laws :: "'c pqxx_ops \<Rightarrow> ('c \<Rightarrow> bool) \<Rightarrow> ('c \<Rightarrow> 'd) \<Rightarrow> bool" where
  "pqxx_laws P live content =
     ((\<forall>c. \<exists>r c'. px_work P c = Some (r, c') \<and> \<not> blocked r \<and> content c' = content c \<and> (r = Returned () \<longrightarrow> live c')) \<and>
      (\<forall>c. live c \<longrightarrow> px_work P c = Some (Thrown StdException, c)) \<and>
      (\<forall>statement args c. \<exists>r c'. px_exec P statement args c = Some (r, c') \<and> \<not> blocked r \<and> content c' = content c \<and>
        (live c \<longrightarrow> live c')) \<and>
      (\<forall>c. content (px_end P c) = content c))"

section \<open>Programs that cannot commit\<close>

definition safe :: "('s \<Rightarrow> bool) \<Rightarrow> ('s, 'a) prog \<Rightarrow> bool" where
  "safe K m = (\<forall>s. K s \<longrightarrow> (\<exists>r s'. m s = Some (r, s') \<and> \<not> blocked r \<and> K s'))"

definition fails :: "('s \<Rightarrow> bool) \<Rightarrow> ('s, 'a) prog \<Rightarrow> bool" where
  "fails K m = (\<forall>s. K s \<longrightarrow> (\<exists>e s'. m s = Some (Thrown e, s') \<and> K s'))"

named_theorems safe_intros \<open>programs that end in a state of the same kind\<close>

lemma safe_pure [safe_intros]: "safe K (returnM x)" "safe K (getM f)" "safe K (liftM r)" "safe K (throwM e)"
  by (simp_all add: safe_def effect_simps)

lemma fails_safe: "fails K m \<Longrightarrow> safe K m"
  unfolding safe_def fails_def by fastforce

lemma safe_bind [safe_intros]: "safe K m \<Longrightarrow> (\<And>x. safe K (f x)) \<Longrightarrow> safe K (bindM m f)"
  unfolding safe_def
proof (intro allI impI)
  fix s
  assume m: "\<forall>s. K s \<longrightarrow> (\<exists>r s'. m s = Some (r, s') \<and> \<not> blocked r \<and> K s')"
    and f: "\<And>x. \<forall>s. K s \<longrightarrow> (\<exists>r s'. f x s = Some (r, s') \<and> \<not> blocked r \<and> K s')" and "K s"
  then obtain r t where r: "m s = Some (r, t)" "\<not> blocked r" "K t" by blast
  then show "\<exists>r s'. bindM m f s = Some (r, s') \<and> \<not> blocked r \<and> K s'" using f by (cases r) (simp_all add: effect_simps)
qed

lemma safe_if [safe_intros]: "safe K m \<Longrightarrow> safe K n \<Longrightarrow> safe K (if b then m else n)"
  by simp

lemma safe_prod [safe_intros]: "(\<And>x y. safe K (f x y)) \<Longrightarrow> safe K (case p of (x, y) \<Rightarrow> f x y)"
  by (cases p) simp

lemma fails_bind_left: "fails K m \<Longrightarrow> fails K (bindM m f)"
  unfolding fails_def by (metis bindM_simps(2))

lemma fails_bind:
  assumes "safe K m" "\<And>x. fails K (f x)"
  shows "fails K (bindM m f)"
  unfolding fails_def
proof (intro allI impI)
  fix s
  assume "K s"
  then obtain r t where r: "m s = Some (r, t)" "\<not> blocked r" "K t" using assms(1) unfolding safe_def by blast
  then show "\<exists>e s'. bindM m f s = Some (Thrown e, s') \<and> K s'"
    using assms(2) unfolding fails_def by (cases r) (simp_all add: effect_simps)
qed

lemma fails_lift: "(\<And>x. r = Inr x \<Longrightarrow> fails K (f x)) \<Longrightarrow> fails K (bindM (liftM r) f)"
  by (cases r) (simp_all add: fails_def effect_simps)

lemma fails_fold:
  assumes "\<forall>x \<in> set xs. safe K (f x ())" "x \<in> set xs" "fails K (f x ())"
  shows "fails K (foldM f xs ())"
  using assms
proof (induction xs)
  case (Cons y ys)
  show ?case
  proof (cases "x = y")
    case False
    then have "fails K (foldM f ys ())" using Cons by simp
    then show ?thesis using Cons.prems(1) by (simp add: fails_bind)
  qed (use Cons.prems in \<open>simp add: fails_bind_left\<close>)
qed simp

section \<open>What the callback records\<close>

definition in_work :: "('c \<Rightarrow> bool) \<Rightarrow> ('c \<Rightarrow> 'd) \<Rightarrow> 'd \<Rightarrow> uint32 \<Rightarrow> 'c db_state \<Rightarrow> bool" where
  "in_work live content d h s = (\<exists>c. dr_link s = Some c \<and> live c \<and> content c = d \<and> dr_chain_height s = h)"

lemma safe_exec [safe_intros]:
  assumes "pqxx_laws P live content"
  shows "safe (in_work live content d h) (on_link (px_exec P statement args))"
  unfolding safe_def
proof (intro allI impI)
  fix s
  assume "in_work live content d h s"
  then obtain c where c: "dr_link s = Some c" "live c" "content c = d" "dr_chain_height s = h" by (auto simp: in_work_def)
  obtain r c' where "px_exec P statement args c = Some (r, c')" "\<not> blocked r" "content c' = d" "live c'"
    using assms c(2,3) unfolding pqxx_laws_def by metis
  then show "\<exists>r s'. on_link (px_exec P statement args) s = Some (r, s') \<and> \<not> blocked r \<and> in_work live content d h s'"
    using c by (simp add: on_link_def in_work_def)
qed

lemma second_work_fails:
  assumes "pqxx_laws P live content"
  shows "fails (in_work live content d h) (with_work P m)"
  unfolding with_work_def
proof (rule fails_bind_left)
  show "fails (in_work live content d h) (on_link (px_work P))"
    using assms by (auto simp: fails_def on_link_def in_work_def pqxx_laws_def)
qed

lemma update_sender_safe [safe_intros]:
  assumes "pqxx_laws P live content"
  shows "safe (in_work live content d h) (update_sender P sender coin amount)"
  unfolding update_sender_def using assms by (intro safe_intros)

lemma update_receiver_works:
  assumes "pqxx_laws P live content"
  shows "safe (in_work live content d h) (update_receiver P two_ranges shard sig coin amount rows x)"
    and "xfer_getAmount x = Inr a \<Longrightarrow> 0 \<le> sint a \<Longrightarrow>
      fails (in_work live content d h) (update_receiver P two_ranges shard sig coin amount rows x)"
  unfolding update_receiver_def
  by (intro safe_intros fails_safe [OF second_work_fails [OF assms]])
    (intro fails_lift, simp add: fails_lift second_work_fails [OF assms])

lemma record_transfers_fails:
  assumes laws: "pqxx_laws P live content"
    and x: "tx_getTransfers tx = Inr xfers" "x \<in> set xfers" "xfer_getAmount x = Inr a" "0 \<le> sint a"
  shows "fails (in_work live content d h) (record_transfers P two_ranges shard tx)"
proof -
  have "fails (in_work live content d h) (record_receivers P two_ranges shard sig coin_id amount rows xfers)"
    for sig coin_id amount rows
    unfolding record_receivers_def
    using x(2-4) by (intro fails_bind_left fails_fold [where x = x] ballI update_receiver_works [OF laws])
  then show ?thesis
    unfolding record_transfers_def x(1) by (auto intro!: fails_lift fails_bind safe_intros laws)
qed

lemma record_tx_fails:
  assumes laws: "pqxx_laws P live content"
    and x: "tx_getTransfers tx = Inr xfers" "x \<in> set xfers" "xfer_getAmount x = Inr a" "0 \<le> sint a"
    and link: "dr_link s = Some c"
  shows "\<exists>e s' c'. record_tx P two_ranges shard tx s = Some (Thrown e, s') \<and> dr_link s' = Some c' \<and> content c' = content c \<and>
    dr_chain_height s' = dr_chain_height s"
proof -
  obtain r c' where w: "px_work P c = Some (r, c')" "\<not> blocked r" "content c' = content c" "r = Returned () \<longrightarrow> live c'"
    using laws unfolding pqxx_laws_def by metis
  show ?thesis
  proof (cases r)
    case (Returned u)
    then have "in_work live content (content c) (dr_chain_height s) (s\<lparr>dr_link := Some c'\<rparr>)" using w by (simp add: in_work_def)
    then obtain e s' where "record_transfers P two_ranges shard tx (s\<lparr>dr_link := Some c'\<rparr>) = Some (Thrown e, s')"
      "in_work live content (content c) (dr_chain_height s) s'"
      using record_transfers_fails [OF laws x] unfolding fails_def by blast
    moreover have "content (px_end P d) = content d" for d using laws by (simp add: pqxx_laws_def)
    ultimately show ?thesis
      using w(1) Returned link by (auto simp: record_tx_def with_work_def on_link_def in_work_def effect_simps)
  qed (use w link in \<open>simp_all add: record_tx_def with_work_def on_link_def effect_simps\<close>)
qed

lemma mapE_Inr_back: "mapE f xs = Inr ys \<Longrightarrow> y \<in> set ys \<Longrightarrow> \<exists>x \<in> set xs. f x = Inr y"
  by (induction xs arbitrary: ys) (auto simp: bindE_eq_Inr)

lemma transfers_of_postings:
  assumes "t1_block_tx C keys tx" "same_tx tx tx'" "(addr, coin, amount, delay) \<in> set (t1_postings tx)"
  shows "\<exists>xfers x. tx_getTransfers tx' = Inr xfers \<and> x \<in> set xfers \<and> xfer_getAmount x = Inr amount"
proof -
  obtain sm a sg f where tx: "tx = Tier1 (t1_parts sm a sg True)" "tx' = Tier1 (t1_parts sm a sg f)" and e: "t1_encodable sm a sg"
    using assms by (auto simp: t1_block_tx_def same_tx_def t1_parts_unflag)
  have p: "t1_postings tx = sum_postings sm" "tx_getTransfers tx' = Inr (sum_getTransfers sm)"
    using t1_parts_getters(4) [OF e] by (simp_all add: t1_postings_def tx t1_getTransfers_def)
  have "\<forall>e \<in> set (summary_map sm). addr_wf (fst e)" using e by (auto simp: t1_encodable_def sum_encodable_def list_all_iff entry_encodable_def)
  from mapE_Inr_back [OF sum_getTransfers_postings [OF this], of "(addr, coin, amount, delay)"] assms(3)
  obtain x where "x \<in> set (sum_getTransfers sm)" "posting_of x = Inr (addr, coin, amount, delay)" unfolding p by blast
  then show ?thesis using p by (auto simp: posting_of_def bindE_eq_Inr)
qed

text \<open>C31. The database repeater records nothing. A block of Tier 1 whose first transaction pays anybody makes the callback throw,
  with the database and the height as they were, whatever the strings that the program makes from the bytes of signatures
  and addresses: a second transaction object is opened for the connection while the first one exists, which
  the library refuses. Without a connection every block makes it throw as well.\<close>

theorem db_repeater_records_nothing:
  assumes "pqxx_laws P live content" and "nid_mode options = mode_T1" and "msg_type p = FINAL_BLOCK"
    and "t1_block C KeyRing_empty b" "msg_data p = fb_getCanonical b" "fb_transactions b = tx # txs"
    and "(addr, coin, amount, delay) \<in> set (t1_postings tx)" "0 \<le> sint amount"
  shows "(dr_connected s \<and> dr_link s = Some c \<longrightarrow>
      (\<exists>e s' c'. db_callback C P two_ranges options p s = Some (Thrown e, s') \<and> dr_link s' = Some c' \<and> content c' = content c \<and>
        dr_chain_height s' = dr_chain_height s)) \<and>
    (\<not> dr_connected s \<longrightarrow>
      db_callback C P two_ranges options p s = Some (Thrown (RuntimeError ''Database is not connected!''), s))"
proof (intro conjI)
  obtain tx' txs' where same: "same_tx tx tx'" and fb: "FinalBlock_mode C ChainState_empty KeyRing_empty mode_T1
      (InputBuffer_make (fb_getCanonical b) 0) = Some (Inr
        (b\<lparr>fb_transactions := tx' # txs', fb_raw_transactions := map tx_getCanonical (tx' # txs'), fb_state := ChainState_empty\<rparr>,
         advance (length (fb_getCanonical b)) (InputBuffer_make (fb_getCanonical b) 0)))"
    using read_single_T1 [OF assms(4), of ChainState_empty] assms(6) by (auto simp: list_all2_Cons1)
  have "t1_block_tx C KeyRing_empty tx" using assms(4,6) by (simp add: t1_block_def)
  then obtain xfers x where x: "tx_getTransfers tx' = Inr xfers" "x \<in> set xfers" "xfer_getAmount x = Inr amount"
    using transfers_of_postings [OF _ same assms(7)] by blast
  show "dr_connected s \<and> dr_link s = Some c \<longrightarrow>
      (\<exists>e s' c'. db_callback C P two_ranges options p s = Some (Thrown e, s') \<and> dr_link s' = Some c' \<and> content c' = content c \<and>
        dr_chain_height s' = dr_chain_height s)"
  proof (intro impI)
    assume s: "dr_connected s \<and> dr_link s = Some c"
    then obtain e s' c' where "record_tx P two_ranges (''Shard-'' @ to_string_u (nid_shard_index options)) tx' s = Some (Thrown e, s')"
      "dr_link s' = Some c'" "content c' = content c" "dr_chain_height s' = dr_chain_height s"
      using record_tx_fails [OF assms(1) x assms(8)] by blast
    then show "\<exists>e s' c'. db_callback C P two_ranges options p s = Some (Thrown e, s') \<and> dr_link s' = Some c' \<and> content c' = content c \<and>
        dr_chain_height s' = dr_chain_height s"
      using s fb assms(2,3,5) by (simp add: db_callback_def Let_def step_rules bindM_assoc fb_CopyTransactions_def bindM_def effect_simps)
  qed
  show "\<not> dr_connected s \<longrightarrow>
      db_callback C P two_ranges options p s = Some (Thrown (RuntimeError ''Database is not connected!''), s)"
    using assms(3) by (simp add: db_callback_def Let_def bindM_def effect_simps)
qed

text \<open>A database that keeps the list of its statements.\<close>

type_synonym sample_db = "bool \<times> (string \<times> db_argument list) list \<times> (string \<times> db_argument list) list"

definition sample_pqxx :: "sample_db pqxx_ops" where
  "sample_pqxx = \<lparr>px_connection = (\<lambda>_. Inr (False, [], [])), px_is_open = (\<lambda>_. True), px_prepare = (\<lambda>_ _. returnM ()),
     px_work = (\<lambda>(live, pending, done_list). if live then Some (Thrown StdException, (live, pending, done_list))
       else Some (Returned (), (True, [], done_list))),
     px_exec = (\<lambda>statement args (live, pending, done_list). Some (Returned [], (live, pending @ [(statement, args)], done_list))),
     px_commit = (\<lambda>(live, pending, done_list). Some (Returned (), (live, [], done_list @ pending))),
     px_end = (\<lambda>(live, pending, done_list). (False, [], done_list)),
     px_as_int64 = (\<lambda>_. Inr 0)\<rparr>"

definition sample_db_options :: db_repeater_options where
  "sample_db_options = \<lparr>nid_mode = mode_T1, nid_node_index = 0, nid_shard_index = 1, nid_inn_keys = [], nid_node_keys = [],
     nid_key_pass = [], nid_debug_mode = dbg_off, dbo_host_vector = [], dbo_stop_file = [], dbo_db_user = ''u'', dbo_db_pass = [],
     dbo_db_host = ''h'', dbo_db_name = [], dbo_db_port = 5432\<rparr>"

theorem db_repeater_records_nothing_witness:
  "\<exists>e s' c'. db_callback sample_crypto sample_pqxx (\<lambda>xs ys. Inr (map (\<lambda>x. char_of (unat x)) xs)) sample_db_options
      (DevcashMessage_make [] FINAL_BLOCK (fb_getCanonical tier1_final) 0)
      \<lparr>dr_connected = True, dr_link = Some (False, [], []), dr_chain_height = 0\<rparr> = Some (Thrown e, s') \<and>
    dr_link s' = Some c' \<and> snd (snd c') = [] \<and> dr_chain_height s' = 0"
proof -
  have laws: "pqxx_laws sample_pqxx fst (\<lambda>c. snd (snd c))" by (auto simp: pqxx_laws_def sample_pqxx_def)
  have "(sample_wallet2, 1, 10, 0) \<in> set (t1_postings (Tier1 sample_t1))"
    using t1_parts_getters(4) [OF sample_t1_encodable, of True]
    by (simp add: t1_postings_def sample_t1_def sum_postings_def sample_summary_map)
  from db_repeater_records_nothing [OF laws _ _ tier1_final_facts(1) _ tier1_final_facts(5) this, of sample_db_options
      "DevcashMessage_make [] FINAL_BLOCK (fb_getCanonical tier1_final) 0"
      "\<lparr>dr_connected = True, dr_link = Some (False, [], []), dr_chain_height = 0\<rparr>" "(False, [], [])" "\<lambda>xs ys. Inr (map (\<lambda>x. char_of (unat x)) xs)"]
  show ?thesis by (simp add: sample_db_options_def DevcashMessage_make_def)
qed

end
