(* ===== verification/Message_Service.thy ===== *)
theory Message_Service
  imports Node_Module
begin

text \<open>
  \<^verbatim>\<open>io/message_service.cpp\<close> with its threads. A \<^verbatim>\<open>TransactionClient\<close> has a thread that receives frames and calls
  the callback, a \<^verbatim>\<open>TransactionServer\<close> has one that publishes the messages of a queue; \<^verbatim>\<open>start...\<close> and \<^verbatim>\<open>stop...\<close>
  are called by another thread. The two threads share \<^verbatim>\<open>keep_running_\<close> and the pointer to the thread object, and
  each step below has at most one access to them. The relations \<open>client_moves\<close> and \<open>server_moves\<close> interleave the steps of both
  threads. Sockets are the frames that arrive and the list of messages that were published.
\<close>

section \<open>Program counters\<close>

text \<open>The caller is \<open>Spawned\<close> after the thread was created, \<open>Assigned\<close> after the pointer to it was stored, \<open>Started\<close> when
  \<^verbatim>\<open>start...\<close> has returned, and \<open>Stopping\<close> when it waits for the thread to end.\<close>

datatype caller_pc = Idle | Spawned | Assigned | Started | Stopping

datatype worker_pc = NoThread | Setup | Waiting | Checking DevcashMessage | Sending DevcashMessage | Deciding | Finished

section \<open>The client\<close>

record TransactionClient =
  peer_urls :: "string list"
  filter_vector :: "string list"
  client_thread :: bool
  cl_keep_running :: bool
  cl_caller :: caller_pc
  cl_worker :: worker_pc
  subscriptions :: "(string \<times> string) list"
  cl_callbacks :: "DevcashMessage list"
  cl_terminated :: bool

definition TransactionClient_make :: TransactionClient where
  "TransactionClient_make =
     \<lparr>peer_urls = [], filter_vector = [], client_thread = False, cl_keep_running = False, cl_caller = Idle, cl_worker = NoThread,
      subscriptions = [], cl_callbacks = [], cl_terminated = False\<rparr>"

definition addConnection :: "string \<Rightarrow> TransactionClient \<Rightarrow> TransactionClient" where
  "addConnection endpoint c = c\<lparr>peer_urls := peer_urls c @ [endpoint]\<rparr>"

definition listenTo :: "string \<Rightarrow> TransactionClient \<Rightarrow> TransactionClient" where
  "listenTo flt c = c\<lparr>filter_vector := filter_vector c @ [flt]\<rparr>"

definition CreateTransactionClient :: "string list \<Rightarrow> TransactionClient" where
  "CreateTransactionClient host_vector = fold addConnection host_vector TransactionClient_make"

text \<open>The steps of \<^verbatim>\<open>startClient\<close>: a client that runs is left as it is.\<close>

definition startClient :: "TransactionClient \<Rightarrow> TransactionClient" where
  "startClient c =
     (case cl_caller c of
        Idle \<Rightarrow> if cl_keep_running c then c else c\<lparr>cl_caller := Spawned, cl_worker := Setup\<rparr>
      | Spawned \<Rightarrow> c\<lparr>cl_caller := Assigned, client_thread := True\<rparr>
      | Assigned \<Rightarrow> c\<lparr>cl_caller := Started, cl_keep_running := True\<rparr>
      | _ \<Rightarrow> c)"

text \<open>The steps of \<^verbatim>\<open>stopClient\<close>; the second one waits for the thread.\<close>

definition stopClient :: "TransactionClient \<Rightarrow> TransactionClient" where
  "stopClient c =
     (case cl_caller c of
        Started \<Rightarrow> if cl_keep_running c then c\<lparr>cl_caller := Stopping, cl_keep_running := False\<rparr> else c
      | Stopping \<Rightarrow>
          if client_thread c then
            if cl_worker c = Finished then c\<lparr>cl_caller := Idle, client_thread := False, cl_worker := NoThread\<rparr> else c
          else c\<lparr>cl_caller := Idle\<rparr>
      | _ \<Rightarrow> c)"

text \<open>The steps of \<^verbatim>\<open>TransactionClient::run\<close>. A frame is the URI and the message; \<open>None\<close> is a timeout. The first argument of the
  set-up says whether a socket operation throws. Of the callback only the message it is called with is recorded.\<close>

definition client_setup :: "bool \<Rightarrow> TransactionClient \<Rightarrow> TransactionClient" where
  "client_setup throws c =
     (if throws then c\<lparr>cl_worker := Finished\<rparr>
      else c\<lparr>subscriptions := [(endpoint, flt). endpoint \<leftarrow> peer_urls c, flt \<leftarrow> filter_vector c], cl_worker := Waiting\<rparr>)"

definition client_receive :: "(string \<times> bytes) option \<Rightarrow> TransactionClient \<Rightarrow> TransactionClient" where
  "client_receive frame c =
     (case frame of
        None \<Rightarrow> c\<lparr>cl_worker := Deciding\<rparr>
      | Some (uri, mess) \<Rightarrow>
          if uri = [] \<or> mess = [] then c\<lparr>cl_worker := Deciding\<rparr>
          else
            (case deserialize mess of
               Inl e \<Rightarrow> c\<lparr>cl_terminated := True\<rparr>
             | Inr message \<Rightarrow> c\<lparr>cl_callbacks := cl_callbacks c @ [message], cl_worker := Deciding\<rparr>))"

definition client_decide :: "TransactionClient \<Rightarrow> TransactionClient" where
  "client_decide c = c\<lparr>cl_worker := (if client_thread c \<and> \<not> cl_keep_running c then Finished else Waiting)\<rparr>"

text \<open>The next step of the thread; \<open>frame\<close> is what the socket returns.\<close>

definition client_work :: "bool \<Rightarrow> (string \<times> bytes) option \<Rightarrow> TransactionClient \<Rightarrow> TransactionClient" where
  "client_work throws frame c =
     (if cl_terminated c then c
      else
        case cl_worker c of
          Setup \<Rightarrow> client_setup throws c
        | Waiting \<Rightarrow> client_receive frame c
        | Deciding \<Rightarrow> client_decide c
        | _ \<Rightarrow> c)"

text \<open>Every interleaving of the caller, who does not stop the client, and the thread.\<close>

inductive client_moves :: "TransactionClient \<Rightarrow> TransactionClient \<Rightarrow> bool" for c where
  client_refl: "client_moves c c"
| client_start: "client_moves c d \<Longrightarrow> client_moves c (startClient d)"
| client_thread_step: "client_moves c d \<Longrightarrow> client_moves c (client_work throws frame d)"

section \<open>The server\<close>

record TransactionServer =
  message_queue :: "DevcashMessage list"
  sv_keep_popping :: bool
  server_thread :: bool
  sv_keep_running :: bool
  sv_caller :: caller_pc
  sv_worker :: worker_pc
  sv_published :: "(string \<times> bytes) list"

definition TransactionServer_make :: TransactionServer where
  "TransactionServer_make =
     \<lparr>message_queue = [], sv_keep_popping = True, server_thread = False, sv_keep_running = False, sv_caller = Idle,
      sv_worker = NoThread, sv_published = []\<rparr>"

definition queueMessage :: "DevcashMessage \<Rightarrow> TransactionServer \<Rightarrow> TransactionServer" where
  "queueMessage message s = s\<lparr>message_queue := message_queue s @ [message]\<rparr>"

definition startServer :: "TransactionServer \<Rightarrow> TransactionServer" where
  "startServer s =
     (case sv_caller s of
        Idle \<Rightarrow> if sv_keep_running s then s else s\<lparr>sv_caller := Spawned, sv_worker := Setup\<rparr>
      | Spawned \<Rightarrow> s\<lparr>sv_caller := Assigned, server_thread := True\<rparr>
      | Assigned \<Rightarrow> s\<lparr>sv_caller := Started, sv_keep_running := True\<rparr>
      | _ \<Rightarrow> s)"

text \<open>\<^verbatim>\<open>stopServer\<close>: both flags are cleared, then the thread is joined. The pointer to the thread is kept.\<close>

definition stopServer :: "TransactionServer \<Rightarrow> TransactionServer" where
  "stopServer s =
     (case sv_caller s of
        Started \<Rightarrow> if sv_keep_running s then s\<lparr>sv_caller := Stopping, sv_keep_running := False\<rparr> else s
      | Stopping \<Rightarrow>
          if sv_keep_popping s then s\<lparr>sv_keep_popping := False\<rparr>
          else if sv_worker s = Finished then s\<lparr>sv_caller := Idle, sv_worker := NoThread\<rparr> else s
      | _ \<Rightarrow> s)"

text \<open>One attempt of \<^verbatim>\<open>DevcashMPMCQueue::pop\<close>: a message, a null pointer, or another wait.\<close>

definition server_pop :: "TransactionServer \<Rightarrow> TransactionServer" where
  "server_pop s =
     (case message_queue s of
        message # rest \<Rightarrow> s\<lparr>message_queue := rest, sv_worker := Checking message\<rparr>
      | [] \<Rightarrow> if sv_keep_popping s then s else s\<lparr>sv_worker := Finished\<rparr>)"

text \<open>\<^verbatim>\<open>TransactionServer::sendMessage\<close>\<close>

definition server_send :: "TransactionServer \<Rightarrow> TransactionServer" where
  "server_send s =
     (case sv_worker s of
        Checking message \<Rightarrow> s\<lparr>sv_worker := (if sv_keep_running s then Sending message else Deciding)\<rparr>
      | Sending message \<Rightarrow> s\<lparr>sv_published := sv_published s @ [(msg_uri message, serialize message)], sv_worker := Deciding\<rparr>
      | _ \<Rightarrow> s)"

definition server_decide :: "TransactionServer \<Rightarrow> TransactionServer" where
  "server_decide s = s\<lparr>sv_worker := (if server_thread s \<and> \<not> sv_keep_running s then Finished else Waiting)\<rparr>"

text \<open>The next step of \<^verbatim>\<open>TransactionServer::run\<close>.\<close>

definition server_work :: "TransactionServer \<Rightarrow> TransactionServer" where
  "server_work s =
     (case sv_worker s of
        Setup \<Rightarrow> s\<lparr>sv_worker := Waiting\<rparr>
      | Waiting \<Rightarrow> server_pop s
      | Checking message \<Rightarrow> server_send s
      | Sending message \<Rightarrow> server_send s
      | Deciding \<Rightarrow> server_decide s
      | _ \<Rightarrow> s)"

text \<open>Every interleaving of the thread with callers who start the server and queue messages but do not stop it. The list holds the
  messages that were queued.\<close>

inductive server_moves :: "TransactionServer \<Rightarrow> DevcashMessage list \<Rightarrow> TransactionServer \<Rightarrow> bool" for s where
  server_refl: "server_moves s [] s"
| server_start: "server_moves s ms t \<Longrightarrow> server_moves s ms (startServer t)"
| server_thread_step: "server_moves s ms t \<Longrightarrow> server_moves s ms (server_work t)"
| server_queue: "server_moves s ms t \<Longrightarrow> server_moves s (ms @ [message]) (queueMessage message t)"

abbreviation frame_of :: "DevcashMessage \<Rightarrow> string \<times> bytes" where
  "frame_of message \<equiv> (msg_uri message, serialize message)"

section \<open>Delivery\<close>

lemmas server_defs = startServer_def server_work_def server_pop_def server_send_def server_decide_def queueMessage_def

text \<open>Before anything is queued the thread cannot get past the queue.\<close>

definition server_fresh :: "TransactionServer \<Rightarrow> bool" where
  "server_fresh s =
     (message_queue s = [] \<and> sv_published s = [] \<and> sv_keep_popping s \<and> sv_caller s \<noteq> Stopping \<and>
      (sv_keep_running s \<longleftrightarrow> sv_caller s = Started) \<and>
      sv_worker s \<in> {NoThread, Setup, Waiting} \<and> (sv_worker s = NoThread \<longleftrightarrow> sv_caller s = Idle))"

lemma server_fresh_reached: "server_moves TransactionServer_make ms s \<Longrightarrow> ms = [] \<Longrightarrow> server_fresh s"
proof (induction rule: server_moves.induct)
  case (server_start ms t)
  then show ?case by (cases "sv_caller t") (auto simp: server_fresh_def startServer_def)
next
  case (server_thread_step ms t)
  then show ?case by (auto simp: server_fresh_def server_work_def server_pop_def)
qed (auto simp: server_fresh_def TransactionServer_make_def)

text \<open>The message that the thread has taken from the queue.\<close>

fun in_flight :: "worker_pc \<Rightarrow> DevcashMessage list" where
  "in_flight (Checking message) = [message]"
| "in_flight (Sending message) = [message]"
| "in_flight _ = []"

definition server_serving :: "DevcashMessage list \<Rightarrow> TransactionServer \<Rightarrow> bool" where
  "server_serving ms s =
     (sv_caller s = Started \<and> sv_keep_running s \<and> sv_worker s \<notin> {NoThread, Finished} \<and> sv_keep_popping s \<and>
      map frame_of ms = sv_published s @ map frame_of (in_flight (sv_worker s) @ message_queue s))"

lemma server_serving_reached:
  assumes "server_moves s ms t" "server_fresh s" "sv_caller s = Started"
  shows "server_serving ms t"
  using assms
proof (induction rule: server_moves.induct)
  case (server_thread_step ms t)
  then show ?case
    by (cases "sv_worker t"; cases "message_queue t") (auto simp: server_serving_def server_defs)
qed (auto simp: server_fresh_def server_serving_def startServer_def queueMessage_def)

text \<open>From the point where the thread waits for the queue, four steps publish the next message.\<close>

lemma server_drains:
  "server_serving ms s \<Longrightarrow> sv_worker s = Waiting \<Longrightarrow> \<exists>n. sv_published ((server_work ^^ n) s) = map frame_of ms"
proof (induction "message_queue s" arbitrary: s)
  case Nil
  then show ?case by (intro exI [of _ 0]) (simp add: server_serving_def)
next
  case (Cons message rest)
  let ?t = "(server_work ^^ 4) s"
  have t: "?t = s\<lparr>message_queue := rest, sv_published := sv_published s @ [frame_of message], sv_worker := Waiting\<rparr>"
    using Cons.prems Cons.hyps(2) [symmetric] by (simp add: server_serving_def server_defs numeral_eq_Suc)
  then have "server_serving ms ?t" "sv_worker ?t = Waiting" "rest = message_queue ?t"
    using Cons.prems Cons.hyps(2) [symmetric] by (simp_all add: server_serving_def)
  then obtain n where "sv_published ((server_work ^^ n) ?t) = map frame_of ms" using Cons.hyps(1) by blast
  then show ?case by (intro exI [of _ "n + 4"]) (simp add: funpow_add)
qed

lemma server_work_serving: "server_serving ms s \<Longrightarrow> server_serving ms (server_work s)"
  by (cases "sv_worker s"; cases "message_queue s") (auto simp: server_serving_def server_defs)

lemma server_waits: "server_serving ms s \<Longrightarrow> \<exists>n. sv_worker ((server_work ^^ n) s) = Waiting"
proof (cases "sv_worker s")
  case (Checking x)
  assume "server_serving ms s"
  with Checking show ?thesis by (intro exI [of _ 3]) (simp add: server_serving_def server_defs numeral_eq_Suc)
next
  case (Sending x)
  assume "server_serving ms s"
  with Sending show ?thesis by (intro exI [of _ 2]) (simp add: server_serving_def server_defs numeral_eq_Suc)
next
  case Waiting
  then show ?thesis by (intro exI [of _ 0]) simp
qed (auto simp: server_serving_def server_defs intro!: exI [of _ 1])

text \<open>When the caller joins the thread, both flags are cleared. The thread ends after at most five more steps, and of the
  messages that were not published yet at most one is.\<close>

theorem server_stops:
  assumes "\<not> sv_keep_running s" "\<not> sv_keep_popping s" "server_thread s" "sv_worker s \<noteq> NoThread"
  shows "\<exists>n \<le> 5. sv_worker ((server_work ^^ n) s) = Finished \<and>
    (\<exists>ms. sv_published ((server_work ^^ n) s) = sv_published s @ ms \<and> length ms \<le> 1)"
proof (cases "sv_worker s")
  case Setup
  then show ?thesis using assms
    by (cases "message_queue s")
      (auto simp: server_defs numeral_eq_Suc intro!: exI [of _ 2] exI [of _ 4])
next
  case Waiting
  then show ?thesis using assms
    by (cases "message_queue s") (auto simp: server_defs numeral_eq_Suc intro!: exI [of _ 1] exI [of _ 3])
next
  case (Checking x)
  then show ?thesis using assms by (intro exI [of _ 2]) (simp add: server_defs numeral_eq_Suc)
next
  case (Sending x)
  then show ?thesis using assms by (intro exI [of _ 2]) (simp add: server_defs numeral_eq_Suc)
next
  case Deciding
  then show ?thesis using assms by (intro exI [of _ 1]) (simp add: server_defs)
next
  case Finished
  then show ?thesis by (intro exI [of _ 0]) simp
qed (use assms in simp)

section \<open>Start\<close>

text \<open>A thread that has ended stays so, whatever is queued.\<close>

lemma server_dead:
  assumes "server_moves s ms t" "sv_worker s = Finished" "sv_caller s = Started"
  shows "sv_worker t = Finished \<and> sv_caller t = Started \<and> sv_published t = sv_published s"
  using assms by (induction rule: server_moves.induct) (auto simp: startServer_def server_work_def queueMessage_def)

lemma client_dead:
  assumes "client_moves c d" "cl_worker c = Finished" "cl_caller c = Started"
  shows "cl_worker d = Finished \<and> cl_caller d = Started \<and> cl_callbacks d = cl_callbacks c"
  using assms by (induction rule: client_moves.induct) (auto simp: startClient_def client_work_def)

lemma fold_addConnection: "fold addConnection hs c = c\<lparr>peer_urls := peer_urls c @ hs\<rparr>"
  by (induction hs arbitrary: c) (simp_all add: addConnection_def)

lemma client_alive:
  assumes "client_moves c d" "cl_worker c \<in> {Waiting, Deciding}" "cl_caller c = Started" "cl_keep_running c"
  shows "cl_worker d \<in> {Waiting, Deciding} \<and> cl_caller d = Started \<and> cl_keep_running d"
  using assms
  by (induction rule: client_moves.induct)
    (auto simp: startClient_def client_work_def client_receive_def client_decide_def split: option.splits sum.splits)

section \<open>Properties\<close>


definition sample_ping :: DevcashMessage where
  "sample_ping = DevcashMessage_make ''shard-1'' VALID [1, 2] 7"

lemma server_moves_started:
  "server_moves TransactionServer_make []
     (TransactionServer_make\<lparr>sv_caller := Started, sv_worker := Setup, server_thread := True, sv_keep_running := True\<rparr>)"
proof -
  have "server_moves TransactionServer_make [] (startServer (startServer (startServer TransactionServer_make)))"
    by (intro server_start server_refl)
  then show ?thesis by (simp add: startServer_def TransactionServer_make_def)
qed




end
