(* ===== verification/Spec2Isabelle.thy ===== *)
theory Spec2Isabelle
  imports Consensus_Round Queues Repeater_Store Db_Repeater Signer Message_Service
begin

text \<open>
  A verification development of the Devv-Core node and of the programs around it. All paths are relative to
  \<^verbatim>\<open>src/src\<close>.

  \<^bold>\<open>The program.\<close> A shard is a set of nodes that agree on a chain of blocks. Tier-2 shards record transactions between
  wallets. Tier-1 shards record transactions that each carry the summary of one Tier-2 block. A node keeps the sound
  transactions it was told of in a pool. When it is its turn it makes a proposed block of them and sends it to its peers,
  each of which validates it, signs it and sends the signature back. The proposer merges the signatures until more than half of the
  peers have signed, and sends the final block, which every node appends to its chain. Around the nodes there are programs
  that make transactions (\<^verbatim>\<open>circuit\<close>, \<^verbatim>\<open>laminar\<close>, \<^verbatim>\<open>turbulent\<close>), announce them (\<^verbatim>\<open>announcer\<close>, \<^verbatim>\<open>pb_announcer\<close>),
  store and serve final blocks (\<^verbatim>\<open>repeater\<close>, \<^verbatim>\<open>db_repeater\<close>) and check files of blocks (\<^verbatim>\<open>verifier\<close>, \<^verbatim>\<open>scanner\<close>).

  \<^bold>\<open>How the code is modelled.\<close>
  \<^item> Integers are words of their width, so that all wrap-around is that of the machine; \<^verbatim>\<open>int64_t\<close> is a 64-bit word that
    \<open>sint\<close> reads. Byte vectors are lists of 8-bit words. Lengths of vectors are words, and the round trips assume
    less than \<open>2 ^ 62\<close> or \<open>2 ^ 63\<close> bytes, which no memory exceeds, so that a length and its sum with a constant do not wrap.
  \<^item> Exceptions, aborts and undefined behaviour are values of type \<open>error\<close>, and a function that may throw returns
    \<open>error + 'a\<close>. Reading behind the end of a vector is \<open>Undefined\<close>, which no \<^verbatim>\<open>catch\<close> clause catches.
  \<^item> Stateful code is a program in \<open>Effects\<close>: a function from a state to its outcome and the state it leaves. The outcome
    \<open>Blocked\<close> is a thread that waits for a mutex for ever.
  \<^item> A loop that may run for ever is a \<^verbatim>\<open>partial_function\<close> with results in \<open>option\<close>; \<open>None\<close> is non-termination, and
    that a loop returns is stated by a result that is \<open>Some\<close>. No fuel is used.
  \<^item> \<^verbatim>\<open>std::map\<close> is an association list in key order (\<open>Ordered_Map\<close>).
  \<^item> Code outside of the sources is an argument: OpenSSL is the record \<open>Crypto\<close>, the file system \<open>file_ops\<close>, the
    parser of protobuf a function, the trees of boost \<open>ptree_ops\<close>, the database library \<open>pqxx_ops\<close>. What a theorem needs of
    them is one of its hypotheses, and its witness has a concrete instance.
  \<^item> The threads of a node are steps of the relation \<open>node_step\<close> in \<open>Node_Module\<close>. A callback is one step, since the three
    controllers hold their mutex during it.

  \<^bold>\<open>Theories.\<close> Data:
  \<^item> \<open>Devv_Prelude\<close>, \<open>Ordered_Map\<close>: types, errors, vectors, ordered maps.
  \<^item> \<open>Binary_Converters\<close>: \<^verbatim>\<open>common/binary_converters.h\<close>. \<open>Addresses\<close>: \<^verbatim>\<open>primitives/Address.h\<close>, \<^verbatim>\<open>Signature.h\<close>.
    \<open>Input_Buffer\<close>: \<^verbatim>\<open>primitives/buffers.h\<close>, with the contract \<open>codec\<close> of a canonical form and its reader, which addresses,
    signatures, integers, transfers and summaries satisfy.
  \<^item> \<open>Transfers\<close>: \<^verbatim>\<open>primitives/Transfer.h\<close>, \<^verbatim>\<open>SmartCoin.h\<close>. \<open>Ledger\<close>: the contract of a store of amounts;
    \<open>Chain_State\<close> (\<^verbatim>\<open>consensus/chainstate.*\<close>) and \<open>Summaries\<close> (\<^verbatim>\<open>primitives/Summary.*\<close>) satisfy it and move in step.
  \<^item> \<open>Key_Ring\<close>: \<^verbatim>\<open>common/ossladapter.h\<close>, \<^verbatim>\<open>consensus/KeyRing.*\<close>. \<open>Validations\<close>: \<^verbatim>\<open>primitives/Validation.h\<close>.
  \<^item> \<open>Transactions\<close>, \<open>Tier2_Tx\<close>, \<open>Tier1_Tx\<close>, \<open>Tx_Dispatch\<close>, \<open>Tx_Creation\<close>: the transactions of both tiers, their
    deserialisers, soundness and validity, the virtual methods and the parallel creation of the transactions of a block.
    \<open>batch_tx\<close> is the contract that validation of a batch relies on.
  \<^item> \<open>Proposed_Block\<close>, \<open>Final_Block\<close>, \<open>Block_Chain\<close>: \<^verbatim>\<open>primitives/ProposedBlock.*\<close>, \<^verbatim>\<open>FinalBlock.*\<close>,
    \<^verbatim>\<open>block_tools.cpp\<close>, \<^verbatim>\<open>consensus/blockchain.h\<close>. \<open>Messages\<close>: \<^verbatim>\<open>types/DevcashMessage.h\<close>. \<open>Devv_Uri\<close>: \<^verbatim>\<open>common/devv_uri.h\<close>.
    \<open>Json\<close>: \<^verbatim>\<open>primitives/json_interface.h\<close>.

  The node:
  \<^item> \<open>Tx_Pool\<close>: \<^verbatim>\<open>consensus/UnrecordedTransactionPool.h\<close>. \<open>Handlers\<close>: \<^verbatim>\<open>consensus/tier2_message_handlers.cpp\<close>.
    \<open>Controllers\<close>: \<^verbatim>\<open>concurrency/*Controller.cpp\<close>, \<^verbatim>\<open>ThreadGroup.*\<close>. \<open>Node_Module\<close>: \<^verbatim>\<open>modules/BlockchainModule.*\<close>,
    \<^verbatim>\<open>io/message_service.cpp\<close>. \<open>Message_Service\<close>: the threads of the latter, started and stopped. \<open>Queues\<close>: \<^verbatim>\<open>concurrency/DevcashRingQueue.h\<close> and the contract \<open>fifo\<close>.
  \<^item> \<open>Consensus_Round\<close> and \<open>Shard_Sync\<close> put several nodes together: a round of consensus, and the exchange of blocks between
    the tiers.

  The programs:
  \<^item> \<open>Options\<close>: the command lines. \<open>Oracles\<close>, \<open>Pbuf\<close>: \<^verbatim>\<open>oracles/\<close>, \<^verbatim>\<open>pbuf/\<close>. \<open>Repeater\<close>, \<open>Repeater_Store\<close>:
    \<^verbatim>\<open>repeater.cpp\<close>. \<open>Db_Repeater\<close>: \<^verbatim>\<open>db_repeater.cpp\<close>. \<open>Signer\<close>: \<^verbatim>\<open>devv-sign.cpp\<close>, \<^verbatim>\<open>io/file_ops.cpp\<close>. \<open>Generators\<close>: \<^verbatim>\<open>circuit.cpp\<close>, \<^verbatim>\<open>laminar.cpp\<close>, \<^verbatim>\<open>turbulent.cpp\<close>.
    \<open>Announcer\<close>: \<^verbatim>\<open>announcer.cpp\<close>, \<^verbatim>\<open>pb_announcer.cpp\<close> and the thread pool of \<^verbatim>\<open>common/util.h\<close>. \<open>Verifier\<close>: \<^verbatim>\<open>verifier.cpp\<close>,
    \<^verbatim>\<open>scanner.cpp\<close>.

  \<^bold>\<open>What is shown.\<close>
  \<^item> A node: an invariant of all reachable states; each step appends at most one block, and a block that the node finalised
    has the validations of a majority; a round of consensus succeeds; a Tier-2 chain is turned into Tier-1 transactions; and
    the inputs on which the code goes wrong, as theorems about what it does then: a proposal that cannot be read stops the
    node, a message that is queued too early can leave a server silent, an empty announcement makes it send what is left of a proposal, a short message is appended as a block.
  \<^item> The pool: the effect of every operation, exceptions and the deadlock of \<^verbatim>\<open>ReverifyProposal\<close> included.
  \<^item> Money: a Tier-2 transaction that is accepted moves state and summary by the same postings, which sum to zero; the
    test for overdrafts does not reject what it should.
  \<^item> Formats: messages, blocks and chains are read back; the deserialisers of Tier-2 transactions drop a byte; a malformed
    block makes its reader run for ever.
  \<^item> Programs: what the repeater stores is what it serves; announcers, verifier and scanner on files of blocks, in
    every interleaving of the threads of the pool; generators come to an end; which texts are JSON.

  \<^bold>\<open>Not modelled.\<close>
  \<^item> \<^verbatim>\<open>concurrency/concurrentqueue.h\<close> and \<^verbatim>\<open>blockingconcurrentqueue.h\<close> are a copy of a lock-free queue; the queue of a thread
    group is a list. Memory orders, data races and the scheduling of the operating system are not modelled.
  \<^item> \<^verbatim>\<open>common/minitrace.*\<close>, \<^verbatim>\<open>common/logger.*\<close>, \<^verbatim>\<open>common/ctpl.h\<close>, \<^verbatim>\<open>io/zhelpers.hpp\<close>: tracing, logging and helpers of third
    parties, without effect on the data. Log messages are left out unless a theorem is about them.
  \<^item> \<^verbatim>\<open>devcash.cpp\<close>, which only constructs the objects of a node; \<^verbatim>\<open>modules/ParallelExecutor.h\<close>, which passes its calls on.
  \<^item> Sockets, sleeping and signals; generation of keys; \<^verbatim>\<open>DevcashSPSCQueue.h\<close> and \<^verbatim>\<open>DevcashWorker.h\<close>, which no program uses.
\<close>

end
